(* ===== verification/Prelude.thy ===== *)
theory Prelude
  imports Main "HOL-Library.Word" "HOL-Library.Char_ord" "HOL-Library.List_Lexorder"
begin

text \<open>
  What every component of the development shares: the types that stand for Go's basic
  data, the named collections the component proofs use, the error values, and the
  generic list lemmas.

  A Go \<^verbatim>\<open>string\<close> is a sequence of bytes, and so is an Isabelle \<^typ>\<open>string\<close> (a \<^typ>\<open>char\<close>
  is one byte). A Go \<^verbatim>\<open>[]byte\<close> is a list of 8-bit words. The two conversions
  \<^verbatim>\<open>[]byte(s)\<close> and \<^verbatim>\<open>string(b)\<close> are \<open>to_bytes\<close> and \<open>to_text\<close>.
\<close>

named_theorems sys_defs \<comment> \<open>the wrappers of internal/sys around kernel calls\<close>
named_theorems emits_intros \<comment> \<open>which calls an operation can add to the history\<close>

type_synonym byte = "8 word"
type_synonym bytes = "8 word list"

section \<open>Errors\<close>

text \<open>
  A Go error is nil or a value. The model keeps what the code can observe of one: the
  errno of a system call, or the format string of the \<^verbatim>\<open>fmt.Errorf\<close> that built it with its
  rendered arguments and the error it wraps with \<^verbatim>\<open>%w\<close>, which is what \<^verbatim>\<open>errors.Is\<close> follows.
  \<open>NotExist\<close> is \<^verbatim>\<open>fs.ErrNotExist\<close>; \<open>DeadlineExceeded\<close> is \<^verbatim>\<open>os.ErrDeadlineExceeded\<close>.
\<close>

datatype errno =
    ENOENT | EEXIST | EACCES | EROFS | EINVAL | EIO | EAGAIN | ECHILD | EBUSY | OtherErrno nat

datatype err =
    Errno errno
  | NotExist
  | DeadlineExceeded
  | Canceled
  | Errorf string "string list" "err option"

type_synonym result_unit = "err option"

definition msg :: "string \<Rightarrow> err" where
  "msg s = Errorf s [] None"

definition wrap :: "string \<Rightarrow> string list \<Rightarrow> err \<Rightarrow> err" where
  "wrap s args e = Errorf s args (Some e)"

fun is_errno :: "errno \<Rightarrow> err \<Rightarrow> bool" where
  "is_errno n (Errno m) = (n = m)"
| "is_errno n (Errorf _ _ (Some e)) = is_errno n e"
| "is_errno n _ = False"

text \<open>\<^verbatim>\<open>errors.Is(err, fs.ErrNotExist)\<close> is also true of the errno ENOENT.\<close>

fun is_not_exist :: "err \<Rightarrow> bool" where
  "is_not_exist NotExist = True"
| "is_not_exist (Errno m) = (m = ENOENT)"
| "is_not_exist (Errorf _ _ (Some e)) = is_not_exist e"
| "is_not_exist _ = False"

lemma is_errno_wrap [simp]: "is_errno n (wrap s a e) = is_errno n e"
  by (simp add: wrap_def)

lemma is_not_exist_wrap [simp]: "is_not_exist (wrap s a e) = is_not_exist e"
  by (simp add: wrap_def)

lemma is_errno_msg [simp]: "\<not> is_errno n (msg s)"
  by (simp add: msg_def)

lemma is_not_exist_msg [simp]: "\<not> is_not_exist (msg s)"
  by (simp add: msg_def)

section \<open>File modes\<close>

text \<open>The octal literals of the source, in decimal.\<close>

abbreviation perm_0555 :: nat where "perm_0555 \<equiv> 365"
abbreviation perm_0600 :: nat where "perm_0600 \<equiv> 384"
abbreviation perm_0644 :: nat where "perm_0644 \<equiv> 420"
abbreviation perm_0700 :: nat where "perm_0700 \<equiv> 448"
abbreviation perm_0755 :: nat where "perm_0755 \<equiv> 493"
abbreviation perm_01777 :: nat where "perm_01777 \<equiv> 1023"

section \<open>Bytes and text\<close>

definition byte_of_char :: "char \<Rightarrow> byte" where
  "byte_of_char c = word_of_nat (of_char c)"

definition char_of_byte :: "byte \<Rightarrow> char" where
  "char_of_byte b = char_of (unat b)"

definition to_bytes :: "string \<Rightarrow> bytes" where
  "to_bytes s = map byte_of_char s"

definition to_text :: "bytes \<Rightarrow> string" where
  "to_text b = map char_of_byte b"

lemma of_char_less_256: "(of_char c :: nat) < 256"
  by (metis nat_of_char_less_256)

lemma char_of_byte_of_char [simp]: "char_of_byte (byte_of_char c) = c"
  by (simp add: char_of_byte_def byte_of_char_def unat_of_nat of_char_less_256)

lemma byte_of_char_of_byte [simp]: "byte_of_char (char_of_byte b) = b"
proof -
  have "unat b < 256" using unsigned_less [of b] by simp
  then have "unat b mod 256 = unat b" by simp
  then show ?thesis by (simp add: char_of_byte_def byte_of_char_def)
qed

lemma to_text_to_bytes [simp]: "to_text (to_bytes s) = s"
  by (simp add: to_text_def to_bytes_def comp_def)

lemma to_bytes_to_text [simp]: "to_bytes (to_text b) = b"
  by (simp add: to_text_def to_bytes_def comp_def)

lemma length_to_bytes [simp]: "length (to_bytes s) = length s"
  by (simp add: to_bytes_def)

lemma length_to_text [simp]: "length (to_text b) = length b"
  by (simp add: to_text_def)

lemma to_bytes_append [simp]: "to_bytes (s @ t) = to_bytes s @ to_bytes t"
  by (simp add: to_bytes_def)

lemma to_text_append [simp]: "to_text (s @ t) = to_text s @ to_text t"
  by (simp add: to_text_def)

lemma to_bytes_Nil [simp]: "to_bytes [] = []"
  by (simp add: to_bytes_def)

lemma to_text_Nil [simp]: "to_text [] = []"
  by (simp add: to_text_def)

lemma to_bytes_eq_iff [simp]: "to_bytes s = to_bytes t \<longleftrightarrow> s = t"
  by (metis to_text_to_bytes)

lemma to_text_eq_iff [simp]: "to_text s = to_text t \<longleftrightarrow> s = t"
  by (metis to_bytes_to_text)

lemma to_text_eq_conv: "to_text b = s \<longleftrightarrow> b = to_bytes s"
  by (metis to_bytes_to_text to_text_to_bytes)

section \<open>Slices\<close>

text \<open>\<open>slice i j xs\<close> is Go's \<^verbatim>\<open>xs[i:j]\<close>, used where the code's own checks keep the bounds inside.\<close>

definition slice :: "nat \<Rightarrow> nat \<Rightarrow> 'a list \<Rightarrow> 'a list" where
  "slice i j xs = take (j - i) (drop i xs)"

lemma length_slice [simp]: "length (slice i j xs) = min (j - i) (length xs - i)"
  by (simp add: slice_def min.commute)

lemma nth_slice [simp]: "i + k < j \<Longrightarrow> i + k < length xs \<Longrightarrow> slice i j xs ! k = xs ! (i + k)"
  by (simp add: slice_def)

lemma slice_append_left: "j \<le> length xs \<Longrightarrow> slice i j (xs @ ys) = slice i j xs"
  by (simp add: slice_def)

lemma slice_append_right:
  "length xs \<le> i \<Longrightarrow> slice i j (xs @ ys) = slice (i - length xs) (j - length xs) ys"
  by (simp add: slice_def)

lemma slice_all [simp]: "slice 0 (length xs) xs = xs"
  by (simp add: slice_def)

text \<open>
  \<open>put_at i ys xs\<close> is \<^verbatim>\<open>copy(xs[i:], ys)\<close>: it overwrites as much of \<open>xs\<close> as \<open>ys\<close> covers
  and never extends it.
\<close>

definition put_at :: "nat \<Rightarrow> 'a list \<Rightarrow> 'a list \<Rightarrow> 'a list" where
  "put_at i ys xs = take i xs @ take (length xs - i) ys @ drop (i + length ys) xs"

lemma length_put_at [simp]: "length (put_at i ys xs) = length xs"
  by (simp add: put_at_def min_def)

lemma nth_put_at:
  "k < length xs \<Longrightarrow>
   put_at i ys xs ! k = (if i \<le> k \<and> k < i + length ys then ys ! (k - i) else xs ! k)"
  by (auto simp: put_at_def nth_append min_def)

lemma slice_put_at_same:
  "i + length ys \<le> length xs \<Longrightarrow> slice i (i + length ys) (put_at i ys xs) = ys"
  by (simp add: slice_def put_at_def)

lemma slice_put_at_other:
  assumes "j \<le> i \<or> i + length ys \<le> m" and "j \<le> length xs"
  shows "slice m j (put_at i ys xs) = slice m j xs"
  using assms by (intro nth_equalityI) (auto simp: nth_put_at)

section \<open>Decimal and hexadecimal rendering\<close>

text \<open>\<open>dec n\<close> is \<^verbatim>\<open>%d\<close> of a non-negative integer, \<open>dec_int\<close> of any integer.\<close>

definition digit :: "nat \<Rightarrow> char" where
  "digit d = (if d < 10 then char_of (48 + d) else char_of (87 + d))"

definition upper_digit :: "nat \<Rightarrow> char" where
  "upper_digit d = (if d < 10 then char_of (48 + d) else char_of (55 + d))"

fun dec :: "nat \<Rightarrow> string" where
  "dec n = (if n < 10 then [digit n] else dec (n div 10) @ [digit (n mod 10)])"

declare dec.simps [simp del]

definition dec_int :: "int \<Rightarrow> string" where
  "dec_int i = (if i < 0 then CHR ''-'' # dec (nat (- i)) else dec (nat i))"

text \<open>\<open>hex2 b\<close> is \<^verbatim>\<open>%02x\<close> of one byte; \<open>hex_bytes\<close> is \<^verbatim>\<open>%x\<close> of a byte slice.\<close>

definition hex2 :: "byte \<Rightarrow> string" where
  "hex2 b = [digit (unat b div 16), digit (unat b mod 16)]"

definition hex_bytes :: "bytes \<Rightarrow> string" where
  "hex_bytes bs = concat (map hex2 bs)"

definition upper_hex4 :: "nat \<Rightarrow> string" where
  "upper_hex4 n = map (\<lambda>k. upper_digit (n div 16 ^ k mod 16)) [3, 2, 1, 0]"

lemma digit_decimal: "d < 10 \<Longrightarrow> of_char (digit d) = 48 + d"
  by (simp add: digit_def)

lemma dec_not_Nil [simp]: "dec n \<noteq> []"
  by (subst dec.simps) simp

section \<open>Error texts\<close>

text \<open>
  What \<^verbatim>\<open>err.Error()\<close> shows: the verbs of the format take the rendered arguments in order,
  \<^verbatim>\<open>%w\<close> and a \<^verbatim>\<open>%v\<close> without an argument left the wrapped error. \<^verbatim>\<open>%q\<close> quotes.
\<close>

definition quote_char :: "char \<Rightarrow> string" where
  "quote_char c =
     (if c = CHR 0x22 \<or> c = CHR 0x5C then [CHR 0x5C, c]
      else if c = char_of (10 :: nat) then [CHR 0x5C, CHR ''n'']
      else if c = char_of (13 :: nat) then [CHR 0x5C, CHR ''r'']
      else if c = char_of (9 :: nat) then [CHR 0x5C, CHR ''t''] else [c])"

definition quote :: "string \<Rightarrow> string" where
  "quote s = CHR 0x22 # concat (map quote_char s) @ [CHR 0x22]"

fun fmt_text :: "string \<Rightarrow> string list \<Rightarrow> string \<Rightarrow> string" where
  "fmt_text [] args w = []"
| "fmt_text [c] args w = [c]"
| "fmt_text (c # v # fmt) args w =
     (if c \<noteq> CHR 0x25 then c # fmt_text (v # fmt) args w
      else if v = CHR ''#'' then fmt_text (c # fmt) args w
      else if v = CHR ''w'' then w @ fmt_text fmt args w
      else (case args of
              [] \<Rightarrow> (if v = CHR ''v'' then w else []) @ fmt_text fmt [] w
            | a # as \<Rightarrow> (if v = CHR ''q'' then quote a else a) @ fmt_text fmt as w))"

fun errno_text :: "errno \<Rightarrow> string" where
  "errno_text ENOENT = ''no such file or directory''"
| "errno_text EEXIST = ''file exists''"
| "errno_text EACCES = ''permission denied''"
| "errno_text EROFS = ''read-only file system''"
| "errno_text EINVAL = ''invalid argument''"
| "errno_text EIO = ''input/output error''"
| "errno_text EAGAIN = ''resource temporarily unavailable''"
| "errno_text ECHILD = ''no child processes''"
| "errno_text EBUSY = ''device or resource busy''"
| "errno_text (OtherErrno n) = ''errno '' @ dec n"

fun err_text :: "err \<Rightarrow> string" where
  "err_text (Errno n) = errno_text n"
| "err_text NotExist = ''file does not exist''"
| "err_text DeadlineExceeded = ''i/o timeout''"
| "err_text Canceled = ''context canceled''"
| "err_text (Errorf fmt args None) = fmt_text fmt args []"
| "err_text (Errorf fmt args (Some e)) = fmt_text fmt args (err_text e)"

section \<open>Generic lemmas\<close>

lemma the_elem_singleton_list: "length xs = 1 \<Longrightarrow> xs = [hd xs]"
  by (cases xs) auto

lemma takeWhile_dropWhile_hd:
  "dropWhile P xs = y # ys \<Longrightarrow> \<not> P y"
  by (metis hd_dropWhile list.discI list.sel(1))

lemma nth_replicate_append [simp]: "k < n \<Longrightarrow> (replicate n x @ ys) ! k = x"
  by (simp add: nth_append)

end
