(* ===== verification/Go_Strings.thy ===== *)
theory Go_Strings
  imports Prelude
begin

text \<open>
  The functions of Go's \<^verbatim>\<open>strings\<close>, \<^verbatim>\<open>strconv\<close>, \<^verbatim>\<open>path\<close> and \<^verbatim>\<open>bufio\<close> packages the program
  calls, with the lemmas about them that the components share. White space and letter
  case are those of ASCII: the two further spaces Go knows (U+0085 and U+00A0) and the
  case mappings beyond ASCII are not distinguished.
\<close>

section \<open>Prefixes, suffixes and cutting\<close>

definition has_prefix :: "string \<Rightarrow> string \<Rightarrow> bool" where
  "has_prefix s p = (take (length p) s = p)"

definition has_suffix :: "string \<Rightarrow> string \<Rightarrow> bool" where
  "has_suffix s p = (length p \<le> length s \<and> drop (length s - length p) s = p)"

definition trim_prefix :: "string \<Rightarrow> string \<Rightarrow> string" where
  "trim_prefix s p = (if has_prefix s p then drop (length p) s else s)"

definition trim_suffix :: "string \<Rightarrow> string \<Rightarrow> string" where
  "trim_suffix s p = (if has_suffix s p then take (length s - length p) s else s)"

definition contains_char :: "string \<Rightarrow> char \<Rightarrow> bool" where
  "contains_char s c = (c \<in> set s)"

definition contains_any :: "string \<Rightarrow> string \<Rightarrow> bool" where
  "contains_any s cs = (\<exists>c\<in>set s. c \<in> set cs)"

fun cut :: "char \<Rightarrow> string \<Rightarrow> string \<times> string \<times> bool" where
  "cut c [] = ([], [], False)"
| "cut c (x # xs) =
     (if x = c then ([], xs, True) else (case cut c xs of (b, a, f) \<Rightarrow> (x # b, a, f)))"

fun split_on :: "char \<Rightarrow> string \<Rightarrow> string list" where
  "split_on c [] = [[]]"
| "split_on c (x # xs) =
     (if x = c then [] # split_on c xs
      else (case split_on c xs of [] \<Rightarrow> [[x]] | w # ws \<Rightarrow> (x # w) # ws))"

fun join :: "string \<Rightarrow> string list \<Rightarrow> string" where
  "join sep [] = []"
| "join sep [w] = w"
| "join sep (w # v # ws) = w @ sep @ join sep (v # ws)"

fun index_of_sub :: "string \<Rightarrow> string \<Rightarrow> nat option" where
  "index_of_sub p [] = (if p = [] then Some 0 else None)"
| "index_of_sub p (x # xs) =
     (if has_prefix (x # xs) p then Some 0 else map_option Suc (index_of_sub p xs))"

lemma has_prefix_append [simp]: "has_prefix (p @ s) p"
  by (simp add: has_prefix_def)

lemma has_prefix_iff: "has_prefix s p \<longleftrightarrow> (\<exists>t. s = p @ t)"
  by (metis append_take_drop_id has_prefix_append has_prefix_def)

lemma trim_prefix_append [simp]: "trim_prefix (p @ s) p = s"
  by (simp add: trim_prefix_def)

lemma has_suffix_append [simp]: "has_suffix (s @ p) p"
  by (simp add: has_suffix_def)

lemma trim_suffix_append [simp]: "trim_suffix (s @ p) p = s"
  by (simp add: trim_suffix_def)

lemma cut_found: "c \<notin> set b \<Longrightarrow> cut c (b @ c # a) = (b, a, True)"
  by (induction b) auto

lemma cut_not_found: "c \<notin> set s \<Longrightarrow> cut c s = (s, [], False)"
  by (induction s) auto

lemma cut_cases:
  "cut c s = (b, a, f) \<Longrightarrow> c \<notin> set b \<and> (if f then s = b @ c # a else s = b \<and> a = [])"
  by (induction s arbitrary: b a f) (auto split: if_splits prod.splits)

lemma split_on_not_Nil [simp]: "split_on c s \<noteq> []"
  by (induction s) (auto split: list.splits)

lemma split_on_no_sep: "c \<notin> set s \<Longrightarrow> split_on c s = [s]"
  by (induction s) auto

lemma split_on_append:
  "c \<notin> set w \<Longrightarrow> split_on c (w @ c # s) = w # split_on c s"
  by (induction w) auto

lemma split_on_join:
  assumes "ws \<noteq> []" and "\<And>w. w \<in> set ws \<Longrightarrow> c \<notin> set w"
  shows "split_on c (join [c] ws) = ws"
  using assms
proof (induction "[c]" ws rule: join.induct)
  case (3 w v ws)
  then show ?case by (simp add: split_on_append)
qed (auto simp: split_on_no_sep)

lemma join_split_on: "join [c] (split_on c s) = s"
proof (induction s)
  case (Cons x s)
  obtain w ws where "split_on c s = w # ws"
    using split_on_not_Nil [of c s] by (cases "split_on c s") auto
  with Cons show ?case by (cases ws) auto
qed simp

lemma split_on_parts_no_sep: "w \<in> set (split_on c s) \<Longrightarrow> c \<notin> set w"
  by (induction s arbitrary: w) (auto split: if_splits list.splits)

lemma join_no_sep_char:
  "c \<notin> set sep \<Longrightarrow> (\<And>w. w \<in> set ws \<Longrightarrow> c \<notin> set w) \<Longrightarrow> c \<notin> set (join sep ws)"
  by (induction sep ws rule: join.induct) auto

section \<open>White space, fields and trimming\<close>

definition is_space :: "char \<Rightarrow> bool" where
  "is_space c = (of_char c \<in> {9, 10, 11, 12, 13, 32 :: nat})"

definition trim_left :: "(char \<Rightarrow> bool) \<Rightarrow> string \<Rightarrow> string" where
  "trim_left P s = dropWhile P s"

definition trim_right :: "(char \<Rightarrow> bool) \<Rightarrow> string \<Rightarrow> string" where
  "trim_right P s = rev (dropWhile P (rev s))"

definition trim_space :: "string \<Rightarrow> string" where
  "trim_space s = trim_right is_space (trim_left is_space s)"

fun fields_from :: "string \<Rightarrow> string \<Rightarrow> string list" where
  "fields_from w [] = (if w = [] then [] else [w])"
| "fields_from w (c # s) =
     (if is_space c then (if w = [] then fields_from [] s else w # fields_from [] s)
      else fields_from (w @ [c]) s)"

definition str_fields :: "string \<Rightarrow> string list" where
  "str_fields s = fields_from [] s"

definition plain_word :: "string \<Rightarrow> bool" where
  "plain_word w = (w \<noteq> [] \<and> (\<forall>c\<in>set w. \<not> is_space c))"

lemma fields_from_word:
  "\<forall>c\<in>set w. \<not> is_space c \<Longrightarrow> fields_from v (w @ s) = fields_from (v @ w) s"
  by (induction w arbitrary: v) auto

lemma fields_from_plain:
  "\<forall>c\<in>set v. \<not> is_space c \<Longrightarrow> w \<in> set (fields_from v s) \<Longrightarrow> plain_word w"
proof (induction v s rule: fields_from.induct)
  case (1 v)
  then show ?case by (simp add: plain_word_def split: if_splits)
next
  case (2 v c s)
  show ?case
  proof (cases "is_space c")
    case True
    with 2 show ?thesis by (cases "v = []") (auto simp: plain_word_def)
  next
    case False
    with "2.prems" have "w \<in> set (fields_from (v @ [c]) s)" by simp
    with False "2.prems"(1) show ?thesis by (intro "2.IH"(3)) auto
  qed
qed

lemma fields_plain: "w \<in> set (str_fields s) \<Longrightarrow> plain_word w"
  by (auto simp: str_fields_def intro: fields_from_plain [of "[]"])

lemma is_space_blank [simp]: "is_space (CHR '' '')"
  by (simp add: is_space_def)

lemma is_space_newline [simp]: "is_space (char_of (10 :: nat))"
  by (simp add: is_space_def)

lemma fields_join_plain:
  assumes "\<And>w. w \<in> set ws \<Longrightarrow> plain_word w"
  shows "str_fields (join '' '' ws) = ws"
  using assms
proof (induction "'' ''" ws rule: join.induct)
  case (3 w v ws)
  then have "plain_word w" and IH: "str_fields (join '' '' (v # ws)) = v # ws" by auto
  then have "fields_from [] (w @ CHR '' '' # join '' '' (v # ws)) =
      w # str_fields (join '' '' (v # ws))"
    by (simp add: fields_from_word plain_word_def str_fields_def)
  with IH show ?case by (simp add: str_fields_def)
next
  case (2 w)
  then have "plain_word w" by simp
  then show ?case
    using fields_from_word [of w "[]" "[]"] by (simp add: str_fields_def plain_word_def)
qed (simp add: str_fields_def)

lemma trim_right_id: "s = [] \<or> \<not> P (last s) \<Longrightarrow> trim_right P s = s"
  by (cases s rule: rev_cases) (auto simp: trim_right_def)

lemma trim_right_append: "\<forall>c\<in>set t. P c \<Longrightarrow> trim_right P (s @ t) = trim_right P s"
  by (simp add: trim_right_def dropWhile_append)

lemma trim_left_id: "s = [] \<or> \<not> P (hd s) \<Longrightarrow> trim_left P s = s"
  by (cases s) (auto simp: trim_left_def)

lemma trim_space_plain:
  assumes "plain_word w" shows "trim_space w = w"
proof -
  have "\<not> is_space (hd w)" and "\<not> is_space (last w)"
    using assms by (auto simp: plain_word_def)
  then show ?thesis by (simp add: trim_space_def trim_left_id trim_right_id)
qed

lemma trim_space_Nil [simp]: "trim_space [] = []"
  by (simp add: trim_space_def trim_left_def trim_right_def)

text \<open>\<^verbatim>\<open>strings.Lines\<close>: each line with its newline, the last one perhaps without.\<close>

fun lines_from :: "string \<Rightarrow> string \<Rightarrow> string list" where
  "lines_from w [] = (if w = [] then [] else [w])"
| "lines_from w (c # s) =
     (if c = char_of (10 :: nat) then (w @ [c]) # lines_from [] s else lines_from (w @ [c]) s)"

definition lines :: "string \<Rightarrow> string list" where
  "lines s = lines_from [] s"

text \<open>
  \<^verbatim>\<open>bufio.Scanner\<close> over \<^verbatim>\<open>bufio.ScanLines\<close>: lines without their newline and one carriage
  return, ending with an error at the first line that does not fit its 64 KiB buffer.
\<close>

definition max_token :: nat where "max_token = 65535"

definition drop_cr :: "string \<Rightarrow> string" where
  "drop_cr l = trim_suffix l [char_of (13 :: nat)]"

definition chomp :: "string \<Rightarrow> string" where
  "chomp l = drop_cr (trim_suffix l [char_of (10 :: nat)])"

definition scan_lines :: "string \<Rightarrow> string list \<times> err option" where
  "scan_lines s =
     (let raw = lines s;
          short = (\<lambda>l. length (trim_suffix l [char_of (10 :: nat)]) \<le> max_token);
          good = takeWhile short raw
      in (map chomp good,
          if good = raw then None else Some (msg ''bufio.Scanner: token too long'')))"

section \<open>Letter case\<close>

definition lower_char :: "char \<Rightarrow> char" where
  "lower_char c = (if 65 \<le> (of_char c :: nat) \<and> (of_char c :: nat) \<le> 90
                   then char_of (of_char c + (32 :: nat)) else c)"

definition upper_char :: "char \<Rightarrow> char" where
  "upper_char c = (if 97 \<le> (of_char c :: nat) \<and> (of_char c :: nat) \<le> 122
                   then char_of (of_char c - (32 :: nat)) else c)"

definition to_lower :: "string \<Rightarrow> string" where "to_lower s = map lower_char s"

definition to_upper :: "string \<Rightarrow> string" where "to_upper s = map upper_char s"

definition equal_fold :: "string \<Rightarrow> string \<Rightarrow> bool" where
  "equal_fold s t = (to_lower s = to_lower t)"

lemma lower_char_id: "\<not> (65 \<le> (of_char c :: nat) \<and> (of_char c :: nat) \<le> 90) \<Longrightarrow> lower_char c = c"
  by (auto simp: lower_char_def)

lemma length_to_lower [simp]: "length (to_lower s) = length s"
  by (simp add: to_lower_def)

lemma length_to_upper [simp]: "length (to_upper s) = length s"
  by (simp add: to_upper_def)

section \<open>Numbers\<close>

text \<open>
  \<^verbatim>\<open>strconv.ParseUint(s, base, bits)\<close> for the bases 8 and 10 the program uses, and
  \<^verbatim>\<open>strconv.Atoi\<close>: the value, or nothing for a syntax or range error.
\<close>

fun digits_value :: "nat \<Rightarrow> nat \<Rightarrow> string \<Rightarrow> nat option" where
  "digits_value b acc [] = Some acc"
| "digits_value b acc (c # s) =
     (let k = of_char c :: nat in
      if 48 \<le> k \<and> k < 48 + b then digits_value b (acc * b + (k - 48)) s else None)"

definition parse_uint :: "string \<Rightarrow> nat \<Rightarrow> nat \<Rightarrow> nat option" where
  "parse_uint s b bits =
     (if s = [] then None
      else (case digits_value b 0 s of
              None \<Rightarrow> None
            | Some n \<Rightarrow> if n < 2 ^ bits then Some n else None))"

definition atoi :: "string \<Rightarrow> int option" where
  "atoi s =
     (let neg = (s \<noteq> [] \<and> hd s = CHR ''-'');
          signed = (s \<noteq> [] \<and> (hd s = CHR ''-'' \<or> hd s = CHR ''+''));
          ds = (if signed then tl s else s)
      in if ds = [] then None
         else (case digits_value 10 0 ds of
                 None \<Rightarrow> None
               | Some n \<Rightarrow>
                   if neg then (if n \<le> 2 ^ 63 then Some (- int n) else None)
                   else (if n < 2 ^ 63 then Some (int n) else None)))"

lemma digits_value_append:
  "digits_value b acc (s @ t) =
     (case digits_value b acc s of None \<Rightarrow> None | Some n \<Rightarrow> digits_value b n t)"
  by (induction b acc s rule: digits_value.induct) (auto simp: Let_def)

lemma digits_value_dec: "digits_value 10 0 (dec n) = Some n"
proof (induction n rule: less_induct)
  case (less n)
  show ?case
  proof (cases "n < 10")
    case True
    then show ?thesis by (subst dec.simps) (simp add: digit_decimal)
  next
    case False
    then have "digits_value 10 0 (dec (n div 10)) = Some (n div 10)"
      by (intro less) simp
    with False show ?thesis
      by (subst dec.simps) (simp add: digits_value_append digit_decimal)
  qed
qed

lemma dec_digits: "c \<in> set (dec n) \<Longrightarrow> 48 \<le> (of_char c :: nat) \<and> (of_char c :: nat) \<le> 57"
proof (induction n rule: less_induct)
  case (less n)
  show ?case
  proof (cases "n < 10")
    case True
    with less.prems show ?thesis by (simp add: dec.simps [of n] digit_decimal)
  next
    case False
    with less.prems consider "c \<in> set (dec (n div 10))" | "c = digit (n mod 10)"
      by (auto simp: dec.simps [of n])
    then show ?thesis using less.IH [of "n div 10"] False by cases (auto simp: digit_decimal)
  qed
qed

lemma dec_plain: "plain_word (dec n)"
  using dec_digits by (fastforce simp: plain_word_def is_space_def)

lemma atoi_dec: "n < 2 ^ 63 \<Longrightarrow> atoi (dec n) = Some (int n)"
  using dec_digits [of "hd (dec n)" n] by (auto simp: atoi_def Let_def digits_value_dec)

lemma parse_uint_dec: "n < 2 ^ bits \<Longrightarrow> parse_uint (dec n) 10 bits = Some n"
  by (simp add: parse_uint_def digits_value_dec)

section \<open>Paths\<close>

definition path_base :: "string \<Rightarrow> string" where
  "path_base p =
     (if p = [] then ''.''
      else let s = trim_right (\<lambda>c. c = CHR ''/'') p
           in if s = [] then ''/'' else last (split_on (CHR ''/'') s))"

fun clean_parts :: "bool \<Rightarrow> string list \<Rightarrow> string list \<Rightarrow> string list" where
  "clean_parts rooted st [] = rev st"
| "clean_parts rooted st (w # ws) =
     (if w = [] \<or> w = ''.'' then clean_parts rooted st ws
      else if w = ''..'' then
        (if st \<noteq> [] \<and> hd st \<noteq> ''..'' then clean_parts rooted (tl st) ws
         else if rooted then clean_parts rooted st ws
         else clean_parts rooted (w # st) ws)
      else clean_parts rooted (w # st) ws)"

definition path_clean :: "string \<Rightarrow> string" where
  "path_clean p =
     (if p = [] then ''.''
      else let rooted = (hd p = CHR ''/'');
               body = join ''/'' (clean_parts rooted [] (split_on (CHR ''/'') p))
           in if rooted then CHR ''/'' # body else if body = [] then ''.'' else body)"

definition path_join :: "string list \<Rightarrow> string" where
  "path_join es =
     (let ne = [e \<leftarrow> es. e \<noteq> []] in if ne = [] then [] else path_clean (join ''/'' ne))"

definition path_dir :: "string \<Rightarrow> string" where
  "path_dir p = path_clean (join ''/'' (butlast (split_on (CHR ''/'') p)) @
     (if CHR ''/'' \<in> set p then ''/'' else []))"

definition is_abs :: "string \<Rightarrow> bool" where "is_abs p = has_prefix p ''/''"

lemma path_base_no_slash:
  assumes "p \<noteq> []" and "CHR ''/'' \<notin> set p"
  shows "path_base p = p"
proof -
  have "last p \<noteq> CHR ''/''" using assms last_in_set by metis
  then show ?thesis using assms
    by (simp add: path_base_def trim_right_id split_on_no_sep Let_def)
qed

lemma path_clean_no_slash:
  assumes "p \<noteq> []" and "CHR ''/'' \<notin> set p"
  shows "path_clean p = p"
proof -
  have "hd p \<noteq> CHR ''/''" using assms hd_in_set by metis
  with assms show ?thesis by (simp add: path_clean_def Let_def split_on_no_sep)
qed

end
