(* ===== verification/Sys_Calls.thy ===== *)
theory Sys_Calls
  imports Go_Strings "HOL-Library.State_Monad" "HOL-Library.Sublist"
begin

text \<open>
  The world the program acts on. k0smos talks to it through system calls, a few child
  processes and one socket; each is a \<open>call\<close>. The kernel is arbitrary: its answer to a
  call may depend on everything that was called before, so it is a function of the history
  and the call, one function per type of answer (the fields of \<open>kernel\<close>). A program is a
  state-monad computation over the history: every call appends itself, and the properties
  of the components speak of the calls in the order they were made.

  The last group of calls belongs to the host tool \<^verbatim>\<open>k0smosctl\<close>: the files and sockets of the
  user's machine, the QEMU processes it starts, the HTTP requests it makes and what it prints.
\<close>

section \<open>Calls, kernels and programs\<close>

datatype (plugins only: code size) call =
    MkdirAll string nat
  | MountFs string string string nat string
  | UnmountFs string nat
  | WriteFile string bytes nat
  | ReadFile string
  | ReadDir string
  | Stat string
  | OpenFile string bool
  | CloseFd int
  | PRead string int nat
  | RunCmd "string list" "string list"
  | Chmod string nat
  | Chown string int int
  | Symlink string string
  | Chdir string
  | Chroot string
  | Exec string "string list"
  | InitModule bytes string
  | Uname
  | WalkModalias
  | Sync
  | Reboot nat
  | Kill int nat
  | Wait4
  | Socket
  | NewIfreq string
  | IfreqSetAddr string bytes
  | Ioctl string string bytes
  | RouteAdd bytes nat
  | SetSockOpt string string
  | Bind nat
  | SendDatagram bytes bytes nat
  | RecvDatagram nat nat
  | Statfs string
  | LoopFree int
  | LoopConfigure int int bool
  | SetHostname string
  | Setenv string string
  | Klog nat nat
  | Sleep nat
  | ClockNano
  | Remove string
  | RemoveAll string
  | Rename string string
  | CreateFile string
  | WriteTo string bytes
  | TruncateFile string int
  | TempFile string string
  | SyncFile string
  | CloseFile string
  | LookPath string
  | ReadInput
  | Say string "string list"
  | Dial string
  | SockSend string bytes
  | SockRecv string
  | StartProc "string list" bool
  | PollProc int
  | WaitProc int nat
  | ReleaseProc int
  | ListDir string
  | StatMode string
  | OwnPath
  | SockDeadline string nat
  | SockClose string
  | HttpGet string "(string \<times> string) list"
  | HttpBody string
  | CopyBody string string
  | Listen string
  | Unlisten string
  | AwaitSignal

type_synonym history = "call list"

record kernel =
  answer_unit :: "history \<Rightarrow> call \<Rightarrow> err option"
  answer_bytes :: "history \<Rightarrow> call \<Rightarrow> err + bytes"
  answer_names :: "history \<Rightarrow> call \<Rightarrow> err + string list"
  answer_num :: "history \<Rightarrow> call \<Rightarrow> err + int"
  answer_walk :: "history \<Rightarrow> call \<Rightarrow> string list \<times> err option"

type_synonym 'a io = "(history, 'a) state"

definition do_unit :: "kernel \<Rightarrow> call \<Rightarrow> err option io" where
  "do_unit K c = State (\<lambda>h. (answer_unit K h c, h @ [c]))"

definition do_bytes :: "kernel \<Rightarrow> call \<Rightarrow> (err + bytes) io" where
  "do_bytes K c = State (\<lambda>h. (answer_bytes K h c, h @ [c]))"

definition do_names :: "kernel \<Rightarrow> call \<Rightarrow> (err + string list) io" where
  "do_names K c = State (\<lambda>h. (answer_names K h c, h @ [c]))"

definition do_num :: "kernel \<Rightarrow> call \<Rightarrow> (err + int) io" where
  "do_num K c = State (\<lambda>h. (answer_num K h c, h @ [c]))"

definition do_walk :: "kernel \<Rightarrow> call \<Rightarrow> (string list \<times> err option) io" where
  "do_walk K c = State (\<lambda>h. (answer_walk K h c, h @ [c]))"

definition give :: "'a \<Rightarrow> 'a io" where
  "give x = State_Monad.return x"

lemma run_give [simp]: "run_state (give x) h = (x, h)"
  by (simp add: give_def)

lemma run_do_unit [simp]: "run_state (do_unit K c) h = (answer_unit K h c, h @ [c])"
  by (simp add: do_unit_def)

lemma run_do_bytes [simp]: "run_state (do_bytes K c) h = (answer_bytes K h c, h @ [c])"
  by (simp add: do_bytes_def)

lemma run_do_names [simp]: "run_state (do_names K c) h = (answer_names K h c, h @ [c])"
  by (simp add: do_names_def)

lemma run_do_num [simp]: "run_state (do_num K c) h = (answer_num K h c, h @ [c])"
  by (simp add: do_num_def)

lemma run_do_walk [simp]: "run_state (do_walk K c) h = (answer_walk K h c, h @ [c])"
  by (simp add: do_walk_def)

text \<open>\<^verbatim>\<open>if err := op; err != nil { return wrap(err) }; rest\<close>\<close>

definition guard_err :: "err option io \<Rightarrow> (err \<Rightarrow> 'a) \<Rightarrow> 'a io \<Rightarrow> 'a io" where
  "guard_err m fail rest = do {
     r \<leftarrow> m;
     (case r of Some e \<Rightarrow> give (fail e) | None \<Rightarrow> rest)
   }"

lemma run_guard_err [simp]:
  "run_state (guard_err m fail rest) h =
     (case run_state m h of
        (Some e, h') \<Rightarrow> (fail e, h') | (None, h') \<Rightarrow> run_state rest h')"
  by (simp add: guard_err_def split: prod.splits option.splits)

section \<open>Which calls a program makes\<close>

text \<open>
  \<open>emits P m\<close>: from any history, \<open>m\<close> only appends, and every call it appends satisfies \<open>P\<close>.
  The introduction rules follow the structure of a program, so that \<open>emits\<close> facts of the
  components are proved by \<open>auto intro!: emits_intros\<close>.
\<close>

definition emits :: "(call \<Rightarrow> bool) \<Rightarrow> 'a io \<Rightarrow> bool" where
  "emits P m = (\<forall>h. \<exists>cs. snd (run_state m h) = h @ cs \<and> list_all P cs)"

definition added :: "'a io \<Rightarrow> history \<Rightarrow> call list" where
  "added m h = drop (length h) (snd (run_state m h))"

lemma emitsI:
  "(\<And>h. \<exists>cs. snd (run_state m h) = h @ cs \<and> list_all P cs) \<Longrightarrow> emits P m"
  by (simp add: emits_def)

lemma emitsE:
  assumes "emits P m"
  obtains cs where "snd (run_state m h) = h @ cs" and "list_all P cs"
  using assms by (auto simp: emits_def)

lemma emits_added: "emits P m \<Longrightarrow> c \<in> set (added m h) \<Longrightarrow> P c"
  by (erule emitsE [where h = h]) (auto simp: added_def list_all_iff)

lemma emits_run: "emits P m \<Longrightarrow> snd (run_state m h) = h @ added m h"
  by (erule emitsE [where h = h]) (simp add: added_def)

lemma emits_mono: "emits P m \<Longrightarrow> (\<And>c. P c \<Longrightarrow> Q c) \<Longrightarrow> emits Q m"
  unfolding emits_def by (meson list.pred_mono_strong)

lemma emits_give [emits_intros]: "emits P (give x)"
  by (simp add: emits_def)

lemma emits_do [emits_intros]:
  "P c \<Longrightarrow> emits P (do_unit K c)" "P c \<Longrightarrow> emits P (do_bytes K c)"
  "P c \<Longrightarrow> emits P (do_names K c)" "P c \<Longrightarrow> emits P (do_num K c)"
  "P c \<Longrightarrow> emits P (do_walk K c)"
  by (simp_all add: emits_def)

lemma emits_bind [emits_intros]:
  assumes "emits P m" and "\<And>x. emits P (f x)"
  shows "emits P (m \<bind> f)"
proof (rule emitsI)
  fix h
  obtain x h' where m: "run_state m h = (x, h')" by fastforce
  from assms(1) m obtain cs where cs: "h' = h @ cs" "list_all P cs"
    by (metis emitsE snd_conv)
  obtain ds where "snd (run_state (f x) h') = h' @ ds" "list_all P ds"
    using assms(2) [of x] by (rule emitsE)
  with m cs show "\<exists>cs. snd (run_state (m \<bind> f) h) = h @ cs \<and> list_all P cs"
    by (intro exI [of _ "cs @ ds"]) simp
qed

lemma emits_if [emits_intros]:
  "(b \<Longrightarrow> emits P m) \<Longrightarrow> (\<not> b \<Longrightarrow> emits P n) \<Longrightarrow> emits P (if b then m else n)"
  by simp

lemma emits_case_option [emits_intros]:
  "(x = None \<Longrightarrow> emits P m) \<Longrightarrow> (\<And>y. x = Some y \<Longrightarrow> emits P (f y)) \<Longrightarrow>
   emits P (case x of None \<Rightarrow> m | Some y \<Rightarrow> f y)"
  by (simp split: option.split)

lemma emits_case_sum [emits_intros]:
  "(\<And>y. x = Inl y \<Longrightarrow> emits P (f y)) \<Longrightarrow> (\<And>y. x = Inr y \<Longrightarrow> emits P (g y)) \<Longrightarrow>
   emits P (case x of Inl y \<Rightarrow> f y | Inr y \<Rightarrow> g y)"
  by (simp split: sum.split)

lemma emits_case_prod [emits_intros]:
  "(\<And>y z. x = (y, z) \<Longrightarrow> emits P (f y z)) \<Longrightarrow> emits P (case x of (y, z) \<Rightarrow> f y z)"
  by (simp split: prod.split)

lemma emits_case_list [emits_intros]:
  "(xs = [] \<Longrightarrow> emits P m) \<Longrightarrow> (\<And>y ys. xs = y # ys \<Longrightarrow> emits P (f y ys)) \<Longrightarrow>
   emits P (case xs of [] \<Rightarrow> m | y # ys \<Rightarrow> f y ys)"
  by (simp split: list.split)

lemma emits_let [emits_intros]: "emits P (f x) \<Longrightarrow> emits P (let y = x in f y)"
  by simp

lemma emits_guard_err [emits_intros]:
  "emits P m \<Longrightarrow> emits P rest \<Longrightarrow> emits P (guard_err m fail rest)"
  unfolding guard_err_def by (intro emits_intros)

lemma emits_prefix: "emits P m \<Longrightarrow> prefix h (snd (run_state m h))"
  by (erule emitsE [where h = h]) (simp add: prefix_def)

lemma added_bind:
  assumes "emits P m" and "\<And>x. emits Q (f x)"
  shows "added (m \<bind> f) h =
    added m h @ added (f (fst (run_state m h))) (snd (run_state m h))"
proof -
  obtain x h' where m: "run_state m h = (x, h')" by fastforce
  from emits_run [OF assms(1), of h] m have h': "h' = h @ added m h" by simp
  from emits_run [OF assms(2) [of x], of h'] have "snd (run_state (f x) h') = h' @ added (f x) h'" .
  with m show ?thesis by (simp add: added_def [of "m \<bind> f"]) (simp add: h')
qed

section \<open>Reads and effects\<close>

text \<open>\<open>reads\<close> marks the calls that change nothing; the others are the effects of a program.\<close>

fun reads :: "call \<Rightarrow> bool" where
  "reads (ReadFile _) = True"
| "reads (ReadDir _) = True"
| "reads (Stat _) = True"
| "reads (OpenFile _ w) = (\<not> w)"
| "reads (PRead _ _ _) = True"
| "reads (CloseFd _) = True"
| "reads (Statfs _) = True"
| "reads _ = False"

definition effects :: "'a io \<Rightarrow> history \<Rightarrow> call list" where
  "effects m h = filter (\<lambda>c. \<not> reads c) (added m h)"

lemma readsE:
  assumes "emits reads m" and "run_state m h = (x, h')"
  obtains cs where "h' = h @ cs" and "filter (\<lambda>c. \<not> reads c) cs = []"
proof -
  from assms obtain cs where "h' = h @ cs" "list_all reads cs"
    by (metis emitsE snd_conv)
  then show thesis by (intro that) (auto simp: list_all_iff filter_empty_conv)
qed

lemma effects_reads: "emits reads m \<Longrightarrow> effects m h = []"
  by (auto simp: effects_def filter_empty_conv dest: emits_added)

text \<open>A kernel on which everything succeeds and nothing is found, to build examples from.\<close>

definition quiet_kernel :: kernel where
  "quiet_kernel =
     \<lparr>answer_unit = (\<lambda>_ _. None), answer_bytes = (\<lambda>_ _. Inr []), answer_names = (\<lambda>_ _. Inr []),
      answer_num = (\<lambda>_ _. Inr 0), answer_walk = (\<lambda>_ _. ([], None))\<rparr>"

end
