(* ===== verification/Mount_Info.thy ===== *)
theory Mount_Info
  imports Go_Strings
begin

text \<open>
  \<^verbatim>\<open>internal/sys/sys.go\<close>, \<^verbatim>\<open>mountinfo.go\<close> and \<^verbatim>\<open>targets.go\<close>: the mount table as parsed from
  \<^verbatim>\<open>/proc/self/mountinfo\<close>.
\<close>

record mount_point =
  mp_source :: string
  mp_target :: string
  mp_fstype :: string

definition parse_mount_line :: "string \<Rightarrow> err + mount_point" where
  "parse_mount_line line =
     (case index_of_sub '' - '' line of
        None \<Rightarrow> Inl (Errorf ''mountinfo: no separator in %q'' [line] None)
      | Some sep \<Rightarrow>
          (let lf = str_fields (take sep line); rf = str_fields (drop (sep + 3) line)
           in if length lf < 5 \<or> length rf < 2
              then Inl (Errorf ''mountinfo: short line %q'' [line] None)
              else Inr \<lparr>mp_source = rf ! 1, mp_target = lf ! 4, mp_fstype = rf ! 0\<rparr>))"

fun parse_mount_lines :: "string list \<Rightarrow> err + mount_point list" where
  "parse_mount_lines [] = Inr []"
| "parse_mount_lines (line # rest) =
     (if line = [] then parse_mount_lines rest
      else (case parse_mount_line line of
              Inl e \<Rightarrow> Inl e
            | Inr mp \<Rightarrow>
                (case parse_mount_lines rest of Inl e \<Rightarrow> Inl e | Inr mps \<Rightarrow> Inr (mp # mps))))"

text \<open>
  The Go function returns the points it has together with the scanner's error; every
  caller drops the points when the error is set, so only the error is kept here.
\<close>

definition parse_mount_info :: "bytes \<Rightarrow> err + mount_point list" where
  "parse_mount_info data =
     (case scan_lines (to_text data) of (ls, e) \<Rightarrow>
        (case parse_mount_lines ls of
           Inl x \<Rightarrow> Inl x
         | Inr mps \<Rightarrow> (case e of None \<Rightarrow> Inr mps | Some x \<Rightarrow> Inl x)))"

definition targets_of :: "mount_point list \<Rightarrow> string list" where
  "targets_of mps = map mp_target mps"

section \<open>Reading back a rendered line\<close>

text \<open>
  A mountinfo line as the kernel writes it: mount id, parent id, device, root, mount point,
  options, any number of optional fields, the separator, type, source and super options.
\<close>

definition render_mount_line ::
  "string list \<Rightarrow> mount_point \<Rightarrow> string list \<Rightarrow> string list \<Rightarrow> string" where
  "render_mount_line pre mp opts super =
     join '' '' (pre @ mp_target mp # opts) @ '' - '' @
     join '' '' (mp_fstype mp # mp_source mp # super)"

lemma index_of_sub_Some:
  "index_of_sub p s = Some k \<Longrightarrow> \<exists>b a. s = b @ p @ a \<and> length b = k"
proof (induction p s arbitrary: k rule: index_of_sub.induct)
  case (2 p x xs)
  show ?case
  proof (cases "has_prefix (x # xs) p")
    case True
    with "2.prems" show ?thesis by (auto simp: has_prefix_iff)
  next
    case False
    with "2.prems" obtain j where "index_of_sub p xs = Some j" "k = Suc j" by auto
    with "2.IH" [OF False] obtain b a where "xs = b @ p @ a" "length b = j" by blast
    with \<open>k = Suc j\<close> have "x # xs = (x # b) @ p @ a \<and> length (x # b) = k" by simp
    then show ?thesis by blast
  qed
qed (auto split: if_splits)

text \<open>
  The first separator found is the kernel's own when no field to its left is a lone dash:
  the search skips a whole field at a time.
\<close>

lemma index_of_sub_skip_word:
  assumes "CHR '' '' \<notin> set w"
  shows "index_of_sub ('' '' @ p) (w @ s) =
    map_option (\<lambda>k. length w + k) (index_of_sub ('' '' @ p) s)"
  using assms
  by (induction w; cases "index_of_sub ('' '' @ p) s") (auto simp: has_prefix_def)

lemma no_separator_at_field:
  assumes "plain_word w" and "w \<noteq> ''-''" and "t \<noteq> [] \<Longrightarrow> hd t = CHR '' ''"
  shows "\<not> has_prefix (CHR '' '' # w @ t) '' - ''"
proof
  assume pre: "has_prefix (CHR '' '' # w @ t) '' - ''"
  obtain c w' where w: "w = c # w'" using assms(1) by (cases w) (auto simp: plain_word_def)
  from pre w have "c = CHR ''-''" and rest: "has_prefix (w' @ t) '' ''"
    by (auto simp: has_prefix_def)
  with assms(2) w have "w' \<noteq> []" by auto
  then obtain d w'' where "w' = d # w''" by (cases w') auto
  with rest w assms(1) show False by (auto simp: has_prefix_def plain_word_def)
qed

lemma index_of_sub_separator:
  assumes "ws \<noteq> []" and "\<And>w. w \<in> set ws \<Longrightarrow> plain_word w \<and> w \<noteq> ''-''"
  shows "index_of_sub '' - '' (join '' '' ws @ '' - '' @ a) = Some (length (join '' '' ws))"
  using assms
proof (induction "'' ''" ws rule: join.induct)
  case (2 w)
  then have "CHR '' '' \<notin> set w" by (force simp: plain_word_def)
  from index_of_sub_skip_word [OF this, of "''- ''"] show ?case by (simp add: has_prefix_def)
next
  case (3 w v ws)
  then have w: "CHR '' '' \<notin> set w" by (force simp: plain_word_def)
  have v: "plain_word v" "v \<noteq> ''-''" using "3.prems" by auto
  let ?t = "join '' '' (v # ws) @ '' - '' @ a"
  have "\<not> has_prefix (CHR '' '' # ?t) '' - ''"
    using no_separator_at_field [OF v, of "(if ws = [] then [] else '' '' @ join '' '' ws) @ '' - '' @ a"]
    by (cases ws) auto
  moreover have "index_of_sub '' - '' ?t = Some (length (join '' '' (v # ws)))"
    using "3.prems" by (intro "3.hyps") auto
  ultimately show ?case
    using index_of_sub_skip_word [OF w, of "''- ''" "CHR '' '' # ?t"] by simp
qed simp

lemma parse_render_mount_line:
  assumes "length pre = 4"
    and "\<And>w. w \<in> set (pre @ mp_target mp # opts) \<Longrightarrow> plain_word w \<and> w \<noteq> ''-''"
    and "\<And>w. w \<in> set (mp_fstype mp # mp_source mp # super) \<Longrightarrow> plain_word w"
  shows "parse_mount_line (render_mount_line pre mp opts super) = Inr mp"
proof -
  let ?l = "join '' '' (pre @ mp_target mp # opts)"
  let ?r = "join '' '' (mp_fstype mp # mp_source mp # super)"
  have sep: "index_of_sub '' - '' (render_mount_line pre mp opts super) = Some (length ?l)"
    unfolding render_mount_line_def by (rule index_of_sub_separator) (use assms(2) in auto)
  have l: "str_fields ?l = pre @ mp_target mp # opts"
    by (rule fields_join_plain) (use assms(2) in blast)
  have r: "str_fields ?r = mp_fstype mp # mp_source mp # super"
    by (rule fields_join_plain) (use assms(3) in blast)
  have "take (length ?l) (render_mount_line pre mp opts super) = ?l"
    and "drop (length ?l + 3) (render_mount_line pre mp opts super) = ?r"
    by (simp_all add: render_mount_line_def)
  with sep l r assms(1) show ?thesis by (simp add: parse_mount_line_def nth_append)
qed

end
