(* ===== verification/Byte_Order.thy ===== *)
theory Byte_Order
  imports Prelude
begin

text \<open>
  Fixed-width integers in byte slices: the helpers \<^verbatim>\<open>le16\<close>, \<^verbatim>\<open>le32\<close>, \<^verbatim>\<open>putLE16\<close>, \<^verbatim>\<open>putBE32\<close> and
  so on of \<^verbatim>\<open>internal/iso9660\<close>, and the functions of \<^verbatim>\<open>encoding/binary\<close> the other packages
  use for the same job. Values keep their width as words. What every client relies on is
  the locale \<open>fixed_width\<close>: reading what was written gives it back, and a value occupies
  exactly its width.
\<close>

section \<open>Values of byte lists\<close>

fun le_val :: "bytes \<Rightarrow> nat" where
  "le_val [] = 0"
| "le_val (b # bs) = unat b + 256 * le_val bs"

fun le_digits :: "nat \<Rightarrow> nat \<Rightarrow> bytes" where
  "le_digits 0 v = []"
| "le_digits (Suc n) v = word_of_nat v # le_digits n (v div 256)"

lemma length_le_digits [simp]: "length (le_digits n v) = n"
  by (induction n arbitrary: v) auto

lemma le_val_digits: "v < 256 ^ n \<Longrightarrow> le_val (le_digits n v) = v"
proof (induction n arbitrary: v)
  case (Suc n)
  then have "v div 256 < 256 ^ n" by (simp add: less_mult_imp_div_less mult.commute)
  moreover have "unat (word_of_nat v :: byte) = v mod 256" by (simp add: unat_of_nat)
  ultimately show ?case using Suc.IH by simp
qed simp

lemma le_val_zeros [simp]: "le_val (replicate n 0) = 0"
  by (induction n) auto

lemma le_val_less: "le_val bs < 256 ^ length bs"
proof (induction bs)
  case (Cons b bs)
  have "unat b < 256" using unsigned_less [of b] by simp
  with Cons show ?case by simp
qed simp

lemma le_digits_val: "le_digits (length bs) (le_val bs) = bs"
proof (induction bs)
  case (Cons b bs)
  have "unat b < 256" using unsigned_less [of b] by simp
  then have "(unat b + 256 * le_val bs) div 256 = le_val bs" by simp
  moreover have "(word_of_nat (unat b + 256 * le_val bs) :: byte) = b"
  proof (rule word_unat_eq_iff [THEN iffD2])
    have "unat (word_of_nat (unat b + 256 * le_val bs) :: byte) = (unat b + 256 * le_val bs) mod 256"
      by (simp only: unat_of_nat) simp
    with \<open>unat b < 256\<close> show "unat (word_of_nat (unat b + 256 * le_val bs) :: byte) = unat b"
      by simp
  qed
  ultimately show ?case using Cons by simp
qed simp

section \<open>The four codecs\<close>

definition le16 :: "bytes \<Rightarrow> 16 word" where "le16 b = word_of_nat (le_val (take 2 b))"
definition le32 :: "bytes \<Rightarrow> 32 word" where "le32 b = word_of_nat (le_val (take 4 b))"
definition be16 :: "bytes \<Rightarrow> 16 word" where "be16 b = word_of_nat (le_val (rev (take 2 b)))"
definition be32 :: "bytes \<Rightarrow> 32 word" where "be32 b = word_of_nat (le_val (rev (take 4 b)))"

definition put_le16 :: "16 word \<Rightarrow> bytes" where "put_le16 v = le_digits 2 (unat v)"
definition put_le32 :: "32 word \<Rightarrow> bytes" where "put_le32 v = le_digits 4 (unat v)"
definition put_be16 :: "16 word \<Rightarrow> bytes" where "put_be16 v = rev (le_digits 2 (unat v))"
definition put_be32 :: "32 word \<Rightarrow> bytes" where "put_be32 v = rev (le_digits 4 (unat v))"

text \<open>ISO9660 stores most numbers twice, once in each byte order.\<close>

definition put_both16 :: "16 word \<Rightarrow> bytes" where "put_both16 v = put_le16 v @ put_be16 v"
definition put_both32 :: "32 word \<Rightarrow> bytes" where "put_both32 v = put_le32 v @ put_be32 v"

section \<open>The contract of a fixed-width codec\<close>

locale fixed_width =
  fixes put :: "'w \<Rightarrow> bytes" and get :: "bytes \<Rightarrow> 'w" and width :: nat
  assumes length_put: "length (put v) = width"
    and get_put: "get (put v @ rest) = v"
begin

lemma put_inject: "put v = put w \<longleftrightarrow> v = w"
  by (metis append_Nil2 get_put)

text \<open>Storing a value into a buffer and reading at the same offset gives it back.\<close>

lemma get_stored:
  assumes "i + width \<le> length b"
  shows "get (drop i (put_at i (put v) b)) = v"
proof -
  have "drop i (put_at i (put v) b) = put v @ drop (i + width) b"
    using assms length_put [of v] by (simp add: put_at_def)
  then show ?thesis by (simp add: get_put)
qed

lemma get_slice:
  assumes "b = xs @ put v @ ys"
  shows "get (drop (length xs) b) = v"
  using assms by (simp add: get_put)

lemma values_unambiguous:
  "put v @ xs = put w @ ys \<Longrightarrow> v = w \<and> xs = ys"
  by (metis append_eq_append_conv length_put put_inject)

end

lemma unat_16_less: "unat (v :: 16 word) < 256 ^ 2"
  using unsigned_less [of v] by simp

lemma unat_32_less: "unat (v :: 32 word) < 256 ^ 4"
  using unsigned_less [of v] by simp

interpretation le16: fixed_width put_le16 le16 2
  by unfold_locales (simp_all add: put_le16_def le16_def le_val_digits [OF unat_16_less])

interpretation le32: fixed_width put_le32 le32 4
  by unfold_locales (simp_all add: put_le32_def le32_def le_val_digits [OF unat_32_less])

interpretation be16: fixed_width put_be16 be16 2
  by unfold_locales (simp_all add: put_be16_def be16_def le_val_digits [OF unat_16_less])

interpretation be32: fixed_width put_be32 be32 4
  by unfold_locales (simp_all add: put_be32_def be32_def le_val_digits [OF unat_32_less])

interpretation both16: fixed_width put_both16 le16 4
  by unfold_locales (simp_all add: put_both16_def le16.length_put be16.length_put le16.get_put)

interpretation both32: fixed_width put_both32 le32 8
  by unfold_locales (simp_all add: put_both32_def le32.length_put be32.length_put le32.get_put)

lemmas length_puts [simp] =
  le16.length_put le32.length_put be16.length_put be32.length_put
  both16.length_put both32.length_put

lemma be32_put_unat: "unat (be32 b) = le_val (rev (take 4 b))"
proof -
  have "le_val (rev (take 4 b)) < 256 ^ length (rev (take 4 b))" by (rule le_val_less)
  also have "\<dots> \<le> 256 ^ 4" by (rule power_increasing) auto
  finally show ?thesis by (simp add: be32_def unat_of_nat)
qed

section \<open>Addresses\<close>

type_synonym ip_addr = bytes

text \<open>\<^verbatim>\<open>net.IP.To4\<close>: the four bytes of a plain or IPv4-mapped address; nil (no bytes) otherwise.
  A socket address holds four bytes, filled by \<^verbatim>\<open>copy(addr.Addr[:], ip.To4())\<close>.\<close>

definition to4 :: "ip_addr \<Rightarrow> ip_addr" where
  "to4 ip =
     (if length ip = 4 then ip
      else if length ip = 16 \<and> take 12 ip = replicate 10 0 @ [0xff, 0xff] then drop 12 ip
      else [])"

definition sockaddr4 :: "ip_addr \<Rightarrow> bytes" where
  "sockaddr4 ip = put_at 0 (to4 ip) [0, 0, 0, 0]"

lemma to4_four [simp]: "length ip = 4 \<Longrightarrow> to4 ip = ip"
  by (simp add: to4_def)

lemma sockaddr4_four [simp]: "length ip = 4 \<Longrightarrow> sockaddr4 ip = ip"
  by (simp add: sockaddr4_def put_at_def)

end
