(* ===== verification/Sys_Linux.thy ===== *)
theory Sys_Linux
  imports Sys_Calls Mount_Info Byte_Order
begin

text \<open>
  \<^verbatim>\<open>internal/sys/sys_linux.go\<close>, \<^verbatim>\<open>route_linux.go\<close> and \<^verbatim>\<open>dhcpconn_linux.go\<close>: the wrappers through
  which every other package reaches the kernel. Each is a program over \<open>call\<close>s; what a
  wrapper adds to its system calls (the order of the calls, the closing of descriptors, the
  normalisation of answers) is modelled, the kernel's answers are the parameter \<open>K\<close>.
\<close>

unbundle bit_operations_syntax

section \<open>Files and mounts\<close>

definition sys_mount ::
  "kernel \<Rightarrow> string \<Rightarrow> string \<Rightarrow> string \<Rightarrow> nat \<Rightarrow> string \<Rightarrow> err option io" where [sys_defs]:
  "sys_mount K source target fstype flags data =
     do_unit K (MountFs source target fstype flags data)"

definition sys_unmount :: "kernel \<Rightarrow> string \<Rightarrow> nat \<Rightarrow> err option io" where [sys_defs]:
  "sys_unmount K target flags = do_unit K (UnmountFs target flags)"

text \<open>
  The \<^verbatim>\<open>os\<close> functions take a Go file mode, whose bits above the permissions are not those of
  Unix: \<^verbatim>\<open>syscallMode\<close> keeps the nine permission bits and derives the set-user-id, set-group-id
  and sticky bits from bits 23, 22 and 20.
\<close>

definition syscall_mode :: "nat \<Rightarrow> nat" where
  "syscall_mode m =
     m mod 512 + (if odd (m div 2 ^ 23) then 2048 else 0) +
     (if odd (m div 2 ^ 22) then 1024 else 0) + (if odd (m div 2 ^ 20) then 512 else 0)"

lemma syscall_mode_perm [simp]: "m < 512 \<Longrightarrow> syscall_mode m = m"
  by (simp add: syscall_mode_def)

definition sys_mkdir :: "kernel \<Rightarrow> string \<Rightarrow> nat \<Rightarrow> err option io" where [sys_defs]:
  "sys_mkdir K path perm = do_unit K (MkdirAll path (syscall_mode perm))"

definition sys_write_file :: "kernel \<Rightarrow> string \<Rightarrow> bytes \<Rightarrow> nat \<Rightarrow> err option io" where [sys_defs]:
  "sys_write_file K path data perm = do_unit K (WriteFile path data (syscall_mode perm))"

definition sys_read_file :: "kernel \<Rightarrow> string \<Rightarrow> (err + bytes) io" where [sys_defs]:
  "sys_read_file K path = do_bytes K (ReadFile path)"

definition sys_chmod :: "kernel \<Rightarrow> string \<Rightarrow> nat \<Rightarrow> err option io" where [sys_defs]:
  "sys_chmod K path mode = do_unit K (Chmod path (syscall_mode mode))"

definition sys_chown :: "kernel \<Rightarrow> string \<Rightarrow> int \<Rightarrow> int \<Rightarrow> err option io" where [sys_defs]:
  "sys_chown K path uid gid = do_unit K (Chown path uid gid)"

definition sys_symlink :: "kernel \<Rightarrow> string \<Rightarrow> string \<Rightarrow> err option io" where [sys_defs]:
  "sys_symlink K target link = do_unit K (Symlink target link)"

definition sys_mounts :: "kernel \<Rightarrow> (err + mount_point list) io" where [sys_defs]:
  "sys_mounts K = do {
     data \<leftarrow> do_bytes K (ReadFile ''/proc/self/mountinfo'');
     give (case data of Inl e \<Rightarrow> Inl e | Inr b \<Rightarrow> parse_mount_info b)
   }"

definition sys_mount_targets :: "kernel \<Rightarrow> (err + string list) io" where [sys_defs]:
  "sys_mount_targets K = do {
     mps \<leftarrow> sys_mounts K;
     give (case mps of Inl e \<Rightarrow> Inl e | Inr l \<Rightarrow> Inr (targets_of l))
   }"

section \<open>Block devices\<close>

definition sys_block_devices :: "kernel \<Rightarrow> (err + string list) io" where [sys_defs]:
  "sys_block_devices K = do_names K (ReadDir ''/sys/class/block'')"

text \<open>\<^verbatim>\<open>File.ReadAt\<close> fills the whole buffer or returns an error, \<^verbatim>\<open>io.EOF\<close> when the device ends.\<close>

definition sys_read_at :: "kernel \<Rightarrow> string \<Rightarrow> nat \<Rightarrow> int \<Rightarrow> (err + bytes) io" where [sys_defs]:
  "sys_read_at K dev n off = do {
     f \<leftarrow> do_num K (OpenFile (''/dev/'' @ dev) False);
     (case f of
        Inl e \<Rightarrow> give (Inl e)
      | Inr fd \<Rightarrow> do {
          r \<leftarrow> do_bytes K (PRead (''/dev/'' @ dev) off n);
          _ \<leftarrow> do_unit K (CloseFd fd);
          give (case r of
                  Inl e \<Rightarrow> Inl e
                | Inr b \<Rightarrow> if length b = n then Inr b else Inl (msg ''EOF''))
        })
   }"

definition mkfs_argv :: "string \<Rightarrow> string \<Rightarrow> string \<Rightarrow> string list" where
  "mkfs_argv dev fstype label = [''mkfs.'' @ fstype, ''-q'', ''-L'', label, dev]"

definition sys_mkfs :: "kernel \<Rightarrow> string \<Rightarrow> string \<Rightarrow> string \<Rightarrow> err option io" where [sys_defs]:
  "sys_mkfs K dev fstype label = do {
     r \<leftarrow> do_unit K (RunCmd (mkfs_argv dev fstype label) []);
     give (map_option (wrap ''mkfs.%s %s: %w: %s'' [fstype, dev]) r)
   }"

text \<open>
  The walk over \<^verbatim>\<open>/sys/devices\<close> reports the files it visits; those called \<^verbatim>\<open>modalias\<close> are
  read, and what they name is kept once, in the order first seen.
\<close>

fun read_modaliases :: "kernel \<Rightarrow> string list \<Rightarrow> string list \<Rightarrow> string list io" where
  "read_modaliases K [] out = give out"
| "read_modaliases K (p # ps) out =
     (if path_base p \<noteq> ''modalias'' then read_modaliases K ps out
      else do {
        r \<leftarrow> do_bytes K (ReadFile p);
        (case r of
           Inl e \<Rightarrow> read_modaliases K ps out
         | Inr b \<Rightarrow>
             (let v = trim_space (to_text b)
              in if v \<noteq> [] \<and> v \<notin> set out then read_modaliases K ps (out @ [v])
                 else read_modaliases K ps out))
      })"

definition sys_modaliases :: "kernel \<Rightarrow> (string list \<times> err option) io" where [sys_defs]:
  "sys_modaliases K = do {
     w \<leftarrow> do_walk K WalkModalias;
     (case w of (files, e) \<Rightarrow> do {
        out \<leftarrow> read_modaliases K files [];
        give (out, e)
      })
   }"

section \<open>Processes, modules and the machine\<close>

definition sys_chdir :: "kernel \<Rightarrow> string \<Rightarrow> err option io" where [sys_defs]:
  "sys_chdir K dir = do_unit K (Chdir dir)"

definition sys_chroot :: "kernel \<Rightarrow> string \<Rightarrow> err option io" where [sys_defs]:
  "sys_chroot K dir = do_unit K (Chroot dir)"

definition sys_exec :: "kernel \<Rightarrow> string \<Rightarrow> string list \<Rightarrow> err option io" where [sys_defs]:
  "sys_exec K argv0 argv = do_unit K (Exec argv0 argv)"

definition sys_init_module :: "kernel \<Rightarrow> bytes \<Rightarrow> string \<Rightarrow> err option io" where [sys_defs]:
  "sys_init_module K img params = do_unit K (InitModule img params)"

definition sys_release :: "kernel \<Rightarrow> (err + string) io" where [sys_defs]:
  "sys_release K = do {
     r \<leftarrow> do_bytes K Uname;
     give (case r of
             Inl e \<Rightarrow> Inl e
           | Inr b \<Rightarrow> Inr (trim_right (\<lambda>c. c = char_of (0 :: nat)) (to_text b)))
   }"

definition sys_sethostname :: "kernel \<Rightarrow> string \<Rightarrow> err option io" where [sys_defs]:
  "sys_sethostname K name = do_unit K (SetHostname name)"

definition sys_sync :: "kernel \<Rightarrow> err option io" where [sys_defs]:
  "sys_sync K = do_unit K Sync"

definition sys_reboot :: "kernel \<Rightarrow> nat \<Rightarrow> err option io" where [sys_defs]:
  "sys_reboot K cmd = do_unit K (Reboot cmd)"

definition sys_kill_all :: "kernel \<Rightarrow> nat \<Rightarrow> err option io" where [sys_defs]:
  "sys_kill_all K sig = do_unit K (Kill (-1) sig)"

definition sys_kernel_log :: "kernel \<Rightarrow> (err + bytes) io" where [sys_defs]:
  "sys_kernel_log K = do {
     size \<leftarrow> do_num K (Klog 10 0);
     let n = (case size of Inl e \<Rightarrow> 262144 | Inr s \<Rightarrow> if s \<le> 0 then 262144 else nat s);
     r \<leftarrow> do_bytes K (Klog 3 n);
     give (case r of Inl e \<Rightarrow> Inl e | Inr b \<Rightarrow> Inr (take n b))
   }"

text \<open>\<^verbatim>\<open>Reap\<close>: the pid and whether a child was collected, or an error.\<close>

definition sys_reap :: "kernel \<Rightarrow> (err + (int \<times> bool)) io" where [sys_defs]:
  "sys_reap K = do {
     r \<leftarrow> do_num K Wait4;
     give (case r of
             Inl e \<Rightarrow> (if e = Errno ECHILD then Inr (0, False) else Inl e)
           | Inr pid \<Rightarrow> (if pid \<le> 0 then Inr (0, False) else Inr (pid, True)))
   }"

definition st_rdonly :: nat where "st_rdonly = 1"

definition sys_is_read_only :: "kernel \<Rightarrow> string \<Rightarrow> (err + bool) io" where [sys_defs]:
  "sys_is_read_only K path = do {
     r \<leftarrow> do_num K (Statfs path);
     give (case r of Inl e \<Rightarrow> Inl e | Inr flags \<Rightarrow> Inr (flags AND int st_rdonly \<noteq> 0))
   }"

section \<open>Loop devices\<close>

definition loop_control :: string where "loop_control = ''/dev/loop-control''"

text \<open>The descriptors are closed in reverse order of their opening, as the \<^verbatim>\<open>defer\<close>s do.\<close>

definition sys_loop_attach :: "kernel \<Rightarrow> string \<Rightarrow> bool \<Rightarrow> (err + string) io" where [sys_defs]:
  "sys_loop_attach K path read_only = do {
     backing \<leftarrow> do_num K (OpenFile path (\<not> read_only));
     (case backing of
        Inl e \<Rightarrow> give (Inl e)
      | Inr bfd \<Rightarrow> do {
          ctl \<leftarrow> do_num K (OpenFile loop_control True);
          (case ctl of
             Inl e \<Rightarrow> do {
               _ \<leftarrow> do_unit K (CloseFd bfd);
               give (Inl (wrap ''open %s: %w'' [loop_control] e)) }
           | Inr cfd \<Rightarrow> do {
               n \<leftarrow> do_num K (LoopFree cfd);
               (case n of
                  Inl e \<Rightarrow> do {
                    _ \<leftarrow> do_unit K (CloseFd cfd);
                    _ \<leftarrow> do_unit K (CloseFd bfd);
                    give (Inl (wrap ''allocate loop device: %w'' [] e)) }
                | Inr i \<Rightarrow> do {
                    let dev = ''/dev/loop'' @ dec_int i;
                    loop \<leftarrow> do_num K (OpenFile dev True);
                    (case loop of
                       Inl e \<Rightarrow> do {
                         _ \<leftarrow> do_unit K (CloseFd cfd);
                         _ \<leftarrow> do_unit K (CloseFd bfd);
                         give (Inl (wrap ''open %s: %w'' [dev] e)) }
                     | Inr lfd \<Rightarrow> do {
                         r \<leftarrow> do_unit K (LoopConfigure lfd bfd read_only);
                         _ \<leftarrow> do_unit K (CloseFd lfd);
                         _ \<leftarrow> do_unit K (CloseFd cfd);
                         _ \<leftarrow> do_unit K (CloseFd bfd);
                         give (case r of
                                 Some e \<Rightarrow> Inl (wrap ''configure %s: %w'' [dev] e)
                               | None \<Rightarrow> Inr dev) })
                  })
             })
        })
   }"

section \<open>Network interfaces\<close>

definition iff_up_running :: "16 word" where "iff_up_running = 0x1 OR 0x40"

text \<open>A socket's descriptor is closed on every way out of the body.\<close>

definition with_socket :: "kernel \<Rightarrow> (int \<Rightarrow> err option io) \<Rightarrow> err option io" where
  "with_socket K body = do {
     s \<leftarrow> do_num K Socket;
     (case s of
        Inl e \<Rightarrow> give (Some e)
      | Inr fd \<Rightarrow> do {
          r \<leftarrow> body fd;
          _ \<leftarrow> do_unit K (CloseFd fd);
          give r })
   }"

definition sys_link_up :: "kernel \<Rightarrow> string \<Rightarrow> err option io" where [sys_defs]:
  "sys_link_up K name = with_socket K (\<lambda>fd.
     guard_err (do_unit K (NewIfreq name)) Some (do {
       f \<leftarrow> do_num K (Ioctl ''SIOCGIFFLAGS'' name []);
       (case f of
          Inl e \<Rightarrow> give (Some e)
        | Inr flags \<Rightarrow>
            do_unit K (Ioctl ''SIOCSIFFLAGS'' name
              (put_le16 (word_of_int flags OR iff_up_running))))
     }))"

text \<open>One \<^verbatim>\<open>ioctl\<close> for the address and one for the mask, each on a fresh request.\<close>

fun set_addr_steps :: "kernel \<Rightarrow> string \<Rightarrow> (string \<times> bytes) list \<Rightarrow> err option io" where
  "set_addr_steps K iface [] = give None"
| "set_addr_steps K iface ((req, addr) # steps) =
     guard_err (do_unit K (NewIfreq iface)) Some
       (guard_err (do_unit K (IfreqSetAddr iface addr)) Some
         (guard_err (do_unit K (Ioctl req iface addr)) Some
           (set_addr_steps K iface steps)))"

definition sys_set_addr :: "kernel \<Rightarrow> string \<Rightarrow> bytes \<Rightarrow> bytes \<Rightarrow> err option io" where [sys_defs]:
  "sys_set_addr K iface ip netmask = with_socket K (\<lambda>fd.
     set_addr_steps K iface [(''SIOCSIFADDR'', to4 ip), (''SIOCSIFNETMASK'', to4 netmask)])"

definition rtf_up_gateway :: nat where "rtf_up_gateway = 1 OR 2"

definition sys_add_default_route :: "kernel \<Rightarrow> bytes \<Rightarrow> err option io" where [sys_defs]:
  "sys_add_default_route K gw = with_socket K (\<lambda>fd. do_unit K (RouteAdd (sockaddr4 gw) rtf_up_gateway))"

section \<open>The DHCP socket\<close>

definition sys_dhcp_conn :: "kernel \<Rightarrow> string \<Rightarrow> (err + int) io" where [sys_defs]:
  "sys_dhcp_conn K iface = do {
     s \<leftarrow> do_num K Socket;
     (case s of
        Inl e \<Rightarrow> give (Inl e)
      | Inr fd \<Rightarrow> do {
          r \<leftarrow> guard_err (do_unit K (SetSockOpt ''SO_REUSEADDR'' [])) Some
                 (guard_err (do_unit K (SetSockOpt ''SO_BROADCAST'' [])) Some
                   (guard_err (do_unit K (SetSockOpt ''SO_BINDTODEVICE'' iface)) Some
                     (do_unit K (Bind 68))));
          (case r of
             None \<Rightarrow> give (Inr fd)
           | Some e \<Rightarrow> do { _ \<leftarrow> do_unit K (CloseFd fd); give (Inl e) })
        })
   }"

definition conn_send_to :: "kernel \<Rightarrow> bytes \<Rightarrow> bytes \<Rightarrow> err option io" where [sys_defs]:
  "conn_send_to K p dst = do_unit K (SendDatagram p (sockaddr4 dst) 67)"

definition conn_recv :: "kernel \<Rightarrow> nat \<Rightarrow> nat \<Rightarrow> (err + bytes) io" where [sys_defs]:
  "conn_recv K len timeout =
     guard_err (do_unit K (SetSockOpt ''SO_RCVTIMEO'' (dec timeout))) Inl (do {
       r \<leftarrow> do_bytes K (RecvDatagram len timeout);
       give (case r of
               Inl e \<Rightarrow> (if e = Errno EAGAIN then Inl DeadlineExceeded else Inl e)
             | Inr b \<Rightarrow> Inr (take len b))
     })"

text \<open>\<^verbatim>\<open>net.ParseMAC\<close> for the colon form sysfs uses: six, eight or twenty octets of two digits.\<close>

definition hex_value :: "char \<Rightarrow> nat option" where
  "hex_value c =
     (let k = of_char c :: nat in
      if 48 \<le> k \<and> k \<le> 57 then Some (k - 48)
      else if 97 \<le> k \<and> k \<le> 102 then Some (k - 87)
      else if 65 \<le> k \<and> k \<le> 70 then Some (k - 55) else None)"

fun hex_octet :: "string \<Rightarrow> byte option" where
  "hex_octet [a, b] =
     (case (hex_value a, hex_value b) of
        (Some x, Some y) \<Rightarrow> Some (word_of_nat (16 * x + y)) | _ \<Rightarrow> None)"
| "hex_octet _ = None"

definition parse_mac :: "string \<Rightarrow> bytes option" where
  "parse_mac s =
     (let os = map hex_octet (split_on (CHR '':'') s)
      in if None \<notin> set os \<and> length os \<in> {6, 8, 20} then Some (map the os) else None)"

definition sys_interface_mac :: "kernel \<Rightarrow> string \<Rightarrow> (err + bytes) io" where [sys_defs]:
  "sys_interface_mac K iface = do {
     r \<leftarrow> do_bytes K (ReadFile (''/sys/class/net/'' @ iface @ ''/address''));
     give (case r of
             Inl e \<Rightarrow> Inl e
           | Inr b \<Rightarrow>
               (case parse_mac (trim_space (to_text b)) of
                  Some mac \<Rightarrow> Inr mac
                | None \<Rightarrow> Inl (Errorf ''address %s: invalid MAC address'' [to_text b] None)))
   }"

section \<open>What the wrappers keep\<close>

lemma read_at_length:
  "run_state (sys_read_at K dev n off) h = (Inr b, h') \<Longrightarrow> length b = n"
  by (auto simp: sys_read_at_def split: sum.splits if_splits)

lemma read_modaliases_distinct:
  "distinct out \<Longrightarrow> distinct (fst (run_state (read_modaliases K ps out) h))"
  by (induction ps arbitrary: out h) (auto simp: Let_def split: sum.splits)

lemma modaliases_distinct: "distinct (fst (fst (run_state (sys_modaliases K) h)))"
  by (simp add: sys_modaliases_def read_modaliases_distinct split: prod.split)
     (metis distinct.simps(1) fst_conv read_modaliases_distinct)

lemma emits_with_socket [emits_intros]:
  assumes "\<And>fd. emits P (body fd)" and "P Socket" and "\<And>fd. P (CloseFd fd)"
  shows "emits P (with_socket K body)"
  unfolding with_socket_def by (intro emits_intros assms)

lemma emits_set_addr_steps:
  assumes "P (NewIfreq iface)" and "\<And>a. P (IfreqSetAddr iface a)" and "\<And>r a. P (Ioctl r iface a)"
  shows "emits P (set_addr_steps K iface steps)"
  using assms by (induction K iface steps rule: set_addr_steps.induct) (auto intro!: emits_intros)

lemma emits_read_modaliases:
  assumes "\<And>p. P (ReadFile p)"
  shows "emits P (read_modaliases K ps out)"
  by (induction ps arbitrary: out) (auto intro!: emits_intros simp: Let_def assms)

end
