(* ===== verification/Status.thy ===== *)
theory Status
  imports Sys_Linux "HOL-Library.Sublist"
begin

text \<open>
  \<^verbatim>\<open>internal/status/status.go\<close>: the record of what PID 1 decided during boot, its JSON form,
  and the recorder that writes it out after every change. A time is given as its rendered
  text. The sink is a program over the kernel, as the file under /run is.
\<close>

section \<open>The record\<close>

record step_entry =
  se_name :: string
  se_ok :: bool
  se_detail :: string
  se_error :: string
  se_at :: string

record child_entry =
  ce_argv :: "string list"
  ce_running :: bool
  ce_restarts :: nat
  ce_last_exit :: string

record boot_record =
  br_schema :: nat
  br_boot :: string
  br_switched :: bool
  br_hostname :: string
  br_steps :: "step_entry list"
  br_child :: child_entry

definition schema :: nat where "schema = 1"

definition no_child :: child_entry where
  "no_child = \<lparr>ce_argv = [], ce_running = False, ce_restarts = 0, ce_last_exit = []\<rparr>"

definition new_record :: "string \<Rightarrow> boot_record" where
  "new_record now = \<lparr>br_schema = schema, br_boot = now, br_switched = False, br_hostname = [],
     br_steps = [], br_child = no_child\<rparr>"

section \<open>JSON\<close>

text \<open>
  \<^verbatim>\<open>encoding/json\<close>: a string is escaped byte by byte, except that what is not valid UTF-8 becomes
  the replacement character and the two line separators are escaped as well.
\<close>

definition cont_byte :: "nat \<Rightarrow> nat \<Rightarrow> char \<Rightarrow> bool" where
  "cont_byte lo hi c = (lo \<le> (of_char c :: nat) \<and> (of_char c :: nat) \<le> hi)"

text \<open>How many bytes the first code point of a string takes, or 0 when it is not valid.\<close>

definition rune_len :: "string \<Rightarrow> nat" where
  "rune_len s =
     (case s of [] \<Rightarrow> 0 | c # cs \<Rightarrow>
        let b = of_char c :: nat;
            ok = (\<lambda>n lo hi. length cs \<ge> n \<and> cont_byte lo hi (cs ! 0) \<and>
                   list_all (cont_byte 0x80 0xBF) (take (n - 1) (tl cs)))
        in if b < 0x80 then 1
           else if 0xC2 \<le> b \<and> b \<le> 0xDF then (if ok 1 0x80 0xBF then 2 else 0)
           else if b = 0xE0 then (if ok 2 0xA0 0xBF then 3 else 0)
           else if b = 0xED then (if ok 2 0x80 0x9F then 3 else 0)
           else if 0xE1 \<le> b \<and> b \<le> 0xEF then (if ok 2 0x80 0xBF then 3 else 0)
           else if b = 0xF0 then (if ok 3 0x90 0xBF then 4 else 0)
           else if b = 0xF4 then (if ok 3 0x80 0x8F then 4 else 0)
           else if 0xF1 \<le> b \<and> b \<le> 0xF3 then (if ok 3 0x80 0xBF then 4 else 0)
           else 0)"

definition unicode_escape :: "byte \<Rightarrow> byte \<Rightarrow> string" where
  "unicode_escape hi lo = [CHR 0x5C, CHR ''u''] @ hex2 hi @ hex2 lo"

definition escape_char :: "char \<Rightarrow> string" where
  "escape_char c =
     (let k = of_char c :: nat in
      if c = CHR 0x22 \<or> c = CHR 0x5C then [CHR 0x5C, c]
      else if k = 8 then [CHR 0x5C, CHR ''b''] else if k = 12 then [CHR 0x5C, CHR ''f'']
      else if k = 10 then [CHR 0x5C, CHR ''n''] else if k = 13 then [CHR 0x5C, CHR ''r'']
      else if k = 9 then [CHR 0x5C, CHR ''t'']
      else if k < 32 \<or> c = CHR ''<'' \<or> c = CHR ''>'' \<or> c = CHR ''&'' then unicode_escape 0 (word_of_nat k)
      else [c])"

function escape_from :: "string \<Rightarrow> string" where
  "escape_from s =
     (if s = [] then []
      else if rune_len s = 0 then unicode_escape 0xFF 0xFD @ escape_from (tl s)
      else if rune_len s = 1 then escape_char (hd s) @ escape_from (tl s)
      else (let r = take (rune_len s) s in
        (if r = [CHR 0xE2, CHR 0x80, CHR 0xA8] then unicode_escape 0x20 0x28
         else if r = [CHR 0xE2, CHR 0x80, CHR 0xA9] then unicode_escape 0x20 0x29 else r) @
        escape_from (drop (rune_len s) s)))"
  by pat_completeness auto

termination
  by (relation "measure length") (auto simp: neq_Nil_conv)

declare escape_from.simps [simp del]

definition json_string :: "string \<Rightarrow> string" where
  "json_string s = CHR 0x22 # escape_from s @ [CHR 0x22]"

datatype json = JNull | JBool bool | JNum nat | JString string | JArray "json list" | JObject "(string \<times> json) list"

definition line_start :: "nat \<Rightarrow> string" where
  "line_start n = char_of (10 :: nat) # replicate (2 * n) CHR '' ''"

text \<open>\<^verbatim>\<open>MarshalIndent\<close> with two spaces; \<open>n\<close> is the nesting depth.\<close>

fun render_json :: "nat \<Rightarrow> json \<Rightarrow> string" where
  "render_json n JNull = ''null''"
| "render_json n (JBool b) = (if b then ''true'' else ''false'')"
| "render_json n (JNum k) = dec k"
| "render_json n (JString s) = json_string s"
| "render_json n (JArray []) = ''[]''"
| "render_json n (JArray vs) =
     ''['' @ join '','' (map (\<lambda>v. line_start (n + 1) @ render_json (n + 1) v) vs) @ line_start n @ '']''"
| "render_json n (JObject []) = ''{}''"
| "render_json n (JObject kvs) =
     ''{'' @ join '','' (map (\<lambda>kv. line_start (n + 1) @ json_string (fst kv) @ '': '' @ render_json (n + 1) (snd kv)) kvs) @
     line_start n @ ''}''"

text \<open>A field tagged \<^verbatim>\<open>omitempty\<close>; a slice with no elements that is not so tagged is \<^verbatim>\<open>null\<close>.\<close>

definition unless_empty :: "string \<Rightarrow> string \<Rightarrow> (string \<times> json) list" where
  "unless_empty k s = (if s = [] then [] else [(k, JString s)])"

definition step_json :: "step_entry \<Rightarrow> json" where
  "step_json s = JObject
     ([(''name'', JString (se_name s)), (''ok'', JBool (se_ok s))] @ unless_empty ''detail'' (se_detail s) @
      unless_empty ''error'' (se_error s) @ [(''at'', JString (se_at s))])"

definition child_json :: "child_entry \<Rightarrow> json" where
  "child_json c = JObject
     ((if ce_argv c = [] then [] else [(''argv'', JArray (map JString (ce_argv c)))]) @
      [(''running'', JBool (ce_running c)), (''restarts'', JNum (ce_restarts c))] @
      unless_empty ''lastExit'' (ce_last_exit c))"

definition record_json :: "boot_record \<Rightarrow> json" where
  "record_json r = JObject
     ([(''schema'', JNum (br_schema r)), (''boot'', JString (br_boot r)), (''switchedRoot'', JBool (br_switched r))] @
      unless_empty ''hostname'' (br_hostname r) @
      [(''steps'', if br_steps r = [] then JNull else JArray (map step_json (br_steps r))),
       (''child'', child_json (br_child r))])"

definition marshal :: "boot_record \<Rightarrow> bytes" where
  "marshal r = to_bytes (render_json 0 (record_json r))"

section \<open>The recorder\<close>

type_synonym sink = "(bytes \<Rightarrow> err option io) option"

record recorder =
  rc_rec :: boot_record
  rc_sink :: sink

definition flush_record :: "recorder \<Rightarrow> unit io" where
  "flush_record r =
     (case rc_sink r of None \<Rightarrow> give () | Some w \<Rightarrow> do { _ \<leftarrow> w (marshal (rc_rec r)); give () })"

definition change :: "(boot_record \<Rightarrow> boot_record) \<Rightarrow> recorder \<Rightarrow> recorder io" where
  "change f r = (let r' = r\<lparr>rc_rec := f (rc_rec r)\<rparr> in do { _ \<leftarrow> flush_record r'; give r' })"

definition add_step :: "string \<Rightarrow> err option \<Rightarrow> string \<Rightarrow> string \<Rightarrow> boot_record \<Rightarrow> boot_record" where
  "add_step name e detail now b = b\<lparr>br_steps := br_steps b @
     [\<lparr>se_name = name, se_ok = (e = None), se_detail = detail,
       se_error = (case e of None \<Rightarrow> [] | Some x \<Rightarrow> err_text x), se_at = now\<rparr>]\<rparr>"

definition put_child :: "string list \<Rightarrow> boot_record \<Rightarrow> boot_record" where
  "put_child argv b = b\<lparr>br_child := (br_child b)\<lparr>ce_argv := argv, ce_running := True\<rparr>\<rparr>"

definition exit_child :: "err option \<Rightarrow> boot_record \<Rightarrow> boot_record" where
  "exit_child e b = b\<lparr>br_child := (br_child b)\<lparr>ce_running := False, ce_restarts := ce_restarts (br_child b) + 1,
     ce_last_exit := (case e of Some x \<Rightarrow> err_text x | None \<Rightarrow> ''exited without an error'')\<rparr>\<rparr>"

definition record_step :: "string \<Rightarrow> err option \<Rightarrow> string \<Rightarrow> string \<Rightarrow> recorder \<Rightarrow> recorder io" where
  "record_step name e detail now = change (add_step name e detail now)"

definition set_switched :: "bool \<Rightarrow> recorder \<Rightarrow> recorder io" where
  "set_switched v = change (\<lambda>b. b\<lparr>br_switched := v\<rparr>)"

definition set_hostname :: "string \<Rightarrow> recorder \<Rightarrow> recorder io" where
  "set_hostname n = change (\<lambda>b. b\<lparr>br_hostname := n\<rparr>)"

definition set_child :: "string list \<Rightarrow> recorder \<Rightarrow> recorder io" where
  "set_child argv = change (put_child argv)"

definition child_exited :: "err option \<Rightarrow> recorder \<Rightarrow> recorder io" where
  "child_exited e = change (exit_child e)"

definition new_recorder :: "string \<Rightarrow> sink \<Rightarrow> recorder" where
  "new_recorder now w = \<lparr>rc_rec = new_record now, rc_sink = w\<rparr>"

definition new_from :: "string \<Rightarrow> recorder option \<Rightarrow> sink \<Rightarrow> recorder io" where
  "new_from now old w =
     (let r = \<lparr>rc_rec = (case old of Some o' \<Rightarrow> rc_rec o' | None \<Rightarrow> new_record now), rc_sink = w\<rparr>
      in do { _ \<leftarrow> flush_record r; give r })"

text \<open>What the rest of the program calls, as data.\<close>

datatype recorder_op =
    Op_step string "err option" string string
  | Op_switched bool
  | Op_hostname string
  | Op_child "string list"
  | Op_exited "err option"

fun apply_op :: "recorder_op \<Rightarrow> recorder \<Rightarrow> recorder io" where
  "apply_op (Op_step name e detail now) = record_step name e detail now"
| "apply_op (Op_switched v) = set_switched v"
| "apply_op (Op_hostname n) = set_hostname n"
| "apply_op (Op_child argv) = set_child argv"
| "apply_op (Op_exited e) = child_exited e"

fun apply_ops :: "recorder_op list \<Rightarrow> recorder \<Rightarrow> recorder io" where
  "apply_ops [] r = give r"
| "apply_ops (p # ps) r = do { r' \<leftarrow> apply_op p r; apply_ops ps r' }"

fun op_change :: "recorder_op \<Rightarrow> boot_record \<Rightarrow> boot_record" where
  "op_change (Op_step name e detail now) = add_step name e detail now"
| "op_change (Op_switched v) = (\<lambda>b. b\<lparr>br_switched := v\<rparr>)"
| "op_change (Op_hostname n) = (\<lambda>b. b\<lparr>br_hostname := n\<rparr>)"
| "op_change (Op_child argv) = put_child argv"
| "op_change (Op_exited e) = exit_child e"

lemma apply_op_change: "apply_op p = change (op_change p)"
  by (cases p) (simp_all add: record_step_def set_switched_def set_hostname_def set_child_def child_exited_def)

section \<open>The text form\<close>

text \<open>\<^verbatim>\<open>%-8s\<close>: padded on the right; \<^verbatim>\<open>fmt\<close> counts characters, a byte each in plain text.\<close>

definition pad_to :: "nat \<Rightarrow> string \<Rightarrow> string" where
  "pad_to n s = s @ replicate (n - length s) CHR '' ''"

definition eol :: string where "eol = [char_of (10 :: nat)]"

definition step_text :: "step_entry \<Rightarrow> string" where
  "step_text s = ''  '' @ pad_to 8 (if se_ok s then ''ok'' else ''FAILED'') @ '' '' @ pad_to 22 (se_name s) @ '' '' @
     se_detail s @ eol @
     (if se_error s = [] then [] else ''           '' @ se_error s @ eol)"

definition child_text :: "child_entry \<Rightarrow> string" where
  "child_text c =
     (if ce_argv c = [] then []
      else ''workload    '' @ join '' '' (ce_argv c) @ '' ('' @ (if ce_running c then ''running'' else ''stopped'') @
        '', restarts='' @ dec (ce_restarts c) @ '')'' @ eol @
        (if ce_last_exit c = [] then [] else ''last exit   '' @ ce_last_exit c @ eol))"

definition record_text :: "boot_record \<Rightarrow> string" where
  "record_text r =
     ''boot        '' @ br_boot r @ eol @
     (if br_hostname r = [] then [] else ''hostname    '' @ br_hostname r @ eol) @
     ''switched    '' @ (if br_switched r then ''true'' else ''false'') @ eol @
     child_text (br_child r) @ eol @ ''steps'' @ eol @ concat (map step_text (br_steps r))"

section \<open>The contract of a sink\<close>

text \<open>
  A sink replaces a file: writing is one call. The boot record goes to
  \<^verbatim>\<open>/run/k0smos/boot.json\<close>.
\<close>

definition file_sink :: "kernel \<Rightarrow> string \<Rightarrow> sink" where
  "file_sink K path = Some (\<lambda>b. sys_write_file K path b perm_0644)"

definition bootrecord_path :: string where "bootrecord_path = ''/run/k0smos/boot.json''"

locale record_sink =
  fixes w :: "bytes \<Rightarrow> err option io" and put :: "bytes \<Rightarrow> call"
  assumes one_write: "snd (run_state (w b) h) = h @ [put b]"
begin

lemma change_writes:
  "rc_sink r = Some w \<Longrightarrow>
   run_state (change f r) h = (r\<lparr>rc_rec := f (rc_rec r)\<rparr>, h @ [put (marshal (f (rc_rec r)))])"
  using one_write by (simp add: change_def flush_record_def Let_def split: prod.split) (metis snd_conv)

lemma apply_ops_writes:
  "rc_sink r = Some w \<Longrightarrow>
   run_state (apply_ops ps r) h =
     (r\<lparr>rc_rec := fold op_change ps (rc_rec r)\<rparr>,
      h @ map (\<lambda>k. put (marshal (fold op_change (take (Suc k) ps) (rc_rec r)))) [0..<length ps])"
proof (induction ps arbitrary: r h)
  case (Cons p ps)
  have "map (\<lambda>k. put (marshal (fold op_change (take (Suc k) (p # ps)) (rc_rec r)))) [0..<length (p # ps)] =
      put (marshal (op_change p (rc_rec r))) #
      map (\<lambda>k. put (marshal (fold op_change (take (Suc k) ps) (op_change p (rc_rec r))))) [0..<length ps]"
    by (simp add: upt_rec [of 0] map_Suc_upt [symmetric] comp_def del: upt_Suc)
  with Cons show ?case by (simp add: apply_op_change change_writes)
qed simp

end

interpretation bootfile: record_sink "\<lambda>b. sys_write_file K bootrecord_path b perm_0644"
    "\<lambda>b. WriteFile bootrecord_path b perm_0644" for K
  by unfold_locales (simp add: sys_write_file_def)

lemma steps_grow: "prefix (br_steps b) (br_steps (fold op_change ps b))"
proof (induction ps arbitrary: b)
  case (Cons p ps)
  have "prefix (br_steps b) (br_steps (op_change p b))"
    by (cases p) (simp_all add: add_step_def put_child_def exit_child_def)
  with Cons [of "op_change p b"] show ?case by (auto intro: prefix_order.trans)
qed simp

section \<open>Two goroutines\<close>

text \<open>
  The recorder is used from several goroutines (the boot itself, the DHCP renewal, the
  supervisor). Its lock covers the change and the copying of the record, each by itself, but
  not the write of the copy: these are the points at which another goroutine may run. The
  file is what its last writer had copied.
\<close>

datatype flush_event = Changes nat recorder_op | Copies nat | Writes nat

record flush_state =
  fs_rec :: boot_record
  fs_copy :: "nat \<Rightarrow> boot_record"
  fs_file :: "boot_record option"

fun flush_step :: "flush_event \<Rightarrow> flush_state \<Rightarrow> flush_state" where
  "flush_step (Changes t p) s = s\<lparr>fs_rec := op_change p (fs_rec s)\<rparr>"
| "flush_step (Copies t) s = s\<lparr>fs_copy := (fs_copy s)(t := fs_rec s)\<rparr>"
| "flush_step (Writes t) s = s\<lparr>fs_file := Some (fs_copy s t)\<rparr>"

text \<open>A goroutine's part of a schedule: each change is followed by its copy and its write.\<close>

fun in_order :: "flush_event list \<Rightarrow> bool" where
  "in_order [] = True"
| "in_order (Changes t p # Copies t' # Writes t'' # es) = in_order es"
| "in_order _ = False"

fun thread_of :: "flush_event \<Rightarrow> nat" where
  "thread_of (Changes t p) = t" | "thread_of (Copies t) = t" | "thread_of (Writes t) = t"

definition legal :: "flush_event list \<Rightarrow> bool" where
  "legal es = list_all (\<lambda>t. in_order (filter (\<lambda>e. thread_of e = t) es)) (remdups (map thread_of es))"

section \<open>Properties\<close>

text \<open>
  What a record has to say after some operations, read off them: a step for each that was recorded, in order and
  marked by its error; the latest word on the root, the name and the workload; as many restarts as there were
  exits, and a workload that runs when it was started after its last exit.
\<close>

definition latest :: "'a \<Rightarrow> 'a list \<Rightarrow> 'a" where "latest d xs = last (d # xs)"

lemma latest_simps [simp]: "latest d [] = d" "latest d (x # xs) = latest x xs"
  by (simp_all add: latest_def)

definition error_text :: "string \<Rightarrow> err option \<Rightarrow> string" where
  "error_text none e = (case e of None \<Rightarrow> none | Some x \<Rightarrow> err_text x)"

definition told :: "recorder_op list \<Rightarrow> boot_record \<Rightarrow> boot_record" where
  "told ps b =
     \<lparr>br_schema = br_schema b, br_boot = br_boot b,
      br_switched = latest (br_switched b) [v. Op_switched v \<leftarrow> ps],
      br_hostname = latest (br_hostname b) [n. Op_hostname n \<leftarrow> ps],
      br_steps = br_steps b @
        [\<lparr>se_name = name, se_ok = (e = None), se_detail = detail, se_error = error_text [] e, se_at = now\<rparr>.
           Op_step name e detail now \<leftarrow> ps],
      br_child =
        \<lparr>ce_argv = latest (ce_argv (br_child b)) [argv. Op_child argv \<leftarrow> ps],
         ce_running = latest (ce_running (br_child b))
           (concat (map (\<lambda>p. case p of Op_child argv \<Rightarrow> [True] | Op_exited e \<Rightarrow> [False] | _ \<Rightarrow> []) ps)),
         ce_restarts = ce_restarts (br_child b) + length [e. Op_exited e \<leftarrow> ps],
         ce_last_exit = latest (ce_last_exit (br_child b)) [error_text ''exited without an error'' e. Op_exited e \<leftarrow> ps]\<rparr>\<rparr>"

lemma fold_op_change_told: "fold op_change ps b = told ps b"
proof (induction ps arbitrary: b)
  case Nil
  show ?case by (simp add: told_def)
next
  case (Cons p ps)
  have "told ps (op_change p b) = told (p # ps) b"
    by (cases p) (simp_all add: told_def add_step_def put_child_def exit_child_def error_text_def)
  with Cons show ?case by simp
qed

text \<open>
  C39. Every change to the record is written out. Whatever operations a goroutine makes on the recorder one
  after the other, each of them makes one attempt to write the file under /run and no other call, and the last
  attempt is made with the JSON of the record as it then is, which says exactly what the operations told. An attempt
  may fail, which is ignored, and the file may be overwritten by another goroutine with an older
  record (\<open>stale_record_can_overwrite\<close>).
\<close>

theorem each_change_is_written_out:
  assumes "ps \<noteq> []" and "rc_sink r = file_sink K bootrecord_path"
  shows "\<exists>bs. run_state (apply_ops ps r) h =
      (r\<lparr>rc_rec := told ps (rc_rec r)\<rparr>, h @ map (\<lambda>b. WriteFile bootrecord_path b perm_0644) (bs @ [marshal (told ps (rc_rec r))])) \<and>
    Suc (length bs) = length ps"
proof -
  have w: "rc_sink r = Some (\<lambda>b. sys_write_file K bootrecord_path b perm_0644)"
    using assms(2) by (simp add: file_sink_def)
  obtain n where n: "length ps = Suc n" using assms(1) by (cases ps) auto
  then have "take (Suc n) ps = ps" by simp
  then show ?thesis
    by (intro exI [of _ "map (\<lambda>k. marshal (fold op_change (take (Suc k) ps) (rc_rec r))) [0..<n]"])
      (simp add: bootfile.apply_ops_writes [OF w] n fold_op_change_told)
qed

text \<open>Started, exited with an error, and started again.\<close>

theorem each_change_is_written_out_witness:
  "\<exists>bs. snd (run_state (apply_ops [Op_step ''mounts'' None [] ''t'', Op_child [''k0s''], Op_exited (Some (msg ''boom'')), Op_child [''k0s'']]
       (new_recorder ''t0'' (file_sink quiet_kernel bootrecord_path))) []) =
     map (\<lambda>b. WriteFile bootrecord_path b perm_0644) (bs @
       [marshal \<lparr>br_schema = 1, br_boot = ''t0'', br_switched = False, br_hostname = [],
          br_steps = [\<lparr>se_name = ''mounts'', se_ok = True, se_detail = [], se_error = [], se_at = ''t''\<rparr>],
          br_child = \<lparr>ce_argv = [''k0s''], ce_running = True, ce_restarts = 1, ce_last_exit = err_text (msg ''boom'')\<rparr>\<rparr>]) \<and> length bs = 3"
proof -
  let ?ps = "[Op_step ''mounts'' None [] ''t'', Op_child [''k0s''], Op_exited (Some (msg ''boom'')), Op_child [''k0s'']]"
  let ?r = "new_recorder ''t0'' (file_sink quiet_kernel bootrecord_path)"
  have t: "told ?ps (rc_rec ?r) = \<lparr>br_schema = 1, br_boot = ''t0'', br_switched = False, br_hostname = [],
          br_steps = [\<lparr>se_name = ''mounts'', se_ok = True, se_detail = [], se_error = [], se_at = ''t''\<rparr>],
          br_child = \<lparr>ce_argv = [''k0s''], ce_running = True, ce_restarts = 1, ce_last_exit = err_text (msg ''boom'')\<rparr>\<rparr>"
    by (simp add: told_def new_recorder_def new_record_def no_child_def schema_def error_text_def)
  have "?ps \<noteq> []" "rc_sink ?r = file_sink quiet_kernel bootrecord_path" by (simp_all add: new_recorder_def)
  from each_change_is_written_out [OF this, of "[]"] obtain bs where
    "run_state (apply_ops ?ps ?r) [] = (?r\<lparr>rc_rec := told ?ps (rc_rec ?r)\<rparr>,
       [] @ map (\<lambda>b. WriteFile bootrecord_path b perm_0644) (bs @ [marshal (told ?ps (rc_rec ?r))]))"
    and "Suc (length bs) = length ?ps" by blast
  then show ?thesis unfolding t by (intro exI [of _ bs]) simp
qed

text \<open>
  Handing the recorder over keeps the boot: the steps recorded in memory before there was a
  file are the first steps of everything recorded after, and the file starts with them.
\<close>

theorem early_steps_survive:
  assumes "run_state (new_from now (Some old) (file_sink K bootrecord_path)) h = (r, h1)"
    and "run_state (apply_ops ps r) h1 = (r', h2)"
  shows "h1 = h @ [WriteFile bootrecord_path (marshal (rc_rec old)) perm_0644] \<and>
    prefix (br_steps (rc_rec old)) (br_steps (rc_rec r'))"
proof -
  have r: "rc_rec r = rc_rec old" "rc_sink r = Some (\<lambda>b. sys_write_file K bootrecord_path b perm_0644)"
    and "h1 = h @ [WriteFile bootrecord_path (marshal (rc_rec old)) perm_0644]"
    using assms(1) by (auto simp: new_from_def flush_record_def file_sink_def sys_write_file_def)
  with assms(2) steps_grow show ?thesis by (auto simp: bootfile.apply_ops_writes [OF r(2)])
qed

theorem early_steps_survive_witness:
  "prefix [\<lparr>se_name = ''mounts'', se_ok = True, se_detail = [], se_error = [], se_at = ''t''\<rparr>]
     (br_steps (rc_rec (fst (run_state (apply_ops [Op_switched True]
       (fst (run_state (new_from ''t1'' (Some \<lparr>rc_rec = add_step ''mounts'' None [] ''t'' (new_record ''t0''), rc_sink = None\<rparr>)
          (file_sink quiet_kernel bootrecord_path)) []))) []))))"
proof -
  let ?old = "\<lparr>rc_rec = add_step ''mounts'' None [] ''t'' (new_record ''t0''), rc_sink = None\<rparr>"
  obtain r h1 where r: "run_state (new_from ''t1'' (Some ?old) (file_sink quiet_kernel bootrecord_path)) [] = (r, h1)"
    by fastforce
  obtain r' h2 where r': "run_state (apply_ops [Op_switched True] r) h1 = (r', h2)" by fastforce
  have same: "fst (run_state (apply_ops [Op_switched True] r) []) = r'"
    using r' by (simp add: apply_op_change change_def Let_def split: prod.splits)
  have "br_steps (rc_rec ?old) = [\<lparr>se_name = ''mounts'', se_ok = True, se_detail = [], se_error = [], se_at = ''t''\<rparr>]"
    by (simp add: add_step_def new_record_def)
  with early_steps_survive [OF r r'] show ?thesis by (simp add: r same del: apply_ops.simps)
qed

text \<open>
  The write is not ordered with the change: there is a schedule of two goroutines, each doing
  its change, copy and write in order, after which the file holds a record without the change
  made last, and nothing writes it again.
\<close>

theorem stale_record_can_overwrite:
  "legal [Changes 0 p, Copies 0, Changes 1 q, Copies 1, Writes 1, Writes 0] \<and>
   fs_file (fold flush_step [Changes 0 p, Copies 0, Changes 1 q, Copies 1, Writes 1, Writes 0] s) =
     Some (op_change p (fs_rec s)) \<and>
   fs_rec (fold flush_step [Changes 0 p, Copies 0, Changes 1 q, Copies 1, Writes 1, Writes 0] s) =
     op_change q (op_change p (fs_rec s))"
  by (simp add: legal_def)

end
