(* ===== verification/Base64.thy ===== *)
theory Base64
  imports Go_Strings
begin

text \<open>
  \<^verbatim>\<open>base64.StdEncoding\<close> of the standard library, as \<^verbatim>\<open>internal/metadata\<close> uses it for file contents
  and \<^verbatim>\<open>k0smosctl\<close> to render them: the standard alphabet with padding. The decoder skips line
  breaks, wants whole quanta and accepts trailing bits that are not zero.
\<close>

definition b64_alphabet :: string where
  "b64_alphabet = ''ABCDEFGHIJKLMNOPQRSTUVWXYZabcdefghijklmnopqrstuvwxyz0123456789+/''"

definition b64_digit :: "nat \<Rightarrow> char" where
  "b64_digit n = b64_alphabet ! n"

definition b64_value :: "char \<Rightarrow> nat option" where
  "b64_value c =
     (let k = of_char c :: nat in
      if 65 \<le> k \<and> k \<le> 90 then Some (k - 65)
      else if 97 \<le> k \<and> k \<le> 122 then Some (k - 71)
      else if 48 \<le> k \<and> k \<le> 57 then Some (k + 4)
      else if k = 43 then Some 62 else if k = 47 then Some 63 else None)"

fun b64_encode :: "bytes \<Rightarrow> string" where
  "b64_encode [] = []"
| "b64_encode [a] =
     (let v = unat a * 16 in [b64_digit (v div 64), b64_digit (v mod 64), CHR ''='', CHR ''=''])"
| "b64_encode [a, b] =
     (let v = (unat a * 256 + unat b) * 4 in
      [b64_digit (v div 4096), b64_digit (v div 64 mod 64), b64_digit (v mod 64), CHR ''=''])"
| "b64_encode (a # b # c # rest) =
     (let v = (unat a * 256 + unat b) * 256 + unat c in
      [b64_digit (v div 262144), b64_digit (v div 4096 mod 64), b64_digit (v div 64 mod 64),
       b64_digit (v mod 64)] @ b64_encode rest)"

fun b64_quanta :: "string \<Rightarrow> bytes option" where
  "b64_quanta [] = Some []"
| "b64_quanta (w # x # y # z # rest) =
     (case (b64_value w, b64_value x) of
        (Some p, Some q) \<Rightarrow>
          (if y = CHR ''='' then
             (if z = CHR ''='' \<and> rest = [] then Some [word_of_nat ((p * 64 + q) div 16)] else None)
           else
             (case b64_value y of
                None \<Rightarrow> None
              | Some r \<Rightarrow>
                  if z = CHR ''='' then
                    (if rest = [] then
                       (let v = ((p * 64 + q) * 64 + r) div 4 in
                        Some [word_of_nat (v div 256), word_of_nat (v mod 256)])
                     else None)
                  else
                    (case b64_value z of
                       None \<Rightarrow> None
                     | Some s \<Rightarrow>
                         (let v = ((p * 64 + q) * 64 + r) * 64 + s in
                          map_option (\<lambda>bs. word_of_nat (v div 65536) # word_of_nat (v div 256 mod 256) #
                                           word_of_nat (v mod 256) # bs)
                            (b64_quanta rest)))))
      | _ \<Rightarrow> None)"
| "b64_quanta _ = None"

definition b64_decode :: "string \<Rightarrow> bytes option" where
  "b64_decode s =
     b64_quanta (filter (\<lambda>c. c \<noteq> char_of (10 :: nat) \<and> c \<noteq> char_of (13 :: nat)) s)"

lemma b64_values: "map b64_value b64_alphabet = map Some [0..<64]"
  by (simp add: b64_alphabet_def b64_value_def upt_rec)

lemma b64_value_digit [simp]:
  assumes "n < 64"
  shows "b64_value (b64_digit n) = Some n"
proof -
  have "length b64_alphabet = 64" by (simp add: b64_alphabet_def)
  then have "b64_value (b64_digit n) = map b64_value b64_alphabet ! n"
    using assms by (simp add: b64_digit_def)
  with assms show ?thesis by (simp add: b64_values)
qed

lemma b64_value_none: "b64_value CHR ''='' = None" "is_space c \<Longrightarrow> b64_value c = None"
  by (auto simp: is_space_def b64_value_def Let_def)

lemma b64_digit_not_pad [simp]: "n < 64 \<Longrightarrow> b64_digit n \<noteq> CHR ''=''"
  using b64_value_digit [of n] b64_value_none(1) by force

lemma b64_digit_not_space [simp]: "n < 64 \<Longrightarrow> \<not> is_space (b64_digit n)"
  using b64_value_digit [of n] b64_value_none(2) by force

lemma unat_byte_less: "unat (b :: byte) < 256"
  using unsigned_less [of b] by simp

lemma word_of_unat_byte [simp]: "(word_of_nat (unat b) :: byte) = b"
  by simp

lemma quanta_four:
  "p < 64 \<Longrightarrow> q < 64 \<Longrightarrow> r < 64 \<Longrightarrow> s < 64 \<Longrightarrow> ((p * 64 + q) * 64 + r) * 64 + s = v \<Longrightarrow>
   b64_quanta (b64_digit p # b64_digit q # b64_digit r # b64_digit s # rest) =
     map_option (\<lambda>bs. word_of_nat (v div 65536) # word_of_nat (v div 256 mod 256) #
       word_of_nat (v mod 256) # bs) (b64_quanta rest)"
  by (simp add: Let_def)

lemma quanta_three:
  "p < 64 \<Longrightarrow> q < 64 \<Longrightarrow> r < 64 \<Longrightarrow> ((p * 64 + q) * 64 + r) div 4 = v \<Longrightarrow>
   b64_quanta [b64_digit p, b64_digit q, b64_digit r, CHR ''=''] =
     Some [word_of_nat (v div 256), word_of_nat (v mod 256)]"
  by (simp add: Let_def)

lemma quanta_two:
  "p < 64 \<Longrightarrow> q < 64 \<Longrightarrow> (p * 64 + q) div 16 = v \<Longrightarrow>
   b64_quanta [b64_digit p, b64_digit q, CHR ''='', CHR ''=''] = Some [word_of_nat v]"
  by simp

lemma two_digits: "v div (k * 64) * 64 + v div k mod 64 = v div k" for v k :: nat
  using div_mult_mod_eq [of "v div k" 64] by (simp add: div_mult2_eq)

lemma b64_quanta_encode: "b64_quanta (b64_encode bs) = Some bs"
proof (induction bs rule: b64_encode.induct)
  case (2 a)
  have a: "unat a < 256" by (rule unat_byte_less)
  define v where "v = unat a * 16"
  have "v div 64 * 64 + v mod 64 = v" by (rule div_mult_mod_eq)
  moreover have "v div 16 = unat a" "v div 64 < 64" "v mod 64 < 64" using a by (simp_all add: v_def)
  ultimately have "b64_quanta [b64_digit (v div 64), b64_digit (v mod 64), CHR ''='', CHR ''=''] =
      Some [word_of_nat (unat a)]"
    by (intro quanta_two) simp_all
  then show ?case by (simp only: b64_encode.simps Let_def v_def [symmetric] word_of_unat_byte)
next
  case (3 a b)
  have ab: "unat a < 256" "unat b < 256" by (rule unat_byte_less)+
  define v where "v = (unat a * 256 + unat b) * 4"
  have "v < 262144" using ab by (simp add: v_def)
  then have d: "v div 4096 < 64" "v div 64 mod 64 < 64" "v mod 64 < 64" by simp_all
  have "v div 4096 * 64 + v div 64 mod 64 = v div 64" using two_digits [of v 64] by simp
  moreover have "v div 64 * 64 + v mod 64 = v" by (rule div_mult_mod_eq)
  moreover have "v div 4 = unat a * 256 + unat b" by (simp add: v_def)
  ultimately have "b64_quanta [b64_digit (v div 4096), b64_digit (v div 64 mod 64), b64_digit (v mod 64), CHR ''=''] =
      Some [word_of_nat ((unat a * 256 + unat b) div 256), word_of_nat ((unat a * 256 + unat b) mod 256)]"
    by (intro quanta_three d) simp
  moreover have "(unat a * 256 + unat b) div 256 = unat a" "(unat a * 256 + unat b) mod 256 = unat b"
    using ab by simp_all
  ultimately show ?case by (simp only: b64_encode.simps Let_def v_def [symmetric] word_of_unat_byte)
next
  case (4 a b c rest)
  have abc: "unat a < 256" "unat b < 256" "unat c < 256" by (rule unat_byte_less)+
  define v where "v = (unat a * 256 + unat b) * 256 + unat c"
  have "v < 16777216" using abc by (simp add: v_def)
  then have d: "v div 262144 < 64" "v div 4096 mod 64 < 64" "v div 64 mod 64 < 64" "v mod 64 < 64"
    by simp_all
  have "v div 262144 * 64 + v div 4096 mod 64 = v div 4096" using two_digits [of v 4096] by simp
  moreover have "v div 4096 * 64 + v div 64 mod 64 = v div 64" using two_digits [of v 64] by simp
  moreover have "v div 64 * 64 + v mod 64 = v" by (rule div_mult_mod_eq)
  ultimately have w: "((v div 262144 * 64 + v div 4096 mod 64) * 64 + v div 64 mod 64) * 64 + v mod 64 = v"
    by simp
  have q: "v div 256 = unat a * 256 + unat b" using abc by (simp add: v_def)
  have "v mod 256 = unat c" using abc(3) by (simp only: v_def mod_mult_self3 mod_less)
  moreover have "v div 256 mod 256 = unat b" using abc(2) by (simp only: q mod_mult_self3 mod_less)
  moreover have "v div 65536 = unat a"
    using abc q div_mult2_eq [of v 256 256] by simp
  ultimately have "v div 65536 = unat a" "v div 256 mod 256 = unat b" "v mod 256 = unat c" by auto
  with quanta_four [OF d w, of "b64_encode rest"] 4 show ?case
    by (simp only: b64_encode.simps Let_def v_def [symmetric] word_of_unat_byte append_Cons append_Nil
        option.map)
qed simp

lemma no_space_chars [simp]: "\<not> is_space CHR ''=''" "is_space (char_of (13 :: nat))"
  by (simp_all add: is_space_def)

lemma b64_encode_no_space: "c \<in> set (b64_encode bs) \<Longrightarrow> \<not> is_space c"
proof (induction bs rule: b64_encode.induct)
  case (2 a)
  have "unat a < 256" by (rule unat_byte_less)
  then have "unat a * 16 div 64 < 64" by simp
  with 2 show ?case by (auto simp: Let_def)
next
  case (3 a b)
  have "unat a < 256" "unat b < 256" by (rule unat_byte_less)+
  then have "(unat a * 256 + unat b) * 4 div 4096 < 64" by simp
  with 3 show ?case by (auto simp: Let_def)
next
  case (4 a b c' rest)
  have "unat a < 256" "unat b < 256" "unat c' < 256" by (rule unat_byte_less)+
  then have "((unat a * 256 + unat b) * 256 + unat c') div 262144 < 64" by simp
  with 4 show ?case by (auto simp: Let_def)
qed simp

lemma b64_decode_encode: "b64_decode (b64_encode bs) = Some bs"
proof -
  have "filter (\<lambda>c. c \<noteq> char_of (10 :: nat) \<and> c \<noteq> char_of (13 :: nat)) (b64_encode bs) = b64_encode bs"
    using b64_encode_no_space [of "char_of (10 :: nat)" bs] b64_encode_no_space [of "char_of (13 :: nat)" bs]
    by (intro filter_True) auto
  then show ?thesis by (simp add: b64_decode_def b64_quanta_encode)
qed

lemma trim_space_encode: "trim_space (b64_encode bs) = b64_encode bs"
proof (cases "b64_encode bs = []")
  case False
  then show ?thesis
    using b64_encode_no_space by (intro trim_space_plain) (auto simp: plain_word_def)
qed simp

end
