(* ===== verification/Blkid.thy ===== *)
theory Blkid
  imports Sys_Linux
begin

text \<open>
  \<^verbatim>\<open>internal/blkid/probe.go\<close> and \<^verbatim>\<open>blkid.go\<close>: which filesystem a block device holds, and how a
  \<^verbatim>\<open>UUID=\<close> or \<^verbatim>\<open>LABEL=\<close> specification becomes a device path. The Go interface \<^verbatim>\<open>Prober\<close> is
  the record \<open>prober\<close>; its contract is the locale \<open>block_prober\<close>, which \<^verbatim>\<open>*sys.Sys\<close> meets.

  Against a set of disks whose contents do not change under the probe, the scanning loops
  compute a function of the images, \<open>image_info\<close>; the lemmas on \<open>still_disks\<close> say so.
\<close>

section \<open>Superblock probes\<close>

definition sb_offset :: int where "sb_offset = 1024"
definition sb_magic_off :: nat where "sb_magic_off = 0x38"
definition sb_uuid_off :: nat where "sb_uuid_off = 0x68"
definition sb_label_off :: nat where "sb_label_off = 0x78"
definition ext4_magic :: "16 word" where "ext4_magic = 0xEF53"
definition sb_len :: nat where "sb_len = 256"

definition iso_pvd_offset :: nat where "iso_pvd_offset = 32768"
definition iso_label_off :: nat where "iso_label_off = 40"

definition fat32_type_off :: nat where "fat32_type_off = 0x52"
definition fat32_label_off :: nat where "fat32_label_off = 0x47"
definition fat32_serial_off :: nat where "fat32_serial_off = 0x43"
definition fat16_type_off :: nat where "fat16_type_off = 0x36"
definition fat16_label_off :: nat where "fat16_label_off = 0x2b"
definition fat16_serial_off :: nat where "fat16_serial_off = 0x27"

definition erofs_sb_offset :: int where "erofs_sb_offset = 1024"
definition erofs_sb_len :: nat where "erofs_sb_len = 128"
definition erofs_magic :: "32 word" where "erofs_magic = 0xE0F5E1E2"
definition erofs_uuid_off :: nat where "erofs_uuid_off = 48"
definition erofs_label_off :: nat where "erofs_label_off = 64"

lemmas layout_defs =
  sb_offset_def sb_magic_off_def sb_uuid_off_def sb_label_off_def ext4_magic_def sb_len_def
  iso_pvd_offset_def iso_label_off_def fat32_type_off_def fat32_label_off_def
  fat32_serial_off_def fat16_type_off_def fat16_label_off_def fat16_serial_off_def
  erofs_sb_offset_def erofs_sb_len_def erofs_magic_def erofs_uuid_off_def erofs_label_off_def

definition format_uuid :: "bytes \<Rightarrow> string" where
  "format_uuid b =
     hex_bytes (slice 0 4 b) @ ''-'' @ hex_bytes (slice 4 6 b) @ ''-'' @
     hex_bytes (slice 6 8 b) @ ''-'' @ hex_bytes (slice 8 10 b) @ ''-'' @
     hex_bytes (slice 10 16 b)"

definition trim_nul :: "bytes \<Rightarrow> bytes" where "trim_nul b = takeWhile (\<lambda>x. x \<noteq> 0) b"

definition blank_or_nul :: "char \<Rightarrow> bool" where
  "blank_or_nul c = (c = CHR '' '' \<or> c = char_of (0 :: nat))"

type_synonym ident = "(string \<times> string) option"

definition probe_ext4 :: "bytes \<Rightarrow> ident" where
  "probe_ext4 b =
     (if length b < sb_label_off + 16 then None
      else if le16 (drop sb_magic_off b) \<noteq> ext4_magic then None
      else Some (format_uuid (slice sb_uuid_off (sb_uuid_off + 16) b),
                 to_text (trim_nul (slice sb_label_off (sb_label_off + 16) b))))"

definition probe_iso9660 :: "bytes \<Rightarrow> ident" where
  "probe_iso9660 b =
     (if length b < iso_pvd_offset + iso_label_off + 32 then None
      else let pvd = drop iso_pvd_offset b in
           if pvd ! 0 \<noteq> 1 \<or> to_text (slice 1 6 pvd) \<noteq> ''CD001'' then None
           else Some ([], trim_right blank_or_nul
                            (to_text (slice iso_label_off (iso_label_off + 32) pvd))))"

definition probe_fat :: "bytes \<Rightarrow> ident" where
  "probe_fat b =
     (if length b < 512 \<or> b ! 510 \<noteq> 0x55 \<or> b ! 511 \<noteq> 0xaa then None
      else
        (let offs =
           (if has_prefix (to_text (slice fat32_type_off (fat32_type_off + 5) b)) ''FAT32''
            then Some (fat32_label_off, fat32_serial_off)
            else if has_prefix (to_text (slice fat16_type_off (fat16_type_off + 3) b)) ''FAT''
            then Some (fat16_label_off, fat16_serial_off)
            else None)
         in case offs of
              None \<Rightarrow> None
            | Some (label_off, serial_off) \<Rightarrow>
                (let serial = unat (le32 (drop serial_off b)) in
                 Some (upper_hex4 (serial div 65536) @ ''-'' @ upper_hex4 (serial mod 65536),
                       trim_right blank_or_nul (to_text (slice label_off (label_off + 11) b))))))"

definition probe_erofs :: "bytes \<Rightarrow> ident" where
  "probe_erofs b =
     (if length b < erofs_label_off + 16 then None
      else if le32 b \<noteq> erofs_magic then None
      else Some (format_uuid (slice erofs_uuid_off (erofs_uuid_off + 16) b),
                 trim_right blank_or_nul
                   (to_text (slice erofs_label_off (erofs_label_off + 16) b))))"

record probe_spec =
  pr_name :: string
  pr_offset :: int
  pr_length :: nat
  pr_parse :: "bytes \<Rightarrow> ident"

definition probers :: "probe_spec list" where
  "probers =
     [\<lparr>pr_name = ''ext4'', pr_offset = sb_offset, pr_length = sb_len, pr_parse = probe_ext4\<rparr>,
      \<lparr>pr_name = ''erofs'', pr_offset = erofs_sb_offset, pr_length = erofs_sb_len,
       pr_parse = probe_erofs\<rparr>,
      \<lparr>pr_name = ''iso9660'', pr_offset = 0, pr_length = iso_pvd_offset + 2048,
       pr_parse = probe_iso9660\<rparr>,
      \<lparr>pr_name = ''vfat'', pr_offset = 0, pr_length = 1024, pr_parse = probe_fat\<rparr>]"

record info =
  fs_type :: string
  fs_uuid :: string
  fs_label :: string

section \<open>Probing devices\<close>

record prober =
  block_devices :: "(err + string list) io"
  read_at :: "string \<Rightarrow> nat \<Rightarrow> int \<Rightarrow> (err + bytes) io"

fun identify_with :: "'p prober_scheme \<Rightarrow> string \<Rightarrow> probe_spec list \<Rightarrow> info option io" where
  "identify_with p dev [] = give None"
| "identify_with p dev (pr # prs) = do {
     r \<leftarrow> read_at p dev (pr_length pr) (pr_offset pr);
     (case r of
        Inl e \<Rightarrow> identify_with p dev prs
      | Inr buf \<Rightarrow>
          (case pr_parse pr buf of
             Some (uuid, label) \<Rightarrow>
               give (Some \<lparr>fs_type = pr_name pr, fs_uuid = uuid, fs_label = label\<rparr>)
           | None \<Rightarrow> identify_with p dev prs))
   }"

definition identify :: "'p prober_scheme \<Rightarrow> string \<Rightarrow> info option io" where
  "identify p dev = identify_with p dev probers"

text \<open>The unexported twin of \<open>identify\<close> returns the uuid and label only.\<close>

definition identify_ids :: "'p prober_scheme \<Rightarrow> string \<Rightarrow> ident io" where
  "identify_ids p dev = do {
     r \<leftarrow> identify_with p dev probers;
     give (map_option (\<lambda>i. (fs_uuid i, fs_label i)) r)
   }"

definition virtual_prefixes :: "string list" where
  "virtual_prefixes = [''loop'', ''ram'', ''zram'', ''dm-'', ''md'', ''nbd'', ''fd'', ''sr'']"

definition is_virtual :: "string \<Rightarrow> bool" where
  "is_virtual dev = list_ex (has_prefix dev) virtual_prefixes"

fun blank_from :: "'p prober_scheme \<Rightarrow> string list \<Rightarrow> string list io" where
  "blank_from p [] = give []"
| "blank_from p (dev # devs) =
     (if is_virtual dev then blank_from p devs
      else do {
        i \<leftarrow> identify p dev;
        rest \<leftarrow> blank_from p devs;
        give (case i of None \<Rightarrow> dev # rest | Some _ \<Rightarrow> rest)
      })"

definition blank :: "'p prober_scheme \<Rightarrow> (err + string list) io" where
  "blank p = do {
     devs \<leftarrow> block_devices p;
     (case devs of
        Inl e \<Rightarrow> give (Inl (wrap ''list block devices: %w'' [] e))
      | Inr ds \<Rightarrow> do { out \<leftarrow> blank_from p ds; give (Inr out) })
   }"

section \<open>Resolving a specification\<close>

definition spec_match :: "bool \<Rightarrow> string \<Rightarrow> string \<times> string \<Rightarrow> bool" where
  "spec_match by_uuid want ids =
     (let got = (if by_uuid then fst ids else snd ids)
      in got = want \<or> (by_uuid \<and> equal_fold got want))"

fun resolve_from :: "'p prober_scheme \<Rightarrow> bool \<Rightarrow> string \<Rightarrow> string \<Rightarrow> string list \<Rightarrow> (err + string) io"
where
  "resolve_from p by_uuid want spec [] =
     give (Inl (Errorf ''no block device matches %s'' [spec] None))"
| "resolve_from p by_uuid want spec (dev # devs) = do {
     r \<leftarrow> identify_ids p dev;
     (case r of
        None \<Rightarrow> resolve_from p by_uuid want spec devs
      | Some ids \<Rightarrow>
          if spec_match by_uuid want ids then give (Inr (''/dev/'' @ dev))
          else resolve_from p by_uuid want spec devs)
   }"

definition resolve :: "'p prober_scheme \<Rightarrow> string \<Rightarrow> (err + string) io" where
  "resolve p spec =
     (case cut (CHR ''='') spec of (kind, want, found) \<Rightarrow>
        if \<not> found then give (Inr spec)
        else if to_upper kind = ''UUID'' \<or> to_upper kind = ''LABEL'' then do {
          devs \<leftarrow> block_devices p;
          (case devs of
             Inl e \<Rightarrow> give (Inl (wrap ''list block devices: %w'' [] e))
           | Inr ds \<Rightarrow> resolve_from p (to_upper kind = ''UUID'') want spec ds)
        }
        else give (Inr spec))"

fun resolve_wait_from ::
  "'p prober_scheme \<Rightarrow> string \<Rightarrow> nat \<Rightarrow> unit io \<Rightarrow> err option \<Rightarrow> (err + string) io"
where
  "resolve_wait_from p spec 0 sleep last_err =
     give (case last_err of None \<Rightarrow> Inr [] | Some e \<Rightarrow> Inl e)"
| "resolve_wait_from p spec (Suc n) sleep last_err = do {
     r \<leftarrow> resolve p spec;
     (case r of
        Inr dev \<Rightarrow> give (Inr dev)
      | Inl e \<Rightarrow> do { _ \<leftarrow> sleep; resolve_wait_from p spec n sleep (Some e) })
   }"

definition resolve_wait :: "'p prober_scheme \<Rightarrow> string \<Rightarrow> nat \<Rightarrow> unit io \<Rightarrow> (err + string) io" where
  "resolve_wait p spec attempts sleep = resolve_wait_from p spec attempts sleep None"

section \<open>The contract of a prober\<close>

text \<open>
  What the scanning loops rely on: a read that succeeds has the length asked for, and
  neither operation makes a call that is not a mere read (\<open>reads\<close>).
\<close>

locale block_prober =
  fixes p :: "'p prober_scheme"
  assumes read_length: "run_state (read_at p dev n off) h = (Inr b, h') \<Longrightarrow> length b = n"
    and read_reads: "emits reads (read_at p dev n off)"
    and list_reads: "emits reads (block_devices p)"
begin

lemma identify_with_reads: "emits reads (identify_with p dev prs)"
  by (induction prs) (auto intro!: emits_intros read_reads)

lemma identify_reads: "emits reads (identify p dev)"
  unfolding identify_def by (rule identify_with_reads)

lemma blank_from_reads: "emits reads (blank_from p devs)"
  by (induction devs) (auto intro!: emits_intros identify_reads)

lemma blank_reads: "emits reads (blank p)"
  unfolding blank_def by (intro emits_intros list_reads blank_from_reads)

lemma resolve_from_reads: "emits reads (resolve_from p u want spec devs)"
  by (induction devs) (auto intro!: emits_intros identify_with_reads simp: identify_ids_def)

lemma resolve_reads: "emits reads (resolve p spec)"
  unfolding resolve_def by (intro emits_intros list_reads resolve_from_reads)

text \<open>An identification names a prober of the table, and its parser accepted what was read.\<close>

lemma identify_with_sound:
  "run_state (identify_with p dev prs) h = (Some i, h') \<Longrightarrow>
   \<exists>pr\<in>set prs. \<exists>b. length b = pr_length pr \<and> fs_type i = pr_name pr \<and>
     pr_parse pr b = Some (fs_uuid i, fs_label i)"
proof (induction prs arbitrary: h)
  case (Cons pr prs)
  obtain r h1 where r: "run_state (read_at p dev (pr_length pr) (pr_offset pr)) h = (r, h1)"
    by fastforce
  show ?case
  proof (cases "\<exists>b ids. r = Inr b \<and> pr_parse pr b = Some ids")
    case True
    then obtain b u l where "r = Inr b" "pr_parse pr b = Some (u, l)" by auto
    with r Cons.prems read_length show ?thesis by fastforce
  next
    case False
    with r Cons.prems have "run_state (identify_with p dev prs) h1 = (Some i, h')"
      by (auto split: sum.splits option.splits)
    from Cons.IH [OF this] show ?thesis by auto
  qed
qed simp

lemma identify_known:
  assumes "run_state (identify p dev) h = (Some i, h')"
  shows "fs_type i \<in> {''ext4'', ''erofs'', ''iso9660'', ''vfat''}"
  using identify_with_sound [OF assms [unfolded identify_def]] by (auto simp: probers_def)

end

definition sys_prober :: "kernel \<Rightarrow> prober" where
  "sys_prober K = \<lparr>block_devices = sys_block_devices K, read_at = sys_read_at K\<rparr>"

lemma emits_sys_read_at: "(\<And>f. P (OpenFile f False)) \<Longrightarrow> (\<And>f o' n. P (PRead f o' n)) \<Longrightarrow>
   (\<And>fd. P (CloseFd fd)) \<Longrightarrow> emits P (sys_read_at K dev n off)"
  unfolding sys_read_at_def by (intro emits_intros)

interpretation sysp: block_prober "sys_prober K" for K
  by unfold_locales
     (auto simp: sys_prober_def sys_block_devices_def
        intro: read_at_length emits_sys_read_at emits_intros)

section \<open>Disks that hold still\<close>

text \<open>
  \<open>image_info\<close> is what a disk image holds, without any input or output: the first prober of
  the table whose bytes the image covers and whose parser accepts them.
\<close>

definition read_image :: "bytes \<Rightarrow> nat \<Rightarrow> int \<Rightarrow> bytes option" where
  "read_image img n off =
     (if 0 \<le> off \<and> nat off + n \<le> length img then Some (slice (nat off) (nat off + n) img)
      else None)"

fun image_info_with :: "bytes option \<Rightarrow> probe_spec list \<Rightarrow> info option" where
  "image_info_with d [] = None"
| "image_info_with d (pr # prs) =
     (case Option.bind d (\<lambda>img. read_image img (pr_length pr) (pr_offset pr)) of
        None \<Rightarrow> image_info_with d prs
      | Some buf \<Rightarrow>
          (case pr_parse pr buf of
             Some (uuid, label) \<Rightarrow>
               Some \<lparr>fs_type = pr_name pr, fs_uuid = uuid, fs_label = label\<rparr>
           | None \<Rightarrow> image_info_with d prs))"

definition image_info :: "bytes option \<Rightarrow> info option" where
  "image_info d = image_info_with d probers"

definition matches_spec :: "bool \<Rightarrow> string \<Rightarrow> bytes option \<Rightarrow> bool" where
  "matches_spec by_uuid want d =
     (case image_info d of
        None \<Rightarrow> False | Some i \<Rightarrow> spec_match by_uuid want (fs_uuid i, fs_label i))"

locale still_disks = block_prober p for p :: "'p prober_scheme" +
  fixes disks :: "string \<Rightarrow> bytes option" and names :: "string list"
  assumes read_disk:
      "(case fst (run_state (read_at p d n off) h) of Inl _ \<Rightarrow> None | Inr b \<Rightarrow> Some b) =
       Option.bind (disks d) (\<lambda>img. read_image img n off)"
    and list_disks: "fst (run_state (block_devices p) h) = Inr names"
begin

lemma identify_with_image:
  "fst (run_state (identify_with p d prs) h) = image_info_with (disks d) prs"
proof (induction prs arbitrary: h)
  case (Cons pr prs)
  obtain r h1 where r: "run_state (read_at p d (pr_length pr) (pr_offset pr)) h = (r, h1)"
    by fastforce
  from read_disk [of d "pr_length pr" "pr_offset pr" h] r Cons show ?case
    by (auto split: sum.splits option.splits)
qed simp

lemma identify_image: "fst (run_state (identify p d) h) = image_info (disks d)"
  by (simp add: identify_def image_info_def identify_with_image)

lemma blank_from_image:
  "fst (run_state (blank_from p ds) h) = [d \<leftarrow> ds. \<not> is_virtual d \<and> image_info (disks d) = None]"
proof (induction ds arbitrary: h)
  case (Cons d ds)
  obtain i h1 where i: "run_state (identify p d) h = (i, h1)" by fastforce
  obtain rest h2 where rest: "run_state (blank_from p ds) h1 = (rest, h2)" by fastforce
  from identify_image [of d h] i have "i = image_info (disks d)" by simp
  moreover from Cons [of h1] rest
  have "rest = [d \<leftarrow> ds. \<not> is_virtual d \<and> image_info (disks d) = None]" by simp
  ultimately show ?case using i rest Cons by (auto split: option.splits)
qed simp

lemma blank_image:
  "fst (run_state (blank p) h) =
     Inr [d \<leftarrow> names. \<not> is_virtual d \<and> image_info (disks d) = None]"
proof -
  obtain r h1 where r: "run_state (block_devices p) h = (r, h1)" by fastforce
  with list_disks [of h] have "r = Inr names" by simp
  with r blank_from_image [of names h1] show ?thesis by (auto simp: blank_def split: prod.split)
qed

lemma resolve_from_image:
  "fst (run_state (resolve_from p u want spec ds) h) =
     (case find (\<lambda>d. matches_spec u want (disks d)) ds of
        Some d \<Rightarrow> Inr (''/dev/'' @ d)
      | None \<Rightarrow> Inl (Errorf ''no block device matches %s'' [spec] None))"
proof (induction ds arbitrary: h)
  case (Cons d ds)
  obtain i h1 where i: "run_state (identify p d) h = (i, h1)" by fastforce
  from identify_image [of d h] i have "i = image_info (disks d)" by simp
  with i Cons show ?case
    by (auto simp: identify_ids_def identify_def [symmetric] matches_spec_def split: option.splits)
qed simp

lemma resolve_image:
  assumes "cut (CHR ''='') spec = (kind, want, True)"
    and "to_upper kind = ''UUID'' \<or> to_upper kind = ''LABEL''"
  shows "fst (run_state (resolve p spec) h) =
     (case find (\<lambda>d. matches_spec (to_upper kind = ''UUID'') want (disks d)) names of
        Some d \<Rightarrow> Inr (''/dev/'' @ d)
      | None \<Rightarrow> Inl (Errorf ''no block device matches %s'' [spec] None))"
proof -
  obtain r h1 where r: "run_state (block_devices p) h = (r, h1)" by fastforce
  with list_disks [of h] have "r = Inr names" by simp
  with r assms resolve_from_image show ?thesis by (simp add: resolve_def)
qed

end

text \<open>A kernel whose block devices are the given images, and that is arbitrary otherwise.\<close>

definition with_disks :: "(string \<Rightarrow> bytes option) \<Rightarrow> string list \<Rightarrow> kernel \<Rightarrow> kernel" where
  "with_disks disks names K = K\<lparr>
     answer_num := (\<lambda>h c. case c of
        OpenFile f False \<Rightarrow>
          (if has_prefix f ''/dev/'' then
             (case disks (drop 5 f) of None \<Rightarrow> Inl (Errno ENOENT) | Some _ \<Rightarrow> Inr 3)
           else answer_num K h c)
      | _ \<Rightarrow> answer_num K h c),
     answer_bytes := (\<lambda>h c. case c of
        PRead f off n \<Rightarrow>
          (if has_prefix f ''/dev/'' then
             (case Option.bind (disks (drop 5 f)) (\<lambda>img. read_image img n off) of
                None \<Rightarrow> Inl (msg ''EOF'') | Some b \<Rightarrow> Inr b)
           else answer_bytes K h c)
      | _ \<Rightarrow> answer_bytes K h c),
     answer_names := (\<lambda>h c. case c of
        ReadDir d \<Rightarrow> if d = ''/sys/class/block'' then Inr names else answer_names K h c
      | _ \<Rightarrow> answer_names K h c)\<rparr>"

lemma has_prefix_dev [simp]: "has_prefix (CHR ''/'' # CHR ''d'' # CHR ''e'' # CHR ''v'' # CHR ''/'' # d) ''/dev/''"
  by (simp add: has_prefix_def)

lemma read_image_length: "read_image img n off = Some b \<Longrightarrow> length b = n"
  by (auto simp: read_image_def split: if_splits)

interpretation sysd: still_disks "sys_prober (with_disks disks names K)" disks names
  for disks names K
  by unfold_locales
     (auto simp: sys_prober_def sys_read_at_def sys_block_devices_def with_disks_def
        split: option.splits dest: read_image_length)

end
