(* ===== verification/Iso_Reader.thy ===== *)
theory Iso_Reader
  imports Blkid
begin

text \<open>
  \<^verbatim>\<open>internal/iso9660/iso9660.go\<close>: reading files out of an ISO image by path. Addresses and
  sizes come from 16- and 32-bit fields, so the 64-bit arithmetic of the code cannot wrap
  and they are natural numbers here.

  Go checks every index and a slice that is out of order is a run-time panic, which in the
  init process halts the machine. Wherever the code can reach one, the definition returns
  an option whose \<^term>\<open>None\<close> is that panic.
\<close>

section \<open>Layout\<close>

definition pvd_offset :: nat where "pvd_offset = 32768"
definition sector_len :: nat where "sector_len = 2048"
definition pvd_type_off :: nat where "pvd_type_off = 0"
definition pvd_id_off :: nat where "pvd_id_off = 1"
definition pvd_block_size_off :: nat where "pvd_block_size_off = 128"
definition pvd_root_dir_off :: nat where "pvd_root_dir_off = 156"
definition rec_len_off :: nat where "rec_len_off = 0"
definition rec_ea_len_off :: nat where "rec_ea_len_off = 1"
definition rec_extent_off :: nat where "rec_extent_off = 2"
definition rec_size_off :: nat where "rec_size_off = 10"
definition rec_flags_off :: nat where "rec_flags_off = 25"
definition rec_unit_size_off :: nat where "rec_unit_size_off = 26"
definition rec_interleave_off :: nat where "rec_interleave_off = 27"
definition rec_name_len_off :: nat where "rec_name_len_off = 32"
definition rec_name_off :: nat where "rec_name_off = 33"
definition flag_directory :: byte where "flag_directory = 2"
definition max_file_size :: nat where "max_file_size = 8 * 2 ^ 20"
definition max_records :: nat where "max_records = 4096"

lemmas iso_layout =
  pvd_offset_def sector_len_def pvd_type_off_def pvd_id_off_def pvd_block_size_off_def
  pvd_root_dir_off_def rec_len_off_def rec_ea_len_off_def rec_extent_off_def rec_size_off_def
  rec_flags_off_def rec_unit_size_off_def rec_interleave_off_def rec_name_len_off_def
  rec_name_off_def flag_directory_def max_file_size_def max_records_def

type_synonym reader_at = "nat \<Rightarrow> nat \<Rightarrow> (err + bytes) io"

text \<open>\<^verbatim>\<open>OnDevice\<close>: a device reader bound to one device.\<close>

definition on_device :: "'p prober_scheme \<Rightarrow> string \<Rightarrow> reader_at" where
  "on_device p dev n off = read_at p dev n (int off)"

record iso_reader =
  block_size :: nat
  root_lba :: nat
  root_size :: nat

record iso_entry =
  e_lba :: nat
  e_size :: nat
  e_flags :: byte

section \<open>Opening an image\<close>

definition parse_pvd :: "bytes \<Rightarrow> err + iso_reader" where
  "parse_pvd pvd =
     (if pvd ! pvd_type_off \<noteq> 1 \<or> to_text (slice pvd_id_off (pvd_id_off + 5) pvd) \<noteq> ''CD001''
      then Inl (msg ''not an ISO9660 image'')
      else
        (let bs = unat (le16 (drop pvd_block_size_off pvd));
             root = slice pvd_root_dir_off (pvd_root_dir_off + 34) pvd
         in Inr \<lparr>block_size = (if bs = 0 then sector_len else bs),
                 root_lba = unat (le32 (drop rec_extent_off root)),
                 root_size = unat (le32 (drop rec_size_off root))\<rparr>))"

definition iso_open :: "reader_at \<Rightarrow> (err + iso_reader) io" where
  "iso_open ra = do {
     r \<leftarrow> ra sector_len pvd_offset;
     give (case r of
             Inl e \<Rightarrow> Inl (wrap ''read primary volume descriptor: %w'' [] e)
           | Inr pvd \<Rightarrow> parse_pvd pvd)
   }"

section \<open>Names\<close>

text \<open>
  The Rock Ridge name is the concatenation of the NM entries of the system use area. An
  entry of four bytes passes the length check, and the slice \<^verbatim>\<open>su[off+5 : off+4]\<close> panics.
\<close>

function rock_ridge_from :: "bytes \<Rightarrow> bytes \<Rightarrow> bytes option" where
  "rock_ridge_from name su =
     (if length su < 4 then Some name
      else let len = unat (su ! 2) in
        if len < 4 \<or> length su < len then Some name
        else if to_text (take 2 su) = ''NM'' then
          (if len < 5 then None
           else rock_ridge_from (name @ slice 5 len su) (drop len su))
        else if to_text (take 2 su) = ''ST'' then Some name
        else rock_ridge_from name (drop len su))"
  by pat_completeness auto
termination by (relation "measure (\<lambda>(name, su). length su)") auto

declare rock_ridge_from.simps [simp del]

definition rock_ridge_name :: "bytes \<Rightarrow> string option option" where
  "rock_ridge_name su = do {
     name \<leftarrow> rock_ridge_from [] su;
     Some (if name = [] then None else Some (to_text name))
   }"

definition normalise_name :: "string \<Rightarrow> string" where
  "normalise_name s = trim_suffix (fst (cut (CHR '';'') s)) ''.''"

definition system_use_off :: "nat \<Rightarrow> nat" where
  "system_use_off name_len =
     (let off = rec_name_off + name_len in if odd off then off + 1 else off)"

definition entry_name :: "bytes \<Rightarrow> string option option" where
  "entry_name rec =
     (let name_len = unat (rec ! rec_name_len_off) in
      if name_len = 0 \<or> length rec < rec_name_off + name_len then Some None
      else
        (let raw = slice rec_name_off (rec_name_off + name_len) rec;
             sys_off = system_use_off name_len
         in if name_len = 1 \<and> (hd raw = 0 \<or> hd raw = 1) then Some None
            else if sys_off < length rec then do {
              rr \<leftarrow> rock_ridge_name (drop sys_off rec);
              Some (Some (case rr of Some n \<Rightarrow> n | None \<Rightarrow> normalise_name (to_text raw)))
            }
            else Some (Some (normalise_name (to_text raw)))))"

section \<open>Scanning a directory\<close>

definition read_entry :: "string \<Rightarrow> bytes \<Rightarrow> err + iso_entry" where
  "read_entry want rec =
     (if rec ! rec_unit_size_off \<noteq> 0 \<or> rec ! rec_interleave_off \<noteq> 0
      then Inl (Errorf ''%q is interleaved, which is not supported'' [want] None)
      else if rec ! rec_ea_len_off \<noteq> 0
      then Inl (Errorf ''%q has an extended attribute record, which is not supported'' [want] None)
      else Inr \<lparr>e_lba = unat (le32 (drop rec_extent_off rec)),
                e_size = unat (le32 (drop rec_size_off rec)),
                e_flags = rec ! rec_flags_off\<rparr>)"

text \<open>\<open>left\<close> is what remains of the \<^verbatim>\<open>maxRecords\<close> turns the loop may take.\<close>

fun scan_dir :: "nat \<Rightarrow> string \<Rightarrow> bytes \<Rightarrow> nat \<Rightarrow> nat \<Rightarrow> (err + iso_entry) option" where
  "scan_dir bs want dir 0 off = Some (Inl (wrap ''%q: %w'' [want] NotExist))"
| "scan_dir bs want dir (Suc left) off =
     (if length dir \<le> off then Some (Inl (wrap ''%q: %w'' [want] NotExist))
      else let rec_len = unat (dir ! off) in
        if rec_len = 0 then
          (let next = (off div bs + 1) * bs in
           if length dir \<le> next then Some (Inl (wrap ''%q: %w'' [want] NotExist))
           else scan_dir bs want dir left next)
        else if length dir < off + rec_len \<or> rec_len < rec_name_off
        then Some (Inl (msg ''truncated directory record''))
        else do {
          let rec = slice off (off + rec_len) dir;
          name \<leftarrow> entry_name rec;
          if name = Some want then Some (read_entry want rec)
          else scan_dir bs want dir left (off + rec_len)
        })"

definition find_entry ::
  "reader_at \<Rightarrow> iso_reader \<Rightarrow> nat \<Rightarrow> nat \<Rightarrow> string \<Rightarrow> (err + iso_entry) option io" where
  "find_entry ra r lba sz want =
     (if sz = 0 \<or> max_records * block_size r < sz
      then give (Some (Inl (Errorf ''implausible directory size %d'' [dec sz] None)))
      else do {
        d \<leftarrow> ra sz (lba * block_size r);
        give (case d of
                Inl e \<Rightarrow> Some (Inl (wrap ''read directory: %w'' [] e))
              | Inr dir \<Rightarrow> scan_dir (block_size r) want dir max_records 0)
      })"

section \<open>Reading a file\<close>

text \<open>The walk: every part but the last must be a directory, and the last must not.\<close>

fun walk_path ::
  "reader_at \<Rightarrow> iso_reader \<Rightarrow> string \<Rightarrow> nat \<times> nat \<Rightarrow> string list \<Rightarrow> (err + nat \<times> nat) option io"
where
  "walk_path ra r name at [] = give (Some (Inr at))"
| "walk_path ra r name at (part # parts) = do {
     f \<leftarrow> find_entry ra r (fst at) (snd at) part;
     (case f of
        None \<Rightarrow> give None
      | Some (Inl e) \<Rightarrow> give (Some (Inl (wrap ''%s: %w'' [name] e)))
      | Some (Inr e) \<Rightarrow>
          if (parts = []) = (e_flags e AND flag_directory \<noteq> 0)
          then give (Some (Inl (Errorf ''%s: %q is the wrong kind of entry'' [name, part] None)))
          else walk_path ra r name (e_lba e, e_size e) parts)
   }"

definition is_slash :: "char \<Rightarrow> bool" where "is_slash c = (c = CHR ''/'')"

definition path_parts :: "string \<Rightarrow> string list" where
  "path_parts name = split_on (CHR ''/'') (trim_right is_slash (trim_left is_slash name))"

definition read_file :: "reader_at \<Rightarrow> iso_reader \<Rightarrow> string \<Rightarrow> (err + bytes) option io" where
  "read_file ra r name = do {
     w \<leftarrow> walk_path ra r name (root_lba r, root_size r) (path_parts name);
     (case w of
        None \<Rightarrow> give None
      | Some (Inl e) \<Rightarrow> give (Some (Inl e))
      | Some (Inr (lba, sz)) \<Rightarrow>
          if max_file_size < sz
          then give (Some (Inl (Errorf ''%s: %d bytes exceeds the %d byte limit''
                                  [name, dec sz, dec max_file_size] None)))
          else if sz = 0 then give (Some (Inr []))
          else do {
            d \<leftarrow> ra sz (lba * block_size r);
            give (Some (case d of
                          Inl e \<Rightarrow> Inl (wrap ''read %s: %w'' [name] e)
                        | Inr b \<Rightarrow> Inr b))
          })
   }"

section \<open>The device the reader works on\<close>

locale iso_device =
  fixes ra :: reader_at
  assumes device_length: "run_state (ra n off) h = (Inr b, h') \<Longrightarrow> length b = n"
    and device_reads: "emits reads (ra n off)"
begin

lemma open_reads: "emits reads (iso_open ra)"
  unfolding iso_open_def by (intro emits_intros device_reads)

lemma find_entry_reads: "emits reads (find_entry ra r lba sz want)"
  unfolding find_entry_def by (intro emits_intros device_reads)

lemma walk_reads: "emits reads (walk_path ra r name at parts)"
  by (induction parts arbitrary: at)
     (auto intro!: emits_intros find_entry_reads split: option.split)

lemma read_file_reads: "emits reads (read_file ra r name)"
  unfolding read_file_def
  by (intro emits_intros device_reads walk_reads)

text \<open>No file is read that is larger than the limit.\<close>

lemma read_file_bounded:
  assumes "run_state (read_file ra r name) h = (Some (Inr b), h')"
  shows "length b \<le> max_file_size"
proof -
  obtain w h1 where w: "run_state (walk_path ra r name (root_lba r, root_size r) (path_parts name)) h =
      (w, h1)" by fastforce
  with assms obtain lba sz where "w = Some (Inr (lba, sz))"
    by (auto simp: read_file_def split: option.splits sum.splits)
  with assms w device_length show ?thesis
    by (fastforce simp: read_file_def split: if_splits prod.splits sum.splits)
qed

end

sublocale block_prober \<subseteq> dev: iso_device "on_device p d" for d
  by unfold_locales (auto simp: on_device_def read_reads dest: read_length)

text \<open>A device that holds an image and does not change.\<close>

definition image_at :: "bytes option \<Rightarrow> nat \<Rightarrow> nat \<Rightarrow> bytes option" where
  "image_at disk n off = Option.bind disk (\<lambda>img. read_image img n (int off))"

lemma image_at_slice:
  "off + n \<le> length img \<Longrightarrow> image_at (Some img) n off = Some (slice off (off + n) img)"
  by (simp add: image_at_def read_image_def)

locale iso_image = iso_device ra for ra :: reader_at +
  fixes img :: "bytes option"
  assumes image_read: "image_at img n off = Some b \<Longrightarrow> fst (run_state (ra n off) h) = Inr b"
begin

lemma find_entry_image:
  assumes "image_at img sz (lba * block_size r) = Some dir" and "0 < sz"
    and "sz \<le> max_records * block_size r"
  shows "fst (run_state (find_entry ra r lba sz want) h) = scan_dir (block_size r) want dir max_records 0"
  using assms image_read [OF assms(1), of h]
  by (cases "run_state (ra sz (lba * block_size r)) h") (simp add: find_entry_def)

lemma open_image:
  assumes "image_at img sector_len pvd_offset = Some pvd"
  shows "fst (run_state (iso_open ra) h) = parse_pvd pvd"
  using image_read [OF assms, of h]
  by (cases "run_state (ra sector_len pvd_offset) h") (simp add: iso_open_def)

lemma read_root_file:
  assumes "image_at img (root_size r) (root_lba r * block_size r) = Some dir"
    and "0 < root_size r" and "root_size r \<le> max_records * block_size r"
    and "path_parts name = [name]"
    and "scan_dir (block_size r) name dir max_records 0 = Some (Inr e)"
    and "e_flags e AND flag_directory = 0" and "e_size e \<le> max_file_size"
    and "image_at img (e_size e) (e_lba e * block_size r) = Some b"
  shows "fst (run_state (read_file ra r name) h) = Some (Inr b)"
proof -
  obtain f h1 where f: "run_state (find_entry ra r (root_lba r) (root_size r) name) h = (f, h1)"
    by fastforce
  from find_entry_image [OF assms(1,2,3), of name h] f assms(5) have "f = Some (Inr e)" by simp
  with f assms(4,6)
  have w: "run_state (walk_path ra r name (root_lba r, root_size r) (path_parts name)) h =
      (Some (Inr (e_lba e, e_size e)), h1)" by simp
  show ?thesis
  proof (cases "e_size e = 0")
    case True
    with assms(8) have "b = []" by (auto simp: image_at_def dest: read_image_length split: bind_splits)
    with True w show ?thesis by (simp add: read_file_def)
  next
    case False
    with w assms(7) image_read [OF assms(8), of h1] show ?thesis
      by (cases "run_state (ra (e_size e) (e_lba e * block_size r)) h1") (simp add: read_file_def)
  qed
qed

end

text \<open>A disk that holds still is an image for the reader bound to it.\<close>

sublocale still_disks \<subseteq> held: iso_image "on_device p d" "disks d" for d
proof
  show "fst (run_state (on_device p d n off) h) = Inr b" if "image_at (disks d) n off = Some b" for n off b h
    using read_disk [of d n "int off" h] that
    by (auto simp: on_device_def image_at_def split: sum.splits)
qed

end
