(* ===== verification/Metadata.thy ===== *)
theory Metadata
  imports Base64 Iso_Reader
begin

text \<open>
  \<^verbatim>\<open>internal/metadata/metadata.go\<close> and \<^verbatim>\<open>source.go\<close>: the cloud-init drive. Decoding YAML
  (\<^verbatim>\<open>sigs.k8s.io/yaml\<close>, a third-party package) and gzip are the record \<open>decoders\<close>, a parameter of
  the definitions: the properties hold for every decoder. What a decoded \<^verbatim>\<open>any\<close> can be is the
  datatype \<open>any_value\<close>; a value that is neither text nor a list is kept with the name of its
  type and its printed form, which is all the code looks at.

  The drive is the Go interface \<^verbatim>\<open>Files\<close>, a function from names to programs; its result is an
  option because the ISO reader behind it can panic.
\<close>

section \<open>Documents\<close>

datatype any_value = AString string | AList "any_value list" | AOther string string

record raw_file =
  rf_path :: string
  rf_content :: string
  rf_encoding :: string
  rf_permissions :: string

record machine_config =
  mc_ip :: string
  mc_iface :: string
  mc_gateway :: string
  mc_dns :: string

record cloud_config =
  cc_write_files :: "raw_file list"
  cc_runcmd :: "any_value list"
  cc_k0smos :: machine_config

record raw_meta =
  rm_instance_id :: string
  rm_local_hostname :: string
  rm_hostname :: string
  rm_uuid :: string
  rm_name :: string

record decoders =
  yaml_config :: "bytes \<Rightarrow> err + cloud_config"
  yaml_meta :: "bytes \<Rightarrow> err + raw_meta"
  gunzip :: "bytes \<Rightarrow> err + bytes"

record write_file =
  wf_path :: string
  wf_content :: string
  wf_permissions :: string

record user_data =
  ud_write_files :: "write_file list"
  ud_runcmd :: "string list list"
  ud_machine :: machine_config
  ud_warnings :: "string list"

record meta_data =
  md_instance_id :: string
  md_hostname :: string

definition no_machine :: machine_config where
  "no_machine = \<lparr>mc_ip = [], mc_iface = [], mc_gateway = [], mc_dns = []\<rparr>"

definition no_user_data :: user_data where
  "no_user_data = \<lparr>ud_write_files = [], ud_runcmd = [], ud_machine = no_machine, ud_warnings = []\<rparr>"

definition file_mode :: "write_file \<Rightarrow> nat" where
  "file_mode w =
     (if wf_permissions w = [] then perm_0644
      else (case parse_uint (trim_prefix (wf_permissions w) ''0o'') 8 32 of
              None \<Rightarrow> perm_0644 | Some n \<Rightarrow> n))"

section \<open>Contents\<close>

definition bad_base64 :: err where "bad_base64 = msg ''bad base64''"

definition decode_content :: "decoders \<Rightarrow> string \<Rightarrow> string \<Rightarrow> err + string" where
  "decode_content D encoding content =
     (let enc = to_lower (trim_space encoding) in
      if enc \<in> {[], ''text/plain''} then Inr content
      else if enc \<in> {''b64'', ''base64''} then
        (case b64_decode (trim_space content) of
           None \<Rightarrow> Inl bad_base64 | Some raw \<Rightarrow> Inr (to_text raw))
      else if enc \<in> {''gz+base64'', ''gzip+base64'', ''gz+b64'', ''gzip+b64''} then
        (case b64_decode (trim_space content) of
           None \<Rightarrow> Inl bad_base64
         | Some raw \<Rightarrow>
             (case gunzip D raw of
                Inl e \<Rightarrow> Inl (wrap ''bad gzip: %w'' [] e) | Inr out \<Rightarrow> Inr (to_text out)))
      else Inl (Errorf ''unsupported encoding %q'' [encoding] None))"

section \<open>User data\<close>

definition shell_meta :: string where "shell_meta = ''|&;<>$`*?()[]{}!~''"

text \<open>\<^verbatim>\<open>fmt.Sprint\<close> of a decoded value.\<close>

fun sprint :: "any_value \<Rightarrow> string" where
  "sprint (AString s) = s"
| "sprint (AList xs) = ''['' @ join '' '' (map sprint xs) @ '']''"
| "sprint (AOther ty s) = s"

fun add_files :: "decoders \<Rightarrow> raw_file list \<Rightarrow> user_data \<Rightarrow> user_data" where
  "add_files D [] u = u"
| "add_files D (f # fs) u =
     add_files D fs
       (case decode_content D (rf_encoding f) (rf_content f) of
          Inl e \<Rightarrow> u\<lparr>ud_warnings := ud_warnings u @ [fmt_text ''write_files %s: %v, skipped'' [rf_path f, err_text e] []]\<rparr>
        | Inr content \<Rightarrow>
            u\<lparr>ud_write_files := ud_write_files u @
                [\<lparr>wf_path = rf_path f, wf_content = content, wf_permissions = rf_permissions f\<rparr>]\<rparr>)"

definition run_entry :: "any_value \<Rightarrow> string list + string" where
  "run_entry entry =
     (case entry of
        AString v \<Rightarrow>
          if contains_any v shell_meta then Inr (''runcmd '' @ quote v @ '' needs a shell, skipped'')
          else Inl (str_fields v)
      | AList vs \<Rightarrow> Inl (map sprint vs)
      | AOther ty s \<Rightarrow> Inr (''runcmd entry of unexpected type '' @ ty @ '', skipped''))"

fun add_commands :: "any_value list \<Rightarrow> user_data \<Rightarrow> user_data" where
  "add_commands [] u = u"
| "add_commands (e # es) u =
     add_commands es
       (case run_entry e of
          Inr w \<Rightarrow> u\<lparr>ud_warnings := ud_warnings u @ [w]\<rparr>
        | Inl argv \<Rightarrow> if argv \<noteq> [] then u\<lparr>ud_runcmd := ud_runcmd u @ [argv]\<rparr> else u)"

definition parse_user_data :: "decoders \<Rightarrow> bytes \<Rightarrow> user_data \<times> err option" where
  "parse_user_data D b =
     (if trim_space (to_text b) = [] then (no_user_data, None)
      else if \<not> has_prefix (trim_space (to_text b)) ''#cloud-config'' then
        (no_user_data\<lparr>ud_warnings := [''user-data is not a #cloud-config document; ignoring'']\<rparr>, None)
      else
        (case yaml_config D b of
           Inl e \<Rightarrow> (no_user_data, Some (wrap ''parse cloud-config: %w'' [] e))
         | Inr cc \<Rightarrow>
             (add_commands (cc_runcmd cc)
                (add_files D (cc_write_files cc) (no_user_data\<lparr>ud_machine := cc_k0smos cc\<rparr>)),
              None)))"

section \<open>Instance metadata\<close>

definition no_meta_data :: meta_data where
  "no_meta_data = \<lparr>md_instance_id = [], md_hostname = []\<rparr>"

definition parse_meta_data :: "decoders \<Rightarrow> bytes \<Rightarrow> err + meta_data" where
  "parse_meta_data D b =
     (if trim_space (to_text b) = [] then Inr no_meta_data
      else
        (case yaml_meta D b of
           Inl e \<Rightarrow> Inl (wrap ''parse meta-data: %w'' [] e)
         | Inr raw \<Rightarrow>
             (let h1 = (if rm_local_hostname raw = [] then rm_hostname raw else rm_local_hostname raw);
                  h2 = (if h1 = [] then rm_name raw else h1)
              in Inr \<lparr>md_instance_id =
                        (if rm_instance_id raw = [] then rm_uuid raw else rm_instance_id raw),
                      md_hostname = h2\<rparr>)))"

section \<open>Loading a drive\<close>

definition nocloud_label :: string where "nocloud_label = ''cidata''"
definition config_drive_label :: string where "config_drive_label = ''config-2''"
definition drive_labels :: "string list" where "drive_labels = [nocloud_label, config_drive_label]"
definition user_data_paths :: "string list" where
  "user_data_paths = [''user-data'', ''openstack/latest/user_data'']"
definition meta_data_paths :: "string list" where
  "meta_data_paths = [''meta-data'', ''openstack/latest/meta_data.json'']"

type_synonym drive = "string \<Rightarrow> (err + bytes) option io"

definition dir_drive :: "kernel \<Rightarrow> string \<Rightarrow> drive" where
  "dir_drive K d name = do {
     r \<leftarrow> do_bytes K (ReadFile (path_join [d, name]));
     give (Some r)
   }"

text \<open>The first name that can be read, and the errors that were more than absence.\<close>

fun read_first :: "drive \<Rightarrow> string list \<Rightarrow> err list \<Rightarrow> (bytes \<times> err list) option io" where
  "read_first f [] warnings = give (Some ([], warnings))"
| "read_first f (n # ns) warnings = do {
     r \<leftarrow> f n;
     (case r of
        None \<Rightarrow> give None
      | Some (Inr b) \<Rightarrow> give (Some (b, warnings))
      | Some (Inl e) \<Rightarrow>
          read_first f ns (if is_not_exist e then warnings
                           else warnings @ [wrap ''could not read %v'' [] e]))
   }"

definition load_metadata_from ::
  "decoders \<Rightarrow> drive \<Rightarrow> (user_data \<times> meta_data \<times> err option) option io"
where
  "load_metadata_from D f = do {
     u \<leftarrow> read_first f user_data_paths [];
     (case u of
        None \<Rightarrow> give None
      | Some (user_bytes, user_warn) \<Rightarrow> do {
          m \<leftarrow> read_first f meta_data_paths [];
          (case m of
             None \<Rightarrow> give None
           | Some (meta_bytes, meta_warn) \<Rightarrow>
               give (Some
                 (case parse_user_data D user_bytes of
                    (ud, Some e) \<Rightarrow> (no_user_data, no_meta_data, Some e)
                  | (ud, None) \<Rightarrow>
                      (let ud' = ud\<lparr>ud_warnings := ud_warnings ud @ map err_text (user_warn @ meta_warn)\<rparr>
                       in case parse_meta_data D meta_bytes of
                            Inl e \<Rightarrow> (ud', no_meta_data, Some e)
                          | Inr md \<Rightarrow> (ud', md, None)))))
        })
   }"

section \<open>Applying write_files\<close>

fun apply_files ::
  "(string \<Rightarrow> nat \<Rightarrow> err option io) \<Rightarrow> (string \<Rightarrow> bytes \<Rightarrow> nat \<Rightarrow> err option io) \<Rightarrow>
     write_file list \<Rightarrow> err option io"
where
  "apply_files mkdir_all write_to [] = give None"
| "apply_files mkdir_all write_to (f # fs) =
     (if wf_path f = [] then apply_files mkdir_all write_to fs
      else guard_err (mkdir_all (path_dir (wf_path f)) perm_0755)
             (\<lambda>e. Some (wrap ''mkdir for %s: %w'' [wf_path f] e))
             (guard_err (write_to (wf_path f) (to_bytes (wf_content f)) (file_mode f))
                (\<lambda>e. Some (wrap ''write %s: %w'' [wf_path f] e))
                (apply_files mkdir_all write_to fs)))"

section \<open>What the parser keeps\<close>

lemma add_files_facts:
  "ud_runcmd (add_files D fs u) = ud_runcmd u" "ud_machine (add_files D fs u) = ud_machine u"
  "ud_write_files (add_files D fs u) = ud_write_files u @
     concat (map (\<lambda>f. case decode_content D (rf_encoding f) (rf_content f) of
       Inl _ \<Rightarrow> [] | Inr c \<Rightarrow> [\<lparr>wf_path = rf_path f, wf_content = c, wf_permissions = rf_permissions f\<rparr>]) fs)"
  "length (ud_write_files (add_files D fs u)) + length (ud_warnings (add_files D fs u)) =
     length fs + length (ud_write_files u) + length (ud_warnings u)"
  by (induction fs arbitrary: u) (auto split: sum.split)

lemma add_commands_facts:
  "ud_write_files (add_commands es u) = ud_write_files u" "ud_machine (add_commands es u) = ud_machine u"
  "ud_runcmd (add_commands es u) = ud_runcmd u @
     concat (map (\<lambda>e. case run_entry e of Inl argv \<Rightarrow> if argv = [] then [] else [argv] | Inr _ \<Rightarrow> []) es)"
  by (induction es arbitrary: u) (auto split: sum.split)

lemma decode_encoded:
  "decode_content D ''base64'' (b64_encode (to_bytes s)) = Inr s"
proof -
  have "to_lower (trim_space ''base64'') = ''base64''" by code_simp
  then show ?thesis
    by (simp add: decode_content_def trim_space_encode b64_decode_encode)
qed

end
