(* ===== verification/Node_World.thy ===== *)
theory Node_World
  imports Status Metadata
begin

text \<open>
  What the boot of \<^verbatim>\<open>cmd/k0smos/init_linux.go\<close> works on: the kernel's history and the boot record,
  a package variable of the program, which every stage writes to. A stage is a computation over
  this pair; \<open>act\<close> lifts a program over system calls and \<open>log_step\<close> records the outcome of a stage
  (\<^verbatim>\<open>step\<close>). A platform is what is not part of the program: the kernel, the clock as the text it
  shows after a history, the YAML decoders and gunzip, and whether the context is cancelled.
  The console messages (\<^verbatim>\<open>logf\<close>) are not modelled.
\<close>

record platform =
  pf_kernel :: kernel
  pf_clock :: "history \<Rightarrow> string"
  pf_decoders :: decoders
  pf_context :: "err option io"

record world =
  w_rec :: recorder
  w_hist :: history

type_synonym 'a node = "(world, 'a) state"

definition act :: "'a io \<Rightarrow> 'a node" where
  "act m = State (\<lambda>w. case run_state m (w_hist w) of (x, h) \<Rightarrow> (x, w\<lparr>w_hist := h\<rparr>))"

definition recording :: "(recorder \<Rightarrow> recorder io) \<Rightarrow> unit node" where
  "recording f = State (\<lambda>w. case run_state (f (w_rec w)) (w_hist w) of (r, h) \<Rightarrow> ((), \<lparr>w_rec = r, w_hist = h\<rparr>))"

definition pass :: "'a \<Rightarrow> 'a node" where
  "pass x = State_Monad.return x"

definition log_step :: "platform \<Rightarrow> string \<Rightarrow> err option \<Rightarrow> string \<Rightarrow> unit node" where
  "log_step P name e detail = State (\<lambda>w. run_state (recording (record_step name e detail (pf_clock P (w_hist w)))) w)"

text \<open>\<^verbatim>\<open>recordTo\<close>: the record moves to a file once its directory can be made.\<close>

definition record_to :: "platform \<Rightarrow> string \<Rightarrow> unit node" where
  "record_to P path = do {
     e \<leftarrow> act (sys_mkdir (pf_kernel P) (path_dir path) perm_0755);
     (case e of
        Some _ \<Rightarrow> pass ()
      | None \<Rightarrow> recording (\<lambda>r. new_from [] (Some r) (file_sink (pf_kernel P) path)))
   }"

lemma run_act [simp]:
  "run_state (act m) w = (case run_state m (w_hist w) of (x, h) \<Rightarrow> (x, w\<lparr>w_hist := h\<rparr>))"
  by (simp add: act_def)

lemma run_pass [simp]: "run_state (pass x) w = (x, w)"
  by (simp add: pass_def)

lemma run_recording [simp]:
  "run_state (recording f) w = (case run_state (f (w_rec w)) (w_hist w) of (r, h) \<Rightarrow> ((), \<lparr>w_rec = r, w_hist = h\<rparr>))"
  by (simp add: recording_def)

lemma run_log_step [simp]:
  "run_state (log_step P name e detail) w =
     (case run_state (record_step name e detail (pf_clock P (w_hist w)) (w_rec w)) (w_hist w) of
        (r, h) \<Rightarrow> ((), \<lparr>w_rec = r, w_hist = h\<rparr>))"
  by (simp add: log_step_def)

section \<open>Which calls a stage makes\<close>

text \<open>
  \<open>makes P m\<close> is \<open>emits\<close> for stages: the history only grows, by calls that satisfy \<open>P\<close>, provided
  that the recorder's sink writes nothing else; and the sink stays what it is or becomes the
  boot record's file.
\<close>

definition sink_ok :: "(call \<Rightarrow> bool) \<Rightarrow> recorder \<Rightarrow> bool" where
  "sink_ok P r = (case rc_sink r of None \<Rightarrow> True | Some f \<Rightarrow> \<forall>b. emits P (f b))"

definition makes :: "(call \<Rightarrow> bool) \<Rightarrow> 'a node \<Rightarrow> bool" where
  "makes P m = (\<forall>w. sink_ok P (w_rec w) \<longrightarrow>
     sink_ok P (w_rec (snd (run_state m w))) \<and>
     (\<exists>cs. w_hist (snd (run_state m w)) = w_hist w @ cs \<and> list_all P cs))"

named_theorems makes_intros \<comment> \<open>which calls a stage can add\<close>

lemma makes_act [makes_intros]: "emits P m \<Longrightarrow> makes P (act m)"
  by (auto simp: makes_def split: prod.split) (metis emits_def snd_conv)

lemma makes_pass [makes_intros]: "makes P (pass x)"
  by (simp add: makes_def)

lemma makes_bind [makes_intros]:
  assumes "makes P m" and "\<And>x. makes P (f x)"
  shows "makes P (m \<bind> f)"
proof -
  have "sink_ok P (w_rec (snd (run_state (m \<bind> f) w))) \<and>
     (\<exists>cs. w_hist (snd (run_state (m \<bind> f) w)) = w_hist w @ cs \<and> list_all P cs)"
    if ok: "sink_ok P (w_rec w)" for w
  proof -
    obtain x w1 where m: "run_state m w = (x, w1)" by fastforce
    from assms(1) ok m obtain cs where cs: "sink_ok P (w_rec w1)" "w_hist w1 = w_hist w @ cs" "list_all P cs"
      by (auto simp: makes_def dest!: spec [of _ w])
    from assms(2) [of x] cs(1) obtain ds where "sink_ok P (w_rec (snd (run_state (f x) w1)))"
      "w_hist (snd (run_state (f x) w1)) = w_hist w1 @ ds" "list_all P ds"
      by (auto simp: makes_def)
    with m cs show ?thesis by (intro conjI exI [of _ "cs @ ds"]) simp_all
  qed
  then show ?thesis by (simp add: makes_def)
qed

lemma makes_if [makes_intros]:
  "(b \<Longrightarrow> makes P m) \<Longrightarrow> (\<not> b \<Longrightarrow> makes P n) \<Longrightarrow> makes P (if b then m else n)"
  by simp

lemma makes_case_option [makes_intros]:
  "(x = None \<Longrightarrow> makes P m) \<Longrightarrow> (\<And>y. x = Some y \<Longrightarrow> makes P (f y)) \<Longrightarrow>
   makes P (case x of None \<Rightarrow> m | Some y \<Rightarrow> f y)"
  by (simp split: option.split)

lemma makes_case_sum [makes_intros]:
  "(\<And>y. x = Inl y \<Longrightarrow> makes P (f y)) \<Longrightarrow> (\<And>y. x = Inr y \<Longrightarrow> makes P (g y)) \<Longrightarrow>
   makes P (case x of Inl y \<Rightarrow> f y | Inr y \<Rightarrow> g y)"
  by (simp split: sum.split)

lemma makes_case_prod [makes_intros]:
  "(\<And>y z. x = (y, z) \<Longrightarrow> makes P (f y z)) \<Longrightarrow> makes P (case x of (y, z) \<Rightarrow> f y z)"
  by (simp split: prod.split)

lemma makes_let [makes_intros]: "makes P (f x) \<Longrightarrow> makes P (let y = x in f y)"
  by simp

lemma emits_change: "sink_ok P r \<Longrightarrow> emits P (change f r)"
  by (auto simp: change_def flush_record_def sink_ok_def Let_def intro!: emits_intros split: option.splits)

lemma change_sink: "rc_sink (fst (run_state (change f r) h)) = rc_sink r"
  by (simp add: change_def Let_def split: prod.split)

lemma makes_change: "makes P (recording (change f))"
proof -
  have "sink_ok P (w_rec (snd (run_state (recording (change f)) w))) \<and>
     (\<exists>cs. w_hist (snd (run_state (recording (change f)) w)) = w_hist w @ cs \<and> list_all P cs)"
    if "sink_ok P (w_rec w)" for w
    using that change_sink [of f "w_rec w" "w_hist w"] emits_change [OF that, of f]
    by (auto simp: sink_ok_def split: prod.splits elim!: emitsE [where h = "w_hist w"])
  then show ?thesis by (simp add: makes_def)
qed

lemma makes_log_step [makes_intros]: "makes P (log_step P' name e detail)"
proof -
  have "makes P (recording (record_step name e detail t))" for t
    unfolding record_step_def by (rule makes_change)
  then show ?thesis by (simp add: makes_def log_step_def)
qed

lemma makes_record_to [makes_intros]:
  assumes "\<And>p. P (MkdirAll p perm_0755)" and "\<And>b. P (WriteFile path b perm_0644)"
  shows "makes P (record_to P' path)"
proof -
  have sink: "emits P (sys_write_file K path b perm_0644)" for K b
    using assms(2) by (auto simp: sys_write_file_def intro!: emits_intros)
  have "makes P (recording (\<lambda>r. new_from [] (Some r) (file_sink K path)))" for K
    using sink [of K] by (auto simp: makes_def new_from_def Let_def flush_record_def file_sink_def sink_ok_def
      split: prod.splits) (metis emits_def snd_conv)
  with assms(1) show ?thesis
    unfolding record_to_def sys_mkdir_def by (auto intro!: makes_intros emits_intros)
qed

section \<open>A platform to build examples from\<close>

text \<open>The given kernel, a stopped clock, and decoders that accept nothing.\<close>

definition plain_platform :: "kernel \<Rightarrow> platform" where
  "plain_platform K =
     \<lparr>pf_kernel = K, pf_clock = (\<lambda>_. []),
      pf_decoders = \<lparr>yaml_config = (\<lambda>_. Inl (msg ''yaml'')), yaml_meta = (\<lambda>_. Inl (msg ''yaml'')), gunzip = (\<lambda>_. Inl (msg ''gzip''))\<rparr>,
      pf_context = give None\<rparr>"

definition fresh_world :: world where
  "fresh_world = \<lparr>w_rec = new_recorder [] None, w_hist = []\<rparr>"

end
