(* ===== verification/Config.thy ===== *)
theory Config
  imports Go_Strings
begin

text \<open>
  \<^verbatim>\<open>internal/config/config.go\<close>: the knobs of a boot, parsed from the kernel command line,
  and their expansion into one configuration per network interface.

  \<open>Modules\<close> is a list or nothing: Go's nil slice ("use the built-in default set") is
  \<^term>\<open>None\<close>, and the empty slice \<^verbatim>\<open>k0smos.modules=none\<close> gives is \<^term>\<open>Some []\<close>.
\<close>

section \<open>The configuration and its defaults\<close>

record config =
  Hostname :: string
  Exec :: "string list"
  Modules :: "string list option"
  Iface :: string
  IP :: string
  Gateway :: string
  DNS :: string
  Root :: string
  RootFSType :: string
  RootFlags :: string
  Data :: string
  DataLabel :: string
  DataFSType :: string
  DataDir :: string
  Path :: string

definition default_exec :: "string list" where
  "default_exec = [''/usr/local/bin/k0s'', ''controller'', ''--single'']"

definition default_path :: string where
  "default_path =
     ''/var/lib/k0s/bin:/usr/local/bin:/usr/local/sbin:/usr/bin:/usr/sbin:/bin:/sbin''"

definition default_config :: config where
  "default_config =
     \<lparr>Hostname = ''k0smos'', Exec = default_exec, Modules = None, Iface = ''eth0'',
      IP = [], Gateway = [], DNS = [], Root = [], RootFSType = ''ext4'', RootFlags = [],
      Data = [], DataLabel = ''k0smos-data'', DataFSType = ''ext4'', DataDir = ''/var'',
      Path = default_path\<rparr>"

section \<open>Parsing the command line\<close>

definition set_key :: "string \<Rightarrow> string \<Rightarrow> config \<Rightarrow> config" where
  "set_key k v c =
     (if k = ''hostname'' then (if v \<noteq> [] then c\<lparr>Hostname := v\<rparr> else c)
      else if k = ''exec'' then
        (let parts = split_on (CHR '','') v in if hd parts \<noteq> [] then c\<lparr>Exec := parts\<rparr> else c)
      else if k = ''path'' then (if v \<noteq> [] then c\<lparr>Path := v\<rparr> else c)
      else if k = ''root'' then c\<lparr>Root := v\<rparr>
      else if k = ''rootfstype'' then (if v \<noteq> [] then c\<lparr>RootFSType := v\<rparr> else c)
      else if k = ''rootflags'' then c\<lparr>RootFlags := v\<rparr>
      else if k = ''data'' then c\<lparr>Data := v\<rparr>
      else if k = ''datalabel'' then (if v \<noteq> [] then c\<lparr>DataLabel := v\<rparr> else c)
      else if k = ''datafstype'' then (if v \<noteq> [] then c\<lparr>DataFSType := v\<rparr> else c)
      else if k = ''datadir'' then (if v \<noteq> [] then c\<lparr>DataDir := v\<rparr> else c)
      else if k = ''iface'' then (if v \<noteq> [] then c\<lparr>Iface := v\<rparr> else c)
      else if k = ''ip'' then c\<lparr>IP := v\<rparr>
      else if k = ''gw'' then c\<lparr>Gateway := v\<rparr>
      else if k = ''dns'' then c\<lparr>DNS := v\<rparr>
      else if k = ''modules'' then
        (if v = ''none'' then c\<lparr>Modules := Some []\<rparr>
         else let parts = split_on (CHR '','') v in
              if hd parts \<noteq> [] then c\<lparr>Modules := Some parts\<rparr> else c)
      else c)"

definition parse_token :: "string \<Rightarrow> config \<Rightarrow> config" where
  "parse_token tok c =
     (case cut (CHR ''='') tok of (k, v, ok) \<Rightarrow>
        if \<not> ok \<or> \<not> has_prefix k ''k0smos.'' then c
        else set_key (trim_prefix k ''k0smos.'') v c)"

definition parse :: "string \<Rightarrow> config" where
  "parse cmdline = fold parse_token (str_fields cmdline) default_config"

section \<open>Interfaces\<close>

record nic =
  nic_name :: string
  nic_addr :: string
  nic_gateway :: string

definition nic_dhcp :: "nic \<Rightarrow> bool" where
  "nic_dhcp n = (nic_addr n = ''dhcp'')"

definition nic_of_spec :: "config \<Rightarrow> string \<Rightarrow> nic option" where
  "nic_of_spec c spec =
     (case cut (CHR '':'') spec of (name, addr, ok) \<Rightarrow>
        if \<not> ok \<or> name = [] \<or> addr = [] then None
        else Some \<lparr>nic_name = name, nic_addr = addr,
                   nic_gateway = (if name = Iface c then Gateway c else [])\<rparr>)"

definition nics :: "config \<Rightarrow> nic list" where
  "nics c =
     (if IP c = [] then []
      else if CHR '':'' \<notin> set (IP c) \<or> index_of_sub ''::'' (IP c) \<noteq> None
      then [\<lparr>nic_name = Iface c, nic_addr = IP c, nic_gateway = Gateway c\<rparr>]
      else List.map_filter (nic_of_spec c) (split_on (CHR '','') (IP c)))"

section \<open>What the parser keeps\<close>

text \<open>
  The invariant the boot relies on: there is always a workload to run, a name for the
  interface and the machine, and somewhere to mount the data volume. Root, addresses,
  gateway, resolver and data selector may be empty, and that has a meaning of its own.
\<close>

definition wf_config :: "config \<Rightarrow> bool" where
  "wf_config c =
     (Hostname c \<noteq> [] \<and> Exec c \<noteq> [] \<and> hd (Exec c) \<noteq> [] \<and> Iface c \<noteq> [] \<and>
      RootFSType c \<noteq> [] \<and> DataLabel c \<noteq> [] \<and> DataFSType c \<noteq> [] \<and> DataDir c \<noteq> [] \<and>
      Path c \<noteq> [] \<and>
      (case Modules c of None \<Rightarrow> True | Some ms \<Rightarrow> ms = [] \<or> hd ms \<noteq> []))"

lemma wf_default_config: "wf_config default_config"
  by (simp add: wf_config_def default_config_def default_exec_def default_path_def)

lemma wf_set_key: "wf_config c \<Longrightarrow> wf_config (set_key k v c)"
  by (simp add: wf_config_def set_key_def Let_def)

lemma wf_parse_token: "wf_config c \<Longrightarrow> wf_config (parse_token tok c)"
  by (simp add: parse_token_def wf_set_key split: prod.split)

lemma wf_fold_parse_token: "wf_config c \<Longrightarrow> wf_config (fold parse_token toks c)"
  by (induction toks arbitrary: c) (simp_all add: wf_parse_token)

lemma wf_parse: "wf_config (parse cmdline)"
  by (simp add: parse_def wf_fold_parse_token wf_default_config)

lemma parse_append:
  "str_fields s = xs @ ys \<Longrightarrow> parse s = fold parse_token ys (fold parse_token xs default_config)"
  by (simp add: parse_def)

lemma parse_words:
  "(\<And>w. w \<in> set ws \<Longrightarrow> plain_word w) \<Longrightarrow>
   parse (join '' '' ws) = fold parse_token ws default_config"
  by (simp add: parse_def fields_join_plain)

text \<open>A token that is not a \<^verbatim>\<open>k0smos.\<close> assignment is skipped wherever it stands.\<close>

definition foreign_token :: "string \<Rightarrow> bool" where
  "foreign_token tok = (\<not> has_prefix tok ''k0smos.'' \<or> CHR ''='' \<notin> set tok)"

lemma has_prefix_cut:
  assumes "cut c tok = (k, v, True)" and "has_prefix k p"
  shows "has_prefix tok p"
  using cut_cases [OF assms(1)] assms(2) by (auto simp: has_prefix_iff)

lemma parse_token_foreign:
  assumes "foreign_token tok" shows "parse_token tok c = c"
proof -
  obtain k v ok where cut: "cut (CHR ''='') tok = (k, v, ok)" by (metis prod_cases3)
  show ?thesis
  proof (cases ok)
    case True
    with cut_cases [OF cut] have "CHR ''='' \<in> set tok" by auto
    with assms have "\<not> has_prefix tok ''k0smos.''" by (simp add: foreign_token_def)
    moreover have "has_prefix k ''k0smos.'' \<Longrightarrow> has_prefix tok ''k0smos.''"
      using cut True by (auto intro: has_prefix_cut)
    ultimately have "\<not> has_prefix k ''k0smos.''" by blast
    with cut show ?thesis by (simp add: parse_token_def)
  qed (use cut in \<open>simp add: parse_token_def\<close>)
qed

lemma fold_parse_token_filter:
  "fold parse_token toks c = fold parse_token (filter (\<lambda>t. \<not> foreign_token t) toks) c"
  by (induction toks arbitrary: c) (simp_all add: parse_token_foreign)

lemma parse_token_assign:
  assumes "CHR ''='' \<notin> set key"
  shows "parse_token (''k0smos.'' @ key @ ''='' @ v) c = set_key key v c"
proof -
  have "cut (CHR ''='') ((''k0smos.'' @ key) @ CHR ''='' # v) = (''k0smos.'' @ key, v, True)"
    using assms by (intro cut_found) auto
  moreover have "trim_prefix (''k0smos.'' @ key) ''k0smos.'' = key"
    and "has_prefix (''k0smos.'' @ key) ''k0smos.''"
    by (rule trim_prefix_append, rule has_prefix_append)
  ultimately show ?thesis by (simp add: parse_token_def)
qed

section \<open>What the interface list keeps\<close>

lemma set_map_filter: "y \<in> set (List.map_filter f xs) \<longleftrightarrow> (\<exists>x\<in>set xs. f x = Some y)"
  by (induction xs) (auto simp: List.map_filter_simps split: option.splits)

lemma nic_of_spec_Some:
  "nic_of_spec c spec = Some n \<Longrightarrow>
   nic_name n \<noteq> [] \<and> nic_addr n \<noteq> [] \<and> spec = nic_name n @ '':'' @ nic_addr n \<and>
   nic_gateway n = (if nic_name n = Iface c then Gateway c else [])"
  by (auto simp: nic_of_spec_def split: prod.splits if_splits dest: cut_cases)

lemma nics_member:
  assumes "n \<in> set (nics c)" and "Iface c \<noteq> []"
  shows "nic_name n \<noteq> [] \<and> nic_addr n \<noteq> [] \<and>
         nic_gateway n = (if nic_name n = Iface c then Gateway c else [])"
  using assms
  by (auto simp: nics_def set_map_filter split: if_splits dest!: nic_of_spec_Some)

lemma nics_list:
  assumes "specs \<noteq> []" and "\<And>s. s \<in> set specs \<Longrightarrow> CHR '','' \<notin> set s"
    and "CHR '':'' \<in> set (join '','' specs)" and "index_of_sub ''::'' (join '','' specs) = None"
    and "IP c = join '','' specs"
  shows "nics c = List.map_filter (nic_of_spec c) specs"
proof -
  have "split_on (CHR '','') (IP c) = specs"
    unfolding assms(5) by (rule split_on_join [OF assms(1,2)])
  moreover have "CHR '':'' \<in> set (IP c)" and "index_of_sub ''::'' (IP c) = None"
    unfolding assms(5) by (rule assms(3), rule assms(4))
  moreover from this(1) have "IP c \<noteq> []" by (metis empty_iff empty_set)
  ultimately show ?thesis unfolding nics_def by simp
qed

lemma length_filter_le_1_distinct:
  assumes "distinct (map f xs)" and same: "\<And>x. x \<in> set xs \<Longrightarrow> P x \<Longrightarrow> f x = y"
  shows "length (filter P xs) \<le> 1"
proof -
  have "distinct (map f (filter P xs))" using assms(1) by (rule distinct_map_filter)
  then have "card (set (map f (filter P xs))) = length (filter P xs)"
    by (metis distinct_card length_map)
  moreover have "set (map f (filter P xs)) \<subseteq> {y}" using same by auto
  then have "card (set (map f (filter P xs))) \<le> card {y}" by (rule card_mono [rotated]) simp
  ultimately show ?thesis by simp
qed

section \<open>Properties\<close>

text \<open>
  Whatever the command line says, the boot has a workload with a non-empty program
  name, a hostname, an interface, a search path and a place for the data volume: an empty
  value keeps the default instead of erasing it, and a module list is either disabled or
  starts with a name.
\<close>

theorem parse_keeps_defaults: "wf_config (parse cmdline)"
  by (rule wf_parse)

text \<open>
  The command line is read left to right and the last assignment of a key wins: adding
  one more \<^verbatim>\<open>k0smos.key=value\<close> word applies exactly that assignment to what the words before
  it gave, however many words that are not k0smos assignments stand in between.
\<close>

theorem parse_last_assignment:
  assumes "\<forall>w\<in>set (ws @ others). plain_word w" and "\<forall>w\<in>set others. foreign_token w"
    and "plain_word (''k0smos.'' @ key @ ''='' @ v)" and "CHR ''='' \<notin> set key"
  shows "parse (join '' '' (ws @ [''k0smos.'' @ key @ ''='' @ v] @ others)) =
         set_key key v (parse (join '' '' ws))"
proof -
  have "filter (\<lambda>t. \<not> foreign_token t) others = []"
    using assms(2) by (simp add: filter_empty_conv)
  then have "fold parse_token others c = c" for c
    by (subst fold_parse_token_filter) simp
  moreover have "parse (join '' '' (ws @ [''k0smos.'' @ key @ ''='' @ v] @ others)) =
      fold parse_token (ws @ [''k0smos.'' @ key @ ''='' @ v] @ others) default_config"
    by (rule parse_words) (use assms(1,3) in auto)
  moreover have "parse (join '' '' ws) = fold parse_token ws default_config"
    by (rule parse_words) (use assms(1) in auto)
  moreover have "parse_token (''k0smos.'' @ key @ ''='' @ v) c = set_key key v c" for c
    by (rule parse_token_assign [OF assms(4)])
  ultimately show ?thesis by simp
qed

theorem parse_last_assignment_witness:
  "parse (join '' '' ([''quiet'', ''k0smos.ip=dhcp''] @ [''k0smos.'' @ ''ip'' @ ''='' @ ''10.0.2.15/24'']
      @ [''panic=10''])) =
   set_key ''ip'' ''10.0.2.15/24'' (parse (join '' '' [''quiet'', ''k0smos.ip=dhcp'']))"
  by (rule parse_last_assignment)
     (simp_all add: plain_word_def is_space_def foreign_token_def has_prefix_def)

text \<open>
  Every interface the configuration expands to has a name and an address, and carries
  the gateway exactly when it is the interface the configuration names; so with distinct
  names at most one carries a gateway, which is what one default route needs.
\<close>

theorem nics_one_gateway:
  assumes "wf_config c"
  shows "(\<forall>n\<in>set (nics c). nic_name n \<noteq> [] \<and> nic_addr n \<noteq> [] \<and>
            nic_gateway n = (if nic_name n = Iface c then Gateway c else [])) \<and>
         (distinct (map nic_name (nics c)) \<longrightarrow>
            length (filter (\<lambda>n. nic_gateway n \<noteq> []) (nics c)) \<le> 1)"
proof -
  have "Iface c \<noteq> []" using assms by (simp add: wf_config_def)
  then have member: "\<forall>n\<in>set (nics c). nic_name n \<noteq> [] \<and> nic_addr n \<noteq> [] \<and>
      nic_gateway n = (if nic_name n = Iface c then Gateway c else [])"
    using nics_member by blast
  moreover have "length (filter (\<lambda>n. nic_gateway n \<noteq> []) (nics c)) \<le> 1"
    if "distinct (map nic_name (nics c))"
    using that by (rule length_filter_le_1_distinct [where y = "Iface c"])
      (use member in \<open>auto split: if_splits\<close>)
  ultimately show ?thesis by blast
qed

theorem nics_one_gateway_witness:
  "let c = default_config\<lparr>IP := ''eth0:dhcp,eth1:10.10.0.11/24'', Gateway := ''10.0.2.2''\<rparr> in
   nics c = [\<lparr>nic_name = ''eth0'', nic_addr = ''dhcp'', nic_gateway = ''10.0.2.2''\<rparr>,
             \<lparr>nic_name = ''eth1'', nic_addr = ''10.10.0.11/24'', nic_gateway = []\<rparr>] \<and>
   length (filter (\<lambda>n. nic_gateway n \<noteq> []) (nics c)) \<le> 1"
proof -
  let ?c = "default_config\<lparr>IP := ''eth0:dhcp,eth1:10.10.0.11/24'', Gateway := ''10.0.2.2''\<rparr>"
  have wf: "wf_config ?c" using wf_default_config by (simp add: wf_config_def)
  have "nics ?c = [\<lparr>nic_name = ''eth0'', nic_addr = ''dhcp'', nic_gateway = ''10.0.2.2''\<rparr>,
      \<lparr>nic_name = ''eth1'', nic_addr = ''10.10.0.11/24'', nic_gateway = []\<rparr>]"
    by (simp add: nics_def nic_of_spec_def default_config_def has_prefix_def
        List.map_filter_simps)
  with nics_one_gateway [OF wf] show ?thesis by simp
qed

text \<open>
  The distinctness is needed: an interface that is listed twice is configured twice,
  and each entry carries the gateway.
\<close>

theorem nics_duplicate_gateway:
  "let c = default_config\<lparr>IP := ''eth0:dhcp,eth0:10.10.0.11/24'', Gateway := ''10.0.2.2''\<rparr> in
   length (filter (\<lambda>n. nic_gateway n \<noteq> []) (nics c)) = 2"
  by (simp add: nics_def nic_of_spec_def default_config_def has_prefix_def
      List.map_filter_simps)

end
