(* ===== verification/Scripts.thy ===== *)
theory Scripts
  imports Sys_Linux
begin

text \<open>
  The abstract specification of the operations that are a fixed sequence of system calls, each
  guarded by \<^verbatim>\<open>if err != nil { return }\<close>: a script is the list of calls, and carrying it out
  stops at the first one the kernel refuses. \<open>scripted\<close> says that a program refines its
  script: it makes the same calls and reports an error exactly when the script was cut short.
  The rules of \<open>scripted_intros\<close> follow the structure of the program.
\<close>

named_theorems scripted_intros \<comment> \<open>programs that refine a script\<close>

fun run_script :: "kernel \<Rightarrow> call list \<Rightarrow> history \<Rightarrow> bool \<times> history" where
  "run_script K [] h = (True, h)"
| "run_script K (c # cs) h =
     (case answer_unit K h c of None \<Rightarrow> run_script K cs (h @ [c]) | Some e \<Rightarrow> (False, h @ [c]))"

definition scripted :: "kernel \<Rightarrow> err option io \<Rightarrow> call list \<Rightarrow> bool" where
  "scripted K m cs =
     (\<forall>h. snd (run_state m h) = snd (run_script K cs h) \<and>
          (fst (run_state m h) = None \<longleftrightarrow> fst (run_script K cs h)))"

lemma run_script_append:
  "run_script K (cs @ ds) h =
     (if fst (run_script K cs h) then run_script K ds (snd (run_script K cs h))
      else run_script K cs h)"
  by (induction cs arbitrary: h) (simp_all split: option.split)

text \<open>A script makes its calls in order, all of them when nothing fails.\<close>

lemma run_script_done: "fst (run_script K cs h) \<Longrightarrow> snd (run_script K cs h) = h @ cs"
  by (induction cs arbitrary: h) (simp_all split: option.splits)

lemma run_script_accepted:
  "fst (run_script K cs h) \<Longrightarrow> k < length cs \<Longrightarrow> answer_unit K (h @ take k cs) (cs ! k) = None"
proof (induction cs arbitrary: h k)
  case (Cons c cs)
  then have c: "answer_unit K h c = None" by (auto split: option.splits)
  show ?case
  proof (cases k)
    case (Suc n)
    with Cons.IH [of "h @ [c]" n] Cons.prems c show ?thesis by simp
  qed (simp add: c)
qed simp

lemma run_script_cut:
  "\<not> fst (run_script K cs h) \<Longrightarrow>
   \<exists>k < length cs. snd (run_script K cs h) = h @ take (Suc k) cs \<and>
     answer_unit K (h @ take k cs) (cs ! k) \<noteq> None"
proof (induction cs arbitrary: h)
  case (Cons c cs)
  show ?case
  proof (cases "answer_unit K h c")
    case None
    with Cons.prems have "\<not> fst (run_script K cs (h @ [c]))" by simp
    from Cons.IH [OF this] obtain k where k: "k < length cs"
        "snd (run_script K cs (h @ [c])) = (h @ [c]) @ take (Suc k) cs"
        "answer_unit K ((h @ [c]) @ take k cs) (cs ! k) \<noteq> None" by blast
    with None show ?thesis by (intro exI [of _ "Suc k"]) simp
  qed (auto intro!: exI [of _ 0])
qed simp

lemma run_script_take: "\<exists>k. snd (run_script K cs h) = h @ take k cs"
proof (cases "fst (run_script K cs h)")
  case True
  from run_script_done [OF this] show ?thesis by (intro exI [of _ "length cs"]) simp
next
  case False
  from run_script_cut [OF this] show ?thesis by blast
qed

lemma run_script_member:
  assumes "c \<in> set (drop (length h) (snd (run_script K cs h)))"
  shows "c \<in> set cs"
proof -
  obtain k where "snd (run_script K cs h) = h @ take k cs" using run_script_take by blast
  with assms show ?thesis by (auto dest: in_set_takeD)
qed

lemma run_script_quiet: "(\<And>h c. answer_unit K h c = None) \<Longrightarrow> run_script K cs h = (True, h @ cs)"
  by (induction cs arbitrary: h) simp_all

lemma scripted_give [scripted_intros]: "scripted K (give None) []"
  by (simp add: scripted_def)

lemma scripted_call [scripted_intros]: "scripted K (do_unit K c) [c]"
  by (simp add: scripted_def split: option.split)

lemma scripted_guard:
  assumes "scripted K m cs" and "scripted K rest ds" and "\<And>e. fail e \<noteq> None"
  shows "scripted K (guard_err m fail rest) (cs @ ds)"
proof -
  have "snd (run_state (guard_err m fail rest) h) = snd (run_script K (cs @ ds) h) \<and>
      (fst (run_state (guard_err m fail rest) h) = None \<longleftrightarrow> fst (run_script K (cs @ ds) h))" for h
  proof -
    obtain r h1 where m: "run_state m h = (r, h1)" by fastforce
    with assms(1) have "h1 = snd (run_script K cs h)" "(r = None) = fst (run_script K cs h)"
      by (auto simp: scripted_def dest!: spec [of _ h])
    with m assms(2,3) show ?thesis
      by (cases r) (simp_all add: run_script_append scripted_def)
  qed
  then show ?thesis by (simp add: scripted_def)
qed

lemma scripted_step [scripted_intros]:
  assumes "scripted K rest ds" and "\<And>e. fail e \<noteq> None"
  shows "scripted K (guard_err (do_unit K c) fail rest) (c # ds)"
  using scripted_guard [OF scripted_call assms] by simp

lemma scriptedD:
  assumes "scripted K m cs"
  shows "snd (run_state m h) = snd (run_script K cs h)"
    and "fst (run_state m h) = None \<longleftrightarrow> fst (run_script K cs h)"
  using assms by (simp_all add: scripted_def)

lemma scripted_done:
  "scripted K m cs \<Longrightarrow> fst (run_state m h) = None \<Longrightarrow> snd (run_state m h) = h @ cs"
  by (simp add: scripted_def run_script_done)

lemma scripted_cong: "scripted K m cs \<Longrightarrow> cs = ds \<Longrightarrow> scripted K m ds"
  by simp

end
