(* ===== verification/Switch_Root.thy ===== *)
theory Switch_Root
  imports Scripts
begin

text \<open>
  \<^verbatim>\<open>internal/switchroot/switchroot.go\<close>: the kernel filesystems are moved into the new root as
  far as that works, then the new root is moved over \<^verbatim>\<open>/\<close> and its init executed.
\<close>

record switcher =
  sw_mount :: "string \<Rightarrow> string \<Rightarrow> string \<Rightarrow> nat \<Rightarrow> string \<Rightarrow> err option io"
  sw_chdir :: "string \<Rightarrow> err option io"
  sw_chroot :: "string \<Rightarrow> err option io"
  sw_exec :: "string \<Rightarrow> string list \<Rightarrow> err option io"

definition ms_move :: nat where "ms_move = 8192"

definition kernel_mounts :: "string list" where "kernel_mounts = [''/dev'', ''/proc'', ''/sys'']"

fun move_mounts :: "switcher \<Rightarrow> string \<Rightarrow> string list \<Rightarrow> unit io" where
  "move_mounts s new_root [] = give ()"
| "move_mounts s new_root (m # ms) = do {
     _ \<leftarrow> sw_mount s m (new_root @ m) [] ms_move [];
     move_mounts s new_root ms
   }"

definition switch_root :: "switcher \<Rightarrow> string \<Rightarrow> string \<Rightarrow> string list \<Rightarrow> err option io" where
  "switch_root s new_root init args = do {
     _ \<leftarrow> move_mounts s new_root kernel_mounts;
     guard_err (sw_chdir s new_root) (\<lambda>e. Some (wrap ''chdir %s: %w'' [new_root] e))
       (guard_err (sw_mount s ''.'' ''/'' [] ms_move []) (\<lambda>e. Some (wrap ''move %s to /: %w'' [new_root] e))
         (guard_err (sw_chroot s ''.'') (\<lambda>e. Some (wrap ''chroot: %w'' [] e))
           (guard_err (sw_chdir s ''/'') (\<lambda>e. Some (wrap ''chdir /: %w'' [] e))
             (guard_err (sw_exec s init args) (\<lambda>e. Some (wrap ''exec %s: %w'' [init] e))
               (give None)))))
   }"

text \<open>What the switch asks of the kernel, in order; the moves may fail, the rest may not.\<close>

definition move_calls :: "string \<Rightarrow> call list" where
  "move_calls new_root = map (\<lambda>m. MountFs m (new_root @ m) [] ms_move []) kernel_mounts"

definition switch_script :: "string \<Rightarrow> string \<Rightarrow> string list \<Rightarrow> call list" where
  "switch_script new_root init args =
     [Chdir new_root, MountFs ''.'' ''/'' [] ms_move [], Chroot ''.'', Chdir ''/'', Exec init args]"

locale switching =
  fixes K :: kernel and s :: switcher
  assumes mount_call: "sw_mount s src tgt fs flags data = do_unit K (MountFs src tgt fs flags data)"
    and chdir_call: "sw_chdir s d = do_unit K (Chdir d)"
    and chroot_call: "sw_chroot s d = do_unit K (Chroot d)"
    and exec_call: "sw_exec s p argv = do_unit K (Exec p argv)"
begin

lemma move_mounts_calls:
  "run_state (move_mounts s nr ms) h = ((), h @ map (\<lambda>m. MountFs m (nr @ m) [] ms_move []) ms)"
  by (induction ms arbitrary: h) (simp_all add: mount_call)

lemma switch_root_calls:
  "snd (run_state (switch_root s nr init args) h) = snd (run_script K (switch_script nr init args) (h @ move_calls nr))"
  "(fst (run_state (switch_root s nr init args) h) = None) = fst (run_script K (switch_script nr init args) (h @ move_calls nr))"
proof -
  have "scripted K (guard_err (sw_chdir s nr) (\<lambda>e. Some (wrap ''chdir %s: %w'' [nr] e))
       (guard_err (sw_mount s ''.'' ''/'' [] ms_move []) (\<lambda>e. Some (wrap ''move %s to /: %w'' [nr] e))
         (guard_err (sw_chroot s ''.'') (\<lambda>e. Some (wrap ''chroot: %w'' [] e))
           (guard_err (sw_chdir s ''/'') (\<lambda>e. Some (wrap ''chdir /: %w'' [] e))
             (guard_err (sw_exec s init args) (\<lambda>e. Some (wrap ''exec %s: %w'' [init] e))
               (give None)))))) (switch_script nr init args)"
    unfolding switch_script_def chdir_call mount_call chroot_call exec_call by (intro scripted_intros) simp_all
  from scriptedD [OF this]
  show "snd (run_state (switch_root s nr init args) h) = snd (run_script K (switch_script nr init args) (h @ move_calls nr))"
    and "(fst (run_state (switch_root s nr init args) h) = None) = fst (run_script K (switch_script nr init args) (h @ move_calls nr))"
    by (simp_all add: switch_root_def move_mounts_calls move_calls_def)
qed

end

definition sys_switcher :: "kernel \<Rightarrow> switcher" where
  "sys_switcher K = \<lparr>sw_mount = sys_mount K, sw_chdir = sys_chdir K, sw_chroot = sys_chroot K, sw_exec = sys_exec K\<rparr>"

interpretation syssw: switching K "sys_switcher K" for K
  by unfold_locales (simp_all add: sys_switcher_def sys_defs)

section \<open>Properties\<close>

text \<open>
  Init is executed only inside the new root: when the switch made the call that executes it,
  the kernel had accepted entering the new root, moving it over \<^verbatim>\<open>/\<close>, the chroot and the
  change to its top, in this order and with nothing in between, whatever became of the moves.
\<close>

theorem exec_only_after_the_switch:
  assumes "\<not> (\<exists>p argv. Exec p argv \<in> set h)"
    and "Exec p argv \<in> set (snd (run_state (switch_root (sys_switcher K) nr init args) h))"
  shows "let h0 = h @ move_calls nr in
    (p, argv) = (init, args) \<and>
    snd (run_state (switch_root (sys_switcher K) nr init args) h) = h0 @ switch_script nr init args \<and>
    (\<forall>k < 4. answer_unit K (h0 @ take k (switch_script nr init args)) (switch_script nr init args ! k) = None)"
proof -
  let ?h0 = "h @ move_calls nr" and ?s = "switch_script nr init args"
  note run = syssw.switch_root_calls [where nr = nr and init = init and args = args and h = h and K = K]
  have no: "Exec p argv \<notin> set ?h0"
    using assms(1) by (auto simp: move_calls_def)
  have reach: "fst (run_script K (take 4 ?s) ?h0)"
  proof (rule ccontr)
    assume cut: "\<not> fst (run_script K (take 4 ?s) ?h0)"
    have "?s = take 4 ?s @ [Exec init args]" by (simp add: switch_script_def)
    then have "run_script K ?s ?h0 = run_script K (take 4 ?s) ?h0"
      using cut run_script_append [of K "take 4 ?s" "[Exec init args]" ?h0] by simp
    moreover obtain k where "snd (run_script K (take 4 ?s) ?h0) = ?h0 @ take k (take 4 ?s)"
      using run_script_take by blast
    ultimately show False using assms(2) no run(1)
      by (auto simp: switch_script_def dest!: in_set_takeD)
  qed
  have split: "?s = take 4 ?s @ [Exec init args]" by (simp add: switch_script_def)
  have "run_script K ?s ?h0 = run_script K [Exec init args] (?h0 @ take 4 ?s)"
    using run_script_append [of K "take 4 ?s" "[Exec init args]" ?h0] reach
      run_script_done [OF reach] split by simp
  then have calls: "snd (run_state (switch_root (sys_switcher K) nr init args) h) = ?h0 @ ?s"
    using run(1) split by (simp split: option.split)
  with no assms(2) have "(p, argv) = (init, args)" by (auto simp: switch_script_def)
  moreover have "answer_unit K (?h0 @ take k ?s) (?s ! k) = None" if "k < 4" for k
  proof -
    have "take k (take 4 ?s) = take k ?s" and "take 4 ?s ! k = ?s ! k" using that by simp_all
    moreover have "k < length (take 4 ?s)" using that by (simp add: switch_script_def)
    ultimately show ?thesis using run_script_accepted [OF reach, of k] by simp
  qed
  ultimately show ?thesis using calls by (simp add: Let_def)
qed

theorem exec_only_after_the_switch_witness:
  "snd (run_state (switch_root (sys_switcher quiet_kernel) ''/newroot'' ''/sbin/k0smos'' [''/sbin/k0smos'']) []) =
     move_calls ''/newroot'' @ switch_script ''/newroot'' ''/sbin/k0smos'' [''/sbin/k0smos'']"
proof -
  have "Exec ''/sbin/k0smos'' [''/sbin/k0smos''] \<in> set (snd (run_state
      (switch_root (sys_switcher quiet_kernel) ''/newroot'' ''/sbin/k0smos'' [''/sbin/k0smos'']) []))"
    by (simp add: syssw.switch_root_calls(1) run_script_quiet quiet_kernel_def switch_script_def)
  from exec_only_after_the_switch [OF _ this] show ?thesis by (simp add: Let_def)
qed

end
