(* ===== verification/Root_Device.thy ===== *)
theory Root_Device
  imports Node_World Config Blkid Switch_Root
begin

text \<open>
  Finding the root filesystem and switching into it: \<^verbatim>\<open>selectRoot\<close>, \<^verbatim>\<open>rootDevice\<close> and \<^verbatim>\<open>pivot\<close> of
  \<^verbatim>\<open>cmd/k0smos/init_linux.go\<close>. A switch that works replaces the program, which is the result
  \<^term>\<open>None\<close> of \<open>pivot\<close>; every other end is an error.
\<close>

section \<open>Definitions\<close>

definition new_root_dir :: string where "new_root_dir = ''/newroot''"
definition init_path :: string where "init_path = ''/sbin/k0smos''"
definition switched_flag :: string where "switched_flag = ''--switched-root''"
definition root_probe_attempts :: nat where "root_probe_attempts = 30"
definition root_probe_interval :: nat where "root_probe_interval = 500 * 10 ^ 6"
definition canonical_root_spec :: string where "canonical_root_spec = ''LABEL=k0smos''"
definition no_root_spec :: string where "no_root_spec = ''none''"
definition embedded_root :: string where "embedded_root = ''/k0smos-root.img''"
definition ms_read_only :: nat where "ms_read_only = 1"

definition select_root :: "string \<Rightarrow> bool \<Rightarrow> string \<times> bool \<times> bool" where
  "select_root explicit has_embedded =
     (if explicit = no_root_spec then ([], False, True)
      else if explicit \<noteq> [] then (explicit, False, False)
      else if has_embedded then ([], True, False)
      else (canonical_root_spec, False, False))"

text \<open>\<^verbatim>\<open>os.Stat\<close> is only asked whether it fails.\<close>

definition stat_embedded :: "platform \<Rightarrow> config \<Rightarrow> bool node" where
  "stat_embedded P cfg =
     (if Root cfg = [] then do {
        r \<leftarrow> act (do_num (pf_kernel P) (Stat embedded_root));
        pass (case r of Inl _ \<Rightarrow> False | Inr _ \<Rightarrow> True)
      } else pass False)"

definition probe_pause :: "kernel \<Rightarrow> unit io" where
  "probe_pause K = do { _ \<leftarrow> do_unit K (Sleep root_probe_interval); give () }"

definition find_root :: "platform \<Rightarrow> string \<Rightarrow> (err + string) node" where
  "find_root P spec = do {
     r \<leftarrow> act (resolve_wait (sys_prober (pf_kernel P)) spec root_probe_attempts (probe_pause (pf_kernel P)));
     (case r of
        Inl e \<Rightarrow> pass (Inl (wrap ''find root %s: %w'' [spec] e))
      | Inr dev \<Rightarrow>
          if dev \<noteq> spec then do { _ \<leftarrow> log_step P ''root'' None (spec @ '' -> '' @ dev); pass (Inr dev) }
          else pass (Inr dev))
   }"

definition root_device :: "platform \<Rightarrow> config \<Rightarrow> (err + string) node" where
  "root_device P cfg = do {
     has_embedded \<leftarrow> stat_embedded P cfg;
     (case select_root (Root cfg) has_embedded of (spec, use_embedded, disabled) \<Rightarrow>
        if disabled then pass (Inl (Errorf ''root discovery is disabled by k0smos.root=%s'' [no_root_spec] None))
        else if use_embedded then do {
          r \<leftarrow> act (sys_loop_attach (pf_kernel P) embedded_root True);
          pass (case r of
                  Inl e \<Rightarrow> Inl (wrap ''attach %s to a loop device: %w'' [embedded_root] e)
                | Inr dev \<Rightarrow> Inr dev) }
        else find_root P spec)
   }"

text \<open>What the device holds is preferred over what the command line says it holds.\<close>

definition root_fstype :: "platform \<Rightarrow> config \<Rightarrow> string \<Rightarrow> string node" where
  "root_fstype P cfg dev = do {
     i \<leftarrow> act (identify (sys_prober (pf_kernel P)) (trim_prefix dev ''/dev/''));
     pass (case i of None \<Rightarrow> RootFSType cfg | Some found \<Rightarrow> fs_type found)
   }"

definition refused_writing :: "err option \<Rightarrow> bool" where
  "refused_writing r = (case r of None \<Rightarrow> False | Some e \<Rightarrow> is_errno EACCES e \<or> is_errno EROFS e)"

text \<open>The mount is tried read-write, and read-only when that is refused for being so.\<close>

definition mount_root :: "platform \<Rightarrow> config \<Rightarrow> string \<Rightarrow> string \<Rightarrow> err option node" where
  "mount_root P cfg dev fstype = do {
     let K = pf_kernel P;
     rw \<leftarrow> act (sys_mount K dev new_root_dir fstype 0 (RootFlags cfg));
     (if refused_writing rw
      then act (sys_mount K dev new_root_dir fstype ms_read_only (RootFlags cfg))
      else do {
        _ \<leftarrow> (if rw = None then do { _ \<leftarrow> act (sys_is_read_only K new_root_dir); pass () } else pass ());
        pass rw })
   }"

definition pivot :: "platform \<Rightarrow> config \<Rightarrow> err option node" where
  "pivot P cfg = do {
     let K = pf_kernel P;
     d \<leftarrow> root_device P cfg;
     (case d of
        Inl e \<Rightarrow> pass (Some e)
      | Inr dev \<Rightarrow> do {
          fstype \<leftarrow> root_fstype P cfg dev;
          m \<leftarrow> act (sys_mkdir K new_root_dir perm_0755);
          (case m of
             Some e \<Rightarrow> pass (Some (wrap ''mkdir %s: %w'' [new_root_dir] e))
           | None \<Rightarrow> do {
               r \<leftarrow> mount_root P cfg dev fstype;
               (case r of
                  Some e \<Rightarrow> pass (Some (wrap ''mount %s (%s): %w'' [dev, fstype] e))
                | None \<Rightarrow> act (switch_root (sys_switcher K) new_root_dir init_path [init_path, switched_flag]))
             })
        })
   }"

section \<open>What a specification designates\<close>

text \<open>
  The abstract meaning of a root specification on disks that hold still: the first device in
  the kernel's list whose filesystem has the UUID or the label, or the path itself.
\<close>

definition designated :: "(string \<Rightarrow> bytes option) \<Rightarrow> string list \<Rightarrow> string \<Rightarrow> string option" where
  "designated disks names spec =
     (case cut (CHR ''='') spec of (kind, want, found) \<Rightarrow>
        if found \<and> (to_upper kind = ''UUID'' \<or> to_upper kind = ''LABEL'')
        then map_option (\<lambda>d. ''/dev/'' @ d) (find (\<lambda>d. matches_spec (to_upper kind = ''UUID'') want (disks d)) names)
        else Some spec)"

lemma resolve_designated:
  "fst (run_state (resolve (sys_prober (with_disks disks names K)) spec) h) =
     (case designated disks names spec of
        Some d \<Rightarrow> Inr d | None \<Rightarrow> Inl (Errorf ''no block device matches %s'' [spec] None))"
proof -
  obtain kind want found where c: "cut (CHR ''='') spec = (kind, want, found)" by (metis prod_cases3)
  show ?thesis
  proof (cases "found \<and> (to_upper kind = ''UUID'' \<or> to_upper kind = ''LABEL'')")
    case True
    with c sysd.resolve_image [of spec kind want disks names K h] show ?thesis
      by (simp add: designated_def split: option.split)
  next
    case False
    with c show ?thesis by (auto simp: designated_def resolve_def)
  qed
qed

lemma resolve_wait_designated:
  "fst (run_state (resolve_wait_from (sys_prober (with_disks disks names K)) spec (Suc n) sl e) h) =
     (case designated disks names spec of
        Some d \<Rightarrow> Inr d | None \<Rightarrow> Inl (Errorf ''no block device matches %s'' [spec] None))"
proof (induction n arbitrary: h e)
  case 0
  with resolve_designated [of disks names K spec h] show ?case
    by (auto split: prod.split option.splits)
next
  case (Suc n)
  have step: "fst (run_state (resolve_wait_from p spec (Suc m) sl e) h) =
      (case run_state (resolve p spec) h of (Inr d, h1) \<Rightarrow> Inr d
       | (Inl e', h1) \<Rightarrow> fst (run_state (resolve_wait_from p spec m sl (Some e')) (snd (run_state sl h1))))"
    for p :: prober and m h e by (simp split: prod.split sum.split)
  from resolve_designated [of disks names K spec h] Suc show ?case
    unfolding step [of _ "Suc n"] by (auto split: prod.split option.splits sum.split)
qed

lemma find_root_designated:
  "case designated disks names s of
     Some d \<Rightarrow> fst (run_state (find_root (P\<lparr>pf_kernel := with_disks disks names K\<rparr>) s) w) = Inr d
   | None \<Rightarrow> (\<exists>e. fst (run_state (find_root (P\<lparr>pf_kernel := with_disks disks names K\<rparr>) s) w) = Inl e)"
proof -
  have attempts: "root_probe_attempts = Suc 29" by (simp add: root_probe_attempts_def)
  show ?thesis
    using resolve_wait_designated [of disks names K s 29 "probe_pause (with_disks disks names K)" None "w_hist w"]
    unfolding find_root_def resolve_wait_def attempts
    by (auto split: prod.split option.splits)
qed

lemma root_device_run:
  "run_state (root_device P cfg) w =
     (if Root cfg = no_root_spec
      then (Inl (Errorf ''root discovery is disabled by k0smos.root=%s'' [no_root_spec] None), w)
      else if Root cfg \<noteq> [] then run_state (find_root P (Root cfg)) w
      else let w1 = w\<lparr>w_hist := w_hist w @ [Stat embedded_root]\<rparr> in
        (case answer_num (pf_kernel P) (w_hist w) (Stat embedded_root) of
           Inl _ \<Rightarrow> run_state (find_root P canonical_root_spec) w1
         | Inr _ \<Rightarrow>
             (case run_state (sys_loop_attach (pf_kernel P) embedded_root True) (w_hist w1) of
                (Inl e, h) \<Rightarrow> (Inl (wrap ''attach %s to a loop device: %w'' [embedded_root] e), w\<lparr>w_hist := h\<rparr>)
              | (Inr dev, h) \<Rightarrow> (Inr dev, w\<lparr>w_hist := h\<rparr>))))"
  by (auto simp: root_device_def stat_embedded_def select_root_def no_root_spec_def Let_def split: sum.splits prod.splits)

lemma switch_accepted:
  assumes "run_state (switch_root (sys_switcher K) nr init args) h = (None, h')"
  shows "h' = h @ move_calls nr @ switch_script nr init args"
proof -
  note run = syssw.switch_root_calls [where nr = nr and init = init and args = args and h = h and K = K]
  from run(2) assms have "fst (run_script K (switch_script nr init args) (h @ move_calls nr))" by simp
  from run_script_done [OF this] run(1) assms show ?thesis by simp
qed

section \<open>Properties\<close>

text \<open>
  C22. Every way of naming the root: an explicit one is used as it is, even when an image is
  embedded; \<^verbatim>\<open>none\<close> disables the search; without one, the embedded image is attached if there is
  one, and otherwise the disk labelled \<^verbatim>\<open>k0smos\<close> is looked for. A specification no disk answers
  to is an error, after all the attempts.
\<close>

theorem root_device_choice:
  "let K = with_disks disks names K0;
       r = fst (run_state (root_device (P\<lparr>pf_kernel := K\<rparr>) cfg) w);
       is_designated = (\<lambda>s. case designated disks names s of Some d \<Rightarrow> r = Inr d | None \<Rightarrow> (\<exists>e. r = Inl e))
   in if Root cfg = no_root_spec then (\<exists>e. r = Inl e)
      else if Root cfg \<noteq> [] then is_designated (Root cfg)
      else (case answer_num K0 (w_hist w) (Stat embedded_root) of
              Inl _ \<Rightarrow> is_designated canonical_root_spec
            | Inr _ \<Rightarrow>
                (case fst (run_state (sys_loop_attach K embedded_root True) (w_hist w @ [Stat embedded_root])) of
                   Inr d \<Rightarrow> r = Inr d | Inl _ \<Rightarrow> (\<exists>e. r = Inl e)))"
proof -
  let ?K = "with_disks disks names K0"
  let ?P = "P\<lparr>pf_kernel := ?K\<rparr>"
  have stat: "answer_num ?K h (Stat f) = answer_num K0 h (Stat f)" for h f by (simp add: with_disks_def)
  have search: "case designated disks names s of
       Some d \<Rightarrow> fst (run_state (find_root ?P s) w') = Inr d
     | None \<Rightarrow> (\<exists>e. fst (run_state (find_root ?P s) w') = Inl e)" for s w'
    by (rule find_root_designated)
  have none: "no_root_spec \<noteq> []" "[] \<noteq> no_root_spec" by (simp_all add: no_root_spec_def)
  let ?w1 = "w\<lparr>w_hist := w_hist w @ [Stat embedded_root]\<rparr>"
  consider "Root cfg = no_root_spec" | "Root cfg \<noteq> no_root_spec" "Root cfg \<noteq> []"
    | e where "Root cfg = []" "answer_num K0 (w_hist w) (Stat embedded_root) = Inl e"
    | n where "Root cfg = []" "answer_num K0 (w_hist w) (Stat embedded_root) = Inr n"
    by (metis sum.exhaust)
  then show ?thesis
  proof cases
    case 2
    then have "run_state (root_device ?P cfg) w = run_state (find_root ?P (Root cfg)) w" by (simp add: root_device_run)
    with 2 search [of "Root cfg" w] show ?thesis by (simp add: Let_def cong: option.case_cong)
  next
    case 3
    then have "run_state (root_device ?P cfg) w = run_state (find_root ?P canonical_root_spec) ?w1"
      by (simp add: root_device_run none stat Let_def)
    with 3 none search [of canonical_root_spec ?w1] show ?thesis by (simp add: Let_def cong: option.case_cong)
  next
    case 4
    then show ?thesis
      by (simp add: root_device_run none stat Let_def split: prod.split sum.split)
  qed (simp add: root_device_run)
qed

text \<open>
  C17. The program is only replaced on a root that is mounted: when the switch succeeds, the device
  found had been mounted at the new root, read-write or, only because that was refused for a
  read-only medium, read-only; and the last calls are the mount, the moves and the switch.
\<close>

theorem switch_follows_a_mounted_root:
  assumes "run_state (pivot P cfg) w = (None, w')"
  shows "\<exists>dev ty h. fst (run_state (root_device P cfg) w) = Inr dev \<and>
    (let K = pf_kernel P;
         mounting = (\<lambda>flags. MountFs dev new_root_dir ty flags (RootFlags cfg));
         onward = move_calls new_root_dir @ switch_script new_root_dir init_path [init_path, switched_flag]
     in if answer_unit K h (mounting 0) = None
        then w_hist w' = h @ [mounting 0, Statfs new_root_dir] @ onward
        else refused_writing (answer_unit K h (mounting 0)) \<and>
             answer_unit K (h @ [mounting 0]) (mounting ms_read_only) = None \<and>
             w_hist w' = h @ [mounting 0, mounting ms_read_only] @ onward)"
proof -
  let ?K = "pf_kernel P"
  obtain d w1 where d: "run_state (root_device P cfg) w = (d, w1)" by fastforce
  with assms obtain dev where dev: "d = Inr dev"
    by (cases d) (auto simp: pivot_def Let_def)
  obtain ty w2 where ty: "run_state (root_fstype P cfg dev) w1 = (ty, w2)" by fastforce
  let ?h = "w_hist w2 @ [MkdirAll new_root_dir perm_0755]"
  let ?m = "\<lambda>flags. MountFs dev new_root_dir ty flags (RootFlags cfg)"
  have mk: "answer_unit ?K (w_hist w2) (MkdirAll new_root_dir perm_0755) = None"
    using assms d dev ty by (auto simp: pivot_def Let_def sys_mkdir_def split: option.splits)
  obtain r w3 where r: "run_state (mount_root P cfg dev ty) (w2\<lparr>w_hist := ?h\<rparr>) = (r, w3)" by fastforce
  with assms d dev ty mk have "r = None" by (auto simp: pivot_def Let_def sys_mkdir_def split: option.splits)
  with assms d dev ty mk r have sw:
    "run_state (act (switch_root (sys_switcher ?K) new_root_dir init_path [init_path, switched_flag])) w3 = (None, w')"
    by (simp add: pivot_def Let_def sys_mkdir_def)
  then have w': "w_hist w' = w_hist w3 @ move_calls new_root_dir @ switch_script new_root_dir init_path [init_path, switched_flag]"
    by (auto dest!: switch_accepted split: prod.splits)
  have mounted: "if answer_unit ?K ?h (?m 0) = None then w_hist w3 = ?h @ [?m 0, Statfs new_root_dir]
      else refused_writing (answer_unit ?K ?h (?m 0)) \<and> answer_unit ?K (?h @ [?m 0]) (?m ms_read_only) = None \<and>
        w_hist w3 = ?h @ [?m 0, ?m ms_read_only]"
    using r \<open>r = None\<close>
    by (auto simp: mount_root_def Let_def sys_mount_def sys_is_read_only_def refused_writing_def split: if_splits option.splits)
  show ?thesis
    by (intro exI [of _ dev] exI [of _ ty] exI [of _ ?h] conjI)
      (use d dev mounted w' in \<open>simp_all add: Let_def split: if_splits\<close>)
qed

text \<open>An erofs root: the read-write mount is refused, the read-only one accepted.\<close>

definition read_only_root :: kernel where
  "read_only_root = quiet_kernel\<lparr>answer_unit := (\<lambda>h c. case c of
     MountFs src tgt ty flags d \<Rightarrow> (if tgt = new_root_dir \<and> flags = 0 then Some (Errno EROFS) else None) | _ \<Rightarrow> None)\<rparr>"

lemma read_only_root_run:
  "\<exists>w'. run_state (pivot (plain_platform read_only_root) (default_config\<lparr>Root := ''/dev/vda''\<rparr>)) fresh_world = (None, w')"
proof -
  let ?P = "plain_platform read_only_root" and ?cfg = "default_config\<lparr>Root := ''/dev/vda''\<rparr>"
  have "run_state (resolve p ''/dev/vda'') h = (Inr ''/dev/vda'', h)" for p :: prober and h
    by (simp add: resolve_def)
  then have "run_state (find_root ?P ''/dev/vda'') fresh_world = (Inr ''/dev/vda'', fresh_world)"
    by (simp add: find_root_def resolve_wait_def root_probe_attempts_def numeral_eq_Suc)
  then have d: "run_state (root_device ?P ?cfg) fresh_world = (Inr ''/dev/vda'', fresh_world)"
    by (simp add: root_device_run no_root_spec_def)
  obtain ty w2 where ty: "run_state (root_fstype ?P ?cfg ''/dev/vda'') fresh_world = (ty, w2)" by fastforce
  have k: "pf_kernel ?P = read_only_root" by (simp add: plain_platform_def)
  have script: "fst (run_script read_only_root (switch_script new_root_dir init argv) h)" for init argv h
    by (simp add: switch_script_def read_only_root_def new_root_dir_def)
  have sw: "fst (run_state (switch_root (sys_switcher read_only_root) new_root_dir init argv) h) = None" for init argv h
    using syssw.switch_root_calls(2) [where K = read_only_root] script by simp
  have unit: "answer_unit read_only_root h (MkdirAll p m) = None"
    "answer_unit read_only_root h (MountFs s new_root_dir t 0 f) = Some (Errno EROFS)"
    "answer_unit read_only_root h (MountFs s new_root_dir t ms_read_only f) = None" for h p m s t f
    by (simp_all add: read_only_root_def ms_read_only_def)
  show ?thesis
    using sw [of init_path "[init_path, switched_flag]"]
    by (auto simp: pivot_def d ty k Let_def sys_mkdir_def mount_root_def sys_mount_def unit refused_writing_def
        split: prod.splits) (metis fst_conv)
qed

theorem switch_follows_a_mounted_root_witness:
  "\<exists>ty h. let mounting = (\<lambda>flags. MountFs ''/dev/vda'' new_root_dir ty flags []) in
     refused_writing (answer_unit read_only_root h (mounting 0)) \<and>
     answer_unit read_only_root (h @ [mounting 0]) (mounting ms_read_only) = None"
proof -
  obtain w' where run: "run_state (pivot (plain_platform read_only_root) (default_config\<lparr>Root := ''/dev/vda''\<rparr>)) fresh_world = (None, w')"
    using read_only_root_run by blast
  from switch_follows_a_mounted_root [OF run] show ?thesis
    by (auto simp: Let_def plain_platform_def read_only_root_def refused_writing_def ms_read_only_def)
qed

end
