(* ===== verification/Dhcp_Packet.thy ===== *)
theory Dhcp_Packet
  imports Byte_Order Go_Strings
begin

text \<open>
  \<^verbatim>\<open>internal/dhcp/dhcp.go\<close>: building the client's messages and parsing the server's. An IP
  address, a mask and a hardware address are byte lists; Go's nil is \<^term>\<open>None\<close> where the code
  distinguishes it. Durations are nanoseconds, as in \<^verbatim>\<open>time.Duration\<close>; a 32-bit count of
  seconds fits its 63 bits, so they are natural numbers.

  The option area is a list of type-length-value entries. The locale \<open>tlv_scanner\<close> says what
  the rest of the package may rely on, and \<open>find_option\<close> meets it: on the encoding of an
  association list it finds what \<^const>\<open>map_of\<close> finds.
\<close>

section \<open>Constants\<close>

definition boot_request :: byte where "boot_request = 1"
definition boot_reply :: byte where "boot_reply = 2"
definition htype_ethernet :: byte where "htype_ethernet = 1"
definition magic_cookie :: "32 word" where "magic_cookie = 0x63825363"
definition flag_broadcast :: "16 word" where "flag_broadcast = 0x8000"
definition min_packet_len :: nat where "min_packet_len = 240"

definition msg_discover :: byte where "msg_discover = 1"
definition msg_offer :: byte where "msg_offer = 2"
definition msg_request :: byte where "msg_request = 3"
definition msg_ack :: byte where "msg_ack = 5"
definition msg_nak :: byte where "msg_nak = 6"

definition opt_subnet_mask :: byte where "opt_subnet_mask = 1"
definition opt_router :: byte where "opt_router = 3"
definition opt_dns :: byte where "opt_dns = 6"
definition opt_hostname :: byte where "opt_hostname = 12"
definition opt_requested_ip :: byte where "opt_requested_ip = 50"
definition opt_lease_time :: byte where "opt_lease_time = 51"
definition opt_message_type :: byte where "opt_message_type = 53"
definition opt_server_id :: byte where "opt_server_id = 54"
definition opt_param_list :: byte where "opt_param_list = 55"
definition opt_t1 :: byte where "opt_t1 = 58"
definition opt_t2 :: byte where "opt_t2 = 59"
definition opt_end :: byte where "opt_end = 255"

lemmas dhcp_consts =
  boot_request_def boot_reply_def htype_ethernet_def min_packet_len_def
  msg_discover_def msg_offer_def msg_request_def msg_ack_def msg_nak_def
  opt_subnet_mask_def opt_router_def opt_dns_def opt_hostname_def opt_requested_ip_def
  opt_lease_time_def opt_message_type_def opt_server_id_def opt_param_list_def
  opt_t1_def opt_t2_def opt_end_def

section \<open>Building messages\<close>

definition bootp_header :: "32 word \<Rightarrow> bytes \<Rightarrow> bytes" where
  "bootp_header xid mac =
     put_at 236 (put_be32 magic_cookie)
       (put_at 28 (take 16 mac)
         (put_at 10 (put_be16 flag_broadcast)
           (put_at 4 (put_be32 xid)
             ([boot_request, htype_ethernet, word_of_nat (length mac)] @ replicate 237 0))))"

definition build_options :: "byte \<Rightarrow> string \<Rightarrow> ip_addr option \<Rightarrow> ip_addr option \<Rightarrow> bytes" where
  "build_options msg_type hostname requested server =
     [opt_message_type, 1, msg_type] @
     (case requested of None \<Rightarrow> [] | Some ip \<Rightarrow> [opt_requested_ip, 4] @ to4 ip) @
     (case server of None \<Rightarrow> [] | Some ip \<Rightarrow> [opt_server_id, 4] @ to4 ip) @
     (if hostname \<noteq> [] then [opt_hostname, word_of_nat (length hostname)] @ to_bytes hostname
      else []) @
     [opt_param_list, 4, opt_subnet_mask, opt_router, opt_dns, opt_lease_time] @ [opt_end]"

definition build ::
  "byte \<Rightarrow> 32 word \<Rightarrow> bytes \<Rightarrow> string \<Rightarrow> ip_addr option \<Rightarrow> ip_addr option \<Rightarrow> bytes"
where
  "build msg_type xid mac hostname requested server =
     (let p = bootp_header xid mac @ build_options msg_type hostname requested server
      in p @ replicate (300 - length p) 0)"

definition build_discover :: "32 word \<Rightarrow> bytes \<Rightarrow> string \<Rightarrow> bytes" where
  "build_discover xid mac hostname = build msg_discover xid mac hostname None None"

definition build_request ::
  "32 word \<Rightarrow> bytes \<Rightarrow> string \<Rightarrow> ip_addr option \<Rightarrow> ip_addr option \<Rightarrow> bytes" where
  "build_request xid mac hostname requested server =
     build msg_request xid mac hostname requested server"

definition build_renew :: "32 word \<Rightarrow> bytes \<Rightarrow> string \<Rightarrow> ip_addr \<Rightarrow> bytes" where
  "build_renew xid mac hostname current =
     put_at 12 (take 4 (to4 current)) (build msg_request xid mac hostname None None)"

section \<open>Finding options\<close>

text \<open>The scan starts after the fixed part; a truncated option ends it.\<close>

fun scan_options :: "byte \<Rightarrow> bytes \<Rightarrow> bytes option" where
  "scan_options code [] = None"
| "scan_options code (b # bs) =
     (if b = opt_end then None
      else if b = 0 then scan_options code bs
      else (case bs of
              [] \<Rightarrow> None
            | l # rest \<Rightarrow>
                if length rest < unat l then None
                else if b = code then Some (take (unat l) rest)
                else scan_options code (drop (unat l) rest)))"

definition find_option :: "bytes \<Rightarrow> byte \<Rightarrow> bytes option" where
  "find_option p code =
     (if length p \<le> min_packet_len then None else scan_options code (drop min_packet_len p))"

section \<open>Parsing replies\<close>

record lease =
  l_ip :: ip_addr
  l_mask :: "bytes option"
  l_router :: "ip_addr option"
  l_dns :: "ip_addr list"
  l_server :: "ip_addr option"
  l_time :: nat
  l_t1 :: nat
  l_t2 :: nat

text \<open>\<^verbatim>\<open>HardwareAddr.String\<close>, the form in which the code compares two addresses.\<close>

definition mac_string :: "bytes \<Rightarrow> string" where
  "mac_string mac = join '':'' (map hex2 mac)"

fun dns_servers :: "bytes \<Rightarrow> ip_addr list" where
  "dns_servers (a # b # c # d # rest) = [a, b, c, d] # dns_servers rest"
| "dns_servers _ = []"

definition second :: nat where "second = 1000000000"

definition option_of_length :: "(byte \<Rightarrow> bytes option) \<Rightarrow> byte \<Rightarrow> nat \<Rightarrow> bytes option" where
  "option_of_length look code n =
     (case look code of Some v \<Rightarrow> if length v = n then Some v else None | None \<Rightarrow> None)"

definition seconds_option :: "(byte \<Rightarrow> bytes option) \<Rightarrow> byte \<Rightarrow> nat \<Rightarrow> nat" where
  "seconds_option look code dflt =
     (case option_of_length look code 4 of
        Some v \<Rightarrow> unat (be32 v) * second | None \<Rightarrow> dflt)"

definition lease_from :: "ip_addr \<Rightarrow> (byte \<Rightarrow> bytes option) \<Rightarrow> lease" where
  "lease_from ip look =
     (let lt = seconds_option look opt_lease_time 0 in
      \<lparr>l_ip = ip,
       l_mask = option_of_length look opt_subnet_mask 4,
       l_router = (case look opt_router of
                     Some v \<Rightarrow> if 4 \<le> length v then Some (take 4 v) else None | None \<Rightarrow> None),
       l_dns = (case look opt_dns of Some v \<Rightarrow> dns_servers v | None \<Rightarrow> []),
       l_server = option_of_length look opt_server_id 4,
       l_time = lt,
       l_t1 = seconds_option look opt_t1 (lt div 2),
       l_t2 = seconds_option look opt_t2 (lt div 8 * 7)\<rparr>)"

definition parse_reply :: "bytes \<Rightarrow> 32 word \<Rightarrow> bytes \<Rightarrow> err + (lease \<times> byte)" where
  "parse_reply p xid mac =
     (if length p < min_packet_len
      then Inl (Errorf ''packet too short: %d bytes'' [dec (length p)] None)
      else if p ! 0 \<noteq> boot_reply then Inl (msg ''not a BOOTP reply'')
      else if be32 (drop 236 p) \<noteq> magic_cookie then Inl (msg ''bad magic cookie'')
      else if be32 (drop 4 p) \<noteq> xid
      then Inl (Errorf ''xid %#x is not ours (%#x)''
                  [hex_bytes (slice 4 8 p), hex_bytes (put_be32 xid)] None)
      else if mac_string (slice 28 (28 + length mac) p) \<noteq> mac_string mac
      then Inl (msg ''reply is for another MAC'')
      else (case find_option p opt_message_type of
              None \<Rightarrow> Inl (msg ''no message type option'')
            | Some mt \<Rightarrow>
                if length mt \<noteq> 1 then Inl (msg ''no message type option'')
                else Inr (lease_from (slice 16 20 p) (find_option p), hd mt)))"

section \<open>Rendering a lease\<close>

definition ip_string :: "ip_addr \<Rightarrow> string" where
  "ip_string ip = join ''.'' (map (\<lambda>b. dec (unat b)) ip)"

definition byte_bits :: "byte \<Rightarrow> bool list" where
  "byte_bits b = map (\<lambda>k. odd (unat b div 2 ^ k)) [7, 6, 5, 4, 3, 2, 1, 0]"

text \<open>\<^verbatim>\<open>IPMask.Size\<close>: the leading ones, or 0 for a mask that is not ones followed by zeros.\<close>

definition mask_ones :: "bytes \<Rightarrow> nat" where
  "mask_ones m =
     (let bits = concat (map byte_bits m); ones = takeWhile (\<lambda>b. b) bits
      in if True \<in> set (drop (length ones) bits) then 0 else length ones)"

definition lease_cidr :: "lease \<Rightarrow> string" where
  "lease_cidr l =
     ip_string (l_ip l) @ ''/'' @
     dec (case l_mask l of None \<Rightarrow> 0 | Some m \<Rightarrow> mask_ones m)"

section \<open>Option areas as association lists\<close>

type_synonym opt_list = "(byte \<times> bytes) list"

definition good_options :: "opt_list \<Rightarrow> bool" where
  "good_options opts = (\<forall>(c, v)\<in>set opts. c \<noteq> 0 \<and> c \<noteq> opt_end \<and> length v < 256)"

fun encode_options :: "opt_list \<Rightarrow> bytes" where
  "encode_options [] = []"
| "encode_options ((c, v) # opts) = c # word_of_nat (length v) # v @ encode_options opts"

lemma unat_length_byte: "n < 256 \<Longrightarrow> unat (word_of_nat n :: byte) = n"
  by (simp add: unat_of_nat)

locale tlv_scanner =
  fixes scan :: "byte \<Rightarrow> bytes \<Rightarrow> bytes option"
  assumes scan_entry: "good_options [(c, v)] \<Longrightarrow>
      scan code (c # word_of_nat (length v) # v @ rest) =
        (if c = code then Some v else scan code rest)"
    and scan_end: "scan code (opt_end # rest) = None"
    and scan_pad: "scan code (0 # rest) = scan code rest"
begin

lemma scan_pads: "scan code (replicate n 0 @ rest) = scan code rest"
  by (induction n) (simp_all add: scan_pad)

lemma scan_encoded:
  "good_options opts \<Longrightarrow>
   scan code (encode_options opts @ rest) =
     (case map_of opts code of Some v \<Rightarrow> Some v | None \<Rightarrow> scan code rest)"
proof (induction opts)
  case (Cons e opts)
  then have "good_options [e]" and "good_options opts" by (auto simp: good_options_def)
  with Cons.IH show ?case by (cases e) (simp add: scan_entry)
qed simp

theorem scan_refines_map_of:
  "good_options opts \<Longrightarrow> scan code (encode_options opts @ opt_end # rest) = map_of opts code"
  by (simp add: scan_encoded scan_end split: option.split)

end

interpretation opts: tlv_scanner scan_options
  by unfold_locales (auto simp: good_options_def opt_end_def unat_length_byte)

text \<open>Every value found lies inside the packet, and it is never longer than its length byte allows.\<close>

lemma scan_options_bound: "scan_options code bs = Some v \<Longrightarrow> length v + 2 \<le> length bs \<and> length v < 256"
proof (induction code bs rule: scan_options.induct)
  case (2 code b bs)
  show ?case
  proof (cases bs)
    case (Cons l rest)
    have "unat l < 256" using unsigned_less [of l] by simp
    with 2 Cons show ?thesis by (fastforce split: if_splits)
  qed (use 2 in \<open>auto split: if_splits\<close>)
qed simp

section \<open>The client's messages\<close>

lemma length_bootp_header [simp]: "length (bootp_header xid mac) = 240"
  by (simp add: bootp_header_def)

lemma find_option_header:
  "find_option (bootp_header xid mac @ area) code = scan_options code area"
  by (cases area) (simp_all add: find_option_def min_packet_len_def)

definition request_options :: "byte \<Rightarrow> string \<Rightarrow> ip_addr option \<Rightarrow> ip_addr option \<Rightarrow> opt_list" where
  "request_options msg_type hostname requested server =
     [(opt_message_type, [msg_type])] @
     (case requested of None \<Rightarrow> [] | Some ip \<Rightarrow> [(opt_requested_ip, ip)]) @
     (case server of None \<Rightarrow> [] | Some ip \<Rightarrow> [(opt_server_id, ip)]) @
     (if hostname \<noteq> [] then [(opt_hostname, to_bytes hostname)] else []) @
     [(opt_param_list, [opt_subnet_mask, opt_router, opt_dns, opt_lease_time])]"

definition four_bytes :: "ip_addr option \<Rightarrow> bool" where
  "four_bytes ip = (case ip of None \<Rightarrow> True | Some b \<Rightarrow> length b = 4)"

lemma encode_options_append [simp]: "encode_options (xs @ ys) = encode_options xs @ encode_options ys"
  by (induction xs rule: encode_options.induct) auto

lemma build_options_encode:
  assumes "four_bytes requested" and "four_bytes server"
  shows "build_options msg_type hostname requested server =
    encode_options (request_options msg_type hostname requested server) @ [opt_end]"
  using assms
  by (auto simp: build_options_def request_options_def four_bytes_def split: option.splits)

lemma good_request_options:
  assumes "four_bytes requested" and "four_bytes server" and "length hostname < 256"
  shows "good_options (request_options msg_type hostname requested server)"
  using assms
  by (auto simp: good_options_def request_options_def four_bytes_def dhcp_consts
      split: option.splits if_splits)

lemma find_option_build:
  assumes "four_bytes requested" and "four_bytes server" and "length hostname < 256"
  shows "find_option (build msg_type xid mac hostname requested server) code =
    map_of (request_options msg_type hostname requested server) code"
proof -
  have "find_option (build msg_type xid mac hostname requested server) code =
      scan_options code (build_options msg_type hostname requested server @ replicate
        (300 - (240 + length (build_options msg_type hostname requested server))) 0)"
    by (simp only: build_def Let_def append.assoc find_option_header length_append
        length_bootp_header)
  also have "\<dots> = map_of (request_options msg_type hostname requested server) code"
    using opts.scan_refines_map_of [OF good_request_options [OF assms]]
    by (simp add: build_options_encode assms)
  finally show ?thesis .
qed

section \<open>The server's replies\<close>

lemma digit_code: "n < 16 \<Longrightarrow> of_char (digit n) = (if n < 10 then 48 + n else 87 + n)"
  by (simp add: digit_def)

lemma digit_inject:
  assumes "digit x = digit y" and "x < 16" and "y < 16"
  shows "x = y"
proof -
  have "(if x < 10 then 48 + x else 87 + x) = (if y < 10 then 48 + y else 87 + y)"
    using assms(1) digit_code [OF assms(2)] digit_code [OF assms(3)] by metis
  then show ?thesis by (simp split: if_splits)
qed

lemma hex2_inject: "hex2 a = hex2 b \<longleftrightarrow> a = b"
proof
  assume eq: "hex2 a = hex2 b"
  have "unat a < 256" "unat b < 256" using unsigned_less [of a] unsigned_less [of b] by simp_all
  then have "unat a div 16 < 16" "unat b div 16 < 16" by simp_all
  with eq have "unat a div 16 = unat b div 16"
    by (intro digit_inject) (simp_all add: hex2_def)
  moreover from eq have "unat a mod 16 = unat b mod 16"
    by (intro digit_inject) (simp_all add: hex2_def)
  ultimately have "unat a = unat b" by (metis div_mult_mod_eq)
  then show "a = b" by (rule word_unat_eq_iff [THEN iffD2])
qed simp

lemma hex2_no_colon: "CHR '':'' \<notin> set (hex2 b)"
proof -
  have "of_char (digit n) \<noteq> (58 :: nat)" if "n < 16" for n
    using digit_code [OF that] by simp
  moreover have "unat b < 256" using unsigned_less [of b] by simp
  moreover from this have "unat b div 16 < 16" by simp
  ultimately have "of_char (digit (unat b div 16)) \<noteq> (of_char CHR '':'' :: nat)"
    and "of_char (digit (unat b mod 16)) \<noteq> (of_char CHR '':'' :: nat)"
    by simp_all
  then have "digit (unat b div 16) \<noteq> CHR '':''" and "digit (unat b mod 16) \<noteq> CHR '':''"
    by metis+
  then show ?thesis by (simp add: hex2_def)
qed

lemma mac_string_inject: "mac_string a = mac_string b \<longleftrightarrow> a = b"
proof
  have split: "(if m = [] then [[]] else map hex2 m) = split_on (CHR '':'') (mac_string m)" for m
  proof (cases "m = []")
    case False
    have "split_on (CHR '':'') (join '':'' (map hex2 m)) = map hex2 m"
      by (rule split_on_join) (use False in \<open>auto simp: hex2_no_colon\<close>)
    with False show ?thesis by (simp add: mac_string_def)
  qed (simp add: mac_string_def)
  assume "mac_string a = mac_string b"
  with split [of a] split [of b]
  have "(if a = [] then [[]] else map hex2 a) = (if b = [] then [[]] else map hex2 b)" by simp
  moreover have "hex2 x \<noteq> []" for x by (simp add: hex2_def)
  ultimately have "map hex2 a = map hex2 b" by (auto split: if_splits simp: Cons_eq_map_conv map_eq_Cons_conv dest!: sym [of "[]"])
  then show "a = b" by (rule map_injective) (simp add: inj_def hex2_inject)
qed simp

definition reply_header :: "bytes \<Rightarrow> 32 word \<Rightarrow> bytes \<Rightarrow> ip_addr \<Rightarrow> bool" where
  "reply_header hdr xid mac ip =
     (length hdr = min_packet_len \<and> hdr ! 0 = boot_reply \<and> be32 (drop 236 hdr) = magic_cookie \<and>
      be32 (drop 4 hdr) = xid \<and> slice 28 (28 + length mac) hdr = mac \<and> slice 16 20 hdr = ip)"

text \<open>The reply a server makes of a client's header: a reply, offering one address.\<close>

definition server_header :: "32 word \<Rightarrow> bytes \<Rightarrow> ip_addr \<Rightarrow> bytes" where
  "server_header xid mac ip = put_at 16 ip (put_at 0 [boot_reply] (bootp_header xid mac))"

lemma drop_put_at_other: "i + length ys \<le> m \<Longrightarrow> drop m (put_at i ys xs) = drop m xs"
  by (intro nth_equalityI) (auto simp: nth_put_at)

lemma be32_drop_slice: "be32 (drop i b) = be32 (slice i (i + 4) b)"
  by (simp add: be32_def slice_def)

lemma be32_put: "be32 (put_be32 v) = v"
  using be32.get_put [of v "[]"] by simp

lemma server_header_reply:
  assumes "length ip = 4" and "length mac \<le> 16"
  shows "reply_header (server_header xid mac ip) xid mac ip"
proof -
  have "slice 4 8 (server_header xid mac ip) = put_be32 xid"
    using assms slice_put_at_same [of 4 "put_be32 xid"
        "[boot_request, htype_ethernet, word_of_nat (length mac)] @ replicate 237 0"]
    by (simp add: server_header_def bootp_header_def slice_put_at_other)
  moreover have "slice 236 240 (server_header xid mac ip) = put_be32 magic_cookie"
    using assms slice_put_at_same [of 236 "put_be32 magic_cookie" "put_at 28 (take 16 mac)
         (put_at 10 (put_be16 flag_broadcast) (put_at 4 (put_be32 xid)
             ([boot_request, htype_ethernet, word_of_nat (length mac)] @ replicate 237 0)))"]
    by (simp add: server_header_def bootp_header_def slice_put_at_other)
  moreover have "slice 28 (28 + length mac) (server_header xid mac ip) = mac"
    using assms slice_put_at_same [of 28 mac "put_at 10 (put_be16 flag_broadcast)
         (put_at 4 (put_be32 xid)
             ([boot_request, htype_ethernet, word_of_nat (length mac)] @ replicate 237 0))"]
    by (simp add: server_header_def bootp_header_def slice_put_at_other)
  moreover have "slice 16 20 (server_header xid mac ip) = ip"
    using assms slice_put_at_same [of 16 ip "put_at 0 [boot_reply] (bootp_header xid mac)"]
    by (simp add: server_header_def)
  moreover have "server_header xid mac ip ! 0 = boot_reply"
    by (simp add: server_header_def nth_put_at)
  ultimately show ?thesis
    by (simp add: reply_header_def min_packet_len_def server_header_def be32_drop_slice be32_put)
qed

lemma parse_reply_options:
  assumes hdr: "reply_header hdr xid mac ip" and mac: "length mac \<le> 16"
    and good: "good_options opts" and mt: "map_of opts opt_message_type = Some [mt]"
  shows "parse_reply (hdr @ encode_options opts @ opt_end # rest) xid mac =
    Inr (lease_from ip (map_of opts), mt)"
proof -
  let ?p = "hdr @ encode_options opts @ opt_end # rest"
  have len: "length hdr = 240" using hdr by (simp add: reply_header_def min_packet_len_def)
  have "find_option ?p code = map_of opts code" for code
    using len opts.scan_refines_map_of [OF good, of code rest]
    by (simp add: find_option_def min_packet_len_def)
  then have find: "find_option ?p = map_of opts" by (rule ext)
  have "slice i j ?p = slice i j hdr" if "j \<le> 240" for i j
    using that len by (simp add: slice_append_left)
  then have "slice 16 20 ?p = ip" and "slice 28 (28 + length mac) ?p = mac"
    and "be32 (drop 4 ?p) = xid" and "be32 (drop 236 ?p) = magic_cookie"
    using hdr mac unfolding be32_drop_slice by (simp_all add: reply_header_def be32_drop_slice)
  moreover have "?p ! 0 = boot_reply" using len hdr by (simp add: nth_append reply_header_def)
  moreover have "\<not> length ?p < min_packet_len" using len by (simp add: min_packet_len_def)
  ultimately show ?thesis
    unfolding parse_reply_def find mt by simp
qed

lemma parse_reply_Inr:
  assumes "parse_reply p xid mac = Inr (l, mt)"
  shows "min_packet_len \<le> length p \<and> p ! 0 = boot_reply \<and> be32 (drop 4 p) = xid \<and>
    slice 28 (28 + length mac) p = mac \<and> find_option p opt_message_type = Some [mt] \<and>
    l = lease_from (slice 16 20 p) (find_option p)"
  using assms
  by (auto simp: parse_reply_def mac_string_inject length_Suc_conv split: if_splits option.splits)

lemma seconds_option_less: "d < 2 ^ 63 \<Longrightarrow> seconds_option look code d < 2 ^ 63"
proof -
  have "unat (v :: 32 word) * second < 2 ^ 63" for v
  proof -
    have "unat v < 4294967296" using unsigned_less [of v] by simp
    then show ?thesis by (simp add: second_def)
  qed
  then show "d < 2 ^ 63 \<Longrightarrow> ?thesis" by (simp add: seconds_option_def split: option.split)
qed

section \<open>Properties\<close>

text \<open>
  What the client puts into a message is what a reader of the options finds: the scan
  of a built message returns the value of each option the message was built from, and
  nothing for any other code, as long as the hostname fits the one length byte it has.
\<close>

theorem build_options_readable:
  assumes "four_bytes requested" and "four_bytes server" and "length hostname < 256"
  shows "find_option (build msg_type xid mac hostname requested server) code =
    map_of (request_options msg_type hostname requested server) code"
  using assms by (rule find_option_build)

theorem build_options_readable_witness:
  "find_option (build msg_request 7 [2, 0, 0, 0, 0, 1] ''node-1'' (Some [10, 0, 2, 15])
      (Some [10, 0, 2, 2])) opt_requested_ip = Some [10, 0, 2, 15]"
  using build_options_readable [of "Some [10, 0, 2, 15]" "Some [10, 0, 2, 2]" "''node-1''"
      msg_request 7 "[2, 0, 0, 0, 0, 1]" opt_requested_ip]
  by (simp add: four_bytes_def request_options_def dhcp_consts)

text \<open>
  A hostname of 256 bytes does not fit: its length byte wraps to 0, so the option reads
  back empty and the name itself is scanned as further options.
\<close>

theorem build_hostname_wraps:
  assumes "length hostname = 256"
  shows "find_option (build msg_discover xid mac hostname None None) opt_hostname = Some []"
proof -
  have "(word_of_nat 256 :: byte) = 0" by simp
  with assms show ?thesis
    by (auto simp: build_def Let_def find_option_header build_options_def dhcp_consts)
qed

theorem build_hostname_wraps_witness:
  "find_option (build msg_discover 7 [2, 0, 0, 0, 0, 1] (replicate 256 CHR ''a'') None None)
     opt_hostname = Some []"
  by (rule build_hostname_wraps) simp

text \<open>
  What RFC 2131 and 2132 say of a reply, with their numbers written out: a value that has to be four
  bytes long is used only if it is; times are seconds in network byte order, kept in nanoseconds.
\<close>

definition rfc_header :: "bytes \<Rightarrow> 32 word \<Rightarrow> bytes \<Rightarrow> ip_addr \<Rightarrow> bool" where
  "rfc_header hdr xid mac ip =
     (length hdr = 240 \<and> hdr ! 0 = 2 \<and> slice 4 8 hdr = put_be32 xid \<and> slice 16 20 hdr = ip \<and>
      slice 28 (28 + length mac) hdr = mac \<and> slice 236 240 hdr = [99, 130, 83, 99])"

definition four :: "bytes option \<Rightarrow> bytes option" where
  "four v = (case v of Some [a, b, c, d] \<Rightarrow> Some [a, b, c, d] | _ \<Rightarrow> None)"

definition nanoseconds :: "bytes option \<Rightarrow> nat option" where
  "nanoseconds v =
     (case v of
        Some [a, b, c, d] \<Rightarrow> Some ((unat a * 2 ^ 24 + unat b * 2 ^ 16 + unat c * 2 ^ 8 + unat d) * 10 ^ 9)
      | _ \<Rightarrow> None)"

definition or_else :: "'a option \<Rightarrow> 'a \<Rightarrow> 'a" where
  "or_else v d = (case v of None \<Rightarrow> d | Some x \<Rightarrow> x)"

definition rfc_lease :: "ip_addr \<Rightarrow> (byte \<rightharpoonup> bytes) \<Rightarrow> lease" where
  "rfc_lease ip value =
     \<lparr>l_ip = ip,
      l_mask = four (value 1),
      l_router = (case value 3 of Some (a # b # c # d # _) \<Rightarrow> Some [a, b, c, d] | _ \<Rightarrow> None),
      l_dns = (case value 6 of None \<Rightarrow> [] | Some v \<Rightarrow> map (\<lambda>i. take 4 (drop (4 * i) v)) [0..<length v div 4]),
      l_server = four (value 54),
      l_time = or_else (nanoseconds (value 51)) 0,
      l_t1 = or_else (nanoseconds (value 58)) (or_else (nanoseconds (value 51)) 0 div 2),
      l_t2 = or_else (nanoseconds (value 59)) (or_else (nanoseconds (value 51)) 0 div 8 * 7)\<rparr>"

lemma length_4_cases:
  obtains a b c d where "v = [a, b, c, d]" | "length (v :: 'a list) \<noteq> 4"
  by (cases "length v = 4") (auto simp: length_Suc_conv numeral_eq_Suc)

lemma option_of_length_four: "option_of_length look code 4 = four (look code)"
proof (cases "look code")
  case (Some v)
  then show ?thesis
    by (cases v rule: length_4_cases) (auto simp: option_of_length_def four_def split: list.split)
qed (simp add: option_of_length_def four_def)

lemma be32_digits: "unat (be32 [a, b, c, d]) = unat a * 2 ^ 24 + unat b * 2 ^ 16 + unat c * 2 ^ 8 + unat d"
  by (simp add: be32_put_unat)

lemma seconds_option_nanoseconds: "seconds_option look code dflt = or_else (nanoseconds (look code)) dflt"
proof (cases "look code")
  case (Some v)
  then show ?thesis
    by (cases v rule: length_4_cases)
      (auto simp: seconds_option_def option_of_length_def nanoseconds_def or_else_def second_def be32_digits split: list.split)
qed (simp add: seconds_option_def option_of_length_def nanoseconds_def or_else_def)

lemma dns_servers_groups: "dns_servers v = map (\<lambda>i. take 4 (drop (4 * i) v)) [0..<length v div 4]"
proof (induction v rule: dns_servers.induct)
  case (1 a b c d rest)
  have "length (a # b # c # d # rest) div 4 = Suc (length rest div 4)" by simp
  then have "[0..<length (a # b # c # d # rest) div 4] = 0 # map Suc [0..<length rest div 4]"
    by (simp only: map_Suc_upt) (simp add: upt_conv_Cons del: upt_Suc)
  moreover have "drop (4 + n) (a # b # c # d # rest) = drop n rest" for n by (simp add: eval_nat_numeral)
  ultimately show ?case using 1 by (simp add: comp_def)
qed simp_all

lemma lease_from_rfc: "lease_from ip look = rfc_lease ip look"
proof -
  have "(if 4 \<le> length v then Some (take 4 v) else None) = (case v of a # b # c # d # _ \<Rightarrow> Some [a, b, c, d] | _ \<Rightarrow> None)"
    for v :: bytes by (auto split: list.split)
  then show ?thesis
    by (simp add: lease_from_def rfc_lease_def Let_def option_of_length_four seconds_option_nanoseconds dns_servers_groups
        dhcp_consts cong: option.case_cong)
qed

lemma magic_bytes: "be32 [99, 130, 83, 99] = magic_cookie"
  by (simp add: be32_def magic_cookie_def)

lemma rfc_header_reply: "rfc_header hdr xid mac ip \<Longrightarrow> reply_header hdr xid mac ip"
proof -
  assume h: "rfc_header hdr xid mac ip"
  then have "be32 (drop 4 hdr) = be32 (put_be32 xid)" "be32 (drop 236 hdr) = be32 [99, 130, 83, 99]"
    by (simp_all add: rfc_header_def be32_drop_slice)
  then show ?thesis using h
    by (simp add: reply_header_def rfc_header_def be32_put magic_bytes dhcp_consts)
qed

text \<open>
  C37. A reply is read as the RFC says. If a packet starts with a reply's header for this transaction and
  hardware address, continues with any list of options (code, length byte, value) and ends them with
  255, whatever follows, \<^verbatim>\<open>Parse\<close> yields its message type and the lease these options describe: the
  mask is option 1, the router the first address of option 3, the resolvers those of option 6, the server
  option 54, the lease time option 51, and the timers options 58 and 59, or else a half and seven
  eighths of the lease time.
\<close>

theorem parse_reply_correct:
  assumes "rfc_header hdr xid mac ip" and "length mac \<le> 16"
    and "\<forall>(code, v)\<in>set opts. code \<noteq> 0 \<and> code \<noteq> 255 \<and> length v < 256"
    and "map_of opts 53 = Some [mt]"
  shows "parse_reply (hdr @ encode_options opts @ 255 # rest) xid mac = Inr (rfc_lease ip (map_of opts), mt)"
proof -
  have "good_options opts" using assms(3) by (simp add: good_options_def opt_end_def)
  moreover have "map_of opts opt_message_type = Some [mt]" using assms(4) by (simp add: opt_message_type_def)
  ultimately show ?thesis
    using parse_reply_options [OF rfc_header_reply [OF assms(1)] assms(2), of opts mt rest]
    by (simp add: opt_end_def lease_from_rfc)
qed

lemma put_be32_be32: "length b = 4 \<Longrightarrow> put_be32 (be32 b) = b"
  using le_digits_val [of "rev b"] by (simp add: put_be32_def be32_put_unat)

lemma reply_header_rfc:
  assumes "reply_header hdr xid mac ip"
  shows "rfc_header hdr xid mac ip"
proof -
  have len: "length hdr = 240" using assms by (simp add: reply_header_def min_packet_len_def)
  then have "put_be32 (be32 (slice 4 8 hdr)) = slice 4 8 hdr" "put_be32 (be32 (slice 236 240 hdr)) = slice 236 240 hdr"
    by (simp_all add: put_be32_be32)
  moreover have "put_be32 magic_cookie = [99, 130, 83, 99]" using put_be32_be32 [of "[99, 130, 83, 99]"] by (simp add: magic_bytes)
  ultimately show ?thesis
    using assms by (simp add: reply_header_def rfc_header_def be32_drop_slice dhcp_consts)
qed

lemma server_header_rfc:
  "rfc_header (server_header 7 [2, 0, 0, 0, 0, 1] [10, 0, 2, 15]) 7 [2, 0, 0, 0, 0, 1] [10, 0, 2, 15]"
  by (rule reply_header_rfc [OF server_header_reply]) simp_all

theorem parse_reply_correct_witness:
  "parse_reply (server_header 7 [2, 0, 0, 0, 0, 1] [10, 0, 2, 15] @
      encode_options [(53, [5]), (1, [255, 255, 255, 0]), (3, [10, 0, 2, 2, 9, 9]), (51, [0, 0, 14, 16])] @ 255 # [0, 0])
      7 [2, 0, 0, 0, 0, 1] =
   Inr (\<lparr>l_ip = [10, 0, 2, 15], l_mask = Some [255, 255, 255, 0], l_router = Some [10, 0, 2, 2], l_dns = [],
         l_server = None, l_time = 3600 * 10 ^ 9, l_t1 = 1800 * 10 ^ 9, l_t2 = 3150 * 10 ^ 9\<rparr>, 5)"
proof -
  let ?o = "[(53, [5]), (1, [255, 255, 255, 0]), (3, [10, 0, 2, 2, 9, 9]), (51, [0, 0, 14, 16])] :: opt_list"
  have "parse_reply (server_header 7 [2, 0, 0, 0, 0, 1] [10, 0, 2, 15] @ encode_options ?o @ 255 # [0, 0])
      7 [2, 0, 0, 0, 0, 1] = Inr (rfc_lease [10, 0, 2, 15] (map_of ?o), 5)"
    by (rule parse_reply_correct [OF server_header_rfc]) simp_all
  moreover have "rfc_lease [10, 0, 2, 15] (map_of ?o) =
      \<lparr>l_ip = [10, 0, 2, 15], l_mask = Some [255, 255, 255, 0], l_router = Some [10, 0, 2, 2], l_dns = [],
         l_server = None, l_time = 3600 * 10 ^ 9, l_t1 = 1800 * 10 ^ 9, l_t2 = 3150 * 10 ^ 9\<rparr>"
    by (simp add: rfc_lease_def four_def nanoseconds_def or_else_def)
  ultimately show ?thesis by simp
qed

text \<open>
  Replies for other clients arrive on the same broadcast socket. Whatever packet is
  accepted is a reply, carries this exchange's transaction id and this interface's hardware
  address, and the address it offers is the one in its header.
\<close>

theorem parse_reply_only_ours:
  assumes "parse_reply p xid mac = Inr (l, mt)"
  shows "p ! 0 = boot_reply \<and> be32 (drop 4 p) = xid \<and> slice 28 (28 + length mac) p = mac \<and>
    l_ip l = slice 16 20 p \<and> length (l_ip l) = 4"
proof -
  have "240 \<le> length p" using parse_reply_Inr [OF assms] by (simp add: min_packet_len_def)
  then have "min (20 - 16) (length p - 16) = 4" by simp
  then have "length (slice 16 20 p) = 4" by (simp only: length_slice)
  then show ?thesis using parse_reply_Inr [OF assms] by (simp add: lease_from_def Let_def)
qed

theorem parse_reply_only_ours_witness:
  "l_ip (lease_from [10, 0, 2, 15] (map_of [(opt_message_type, [msg_ack])])) =
   slice 16 20 (server_header 7 [2, 0, 0, 0, 0, 1] [10, 0, 2, 15] @
      encode_options [(opt_message_type, [msg_ack])] @ [opt_end])"
proof -
  have "parse_reply (server_header 7 [2, 0, 0, 0, 0, 1] [10, 0, 2, 15] @
      encode_options [(opt_message_type, [msg_ack])] @ [opt_end]) 7 [2, 0, 0, 0, 0, 1] =
    Inr (lease_from [10, 0, 2, 15] (map_of [(opt_message_type, [msg_ack])]), msg_ack)"
    by (rule parse_reply_options [OF server_header_reply])
       (simp_all add: good_options_def dhcp_consts)
  from parse_reply_only_ours [OF this] show ?thesis by blast
qed

text \<open>
  The durations of an accepted lease fit the 63 bits of a \<^verbatim>\<open>time.Duration\<close>, and when the
  server sets no timers of its own, renewal comes no later than rebinding and both before
  the lease ends.
\<close>

theorem parse_reply_timers:
  assumes "parse_reply p xid mac = Inr (l, mt)"
  shows "l_time l < 2 ^ 63 \<and> l_t1 l < 2 ^ 63 \<and> l_t2 l < 2 ^ 63 \<and>
    (find_option p opt_t1 = None \<and> find_option p opt_t2 = None \<longrightarrow>
       l_t1 l \<le> l_t2 l \<and> l_t2 l \<le> l_time l)"
proof -
  let ?t = "seconds_option (find_option p) opt_lease_time 0"
  have l: "l_time l = ?t" "l_t1 l = seconds_option (find_option p) opt_t1 (?t div 2)"
    "l_t2 l = seconds_option (find_option p) opt_t2 (?t div 8 * 7)"
    using parse_reply_Inr [OF assms] by (simp_all add: lease_from_def Let_def)
  have t: "?t < 2 ^ 63" by (rule seconds_option_less) simp
  then have t1: "?t div 2 < 2 ^ 63" and t2: "?t div 8 * 7 < 2 ^ 63" by linarith+
  have "\<exists>k. ?t = k * second"
    by (auto simp: seconds_option_def split: option.split)
  then have "?t div 2 \<le> ?t div 8 * 7" by (auto simp: second_def)
  moreover have "?t div 8 * 7 \<le> ?t" by simp
  moreover have "seconds_option look code d = d" if "look code = None" for look code d
    using that by (simp add: seconds_option_def option_of_length_def)
  ultimately show ?thesis
    using l t seconds_option_less [OF t1] seconds_option_less [OF t2] by simp
qed

theorem parse_reply_timers_witness:
  "l_t1 (lease_from [10, 0, 2, 15] (map_of [(opt_message_type, [msg_ack])])) < 2 ^ 63"
proof -
  have "parse_reply (server_header 7 [2, 0, 0, 0, 0, 1] [10, 0, 2, 15] @
      encode_options [(opt_message_type, [msg_ack])] @ [opt_end]) 7 [2, 0, 0, 0, 0, 1] =
    Inr (lease_from [10, 0, 2, 15] (map_of [(opt_message_type, [msg_ack])]), msg_ack)"
    by (rule parse_reply_options [OF server_header_reply])
       (simp_all add: good_options_def dhcp_consts)
  from parse_reply_timers [OF this] show ?thesis by blast
qed

end
