(* ===== verification/Dhcp_Client.thy ===== *)
theory Dhcp_Client
  imports Dhcp_Packet Sys_Linux
begin

text \<open>
  \<^verbatim>\<open>internal/dhcp/client.go\<close>: the exchange that obtains a lease and the loop that keeps it. The
  Go interface \<^verbatim>\<open>Conn\<close> is the record \<open>conn\<close>, met by the socket of \<^verbatim>\<open>internal/sys\<close> in
  \<open>sys_conn\<close>. Two loops have no bound of their own: \<^verbatim>\<open>await\<close> reads until a packet is for this
  client, and \<^verbatim>\<open>Renew\<close> runs for the life of the machine. Both are partial functions over
  the history, whose value is \<^term>\<open>None\<close> exactly when the code does not return; everything
  that calls them is in the option monad.
\<close>

section \<open>The client\<close>

record conn =
  send_to :: "bytes \<Rightarrow> ip_addr \<Rightarrow> err option io"
  recv :: "nat \<Rightarrow> nat \<Rightarrow> (err + bytes) io"
  close_conn :: "err option io"

record client =
  cl_conn :: conn
  cl_mac :: bytes
  cl_hostname :: string
  cl_max_attempts :: int
  cl_timeout :: int
  cl_rand :: "(32 word) io option"
  cl_sleep :: "(nat \<Rightarrow> err option io) option"

definition sys_conn :: "kernel \<Rightarrow> int \<Rightarrow> conn" where
  "sys_conn K fd =
     \<lparr>send_to = conn_send_to K, recv = conn_recv K, close_conn = do_unit K (CloseFd fd)\<rparr>"

definition broadcast :: ip_addr where "broadcast = [255, 255, 255, 255]"
definition default_attempts :: nat where "default_attempts = 6"
definition default_timeout :: nat where "default_timeout = 4 * second"
definition retry_backoff :: nat where "retry_backoff = 2 * second"
definition max_reply :: nat where "max_reply = 1500"

definition attempts :: "client \<Rightarrow> nat" where
  "attempts c = (if cl_max_attempts c > 0 then nat (cl_max_attempts c) else default_attempts)"

definition reply_timeout :: "client \<Rightarrow> nat" where
  "reply_timeout c = (if cl_timeout c > 0 then nat (cl_timeout c) else default_timeout)"

text \<open>Without a seam the pause is a timer raced against the context, which the kernel answers.\<close>

definition client_sleep :: "kernel \<Rightarrow> client \<Rightarrow> nat \<Rightarrow> err option io" where
  "client_sleep K c d = (case cl_sleep c of Some f \<Rightarrow> f d | None \<Rightarrow> do_unit K (Sleep d))"

definition new_xid :: "kernel \<Rightarrow> client \<Rightarrow> (32 word) io" where
  "new_xid K c =
     (case cl_rand c of
        Some r \<Rightarrow> r
      | None \<Rightarrow> do {
          t \<leftarrow> do_num K ClockNano;
          give (case t of Inr n \<Rightarrow> word_of_int n | Inl _ \<Rightarrow> 0) })"

section \<open>Waiting for a reply\<close>

partial_function (option) await ::
  "client \<Rightarrow> 32 word \<Rightarrow> history \<Rightarrow> ((err + lease \<times> byte) \<times> history) option"
where
  "await c xid h =
     (case run_state (recv (cl_conn c) max_reply (reply_timeout c)) h of
        (Inl e, h') \<Rightarrow> Some (Inl e, h')
      | (Inr p, h') \<Rightarrow>
          (case parse_reply p xid (cl_mac c) of
             Inl _ \<Rightarrow> await c xid h'
           | Inr r \<Rightarrow> Some (Inr r, h')))"

section \<open>Acquiring a lease\<close>

definition request_phase ::
  "client \<Rightarrow> 32 word \<Rightarrow> lease \<Rightarrow> history \<Rightarrow> ((err + lease) \<times> history) option"
where
  "request_phase c xid offer h =
     (case run_state (send_to (cl_conn c)
             (build_request xid (cl_mac c) (cl_hostname c) (Some (l_ip offer)) (l_server offer))
             broadcast) h of
        (Some e, h') \<Rightarrow> Some (Inl (wrap ''send request: %w'' [] e), h')
      | (None, h') \<Rightarrow>
          Option.bind (await c xid h') (\<lambda>(r, h'').
            Some (case r of
                    Inl e \<Rightarrow> Inl e
                  | Inr (l, mt) \<Rightarrow>
                      if mt = msg_nak then Inl (msg ''server sent NAK'')
                      else if mt \<noteq> msg_ack
                      then Inl (Errorf ''expected ack, got message type %d'' [dec (unat mt)] None)
                      else Inr l, h'')))"

definition once :: "kernel \<Rightarrow> client \<Rightarrow> history \<Rightarrow> ((err + lease) \<times> history) option" where
  "once K c h =
     (let (xid, h1) = run_state (new_xid K c) h in
      case run_state (send_to (cl_conn c)
             (build_discover xid (cl_mac c) (cl_hostname c)) broadcast) h1 of
        (Some e, h2) \<Rightarrow> Some (Inl (wrap ''send discover: %w'' [] e), h2)
      | (None, h2) \<Rightarrow>
          Option.bind (await c xid h2) (\<lambda>(r, h3).
            case r of
              Inl e \<Rightarrow> Some (Inl e, h3)
            | Inr (offer, mt) \<Rightarrow>
                if mt \<noteq> msg_offer
                then Some (Inl (Errorf ''expected offer, got message type %d'' [dec (unat mt)] None), h3)
                else request_phase c xid offer h3))"

text \<open>\<open>left\<close> counts the attempts still allowed; the code pauses between them but not after the last.\<close>

fun acquire_loop ::
  "kernel \<Rightarrow> err option io \<Rightarrow> client \<Rightarrow> nat \<Rightarrow> err \<Rightarrow> history \<Rightarrow> ((err + lease) \<times> history) option"
where
  "acquire_loop K ctx c 0 last_err h = Some (Inl last_err, h)"
| "acquire_loop K ctx c (Suc left) last_err h =
     (case run_state ctx h of
        (Some e, h1) \<Rightarrow> Some (Inl e, h1)
      | (None, h1) \<Rightarrow>
          Option.bind (once K c h1) (\<lambda>(r, h2).
            case r of
              Inr l \<Rightarrow> Some (Inr l, h2)
            | Inl e \<Rightarrow>
                if left = 0 then acquire_loop K ctx c left e h2
                else (case run_state (client_sleep K c retry_backoff) h2 of
                        (Some e', h3) \<Rightarrow> Some (Inl e', h3)
                      | (None, h3) \<Rightarrow> acquire_loop K ctx c left e h3)))"

definition acquire ::
  "kernel \<Rightarrow> err option io \<Rightarrow> client \<Rightarrow> history \<Rightarrow> ((err + lease) \<times> history) option" where
  "acquire K ctx c h = acquire_loop K ctx c (attempts c) (msg ''no DHCP server responded'') h"

section \<open>Keeping a lease\<close>

definition ask_again ::
  "kernel \<Rightarrow> client \<Rightarrow> lease \<Rightarrow> ip_addr \<Rightarrow> string \<Rightarrow> history \<Rightarrow> ((err + lease) \<times> history) option"
where
  "ask_again K c l dst complaint h =
     (let (xid, h1) = run_state (new_xid K c) h in
      case run_state (send_to (cl_conn c)
             (build_renew xid (cl_mac c) (cl_hostname c) (l_ip l)) dst) h1 of
        (Some e, h2) \<Rightarrow> Some (Inl e, h2)
      | (None, h2) \<Rightarrow>
          Option.bind (await c xid h2) (\<lambda>(r, h3).
            Some (case r of
                    Inl e \<Rightarrow> Inl e
                  | Inr (got, mt) \<Rightarrow>
                      if mt \<noteq> msg_ack then Inl (Errorf complaint [dec (unat mt)] None) else Inr got,
                  h3)))"

definition renew_once :: "kernel \<Rightarrow> client \<Rightarrow> lease \<Rightarrow> history \<Rightarrow> ((err + lease) \<times> history) option" where
  "renew_once K c l h =
     (case l_server l of
        None \<Rightarrow> Some (Inl (msg ''no server to renew with''), h)
      | Some srv \<Rightarrow> ask_again K c l srv ''renewal got message type %d'' h)"

definition rebind :: "kernel \<Rightarrow> client \<Rightarrow> lease \<Rightarrow> history \<Rightarrow> ((err + lease) \<times> history) option" where
  "rebind K c l h = ask_again K c l broadcast ''rebind got message type %d'' h"

text \<open>One turn of \<^verbatim>\<open>Renew\<close>'s loop after its pause: renew, else rebind, else start over.\<close>

definition next_lease ::
  "kernel \<Rightarrow> err option io \<Rightarrow> client \<Rightarrow> lease \<Rightarrow> history \<Rightarrow> ((err + lease) \<times> history) option"
where
  "next_lease K ctx c l h =
     Option.bind (renew_once K c l h) (\<lambda>(r1, h1).
       case r1 of
         Inr n \<Rightarrow> Some (Inr n, h1)
       | Inl _ \<Rightarrow>
           Option.bind (rebind K c l h1) (\<lambda>(r2, h2).
             case r2 of
               Inr n \<Rightarrow> Some (Inr n, h2)
             | Inl _ \<Rightarrow>
                 Option.bind (acquire K ctx c h2) (\<lambda>(r3, h3).
                   Some (case r3 of
                           Inr n \<Rightarrow> Inr n
                         | Inl e \<Rightarrow> Inl (wrap ''lease lost and re-acquire failed: %w'' [] e), h3))))"

partial_function (option) renew ::
  "kernel \<Rightarrow> err option io \<Rightarrow> client \<Rightarrow> (lease \<Rightarrow> err option io) \<Rightarrow> lease \<Rightarrow> history \<Rightarrow>
     (err option \<times> history) option"
where
  "renew K ctx c use l h =
     (case run_state (client_sleep K c (l_t1 l)) h of
        (Some e, h1) \<Rightarrow> Some (Some e, h1)
      | (None, h1) \<Rightarrow>
          Option.bind (next_lease K ctx c l h1) (\<lambda>(r, h2).
            case r of
              Inl e \<Rightarrow> Some (Some e, h2)
            | Inr n \<Rightarrow>
                (case run_state (use n) h2 of
                   (Some e, h3) \<Rightarrow> Some (Some e, h3)
                 | (None, h3) \<Rightarrow> renew K ctx c use n h3)))"

section \<open>What the exchange relies on\<close>

text \<open>The ways \<open>await\<close> returns: an error, a reply of ours, or after one more foreign packet.\<close>

lemma await_induct [consumes 1, case_names failed ours foreign]:
  assumes "await c xid h = Some (r, h')"
    and "\<And>h h1 e. run_state (recv (cl_conn c) max_reply (reply_timeout c)) h = (Inl e, h1) \<Longrightarrow>
      P h (Inl e) h1"
    and "\<And>h h1 p a. run_state (recv (cl_conn c) max_reply (reply_timeout c)) h = (Inr p, h1) \<Longrightarrow>
      parse_reply p xid (cl_mac c) = Inr a \<Longrightarrow> P h (Inr a) h1"
    and "\<And>h h1 p e r h'. run_state (recv (cl_conn c) max_reply (reply_timeout c)) h = (Inr p, h1) \<Longrightarrow>
      parse_reply p xid (cl_mac c) = Inl e \<Longrightarrow> P h1 r h' \<Longrightarrow> P h r h'"
  shows "P h r h'"
proof -
  have "d = c \<longrightarrow> x = xid \<longrightarrow> P g (fst y) (snd y)" if "await d x g = Some y" for d x g y
  proof (rule await.raw_induct [where P = "\<lambda>d x g y. d = c \<longrightarrow> x = xid \<longrightarrow> P g (fst y) (snd y)",
        OF _ that], intro impI)
    fix aw d x g y
    assume ih: "\<And>d x g y. aw d x g = Some y \<Longrightarrow> d = c \<longrightarrow> x = xid \<longrightarrow> P g (fst y) (snd y)"
      and step: "(case run_state (recv (cl_conn d) max_reply (reply_timeout d)) g of
          (Inl e, g') \<Rightarrow> Some (Inl e, g')
        | (Inr p, g') \<Rightarrow> (case parse_reply p x (cl_mac d) of
             Inl _ \<Rightarrow> aw d x g' | Inr r \<Rightarrow> Some (Inr r, g'))) = Some y"
      and dx: "d = c" "x = xid"
    obtain q g1 where q: "run_state (recv (cl_conn c) max_reply (reply_timeout c)) g = (q, g1)"
      by fastforce
    show "P g (fst y) (snd y)"
    proof (cases q)
      case (Inl e)
      with q step dx have "y = (Inl e, g1)" by simp
      with q Inl assms(2) show ?thesis by simp
    next
      case p: (Inr p)
      show ?thesis
      proof (cases "parse_reply p xid (cl_mac c)")
        case (Inl e)
        with q p step dx have "aw c xid g1 = Some y" by simp
        with ih have "P g1 (fst y) (snd y)" by blast
        with q p Inl assms(4) show ?thesis by blast
      next
        case (Inr a)
        with q p step dx have "y = (Inr a, g1)" by simp
        with q p Inr assms(3) show ?thesis by simp
      qed
    qed
  qed
  from this [OF assms(1)] show ?thesis by simp
qed

fun is_send :: "call \<Rightarrow> bool" where
  "is_send (SendDatagram _ _ _) = True"
| "is_send _ = False"

definition sends :: "call list \<Rightarrow> nat" where
  "sends cs = length (filter is_send cs)"

lemma sends_append [simp]: "sends (xs @ ys) = sends xs + sends ys"
  by (simp add: sends_def)

lemma sends_none: "list_all (\<lambda>x. \<not> is_send x) cs \<Longrightarrow> sends cs = 0"
  by (simp add: sends_def list_all_iff filter_empty_conv)

abbreviation silent :: "'a io \<Rightarrow> bool" where "silent m \<equiv> emits (\<lambda>x. \<not> is_send x) m"

text \<open>\<open>grew k h h'\<close>: the history was extended, by at most \<open>k\<close> datagrams.\<close>

definition grew :: "nat \<Rightarrow> history \<Rightarrow> history \<Rightarrow> bool" where
  "grew k h h' = (\<exists>cs. h' = h @ cs \<and> sends cs \<le> k)"

lemma grew_refl [simp]: "grew k h h"
  by (simp add: grew_def sends_def)

lemma grew_trans: "grew a h h1 \<Longrightarrow> grew b h1 h2 \<Longrightarrow> a + b \<le> k \<Longrightarrow> grew k h h2"
  by (fastforce simp: grew_def)

lemma grew_mono: "grew a h h1 \<Longrightarrow> a \<le> k \<Longrightarrow> grew k h h1"
  by (fastforce simp: grew_def)

lemma silent_grew: "silent m \<Longrightarrow> run_state m h = (r, h') \<Longrightarrow> grew 0 h h'"
  by (auto simp: grew_def dest!: sends_none elim!: emitsE [where h = h])

text \<open>
  Sending makes one datagram, receiving makes a call and sends nothing, and neither the
  random number nor the pause touches the network.
\<close>

locale dhcp_transport =
  fixes K :: kernel and c :: client
  assumes send_one: "snd (run_state (send_to (cl_conn c) p dst) h) = h @ [SendDatagram p (sockaddr4 dst) 67]"
    and recv_silent: "silent (recv (cl_conn c) n t)"
    and recv_calls: "added (recv (cl_conn c) n t) h \<noteq> []"
    and xid_silent: "silent (new_xid K c)"
    and sleep_silent: "silent (client_sleep K c d)"
begin

lemma recv_longer:
  assumes "run_state (recv (cl_conn c) n t) h = (r, h')"
  shows "length h < length h'"
  using assms recv_calls [of n t h] emits_run [OF recv_silent [of n t], of h]
  by (metis length_append length_greater_0_conv less_add_same_cancel1 snd_conv)

lemma sent:
  assumes "run_state (send_to (cl_conn c) p dst) h = (r, h')"
  shows "h' = h @ [SendDatagram p (sockaddr4 dst) 67]"
  using assms send_one [of p dst h] by simp

lemma sent_grew: "run_state (send_to (cl_conn c) p dst) h = (r, h') \<Longrightarrow> grew 1 h h'"
  by (drule sent) (simp add: grew_def sends_def)

lemma await_silent: "await c xid h = Some (r, h') \<Longrightarrow> grew 0 h h'"
proof (induction rule: await_induct)
  case (foreign h h1 p e r h')
  from silent_grew [OF recv_silent foreign(1)] foreign(3) show ?case by (rule grew_trans) simp
qed (auto intro: silent_grew [OF recv_silent])

text \<open>One exchange sends at most two datagrams; the whole of \<open>acquire\<close> two for each attempt.\<close>

lemma request_sends:
  assumes "request_phase c xid offer h = Some (r, h')"
  shows "grew 1 h h'"
proof -
  obtain s h1 where s: "run_state (send_to (cl_conn c)
      (build_request xid (cl_mac c) (cl_hostname c) (Some (l_ip offer)) (l_server offer))
      broadcast) h = (s, h1)" by fastforce
  with assms have "h' = h1 \<or> (\<exists>a. await c xid h1 = Some (a, h'))"
    by (auto simp: request_phase_def bind_eq_Some_conv split: option.splits)
  with sent_grew [OF s] show ?thesis by (auto dest: await_silent intro: grew_trans)
qed

lemma once_sends:
  assumes "once K c h = Some (r, h')"
  shows "grew 2 h h'"
proof -
  obtain xid h1 where x: "run_state (new_xid K c) h = (xid, h1)" by fastforce
  obtain s h2 where s: "run_state (send_to (cl_conn c)
      (build_discover xid (cl_mac c) (cl_hostname c)) broadcast) h1 = (s, h2)" by fastforce
  have h2: "grew 1 h h2" by (rule grew_trans [OF silent_grew [OF xid_silent x] sent_grew [OF s]]) simp
  show ?thesis
  proof (cases s)
    case None
    with assms x s obtain r3 h3 where a: "await c xid h2 = Some (r3, h3)"
      by (cases "await c xid h2") (auto simp: once_def)
    have rest: "h' = h3 \<or> (\<exists>offer. request_phase c xid offer h3 = Some (r, h'))"
      using assms x s None a by (auto simp: once_def split: sum.splits if_splits)
    have h3: "grew 1 h h3" by (rule grew_trans [OF h2 await_silent [OF a]]) simp
    from rest show ?thesis
      using h3 by (auto dest: request_sends intro: grew_trans grew_mono)
  next
    case (Some e)
    with assms x s have "h' = h2" by (simp add: once_def)
    with h2 show ?thesis by (auto intro: grew_mono)
  qed
qed

lemma acquire_loop_sends:
  assumes "silent ctx"
  shows "acquire_loop K ctx c left e h = Some (r, h') \<Longrightarrow> grew (2 * left) h h'"
proof (induction left arbitrary: e h)
  case (Suc left)
  obtain q h1 where q: "run_state ctx h = (q, h1)" by fastforce
  note h1 = silent_grew [OF assms q]
  show ?case
  proof (cases q)
    case None
    with Suc.prems q obtain r2 h2 where o: "once K c h1 = Some (r2, h2)" by (auto simp: bind_eq_Some_conv)
    have h2: "grew 2 h h2" by (rule grew_trans [OF h1 once_sends [OF o]]) simp
    obtain w h3 where w: "run_state (client_sleep K c retry_backoff) h2 = (w, h3)" by fastforce
    have h3: "grew 2 h h3" by (rule grew_trans [OF h2 silent_grew [OF sleep_silent w]]) simp
    consider "h' = h2" | "h' = h3" | e' where "acquire_loop K ctx c left e' h2 = Some (r, h')"
      | e' where "acquire_loop K ctx c left e' h3 = Some (r, h')"
      using Suc.prems q None o w by (auto split: sum.splits if_splits option.splits)
    then show ?thesis
    proof cases
      case 3
      from grew_trans [OF h2 Suc.IH [OF this]] show ?thesis by simp
    next
      case 4
      from grew_trans [OF h3 Suc.IH [OF this]] show ?thesis by simp
    qed (use h2 h3 in \<open>auto intro: grew_mono\<close>)
  next
    case (Some e')
    with Suc.prems q have "h' = h1" by simp
    with h1 show ?thesis by (auto intro: grew_mono)
  qed
qed simp

lemma acquire_sends:
  "silent ctx \<Longrightarrow> acquire K ctx c h = Some (r, h') \<Longrightarrow> grew (2 * attempts c) h h'"
  by (auto simp: acquire_def dest: acquire_loop_sends)

text \<open>A lease \<open>acquire\<close> returns is that of its last exchange, which began after \<open>h\<close>.\<close>

lemma grew_prefix: "grew k h h' \<Longrightarrow> prefix h h'" by (auto simp: grew_def)

lemma acquire_loop_once:
  assumes "silent ctx"
  shows "acquire_loop K ctx c left e h = Some (Inr l, h') \<Longrightarrow> \<exists>g. prefix h g \<and> once K c g = Some (Inr l, h')"
proof (induction left arbitrary: e h)
  case (Suc left)
  obtain q h1 where q: "run_state ctx h = (q, h1)" by fastforce
  have h1: "prefix h h1" using silent_grew [OF assms q] by (rule grew_prefix)
  from Suc.prems q have "q = None" by (cases q) simp_all
  with Suc.prems q obtain r2 h2 where o: "once K c h1 = Some (r2, h2)" by (auto simp: bind_eq_Some_conv)
  have h2: "prefix h h2" using h1 once_sends [OF o] grew_prefix by (blast intro: prefix_order.trans)
  obtain w h3 where w: "run_state (client_sleep K c retry_backoff) h2 = (w, h3)" by fastforce
  have h3: "prefix h h3" using h2 silent_grew [OF sleep_silent w] grew_prefix by (blast intro: prefix_order.trans)
  consider "r2 = Inr l" "h' = h2" | e' where "acquire_loop K ctx c left e' h2 = Some (Inr l, h')"
    | e' where "acquire_loop K ctx c left e' h3 = Some (Inr l, h')"
    using Suc.prems q \<open>q = None\<close> o w by (auto split: sum.splits if_splits option.splits)
  then show ?case
    using h1 h2 h3 o Suc.IH by cases (blast intro: prefix_order.trans)+
qed simp

lemma acquire_once:
  "silent ctx \<Longrightarrow> acquire K ctx c h = Some (Inr l, h') \<Longrightarrow> \<exists>g. prefix h g \<and> once K c g = Some (Inr l, h')"
  by (auto simp: acquire_def dest: acquire_loop_once)

text \<open>
  If from some point on the socket delivers nothing, every exchange comes to an end:
  \<open>await\<close> makes a call each time round, so it reaches that point.
\<close>

definition dries_up :: "nat \<Rightarrow> bool" where
  "dries_up n = (\<forall>h. n \<le> length h \<longrightarrow> (\<exists>e. fst (run_state (recv (cl_conn c) max_reply (reply_timeout c)) h) = Inl e))"

lemma await_returns:
  assumes "dries_up n"
  shows "\<exists>r h'. await c xid h = Some (r, h')"
proof (induction "n - length h" arbitrary: h rule: less_induct)
  case less
  obtain q h1 where q: "run_state (recv (cl_conn c) max_reply (reply_timeout c)) h = (q, h1)"
    by fastforce
  note grow = recv_longer [OF q]
  show ?case
  proof (cases q)
    case (Inl e)
    with q show ?thesis by (simp add: await.simps)
  next
    case (Inr p)
    with q assms have "length h < n" by (fastforce simp: dries_up_def not_le [symmetric])
    with grow have "n - length h1 < n - length h" by simp
    from less [OF this] Inr q show ?thesis
      by (cases "parse_reply p xid (cl_mac c)") (simp_all add: await.simps [of c xid h])
  qed
qed

lemma request_returns:
  assumes "dries_up n"
  shows "\<exists>r h'. request_phase c xid offer h = Some (r, h')"
proof -
  obtain s h1 where s: "run_state (send_to (cl_conn c)
      (build_request xid (cl_mac c) (cl_hostname c) (Some (l_ip offer)) (l_server offer))
      broadcast) h = (s, h1)" by fastforce
  obtain a h2 where "await c xid h1 = Some (a, h2)" using await_returns [OF assms] by blast
  with s show ?thesis by (cases s) (simp_all add: request_phase_def)
qed

lemma once_returns:
  assumes "dries_up n"
  shows "\<exists>r h'. once K c h = Some (r, h')"
proof -
  obtain xid h1 where x: "run_state (new_xid K c) h = (xid, h1)" by fastforce
  obtain s h2 where s: "run_state (send_to (cl_conn c)
      (build_discover xid (cl_mac c) (cl_hostname c)) broadcast) h1 = (s, h2)" by fastforce
  obtain a h3 where "await c xid h2 = Some (a, h3)" using await_returns [OF assms] by blast
  with x s request_returns [OF assms] show ?thesis
    by (cases s) (auto simp: once_def split: sum.split)
qed

lemma acquire_returns:
  assumes "dries_up n"
  shows "\<exists>r h'. acquire K ctx c h = Some (r, h')"
proof -
  have "\<exists>r h'. acquire_loop K ctx c left e h = Some (r, h')" for left e h
  proof (induction left arbitrary: e h)
    case (Suc left)
    obtain q h1 where q: "run_state ctx h = (q, h1)" by fastforce
    obtain r h2 where o: "once K c h1 = Some (r, h2)" using once_returns [OF assms] by blast
    obtain w h3 where w: "run_state (client_sleep K c retry_backoff) h2 = (w, h3)" by fastforce
    from Suc.IH q o w show ?case
      by (cases q; cases r; cases w) auto
  qed simp
  then show ?thesis by (simp add: acquire_def)
qed

end

section \<open>The client that init builds\<close>

lemma bindE:
  assumes "Option.bind m f = Some y"
  obtains a b where "m = Some (a, b)" and "f (a, b) = Some y"
  using assms by (cases m) auto

definition sys_client :: "kernel \<Rightarrow> int \<Rightarrow> bytes \<Rightarrow> string \<Rightarrow> client" where
  "sys_client K fd mac hostname =
     \<lparr>cl_conn = sys_conn K fd, cl_mac = mac, cl_hostname = hostname, cl_max_attempts = 0,
      cl_timeout = 0, cl_rand = None, cl_sleep = None\<rparr>"

lemma sys_client_sel [simp]:
  "cl_conn (sys_client K fd mac hostname) = sys_conn K fd"
  "cl_mac (sys_client K fd mac hostname) = mac"
  "cl_hostname (sys_client K fd mac hostname) = hostname"
  "attempts (sys_client K fd mac hostname) = 6"
  "reply_timeout (sys_client K fd mac hostname) = default_timeout"
  by (simp_all add: sys_client_def attempts_def reply_timeout_def default_attempts_def)

lemma conn_recv_silent: "silent (conn_recv K n t)"
  by (auto simp: conn_recv_def intro!: emits_intros)

interpretation sysc: dhcp_transport K "sys_client K fd mac hostname" for K fd mac hostname
proof
  show "snd (run_state (send_to (cl_conn (sys_client K fd mac hostname)) p dst) h) =
      h @ [SendDatagram p (sockaddr4 dst) 67]" for p dst h
    by (simp add: sys_conn_def conn_send_to_def)
  show "silent (recv (cl_conn (sys_client K fd mac hostname)) n t)" for n t
    by (simp add: sys_conn_def conn_recv_silent)
  show "added (recv (cl_conn (sys_client K fd mac hostname)) n t) h \<noteq> []" for n t h
    by (simp add: sys_conn_def conn_recv_def added_def split: option.split)
  show "silent (new_xid K (sys_client K fd mac hostname))"
    by (auto simp: new_xid_def sys_client_def intro!: emits_intros)
  show "silent (client_sleep K (sys_client K fd mac hostname) d)" for d
    by (auto simp: client_sleep_def sys_client_def intro!: emits_intros)
qed

text \<open>
  \<open>replied K mac xid h h' a\<close>: between the two histories the socket was asked for a
  datagram, and the answer parses as \<open>a\<close> for this client.
\<close>

definition replied :: "kernel \<Rightarrow> bytes \<Rightarrow> 32 word \<Rightarrow> history \<Rightarrow> history \<Rightarrow> lease \<times> byte \<Rightarrow> bool" where
  "replied K mac xid h h' a =
     (\<exists>g p. prefix h g \<and> h' = g @ [RecvDatagram max_reply default_timeout] \<and>
        answer_bytes K g (RecvDatagram max_reply default_timeout) = Inr p \<and>
        parse_reply (take max_reply p) xid mac = Inr a)"

lemma conn_recv_Inr:
  assumes "run_state (conn_recv K max_reply default_timeout) h = (Inr p, h')"
  shows "\<exists>b. h' = h @ [SetSockOpt ''SO_RCVTIMEO'' (dec default_timeout),
        RecvDatagram max_reply default_timeout] \<and> p = take max_reply b \<and>
     answer_bytes K (h @ [SetSockOpt ''SO_RCVTIMEO'' (dec default_timeout)])
       (RecvDatagram max_reply default_timeout) = Inr b"
  using assms by (auto simp: conn_recv_def split: option.splits sum.splits if_splits)

lemma await_replied:
  assumes "await (sys_client K fd mac hostname) xid h = Some (Inr a, h')"
  shows "replied K mac xid h h' a"
proof -
  have "await (sys_client K fd mac hostname) xid h = Some (r, h') \<Longrightarrow>
      r = Inr a \<longrightarrow> replied K mac xid h h' a" for r
  proof (induction rule: await_induct)
    case (ours h h1 p a')
    then have "run_state (conn_recv K max_reply default_timeout) h = (Inr p, h1)"
      by (simp add: sys_conn_def)
    from conn_recv_Inr [OF this] ours(2) show ?case
      unfolding replied_def
      by (fastforce intro: exI [of _ "h @ [SetSockOpt ''SO_RCVTIMEO'' (dec default_timeout)]"])
  next
    case (foreign h h1 p e r h')
    then have "run_state (conn_recv K max_reply default_timeout) h = (Inr p, h1)"
      by (simp add: sys_conn_def)
    from conn_recv_Inr [OF this] have "prefix h h1" by auto
    then have "replied K mac xid h h' a" if "replied K mac xid h1 h' a"
      using that unfolding replied_def
      by (elim exE conjE, intro exI conjI) (auto elim: prefix_order.trans)
    with foreign(3) show ?case by blast
  qed simp
  with assms show ?thesis by blast
qed

definition discover_call :: "32 word \<Rightarrow> bytes \<Rightarrow> string \<Rightarrow> call" where
  "discover_call xid mac hostname = SendDatagram (build_discover xid mac hostname) broadcast 67"

definition request_call :: "32 word \<Rightarrow> bytes \<Rightarrow> string \<Rightarrow> lease \<Rightarrow> call" where
  "request_call xid mac hostname offer =
     SendDatagram (build_request xid mac hostname (Some (l_ip offer)) (l_server offer)) broadcast 67"

lemma sockaddr_broadcast [simp]: "sockaddr4 broadcast = broadcast"
  by (simp add: broadcast_def)

lemma request_handshake:
  assumes "request_phase (sys_client K fd mac hostname) xid offer h = Some (Inr l, h')"
  shows "replied K mac xid (h @ [request_call xid mac hostname offer]) h' (l, msg_ack)"
proof -
  let ?c = "sys_client K fd mac hostname"
  obtain s h1 where s: "run_state (send_to (cl_conn ?c)
      (build_request xid mac hostname (Some (l_ip offer)) (l_server offer)) broadcast) h = (s, h1)"
    by fastforce
  with assms have "await ?c xid h1 = Some (Inr (l, msg_ack), h')"
    by (cases s) (auto simp: request_phase_def elim!: bindE split: sum.splits if_splits)
  with sysc.sent [OF s] show ?thesis by (simp add: request_call_def await_replied)
qed

lemma next_lease_cases:
  assumes "next_lease K ctx c l h = Some (Inr n, h')"
  shows "(\<exists>srv. l_server l = Some srv \<and>
            ask_again K c l srv ''renewal got message type %d'' h = Some (Inr n, h')) \<or>
         (\<exists>g. ask_again K c l broadcast ''rebind got message type %d'' g = Some (Inr n, h')) \<or>
         (\<exists>g. acquire K ctx c g = Some (Inr n, h'))"
proof -
  from assms obtain r1 h1 where r1: "renew_once K c l h = Some (r1, h1)"
    unfolding next_lease_def by (rule bindE)
  show ?thesis
  proof (cases r1)
    case (Inr m)
    with assms r1 show ?thesis by (auto simp: next_lease_def renew_once_def split: option.splits)
  next
    case (Inl e)
    with assms r1 have b: "Option.bind (rebind K c l h1) (\<lambda>(r2, h2).
        case r2 of Inr n \<Rightarrow> Some (Inr n, h2) | Inl _ \<Rightarrow> Option.bind (acquire K ctx c h2) (\<lambda>(r3, h3).
          Some (case r3 of Inr n \<Rightarrow> Inr n
            | Inl e \<Rightarrow> Inl (wrap ''lease lost and re-acquire failed: %w'' [] e), h3))) = Some (Inr n, h')"
      by (simp add: next_lease_def)
    then obtain r2 h2 where r2: "rebind K c l h1 = Some (r2, h2)" by (rule bindE)
    show ?thesis
      using b r2 by (cases r2) (auto simp: rebind_def elim!: bindE split: sum.splits)
  qed
qed

lemma ask_again_acked:
  assumes "ask_again K (sys_client K fd mac hostname) l dst complaint h = Some (Inr n, h')"
  shows "\<exists>xid g. replied K mac xid (g @ [SendDatagram (build_renew xid mac hostname (l_ip l))
      (sockaddr4 dst) 67]) h' (n, msg_ack)"
proof -
  let ?c = "sys_client K fd mac hostname"
  obtain xid h1 where x: "run_state (new_xid K ?c) h = (xid, h1)" by fastforce
  obtain s h2 where s: "run_state (send_to (cl_conn ?c) (build_renew xid mac hostname (l_ip l)) dst) h1 =
      (s, h2)" by fastforce
  with assms x have "await ?c xid h2 = Some (Inr (n, msg_ack), h')"
    by (cases s) (auto simp: ask_again_def elim!: bindE split: sum.splits if_splits)
  with sysc.sent [OF s] show ?thesis using await_replied by blast
qed

section \<open>Example networks\<close>

definition dead_network :: kernel where
  "dead_network = quiet_kernel\<lparr>answer_bytes := \<lambda>_ _. Inl DeadlineExceeded\<rparr>"

lemma dead_dries_up: "sysc.dries_up dead_network fd mac hostname 0"
  by (auto simp: sysc.dries_up_def sys_conn_def conn_recv_def dead_network_def quiet_kernel_def)

definition example_mac :: bytes where "example_mac = [2, 0, 0, 0, 0, 1]"
definition example_ip :: ip_addr where "example_ip = [10, 0, 2, 15]"

definition example_reply :: "byte \<Rightarrow> bytes" where
  "example_reply mt = server_header 0 example_mac example_ip @
     encode_options [(opt_message_type, [mt]), (opt_server_id, [10, 0, 2, 2])] @ [opt_end]"

definition example_lease :: "byte \<Rightarrow> lease" where
  "example_lease mt =
     lease_from example_ip (map_of [(opt_message_type, [mt]), (opt_server_id, [10, 0, 2, 2])])"

text \<open>A server that offers, and acknowledges once the request has been sent.\<close>

definition server_network :: kernel where
  "server_network = quiet_kernel\<lparr>answer_bytes := \<lambda>h _.
     Inr (example_reply (if length h < 5 then msg_offer else msg_ack))\<rparr>"

lemma example_reply_parses [simp]:
  "parse_reply (take max_reply (example_reply mt)) 0 example_mac = Inr (example_lease mt, mt)"
proof -
  have "length (example_reply mt) \<le> max_reply"
    by (simp add: example_reply_def server_header_def max_reply_def)
  then have "take max_reply (example_reply mt) = example_reply mt" by simp
  moreover have "parse_reply (example_reply mt) 0 example_mac = Inr (example_lease mt, mt)"
    unfolding example_reply_def example_lease_def
    by (rule parse_reply_options [OF server_header_reply])
       (simp_all add: good_options_def dhcp_consts example_ip_def example_mac_def)
  ultimately show ?thesis by simp
qed

lemma server_awaits:
  "await (sys_client server_network fd example_mac hostname) 0 h =
   (let mt = if length h < 4 then msg_offer else msg_ack in
    Some (Inr (example_lease mt, mt), h @ [SetSockOpt ''SO_RCVTIMEO'' (dec default_timeout),
        RecvDatagram max_reply default_timeout]))"
  by (simp add: await.simps sys_conn_def conn_recv_def server_network_def quiet_kernel_def Let_def)

lemma msg_types_differ [simp]: "msg_ack \<noteq> msg_nak" "msg_offer \<noteq> msg_ack"
  by (simp_all add: dhcp_consts)

lemma example_acquired:
  "\<exists>h. once server_network (sys_client server_network 3 example_mac ''node'') [] =
     Some (Inr (example_lease msg_ack), h)"
proof -
  have x: "run_state (new_xid server_network (sys_client server_network 3 example_mac ''node'')) [] =
      (0, [ClockNano])"
    by (simp add: new_xid_def sys_client_def server_network_def quiet_kernel_def)
  have s: "run_state (conn_send_to server_network p d) h = (None, h @ [SendDatagram p (sockaddr4 d) 67])" for p d h
    by (simp add: conn_send_to_def server_network_def quiet_kernel_def)
  show ?thesis
    by (simp add: once_def x s sys_conn_def server_awaits request_phase_def Let_def)
qed

lemma example_renewed:
  "\<exists>h. next_lease server_network (give None) (sys_client server_network 3 example_mac ''node'')
     (example_lease msg_ack) [Sleep 0, Sleep 0, Sleep 0, Sleep 0] = Some (Inr (example_lease msg_ack), h)"
proof -
  have x: "run_state (new_xid server_network (sys_client server_network 3 example_mac ''node'')) h =
      (0, h @ [ClockNano])" for h
    by (simp add: new_xid_def sys_client_def server_network_def quiet_kernel_def)
  have s: "run_state (conn_send_to server_network p d) h = (None, h @ [SendDatagram p (sockaddr4 d) 67])" for p d h
    by (simp add: conn_send_to_def server_network_def quiet_kernel_def)
  have srv: "l_server (example_lease msg_ack) = Some [10, 0, 2, 2]"
    by (simp add: example_lease_def lease_from_def option_of_length_def Let_def dhcp_consts)
  show ?thesis
    by (simp add: next_lease_def renew_once_def ask_again_def x s srv sys_conn_def server_awaits Let_def)
qed

section \<open>Properties\<close>

text \<open>One exchange that yields a lease.\<close>

lemma once_handshake:
  assumes "once K (sys_client K fd mac hostname) h = Some (Inr l, h')"
  shows "\<exists>xid offer h1 h2. prefix h h1 \<and>
    replied K mac xid (h1 @ [discover_call xid mac hostname]) h2 (offer, msg_offer) \<and>
    replied K mac xid (h2 @ [request_call xid mac hostname offer]) h' (l, msg_ack)"
proof -
  let ?c = "sys_client K fd mac hostname"
  obtain xid h1 where x: "run_state (new_xid K ?c) h = (xid, h1)" by fastforce
  obtain s h2 where s: "run_state (send_to (cl_conn ?c) (build_discover xid mac hostname) broadcast) h1 =
      (s, h2)" by fastforce
  have h1: "prefix h h1" using emits_prefix [OF sysc.xid_silent] x by (metis snd_conv)
  from assms x s obtain a h3 where a: "await ?c xid h2 = Some (a, h3)"
    by (cases "await ?c xid h2"; cases s) (auto simp: once_def)
  obtain offer where "a = Inr (offer, msg_offer)"
    and r: "request_phase ?c xid offer h3 = Some (Inr l, h')"
    using assms x s a by (cases s) (auto simp: once_def split: sum.splits if_splits)
  with a h1 sysc.sent [OF s] request_handshake [OF r] show ?thesis
    by (metis await_replied discover_call_def sockaddr_broadcast)
qed

text \<open>
  C3. A lease is only ever what a server acknowledged. When \<open>acquire\<close> returns a lease, at whichever of
  its attempts, the client broadcast a DISCOVER, took an OFFER for its own transaction and hardware
  address, broadcast a REQUEST for exactly the address and server of that offer, and the lease is
  the one an ACK of the same transaction carried; a NAK never gives one, and neither does running out of
  attempts.
\<close>

theorem lease_only_after_handshake:
  assumes "silent ctx" and "acquire K ctx (sys_client K fd mac hostname) h = Some (Inr l, h')"
  shows "\<exists>xid offer h1 h2. prefix h h1 \<and>
    replied K mac xid (h1 @ [discover_call xid mac hostname]) h2 (offer, msg_offer) \<and>
    replied K mac xid (h2 @ [request_call xid mac hostname offer]) h' (l, msg_ack)"
  using sysc.acquire_once [OF assms] once_handshake by (blast intro: prefix_order.trans)

lemma example_acquires:
  "\<exists>h. acquire server_network (give None) (sys_client server_network 3 example_mac ''node'') [] =
     Some (Inr (example_lease msg_ack), h)"
proof -
  let ?c = "sys_client server_network 3 example_mac ''node''"
  obtain h where "once server_network ?c [] = Some (Inr (example_lease msg_ack), h)" using example_acquired by blast
  then have "acquire_loop server_network (give None) ?c (Suc n) e [] = Some (Inr (example_lease msg_ack), h)" for n e
    by simp
  from this [of 5] have "acquire_loop server_network (give None) ?c 6 e [] = Some (Inr (example_lease msg_ack), h)" for e
    by (simp only: numeral_eq_Suc pred_numeral_simps BitM.simps)
  then show ?thesis by (simp add: acquire_def del: acquire_loop.simps)
qed

theorem lease_only_after_handshake_witness:
  "\<exists>xid offer h1 h2 h'.
    replied server_network example_mac xid (h1 @ [discover_call xid example_mac ''node'']) h2 (offer, msg_offer) \<and>
    replied server_network example_mac xid (h2 @ [request_call xid example_mac ''node'' offer]) h'
      (example_lease msg_ack, msg_ack)"
proof -
  obtain h where "acquire server_network (give None) (sys_client server_network 3 example_mac ''node'') [] =
      Some (Inr (example_lease msg_ack), h)" using example_acquires by blast
  from lease_only_after_handshake [OF emits_give this] show ?thesis by blast
qed

text \<open>
  C36. Asking is bounded. However the network answers, acquiring a lease sends at most two
  datagrams for each of its six attempts, and nothing it does rewrites the past.
\<close>

theorem acquire_sends_at_most_twelve:
  assumes "silent ctx" and "acquire K ctx (sys_client K fd mac hostname) h = Some (r, h')"
  shows "grew 12 h h'"
  using sysc.acquire_sends [OF assms] by simp

theorem acquire_sends_at_most_twelve_witness:
  "\<exists>r h. acquire dead_network (give None) (sys_client dead_network 3 example_mac ''node'') [] =
     Some (r, h) \<and> grew 12 [] h"
proof -
  obtain r h where a: "acquire dead_network (give None)
      (sys_client dead_network 3 example_mac ''node'') [] = Some (r, h)"
    using sysc.acquire_returns [OF dead_dries_up] by blast
  from acquire_sends_at_most_twelve [OF emits_give a] a show ?thesis by blast
qed

lemma sys_dries_up:
  assumes "\<And>g. n \<le> length g \<Longrightarrow>
    \<exists>e. answer_bytes K g (RecvDatagram max_reply default_timeout) = Inl e"
  shows "sysc.dries_up K fd mac hostname n"
  unfolding sysc.dries_up_def
proof (intro allI impI)
  fix g :: history
  assume "n \<le> length g"
  with assms [of "g @ [SetSockOpt ''SO_RCVTIMEO'' (dec default_timeout)]"]
  show "\<exists>e. fst (run_state (recv (cl_conn (sys_client K fd mac hostname)) max_reply
      (reply_timeout (sys_client K fd mac hostname))) g) = Inl e"
    by (auto simp: sys_conn_def conn_recv_def split: option.split)
qed

text \<open>
  C35. Acquiring a lease comes to an end on any network that falls silent: if the socket
  times out, or fails, from some point on, \<open>acquire\<close> returns a lease or an error.
\<close>

theorem acquire_terminates:
  assumes "\<And>g. n \<le> length g \<Longrightarrow>
    \<exists>e. answer_bytes K g (RecvDatagram max_reply default_timeout) = Inl e"
  shows "acquire K ctx (sys_client K fd mac hostname) h \<noteq> None"
  using sysc.acquire_returns [OF sys_dries_up [OF assms]] by fastforce

theorem acquire_terminates_witness:
  "acquire dead_network (give None) (sys_client dead_network 3 example_mac ''node'') [] \<noteq> None"
  by (rule acquire_terminates [where n = 0]) (simp add: dead_network_def)

text \<open>
  The timeout is for each packet and not for the reply: on a link where a packet for
  somebody else always arrives in time, the client waits for its offer for ever, and none
  of its six attempts ends.
\<close>

theorem foreign_traffic_starves_the_client:
  assumes "\<And>g. \<exists>p h'. run_state (recv (cl_conn c) max_reply (reply_timeout c)) g = (Inr p, h') \<and>
    (\<exists>e. parse_reply p xid (cl_mac c) = Inl e)"
  shows "await c xid h = None"
proof -
  have False if "await c xid h = Some (r, h')" for r h'
    using that
    by (induction rule: await_induct) (use assms in \<open>metis Inl_Inr_False fst_conv sum.inject(2) prod.inject\<close>)+
  then show ?thesis by (cases "await c xid h") auto
qed

theorem foreign_traffic_starves_the_client_witness:
  "await (sys_client quiet_kernel 3 example_mac ''node'') 7 [] = None"
  by (rule foreign_traffic_starves_the_client)
     (simp add: sys_conn_def conn_recv_def quiet_kernel_def parse_reply_def min_packet_len_def)

text \<open>
  Keeping a lease never ends well by itself: when \<open>renew\<close> returns it returns an error,
  that of the pause, of a lost lease or of applying a new one.
\<close>

theorem renew_returns_an_error:
  assumes "renew K ctx c use l h = Some (r, h')"
  shows "r \<noteq> None"
proof -
  have "fst y \<noteq> None" if "renew K ctx c use l h = Some y" for K ctx c use l h y
    by (rule renew.raw_induct [where P = "\<lambda>(K :: kernel) ctx c use l h y. fst y \<noteq> None", OF _ that])
       (auto elim!: bindE split: prod.splits option.splits sum.splits)
  from this [OF assms] show ?thesis by simp
qed

theorem renew_returns_an_error_witness:
  "\<exists>r h. renew (quiet_kernel\<lparr>answer_unit := \<lambda>_ _. Some Canceled\<rparr>) (give None)
     (sys_client quiet_kernel 3 example_mac ''node'') (\<lambda>_. give None) (example_lease msg_ack) [] =
     Some (r, h) \<and> r \<noteq> None"
proof -
  have "renew (quiet_kernel\<lparr>answer_unit := \<lambda>_ _. Some Canceled\<rparr>) (give None)
     (sys_client quiet_kernel 3 example_mac ''node'') (\<lambda>_. give None) (example_lease msg_ack) [] =
     Some (Some Canceled, [Sleep (l_t1 (example_lease msg_ack))])"
    by (subst renew.simps) (simp add: client_sleep_def sys_client_def)
  from renew_returns_an_error [OF this] this show ?thesis by blast
qed

text \<open>
  A renewed lease is acknowledged too: the lease the renewal loop goes on with answers a
  message naming the address held, sent to the issuing server or to everyone, or it
  was acquired anew.
\<close>

theorem renewed_lease_was_acked:
  assumes "next_lease K ctx (sys_client K fd mac hostname) l h = Some (Inr n, h')"
  shows "(\<exists>g. acquire K ctx (sys_client K fd mac hostname) g = Some (Inr n, h')) \<or>
    (\<exists>xid g dst. (l_server l = Some dst \<or> dst = broadcast) \<and>
       replied K mac xid (g @ [SendDatagram (build_renew xid mac hostname (l_ip l))
         (sockaddr4 dst) 67]) h' (n, msg_ack))"
  using next_lease_cases [OF assms]
proof (elim disjE exE conjE)
  fix srv
  assume "l_server l = Some srv" and "ask_again K (sys_client K fd mac hostname) l srv
    ''renewal got message type %d'' h = Some (Inr n, h')"
  with ask_again_acked [OF this(2)] show ?thesis by blast
next
  fix g
  assume "ask_again K (sys_client K fd mac hostname) l broadcast
    ''rebind got message type %d'' g = Some (Inr n, h')"
  from ask_again_acked [OF this] show ?thesis by blast
qed blast

theorem renewed_lease_was_acked_witness:
  "(\<exists>g h. acquire server_network (give None) (sys_client server_network 3 example_mac ''node'') g =
      Some (Inr (example_lease msg_ack), h)) \<or>
   (\<exists>xid g dst h. replied server_network example_mac xid
      (g @ [SendDatagram (build_renew xid example_mac ''node'' (l_ip (example_lease msg_ack)))
        (sockaddr4 dst) 67]) h (example_lease msg_ack, msg_ack))"
proof -
  obtain h where "next_lease server_network (give None)
     (sys_client server_network 3 example_mac ''node'')
     (example_lease msg_ack) [Sleep 0, Sleep 0, Sleep 0, Sleep 0] = Some (Inr (example_lease msg_ack), h)"
    using example_renewed by blast
  from renewed_lease_was_acked [OF this] show ?thesis by blast
qed

end
