(* ===== verification/Ip_Addr.thy ===== *)
theory Ip_Addr
  imports Go_Strings Byte_Order
begin

text \<open>
  The address parsing of Go's standard library that the program uses: \<^verbatim>\<open>net.ParseIP\<close> and
  \<^verbatim>\<open>net.ParseCIDR\<close> over both address families. An address is 16 bytes, IPv4 ones in their
  mapped form; a mask has the width of the family it was written in.
\<close>

section \<open>IPv4\<close>

text \<open>Decimal digits without a leading zero, at most 255.\<close>

definition v4_field :: "string \<Rightarrow> byte option" where
  "v4_field s =
     (if s = [] \<or> (length s > 1 \<and> hd s = CHR ''0'') then None
      else (case digits_value 10 0 s of
              None \<Rightarrow> None | Some v \<Rightarrow> if v \<le> 255 then Some (word_of_nat v) else None))"

definition parse_v4 :: "string \<Rightarrow> bytes option" where
  "parse_v4 s =
     (case map v4_field (split_on (CHR ''.'') s) of
        [Some a, Some b, Some c, Some d] \<Rightarrow> Some [a, b, c, d] | _ \<Rightarrow> None)"

definition v4_prefix :: bytes where "v4_prefix = replicate 10 0 @ [255, 255]"

section \<open>IPv6\<close>

definition hex_digit :: "char \<Rightarrow> nat option" where
  "hex_digit c =
     (let k = of_char c :: nat in
      if 48 \<le> k \<and> k \<le> 57 then Some (k - 48)
      else if 97 \<le> k \<and> k \<le> 102 then Some (k - 87)
      else if 65 \<le> k \<and> k \<le> 70 then Some (k - 55) else None)"

text \<open>The hexadecimal digits at the front, with the rest.\<close>

fun hex_front :: "string \<Rightarrow> nat list \<times> string" where
  "hex_front [] = ([], [])"
| "hex_front (c # s) =
     (case hex_digit c of None \<Rightarrow> ([], c # s) | Some v \<Rightarrow> (case hex_front s of (vs, r) \<Rightarrow> (v # vs, r)))"

text \<open>
  The groups: \<open>out\<close> are the bytes so far, \<open>ell\<close> where a \<^verbatim>\<open>::\<close> stood. The result is the bytes and
  the place of the ellipsis, to be filled up to 16.
\<close>

fun v6_groups :: "nat \<Rightarrow> bytes \<Rightarrow> nat option \<Rightarrow> string \<Rightarrow> (bytes \<times> nat option) option" where
  "v6_groups 0 out ell s = (if s = [] then Some (out, ell) else None)"
| "v6_groups (Suc n) out ell s =
     (case hex_front s of (vs, r) \<Rightarrow>
        if vs = [] \<or> length vs > 4 then None
        else if r \<noteq> [] \<and> hd r = CHR ''.'' then
          (if (ell = None \<and> length out \<noteq> 12) \<or> length out + 4 > 16 then None
           else map_option (\<lambda>b. (out @ b, ell)) (parse_v4 s))
        else (let v = foldl (\<lambda>a d. 16 * a + d) 0 vs; out' = out @ [word_of_nat (v div 256), word_of_nat v] in
          if r = [] then Some (out', ell)
          else if hd r \<noteq> CHR '':'' \<or> tl r = [] then None
          else if hd (tl r) = CHR '':'' then
            (if ell \<noteq> None then None
             else if tl (tl r) = [] then Some (out', Some (length out'))
             else v6_groups n out' (Some (length out')) (tl (tl r)))
          else v6_groups n out' ell (tl r)))"

definition v6_fill :: "bytes \<times> nat option \<Rightarrow> bytes option" where
  "v6_fill p = (case p of (out, ell) \<Rightarrow>
     (if length out < 16 then
        (case ell of None \<Rightarrow> None
         | Some i \<Rightarrow> Some (take i out @ replicate (16 - length out) 0 @ drop i out))
      else if ell \<noteq> None then None else Some out))"

definition parse_v6 :: "string \<Rightarrow> bytes option" where
  "parse_v6 s =
     (if has_prefix s ''::'' then
        (if drop 2 s = [] then Some (replicate 16 0) else Option.bind (v6_groups 8 [] (Some 0) (drop 2 s)) v6_fill)
      else Option.bind (v6_groups 8 [] None s) v6_fill)"

section \<open>ParseIP and ParseCIDR\<close>

text \<open>
  The first of the characters \<^verbatim>\<open>.\<close>, \<^verbatim>\<open>:\<close> and \<^verbatim>\<open>%\<close> decides the family; a zone is refused.
  The width of the family comes with the bytes.
\<close>

definition parse_addr :: "string \<Rightarrow> (bytes \<times> nat) option" where
  "parse_addr s =
     (case dropWhile (\<lambda>c. c \<noteq> CHR ''.'' \<and> c \<noteq> CHR '':'' \<and> c \<noteq> CHR ''%'') s of
        [] \<Rightarrow> None
      | c # _ \<Rightarrow>
          if c = CHR ''.'' then map_option (\<lambda>b. (v4_prefix @ b, 32)) (parse_v4 s)
          else if c = CHR '':'' \<and> CHR ''%'' \<notin> set s then map_option (\<lambda>b. (b, 128)) (parse_v6 s)
          else None)"

definition parse_ip :: "string \<Rightarrow> bytes option" where
  "parse_ip s = map_option fst (parse_addr s)"

text \<open>\<^verbatim>\<open>net.CIDRMask\<close>: \<open>n\<close> leading ones in \<open>bits\<close> bits.\<close>

definition mask_byte :: "nat \<Rightarrow> byte" where
  "mask_byte n = word_of_nat (256 - 2 ^ (8 - min n 8))"

definition cidr_mask :: "nat \<Rightarrow> nat \<Rightarrow> bytes" where
  "cidr_mask n bits = map (\<lambda>i. mask_byte (n - 8 * i)) [0..<bits div 8]"

text \<open>\<^verbatim>\<open>dtoi\<close> reads decimal digits and gives up at \<^verbatim>\<open>0xFFFFFF\<close>.\<close>

definition prefix_len :: "string \<Rightarrow> nat option" where
  "prefix_len s =
     (if s = [] then None
      else (case digits_value 10 0 s of None \<Rightarrow> None | Some v \<Rightarrow> if v < 0xFFFFFF then Some v else None))"

definition parse_cidr :: "string \<Rightarrow> (bytes \<times> bytes) option" where
  "parse_cidr s =
     (case cut (CHR ''/'') s of (addr, width, found) \<Rightarrow>
        if \<not> found then None
        else (case (parse_addr addr, prefix_len width) of
                (Some (b, bits), Some n) \<Rightarrow> if n \<le> bits then Some (b, cidr_mask n bits) else None
              | _ \<Rightarrow> None))"

text \<open>\<^verbatim>\<open>To4\<close> of a parsed address: the last four bytes of a mapped one.\<close>

definition to4_of :: "bytes \<Rightarrow> bytes option" where
  "to4_of b = (if length b = 4 then Some b
     else if length b = 16 \<and> take 12 b = v4_prefix then Some (drop 12 b) else None)"

section \<open>Reading back what was rendered\<close>

lemma dec_head: "1 < length (dec n) \<Longrightarrow> hd (dec n) \<noteq> CHR ''0''"
proof (induction n rule: less_induct)
  case (less n)
  show ?case
  proof (cases "n < 10")
    case True
    with less(2) show ?thesis by (simp add: dec.simps [of n])
  next
    case False
    then have split: "dec n = dec (n div 10) @ [digit (n mod 10)]" by (subst dec.simps) simp
    have "hd (dec (n div 10)) \<noteq> CHR ''0''"
    proof (cases "n div 10 < 10")
      case True
      then have "dec (n div 10) = [digit (n div 10)]" by (subst dec.simps) simp
      moreover have "0 < n div 10" using False by simp
      then have "(of_char (digit (n div 10)) :: nat) \<noteq> of_char CHR ''0''" using True by (simp add: digit_decimal)
      then have "digit (n div 10) \<noteq> CHR ''0''" by metis
      ultimately show ?thesis by simp
    next
      case big: False
      then have "dec (n div 10) = dec (n div 10 div 10) @ [digit (n div 10 mod 10)]" by (subst dec.simps) simp
      moreover have "0 < length (dec (n div 10 div 10))" using dec_not_Nil by simp
      ultimately have "1 < length (dec (n div 10))" by simp
      then show ?thesis using less(1) False by simp
    qed
    then show ?thesis using split dec_not_Nil by simp
  qed
qed

lemma v4_field_dec: "v4_field (dec (unat b)) = Some b"
proof -
  have "unat b < 256" using unsigned_less [of b] by simp
  then show ?thesis using dec_head [of "unat b"] dec_not_Nil [of "unat b"]
    by (auto simp: v4_field_def digits_value_dec)
qed

end
