(* ===== verification/Net_Config.thy ===== *)
theory Net_Config
  imports Ip_Addr Dhcp_Packet Scripts
begin

text \<open>
  \<^verbatim>\<open>internal/net/net.go\<close>: bringing the loopback up and giving an interface its static address
  and default route; a DHCP lease is configured through the same function, in prefix form.
\<close>

record configurer =
  cf_link_up :: "string \<Rightarrow> err option io"
  cf_set_addr :: "string \<Rightarrow> ip_addr \<Rightarrow> bytes \<Rightarrow> err option io"
  cf_add_default_route :: "ip_addr \<Rightarrow> err option io"

definition net_up :: "configurer \<Rightarrow> err option io" where
  "net_up c = guard_err (cf_link_up c ''lo'') (\<lambda>e. Some (wrap ''lo up: %w'' [] e)) (give None)"

definition bad_cidr :: "string \<Rightarrow> err" where
  "bad_cidr s = Errorf ''invalid CIDR address: %s'' [s] None"

definition set_route :: "configurer \<Rightarrow> string \<Rightarrow> err option io" where
  "set_route c gw =
     (if gw = [] then give None
      else (case Option.bind (parse_ip gw) to4_of of
              None \<Rightarrow> give (Some (Errorf ''parse gateway %q: not an IPv4 address'' [gw] None))
            | Some g \<Rightarrow>
                guard_err (cf_add_default_route c g)
                  (\<lambda>e. Some (wrap ''add default route via %s: %w'' [gw] e)) (give None)))"

definition configure :: "configurer \<Rightarrow> string \<Rightarrow> string \<Rightarrow> string \<Rightarrow> err option io" where
  "configure c iface cidr gw =
     (case parse_cidr cidr of
        None \<Rightarrow> give (Some (wrap ''parse address %q: %w'' [cidr] (bad_cidr cidr)))
      | Some (ip, netmask) \<Rightarrow>
          (case to4_of ip of
             None \<Rightarrow> give (Some (Errorf ''address %q is not IPv4'' [cidr] None))
           | Some ip4 \<Rightarrow>
               guard_err (cf_set_addr c iface ip4 netmask)
                 (\<lambda>e. Some (wrap ''set %s address %s: %w'' [iface, cidr] e))
                 (guard_err (cf_link_up c iface) (\<lambda>e. Some (wrap ''%s up: %w'' [iface] e))
                   (set_route c gw))))"

definition sys_configurer :: "kernel \<Rightarrow> configurer" where
  "sys_configurer K =
     \<lparr>cf_link_up = sys_link_up K, cf_set_addr = sys_set_addr K, cf_add_default_route = sys_add_default_route K\<rparr>"

section \<open>A rendered address is read back\<close>

lemma split_dotted:
  "split_on (CHR ''.'') (dec a @ ''.'' @ dec b @ ''.'' @ dec c @ ''.'' @ dec d) = [dec a, dec b, dec c, dec d]"
proof -
  have no: "CHR ''.'' \<notin> set (dec n)" for n
    using dec_digits [of "CHR ''.''" n] by auto
  show ?thesis by (simp add: split_on_append no split_on_no_sep)
qed

lemma parse_v4_string: "parse_v4 (ip_string [a, b, c, d]) = Some [a, b, c, d]"
  using split_dotted [of "unat a" "unat b" "unat c" "unat d"]
  by (simp add: parse_v4_def ip_string_def v4_field_dec)

lemma parse_addr_string: "parse_addr (ip_string [a, b, c, d]) = Some (v4_prefix @ [a, b, c, d], 32)"
proof -
  let ?P = "\<lambda>c. c \<noteq> CHR ''.'' \<and> c \<noteq> CHR '':'' \<and> c \<noteq> CHR ''%''"
  have "\<forall>c \<in> set (dec n). ?P c" for n using dec_digits [of _ n] by fastforce
  then have "dropWhile ?P (dec n @ CHR ''.'' # s) = CHR ''.'' # s" for n s
    by (subst dropWhile_append2) auto
  then have "\<exists>s. dropWhile ?P (ip_string [a, b, c, d]) = CHR ''.'' # s" by (simp add: ip_string_def)
  then show ?thesis by (auto simp: parse_addr_def parse_v4_string)
qed

lemma to4_of_mapped [simp]: "to4_of (v4_prefix @ [a, b, c, d]) = Some [a, b, c, d]"
  by (simp add: to4_of_def v4_prefix_def)

lemma four_list: "length xs = 4 \<Longrightarrow> \<exists>a b c d. xs = [a, b, c, d]"
  by (simp add: length_Suc_conv numeral_eq_Suc) blast

lemma cut_ip_string: "cut (CHR ''/'') (ip_string [a, b, c, d] @ ''/'' @ w) = (ip_string [a, b, c, d], w, True)"
proof -
  have "CHR ''/'' \<notin> set (dec n)" for n using dec_digits [of "CHR ''/''" n] by auto
  then have "CHR ''/'' \<notin> set (ip_string [a, b, c, d])" by (simp add: ip_string_def)
  from cut_found [OF this] show ?thesis by simp
qed

lemma parse_cidr_string:
  assumes "n \<le> 32"
  shows "parse_cidr (ip_string [a, b, c, d] @ ''/'' @ dec n) = Some (v4_prefix @ [a, b, c, d], cidr_mask n 32)"
  using assms
  by (simp only: parse_cidr_def cut_ip_string) (simp add: parse_addr_string prefix_len_def digits_value_dec)

lemma replicate_small:
  "replicate 2 x = [x, x]" "replicate 3 x = [x, x, x]" "replicate 4 x = [x, x, x, x]"
  "replicate 5 x = [x, x, x, x, x]" "replicate 6 x = [x, x, x, x, x, x]"
  "replicate 7 x = [x, x, x, x, x, x, x]" "replicate 8 x = [x, x, x, x, x, x, x, x]"
  by (simp_all add: numeral_eq_Suc)

lemma byte_bits_mask:
  "byte_bits (mask_byte k) = replicate (min k 8) True @ replicate (8 - min k 8) False"
proof -
  have m: "mask_byte k = mask_byte (min k 8)" by (simp add: mask_byte_def)
  have "min k 8 \<in> {0, 1, 2, 3, 4, 5, 6, 7, 8}" by auto
  then show ?thesis
    by (subst m) (elim insertE, simp_all add: mask_byte_def byte_bits_def replicate_small)
qed

lemma mask_bits:
  assumes "n \<le> 32"
  shows "concat (map byte_bits (cidr_mask n 32)) = replicate n True @ replicate (32 - n) False"
proof -
  have "cidr_mask n 32 = [mask_byte n, mask_byte (n - 8), mask_byte (n - 16), mask_byte (n - 24)]"
    by (simp add: cidr_mask_def upt_rec)
  then show ?thesis
    using assms by (cases "n \<le> 8"; cases "n \<le> 16"; cases "n \<le> 24")
      (auto simp: byte_bits_mask min_def simp flip: replicate_add)
qed

lemma leading_ones: "takeWhile (\<lambda>b. b) (replicate n True @ replicate k False) = replicate n True"
  by (induction n) (simp_all add: takeWhile_replicate)

lemma mask_ones_cidr: "n \<le> 32 \<Longrightarrow> mask_ones (cidr_mask n 32) = n"
  by (simp add: mask_ones_def mask_bits leading_ones)

section \<open>Properties\<close>


definition example_configured :: lease where
  "example_configured = \<lparr>l_ip = [10, 0, 2, 15], l_mask = Some (cidr_mask 24 32), l_router = Some [10, 0, 2, 2],
     l_dns = [], l_server = None, l_time = 0, l_t1 = 0, l_t2 = 0\<rparr>"


text \<open>
  A lease without a mask makes every address local: it is rendered as a prefix of length 0, and
  the interface is given the netmask 0.0.0.0.
\<close>

theorem missing_mask_is_prefix_zero:
  assumes "length (l_ip l) = 4" and "l_mask l = None"
  shows "configure c iface (lease_cidr l) gw =
    guard_err (cf_set_addr c iface (l_ip l) [0, 0, 0, 0])
      (\<lambda>e. Some (wrap ''set %s address %s: %w'' [iface, lease_cidr l] e))
      (guard_err (cf_link_up c iface) (\<lambda>e. Some (wrap ''%s up: %w'' [iface] e)) (set_route c gw))"
proof -
  from four_list [OF assms(1)] obtain x y z u where ip: "l_ip l = [x, y, z, u]" by blast
  have "cidr_mask 0 32 = [0, 0, 0, 0]" by (simp add: cidr_mask_def mask_byte_def upt_rec)
  then show ?thesis
    using parse_cidr_string [of 0 x y z u] assms(2) by (simp add: configure_def lease_cidr_def ip)
qed

theorem missing_mask_is_prefix_zero_witness:
  "configure c ''eth0'' (lease_cidr (example_configured\<lparr>l_mask := None\<rparr>)) [] =
    guard_err (cf_set_addr c ''eth0'' (l_ip (example_configured\<lparr>l_mask := None\<rparr>)) [0, 0, 0, 0])
      (\<lambda>e. Some (wrap ''set %s address %s: %w'' [''eth0'', lease_cidr (example_configured\<lparr>l_mask := None\<rparr>)] e))
      (guard_err (cf_link_up c ''eth0'') (\<lambda>e. Some (wrap ''%s up: %w'' [''eth0''] e)) (set_route c []))"
  by (rule missing_mask_is_prefix_zero) (simp_all add: example_configured_def)

end
