(* ===== verification/Module_Match.thy ===== *)
theory Module_Match
  imports Go_Strings
begin

text \<open>
  \<^verbatim>\<open>path.Match\<close>, which \<^verbatim>\<open>internal/module\<close> uses to match the modalias of a device against the
  patterns of \<^verbatim>\<open>modules.alias\<close>. The algorithm is the library's own: the pattern is cut into
  chunks at its stars, each chunk is matched at the current position and, after a star, at
  every later one up to the next slash. A malformed chunk is \<^term>\<open>None\<close>. Characters are single
  bytes, which is what modaliases are made of.

  The lemmas say what that algorithm computes for the patterns the kernel generates.
\<close>

section \<open>Chunks\<close>

text \<open>The text up to the next star outside a bracket, and what follows.\<close>

fun chunk_split :: "bool \<Rightarrow> string \<Rightarrow> string \<times> string" where
  "chunk_split inrange [] = ([], [])"
| "chunk_split inrange (c # p) =
     (if c = CHR 0x5C then
        (case p of
           [] \<Rightarrow> ([c], [])
         | d # q \<Rightarrow> (case chunk_split inrange q of (a, b) \<Rightarrow> (c # d # a, b)))
      else if c = CHR ''*'' \<and> \<not> inrange then ([], c # p)
      else (case chunk_split (if c = CHR ''['' then True else if c = CHR '']'' then False else inrange) p of
              (a, b) \<Rightarrow> (c # a, b)))"

definition scan_chunk :: "string \<Rightarrow> bool \<times> string \<times> string" where
  "scan_chunk p =
     (let q = dropWhile (\<lambda>c. c = CHR ''*'') p; (chunk, rest) = chunk_split False q
      in (p \<noteq> [] \<and> hd p = CHR ''*'', chunk, rest))"

definition get_esc :: "string \<Rightarrow> (char \<times> string) option" where
  "get_esc chunk =
     (case chunk of
        [] \<Rightarrow> None
      | c # q \<Rightarrow>
          if c = CHR ''-'' \<or> c = CHR '']'' then None
          else if c = CHR 0x5C then
            (case q of [] \<Rightarrow> None | d # r \<Rightarrow> if r = [] then None else Some (d, r))
          else if q = [] then None else Some (c, q))"

lemma get_esc_shorter: "get_esc s = Some (c, r) \<Longrightarrow> length r < length s"
  by (auto simp: get_esc_def split: list.splits if_splits)

text \<open>The ranges of a class up to its closing bracket: whether \<open>r\<close> lies in one, and what follows.\<close>

function class_ranges :: "char \<Rightarrow> nat \<Rightarrow> bool \<Rightarrow> string \<Rightarrow> (bool \<times> string) option" where
  "class_ranges r nrange hit chunk =
     (if chunk \<noteq> [] \<and> hd chunk = CHR '']'' \<and> 0 < nrange then Some (hit, tl chunk)
      else
        (case get_esc chunk of
           None \<Rightarrow> None
         | Some (lo, q) \<Rightarrow>
             (if hd q = CHR ''-'' then
                (case get_esc (tl q) of
                   None \<Rightarrow> None
                 | Some (hi, q') \<Rightarrow> class_ranges r (Suc nrange) (hit \<or> lo \<le> r \<and> r \<le> hi) q')
              else class_ranges r (Suc nrange) (hit \<or> lo = r) q)))"
  by pat_completeness auto
termination
  by (relation "measure (\<lambda>(r, n, hit, chunk). length chunk)") (auto dest!: get_esc_shorter)

declare class_ranges.simps [simp del]

lemma class_ranges_shorter: "class_ranges r n hit chunk = Some (m, q) \<Longrightarrow> length q \<le> length chunk"
proof (induction r n hit chunk rule: class_ranges.induct)
  case (1 r n hit chunk)
  show ?case
  proof (cases "chunk \<noteq> [] \<and> hd chunk = CHR '']'' \<and> 0 < n")
    case True
    with "1.prems" show ?thesis by (auto simp: class_ranges.simps [of r n hit chunk])
  next
    case False
    then obtain lo q' where e: "get_esc chunk = Some (lo, q')"
      using "1.prems" by (auto simp: class_ranges.simps [of r n hit chunk] split: option.splits)
    note s = get_esc_shorter [OF e]
    show ?thesis
    proof (cases "hd q' = CHR ''-''")
      case True
      then obtain hi q'' where e': "get_esc (tl q') = Some (hi, q'')"
        and r: "class_ranges r (Suc n) (hit \<or> lo \<le> r \<and> r \<le> hi) q'' = Some (m, q)"
        using "1.prems" False e by (auto simp: class_ranges.simps [of r n hit chunk] split: option.splits)
      from "1.IH"(1) [OF False e refl True e' refl r] get_esc_shorter [OF e'] s show ?thesis by simp
    next
      case no: False
      then have r: "class_ranges r (Suc n) (hit \<or> lo = r) q' = Some (m, q)"
        using "1.prems" False e by (auto simp: class_ranges.simps [of r n hit chunk])
      from "1.IH"(2) [OF False e refl no r] s show ?thesis by simp
    qed
  qed
qed

definition negation :: "string \<Rightarrow> bool \<times> string" where
  "negation chunk =
     (if chunk \<noteq> [] \<and> hd chunk = CHR ''^'' then (True, tl chunk) else (False, chunk))"

text \<open>
  Matching one chunk at the start of \<open>s\<close>. After a failure the rest of the chunk is still
  checked for syntax; \<^term>\<open>Some None\<close> is a well-formed chunk that does not match.
\<close>

function match_chunk :: "bool \<Rightarrow> string \<Rightarrow> string \<Rightarrow> string option option" where
  "match_chunk failed0 [] s = Some (if failed0 then None else Some s)"
| "match_chunk failed0 (c # p) s =
     (let failed = (failed0 \<or> s = []) in
      if c = CHR ''['' then
        (let r = (if failed then CHR 0x00 else hd s);
             s' = (if failed then s else tl s);
             (negated, q) = negation p
         in case class_ranges r 0 False q of
              None \<Rightarrow> None
            | Some (hit, q') \<Rightarrow> match_chunk (failed \<or> hit = negated) q' s')
      else if c = CHR ''?'' then
        (if failed then match_chunk True p s
         else match_chunk (hd s = CHR ''/'') p (tl s))
      else if c = CHR 0x5C then
        (case p of
           [] \<Rightarrow> None
         | d # q \<Rightarrow> if failed then match_chunk True q s else match_chunk (d \<noteq> hd s) q (tl s))
      else if failed then match_chunk True p s
      else match_chunk (c \<noteq> hd s) p (tl s))"
  by pat_completeness auto
termination
  by (relation "measure (\<lambda>(failed, chunk, s). length chunk)")
     (auto dest!: class_ranges_shorter simp: negation_def split: if_splits)

section \<open>Patterns\<close>

text \<open>After a star: the first later position, up to a slash, where the chunk matches.\<close>

fun match_later :: "string \<Rightarrow> bool \<Rightarrow> string \<Rightarrow> string option option" where
  "match_later chunk final [] = Some None"
| "match_later chunk final (c # s) =
     (if c = CHR ''/'' then Some None
      else
        (case match_chunk False chunk s of
           None \<Rightarrow> None
         | Some (Some t) \<Rightarrow> if final \<and> t \<noteq> [] then match_later chunk final s else Some (Some t)
         | Some None \<Rightarrow> match_later chunk final s))"

lemma chunk_split_parts: "fst (chunk_split inr p) @ snd (chunk_split inr p) = p"
  by (induction inr p rule: chunk_split.induct) (simp_all add: case_prod_beta split: list.split)

lemma chunk_split_length: "length (snd (chunk_split inr p)) \<le> length p"
  by (metis chunk_split_parts le_add2 length_append)

lemma chunk_split_progress:
  assumes "p \<noteq> []" and "hd p \<noteq> CHR ''*''"
  shows "length (snd (chunk_split False p)) < length p"
proof -
  obtain c q where p: "p = c # q" using assms(1) by (cases p) auto
  have "length (snd (chunk_split inr q)) < Suc (length q)" for inr
    using chunk_split_length [of inr q] by simp
  moreover have "length (snd (chunk_split inr (tl q))) < Suc (length q)" for inr
    using chunk_split_length [of inr "tl q"] by simp
  ultimately show ?thesis using assms(2) by (cases q) (simp_all add: p case_prod_beta)
qed

lemma scan_chunk_progress:
  assumes "p \<noteq> []"
  shows "length (snd (snd (scan_chunk p))) < length p"
proof (cases "hd p = CHR ''*''")
  case True
  let ?q = "dropWhile (\<lambda>c. c = CHR ''*'') p"
  have "length ?q < length p"
    using assms True by (cases p) (auto simp: le_imp_less_Suc length_dropWhile_le)
  with chunk_split_length [of False ?q] show ?thesis by (simp add: scan_chunk_def case_prod_beta Let_def)
next
  case False
  then have "dropWhile (\<lambda>c. c = CHR ''*'') p = p" by (cases p) auto
  with chunk_split_progress [OF assms False] show ?thesis by (simp add: scan_chunk_def case_prod_beta)
qed

lemma scan_chunk_rest: "(star, a, b) = scan_chunk p \<Longrightarrow> p \<noteq> [] \<Longrightarrow> length b < length p"
  using scan_chunk_progress [of p] by (metis snd_conv)

text \<open>
  Whether the whole name matches. The library also tells a malformed pattern from a mismatch;
  the loader treats them alike, so both are \<^term>\<open>False\<close> here.
\<close>

function path_match :: "string \<Rightarrow> string \<Rightarrow> bool" where
  "path_match pattern name =
     (if pattern = [] then name = []
      else
        (case scan_chunk pattern of (star, chunk, rest) \<Rightarrow>
           if star \<and> chunk = [] then CHR ''/'' \<notin> set name
           else
             (case match_chunk False chunk name of
                None \<Rightarrow> False
              | Some m \<Rightarrow>
                  (case m of
                     Some t \<Rightarrow>
                       if t = [] \<or> rest \<noteq> [] then path_match rest t
                       else if star then
                         (case match_later chunk (rest = []) name of
                            Some (Some t') \<Rightarrow> path_match rest t' | _ \<Rightarrow> False)
                       else False
                   | None \<Rightarrow>
                       if star then
                         (case match_later chunk (rest = []) name of
                            Some (Some t') \<Rightarrow> path_match rest t' | _ \<Rightarrow> False)
                       else False))))"
  by pat_completeness auto
termination
  by (relation "measure (\<lambda>(p, n). length p)") (auto dest: scan_chunk_rest)

declare path_match.simps [simp del]

section \<open>Plain patterns\<close>

definition plain_pattern :: "string \<Rightarrow> bool" where
  "plain_pattern p = (\<forall>c\<in>set p. c \<notin> {CHR ''*'', CHR ''?'', CHR ''['', CHR 0x5C})"

lemma match_chunk_failed: "plain_pattern p \<Longrightarrow> match_chunk True p s = Some None"
  by (induction p arbitrary: s) (auto simp: plain_pattern_def Let_def)

lemma match_chunk_plain:
  "plain_pattern p \<Longrightarrow>
   match_chunk False p s = Some (if take (length p) s = p then Some (drop (length p) s) else None)"
proof (induction p arbitrary: s)
  case (Cons c p)
  then have p: "plain_pattern p" and c: "c \<noteq> CHR ''?''" "c \<noteq> CHR ''[''" "c \<noteq> CHR 0x5C"
    by (simp_all add: plain_pattern_def)
  note ih = Cons.IH [OF p]
  show ?case
  proof (cases s)
    case Nil
    with c show ?thesis by (simp add: match_chunk_failed [OF p])
  next
    case (Cons d s')
    then have "match_chunk False (c # p) s = match_chunk (c \<noteq> d) p s'" using c by simp
    with Cons ih show ?thesis by (cases "c = d") (simp_all add: match_chunk_failed [OF p])
  qed
qed simp

lemma chunk_split_plain:
  "plain_pattern p \<Longrightarrow> chunk_split False (p @ q) = (p @ fst (chunk_split False q), snd (chunk_split False q))"
proof (induction p)
  case (Cons c p)
  then show ?case by (simp add: plain_pattern_def case_prod_beta)
qed simp

lemma scan_chunk_plain:
  assumes "plain_pattern p" and "p \<noteq> []"
  shows "scan_chunk p = (False, p, [])" and "scan_chunk (p @ ''*'') = (False, p, ''*'')"
    and "scan_chunk (CHR ''*'' # p) = (True, p, [])"
proof -
  obtain c q where p: "p = c # q" and c: "c \<noteq> CHR ''*''"
    using assms by (cases p) (auto simp: plain_pattern_def)
  have "chunk_split False p = (p, [])" "chunk_split False (p @ ''*'') = (p, ''*'')"
    using chunk_split_plain [OF assms(1), of "[]"] chunk_split_plain [OF assms(1), of "''*''"] by simp_all
  then have s: "chunk_split False (c # q) = (p, [])" "chunk_split False (c # q @ ''*'') = (p, ''*'')"
    by (simp_all only: p append_Cons)
  have d: "dropWhile (\<lambda>c. c = CHR ''*'') (c # x) = c # x" for x using c by simp
  show "scan_chunk p = (False, p, [])" "scan_chunk (p @ ''*'') = (False, p, ''*'')"
    using c by (simp_all only: scan_chunk_def p append_Cons d s [unfolded p] Let_def prod.case list.sel) simp_all
  have d': "dropWhile (\<lambda>c. c = CHR ''*'') (CHR ''*'' # c # q) = c # q" using c by simp
  show "scan_chunk (CHR ''*'' # p) = (True, p, [])"
    by (simp only: scan_chunk_def p d' s [unfolded p] Let_def prod.case list.sel) simp
qed

lemma path_match_plain: "plain_pattern p \<Longrightarrow> path_match p n \<longleftrightarrow> p = n"
proof (cases "p = []")
  case False
  assume p: "plain_pattern p"
  have "n = p" if "take (length p) n = p" "drop (length p) n = []"
    using that by (metis append_Nil2 append_take_drop_id)
  then show ?thesis
    using scan_chunk_plain(1) [OF p False] match_chunk_plain [OF p, of n] False
    by (auto simp: path_match.simps [of p n] path_match.simps [of "[]"])
qed (auto simp: path_match.simps)

lemma scan_chunk_star [simp]: "scan_chunk ''*'' = (True, [], [])"
  by (simp add: scan_chunk_def)

lemma path_match_prefix:
  assumes "plain_pattern p"
  shows "path_match (p @ ''*'') n \<longleftrightarrow> (\<exists>s. n = p @ s \<and> CHR ''/'' \<notin> set s)"
proof (cases "p = []")
  case True
  then show ?thesis by (simp add: path_match.simps)
next
  case False
  have star: "path_match ''*'' t \<longleftrightarrow> CHR ''/'' \<notin> set t" for t by (simp add: path_match.simps)
  have "(\<exists>s. n = p @ s \<and> CHR ''/'' \<notin> set s) \<longleftrightarrow>
      take (length p) n = p \<and> CHR ''/'' \<notin> set (drop (length p) n)"
    by (metis append_eq_conv_conj)
  then show ?thesis
    using scan_chunk_plain(2) [OF assms False] match_chunk_plain [OF assms, of n]
    by (simp add: path_match.simps [of "p @ ''*''"] star split: if_splits)
qed

end
