(* ===== verification/Module_Loader.thy ===== *)
theory Module_Loader
  imports Module_Match Sys_Linux
begin

text \<open>
  \<^verbatim>\<open>internal/module/module.go\<close>: loading kernel modules with their dependencies. The Go interface
  \<^verbatim>\<open>Loader\<close> is the record \<open>loader\<close>; gzip is a parameter of it, being a decoder of the standard
  library whose output the code only hands on. The index files are read into the record
  \<open>mod_index\<close>; the mutable fields of \<^verbatim>\<open>resolver\<close> are the record \<open>progress\<close>.

  \<open>load_names\<close> is the recursion of \<^verbatim>\<open>load\<close> as written, over a list of names so that its two
  loops and those of its callers are one function; that it returns on every tree, cyclic
  or not, is \<open>load_names_visit\<close>, which relates it to \<open>visit\<close>: the order in which
  modules are handed to the kernel is a function of the index alone.
\<close>

section \<open>The loader and its indexes\<close>

record loader =
  ld_read :: "string \<Rightarrow> (err + bytes) io"
  ld_init :: "bytes \<Rightarrow> string \<Rightarrow> err option io"
  ld_gunzip :: "bytes \<Rightarrow> err + bytes"

record mod_info =
  m_path :: string
  m_deps :: "string list"

record alias_entry =
  a_pattern :: string
  a_module :: string

record mod_index =
  ix_base :: string
  ix_deps :: "string \<Rightarrow> mod_info option"
  ix_soft :: "string \<Rightarrow> string list"
  ix_alias :: "string \<Rightarrow> string option"
  ix_device :: "alias_entry list"

record progress =
  p_done :: "string list"
  p_loaded :: nat
  p_errs :: "err list"

record load_result =
  tree_found :: bool
  n_loaded :: nat
  n_autoloaded :: nat
  n_devices :: nat

definition name_of :: "string \<Rightarrow> string" where
  "name_of p =
     trim_suffix (trim_suffix (trim_suffix (trim_suffix (path_base p) ''.gz'') ''.xz'') ''.zst'') ''.ko''"

definition gzipped :: "bytes \<Rightarrow> bool" where
  "gzipped img = (2 \<le> length img \<and> img ! 0 = 0x1f \<and> img ! 1 = 0x8b)"

definition decompress :: "loader \<Rightarrow> bytes \<Rightarrow> err + bytes" where
  "decompress l img = (if gzipped img then ld_gunzip l img else Inr img)"

definition default_modules :: "string list" where
  "default_modules =
     [''virtio_net'', ''virtio_blk'', ''virtio_pci'', ''ext4'', ''overlay'', ''nfnetlink'',
      ''nf_tables'', ''nft_compat'', ''nft_chain_nat'', ''ip_tables'', ''iptable_nat'',
      ''iptable_filter'', ''ip6_tables'', ''ip6table_nat'', ''ip6table_filter'',
      ''nf_reject_ipv6'', ''nft_reject_ipv6'', ''nf_conntrack'', ''nf_conntrack_netlink'',
      ''nf_nat'', ''nf_reject_ipv4'', ''nft_reject'', ''nft_reject_ipv4'', ''nft_reject_inet'',
      ''ipt_REJECT'', ''nft_ct'', ''nft_nat'', ''nft_masq'', ''xt_conntrack'', ''xt_MASQUERADE'',
      ''xt_comment'', ''xt_mark'', ''xt_tcpudp'', ''xt_multiport'', ''xt_addrtype'',
      ''xt_statistic'', ''xt_nat'', ''xt_recent'', ''nfnetlink_acct'', ''xt_nfacct'', ''ip_set'',
      ''ip_set_hash_ip'', ''ip_set_hash_net'', ''xt_set'', ''veth'', ''bridge'',
      ''br_netfilter'', ''ipip'', ''loop'', ''erofs'', ''button'', ''evdev'']"

section \<open>Reading the index files\<close>

definition dep_line :: "string \<Rightarrow> (string \<times> mod_info) option" where
  "dep_line line =
     (case cut (CHR '':'') (trim_space line) of (target, rest, found) \<Rightarrow>
        if \<not> found \<or> target = [] then None
        else Some (name_of target, \<lparr>m_path = target, m_deps = map name_of (str_fields rest)\<rparr>))"

fun dep_lines :: "string list \<Rightarrow> (string \<Rightarrow> mod_info option) \<Rightarrow> string \<Rightarrow> mod_info option" where
  "dep_lines [] m = m"
| "dep_lines (l # ls) m =
     dep_lines ls (case dep_line l of None \<Rightarrow> m | Some (k, info) \<Rightarrow> m(k := Some info))"

definition parse_deps :: "bytes \<Rightarrow> string \<Rightarrow> mod_info option" where
  "parse_deps data = dep_lines (lines (to_text data)) (\<lambda>_. None)"

text \<open>Absence is no index; any other failure to read it is an error.\<close>

definition read_deps :: "loader \<Rightarrow> string \<Rightarrow> (err + (string \<Rightarrow> mod_info option) option) io" where
  "read_deps l base = do {
     d \<leftarrow> ld_read l (path_join [base, ''modules.dep'']);
     give (case d of
             Inl e \<Rightarrow> (if is_errno ENOENT e then Inr None else Inl (wrap ''read modules.dep: %w'' [] e))
           | Inr data \<Rightarrow> Inr (Some (parse_deps data)))
   }"

fun soft_words :: "bool \<Rightarrow> string list \<Rightarrow> string list" where
  "soft_words pre [] = []"
| "soft_words pre (f # fs) =
     (if f = ''pre:'' then soft_words True fs
      else if f = ''post:'' then soft_words False fs
      else if pre then f # soft_words pre fs else soft_words pre fs)"

fun soft_lines :: "string list \<Rightarrow> (string \<Rightarrow> string list) \<Rightarrow> string \<Rightarrow> string list" where
  "soft_lines [] m = m"
| "soft_lines (l # ls) m =
     soft_lines ls
       (case str_fields l of
          w # modname # f # fs \<Rightarrow>
            (if w \<noteq> ''softdep'' then m else m(modname := m modname @ soft_words False (f # fs)))
        | _ \<Rightarrow> m)"

definition read_softdeps :: "loader \<Rightarrow> string \<Rightarrow> (string \<Rightarrow> string list) io" where
  "read_softdeps l base = do {
     d \<leftarrow> ld_read l (path_join [base, ''modules.softdep'']);
     give (case d of
             Inl _ \<Rightarrow> (\<lambda>_. [])
           | Inr data \<Rightarrow> soft_lines (lines (to_text data)) (\<lambda>_. []))
   }"

fun alias_lines ::
  "string list \<Rightarrow> (string \<Rightarrow> string option) \<times> alias_entry list \<Rightarrow>
     (string \<Rightarrow> string option) \<times> alias_entry list"
where
  "alias_lines [] acc = acc"
| "alias_lines (l # ls) (exact, device) =
     (case str_fields l of
        [w, pat, target] \<Rightarrow>
          if w \<noteq> ''alias'' then alias_lines ls (exact, device)
          else if contains_any pat ''*?['' then
            alias_lines ls (exact, device @ [\<lparr>a_pattern = pat, a_module = target\<rparr>])
          else alias_lines ls (exact(pat := Some target), device)
      | _ \<Rightarrow> alias_lines ls (exact, device))"

definition read_aliases :: "loader \<Rightarrow> string \<Rightarrow> ((string \<Rightarrow> string option) \<times> alias_entry list) io" where
  "read_aliases l base = do {
     d \<leftarrow> ld_read l (path_join [base, ''modules.alias'']);
     give (case d of
             Inl _ \<Rightarrow> ((\<lambda>_. None), [])
           | Inr data \<Rightarrow> alias_lines (lines (to_text data)) ((\<lambda>_. None), []))
   }"

definition new_resolver :: "loader \<Rightarrow> string \<Rightarrow> (err + mod_index option) io" where
  "new_resolver l base = do {
     deps \<leftarrow> read_deps l base;
     (case deps of
        Inl e \<Rightarrow> give (Inl e)
      | Inr None \<Rightarrow> give (Inr None)
      | Inr (Some d) \<Rightarrow> do {
          al \<leftarrow> read_aliases l base;
          soft \<leftarrow> read_softdeps l base;
          give (Inr (Some \<lparr>ix_base = base, ix_deps = d, ix_soft = soft, ix_alias = fst al,
                           ix_device = snd al\<rparr>))
        })
   }"

section \<open>Loading\<close>

text \<open>The code's answer for no module is the empty name.\<close>

definition resolve_module :: "mod_index \<Rightarrow> string \<Rightarrow> string option" where
  "resolve_module ix name =
     (let found = (if ix_deps ix name \<noteq> None then Some name
         else (case ix_alias ix name of
                 Some target \<Rightarrow> if ix_deps ix target \<noteq> None then Some target else None
               | None \<Rightarrow> None))
      in if found = Some [] then None else found)"

definition prereqs :: "mod_index \<Rightarrow> string \<Rightarrow> string list" where
  "prereqs ix key =
     ix_soft ix key @ (case ix_deps ix key of Some i \<Rightarrow> m_deps i | None \<Rightarrow> [])"

text \<open>What \<^verbatim>\<open>load\<close> does once the dependencies are dealt with.\<close>

definition module_path :: "mod_index \<Rightarrow> string \<Rightarrow> string" where
  "module_path ix key =
     path_join [ix_base ix, (case ix_deps ix key of Some i \<Rightarrow> m_path i | None \<Rightarrow> [])]"

definition add_err :: "err \<Rightarrow> progress \<Rightarrow> progress" where
  "add_err e s = s\<lparr>p_errs := p_errs s @ [e]\<rparr>"

definition install :: "loader \<Rightarrow> mod_index \<Rightarrow> string \<Rightarrow> progress \<Rightarrow> progress io" where
  "install l ix key s = do {
     r \<leftarrow> ld_read l (module_path ix key);
     (case r of
        Inl e \<Rightarrow> give (add_err (wrap ''read module %s: %w'' [key] e) s)
      | Inr raw \<Rightarrow>
          (case decompress l raw of
             Inl e \<Rightarrow> give (add_err (wrap ''decompress module %s: %w'' [key] e) s)
           | Inr img \<Rightarrow> do {
               i \<leftarrow> ld_init l img [];
               (case i of
                  Some e \<Rightarrow>
                    if is_errno EEXIST e then give (s\<lparr>p_loaded := Suc (p_loaded s)\<rparr>)
                    else give (add_err (wrap ''load module %s: %w'' [key] e) s)
                | None \<Rightarrow> give (s\<lparr>p_loaded := Suc (p_loaded s)\<rparr>))
             }))
   }"

text \<open>The key is marked before the recursion, so a dependency cycle terminates.\<close>

partial_function (option) load_names ::
  "loader \<Rightarrow> mod_index \<Rightarrow> string list \<Rightarrow> progress \<Rightarrow> history \<Rightarrow> (progress \<times> history) option"
where
  "load_names l ix names s h =
     (case names of
        [] \<Rightarrow> Some (s, h)
      | name # rest \<Rightarrow>
          (case resolve_module ix name of
             None \<Rightarrow> load_names l ix rest s h
           | Some key \<Rightarrow>
               if key \<in> set (p_done s) then load_names l ix rest s h
               else Option.bind (load_names l ix (prereqs ix key) (s\<lparr>p_done := key # p_done s\<rparr>) h)
                      (\<lambda>r. case run_state (install l ix key (fst r)) (snd r) of
                             (s2, h2) \<Rightarrow> load_names l ix rest s2 h2)))"

section \<open>Devices\<close>

fun match_modalias :: "alias_entry list \<Rightarrow> string \<Rightarrow> string list \<Rightarrow> string list" where
  "match_modalias [] m out = out"
| "match_modalias (e # es) m out =
     match_modalias es m
       (if path_match (a_pattern e) m \<and> a_module e \<notin> set out then out @ [a_module e] else out)"

fun match_from :: "alias_entry list \<Rightarrow> string list \<Rightarrow> string list \<Rightarrow> string list" where
  "match_from es [] out = out"
| "match_from es (m # ms) out = match_from es ms (match_modalias es m out)"

definition match_devices :: "alias_entry list \<Rightarrow> string list \<Rightarrow> string list" where
  "match_devices es ms = match_from es ms []"

definition max_device_rounds :: nat where "max_device_rounds = 8"

fun load_devices ::
  "nat \<Rightarrow> loader \<Rightarrow> mod_index \<Rightarrow> (string list \<times> err option) io \<Rightarrow> nat \<Rightarrow> progress \<Rightarrow> history \<Rightarrow>
     ((progress \<times> nat) \<times> history) option"
where
  "load_devices 0 l ix devices seen s h = Some ((s, seen), h)"
| "load_devices (Suc n) l ix devices seen s h =
     (case run_state devices h of
        ((mods, e), h1) \<Rightarrow>
          (case e of
             Some e' \<Rightarrow>
               if mods = [] then Some ((add_err (wrap ''enumerate devices: %w'' [] e') s, seen), h1)
               else Option.bind (load_names l ix (match_devices (ix_device ix) mods) s h1)
                      (\<lambda>r. if p_loaded (fst r) = p_loaded s then Some ((fst r, length mods), snd r)
                           else load_devices n l ix devices (length mods) (fst r) (snd r))
           | None \<Rightarrow>
               Option.bind (load_names l ix (match_devices (ix_device ix) mods) s h1)
                 (\<lambda>r. if p_loaded (fst r) = p_loaded s then Some ((fst r, length mods), snd r)
                      else load_devices n l ix devices (length mods) (fst r) (snd r))))"

section \<open>The entry points\<close>

definition no_tree :: load_result where
  "no_tree = \<lparr>tree_found = False, n_loaded = 0, n_autoloaded = 0, n_devices = 0\<rparr>"

definition start :: progress where
  "start = \<lparr>p_done = [], p_loaded = 0, p_errs = []\<rparr>"

type_synonym load_outcome = "(load_result \<times> err list) \<times> history"

definition load_named :: "loader \<Rightarrow> string \<Rightarrow> string list \<Rightarrow> history \<Rightarrow> load_outcome option" where
  "load_named l base names h =
     (case run_state (new_resolver l base) h of
        (Inl e, h1) \<Rightarrow> Some ((no_tree, [e]), h1)
      | (Inr None, h1) \<Rightarrow> Some ((no_tree, []), h1)
      | (Inr (Some ix), h1) \<Rightarrow>
          Option.bind (load_names l ix names start h1)
            (\<lambda>r. Some ((\<lparr>tree_found = True, n_loaded = p_loaded (fst r), n_autoloaded = 0,
                         n_devices = 0\<rparr>, p_errs (fst r)), snd r)))"

definition load_for_devices ::
  "loader \<Rightarrow> string \<Rightarrow> (string list \<times> err option) io \<Rightarrow> history \<Rightarrow> load_outcome option"
where
  "load_for_devices l base devices h =
     (case run_state (new_resolver l base) h of
        (Inl e, h1) \<Rightarrow> Some ((no_tree, [e]), h1)
      | (Inr None, h1) \<Rightarrow> Some ((no_tree, []), h1)
      | (Inr (Some ix), h1) \<Rightarrow>
          Option.bind (load_devices max_device_rounds l ix devices 0 start h1)
            (\<lambda>r. case r of ((s, seen), h2) \<Rightarrow>
               Some ((\<lparr>tree_found = True, n_loaded = p_loaded s, n_autoloaded = p_loaded s,
                       n_devices = seen\<rparr>, p_errs s), h2)))"

definition load_all ::
  "loader \<Rightarrow> string \<Rightarrow> string list \<Rightarrow> (string list \<times> err option) io \<Rightarrow> history \<Rightarrow> load_outcome option"
where
  "load_all l base names devices h =
     (case run_state (new_resolver l base) h of
        (Inl e, h1) \<Rightarrow> Some ((no_tree, [e]), h1)
      | (Inr None, h1) \<Rightarrow> Some ((no_tree, []), h1)
      | (Inr (Some ix), h1) \<Rightarrow>
          Option.bind (load_names l ix names start h1)
            (\<lambda>r. Option.bind (load_devices max_device_rounds l ix devices 0 (fst r) (snd r))
              (\<lambda>q. case q of ((s, seen), h2) \<Rightarrow>
                 Some ((\<lparr>tree_found = True, n_loaded = p_loaded (fst r),
                         n_autoloaded = p_loaded s - p_loaded (fst r), n_devices = seen\<rparr>,
                        p_errs s), h2))))"

section \<open>The order of loading\<close>

partial_function (option) visit ::
  "mod_index \<Rightarrow> string list \<Rightarrow> string list \<Rightarrow> (string list \<times> string list) option"
where
  "visit ix names dn =
     (case names of
        [] \<Rightarrow> Some ([], dn)
      | name # rest \<Rightarrow>
          (case resolve_module ix name of
             None \<Rightarrow> visit ix rest dn
           | Some key \<Rightarrow>
               if key \<in> set dn then visit ix rest dn
               else Option.bind (visit ix (prereqs ix key) (key # dn))
                      (\<lambda>a. Option.bind (visit ix rest (snd a))
                        (\<lambda>b. Some (fst a @ [key] @ fst b, snd b)))))"

fun install_all :: "loader \<Rightarrow> mod_index \<Rightarrow> string list \<Rightarrow> progress \<Rightarrow> progress io" where
  "install_all l ix [] s = give s"
| "install_all l ix (k # ks) s = do { s1 \<leftarrow> install l ix k s; install_all l ix ks s1 }"

definition modules :: "mod_index \<Rightarrow> string set" where
  "modules ix = {k. ix_deps ix k \<noteq> None}"

lemma resolve_module_in: "resolve_module ix name = Some key \<Longrightarrow> key \<in> modules ix"
  by (auto simp: resolve_module_def modules_def Let_def split: if_splits option.splits)

lemma install_done:
  "run_state (install l ix k (s\<lparr>p_done := d\<rparr>)) h =
     (case run_state (install l ix k s) h of (t, h') \<Rightarrow> (t\<lparr>p_done := d\<rparr>, h'))"
  by (auto simp: install_def add_err_def split: prod.splits sum.splits option.splits)

lemma install_all_done:
  "run_state (install_all l ix ks (s\<lparr>p_done := d\<rparr>)) h =
     (case run_state (install_all l ix ks s) h of (t, h') \<Rightarrow> (t\<lparr>p_done := d\<rparr>, h'))"
proof (induction ks arbitrary: s h)
  case (Cons k ks)
  obtain t h1 where t: "run_state (install l ix k s) h = (t, h1)" by fastforce
  with Cons.IH [of t h1] show ?case by (simp add: install_done)
qed simp

lemma install_keeps_done: "run_state (install l ix k s) h = (t, h') \<Longrightarrow> p_done t = p_done s"
  by (auto simp: install_def add_err_def split: prod.splits sum.splits option.splits if_splits)

lemma install_all_append:
  "run_state (install_all l ix (ks @ ks') s) h =
     (case run_state (install_all l ix ks s) h of (t, h') \<Rightarrow> run_state (install_all l ix ks' t) h')"
  by (induction ks arbitrary: s h) (auto split: prod.split)

lemma visit_Nil [simp]: "visit ix [] dn = Some ([], dn)"
  by (simp add: visit.simps)

lemma load_names_Nil [simp]: "load_names l ix [] s h = Some (s, h)"
  by (simp add: load_names.simps)

lemma visit_skip:
  "resolve_module ix name = None \<or> (\<exists>key. resolve_module ix name = Some key \<and> key \<in> set dn) \<Longrightarrow>
   visit ix (name # rest) dn = visit ix rest dn"
  by (auto simp: visit.simps [of ix "name # rest"])

lemma visit_key:
  "resolve_module ix name = Some key \<Longrightarrow> key \<notin> set dn \<Longrightarrow>
   visit ix (prereqs ix key) (key # dn) = Some (a, d1) \<Longrightarrow> visit ix rest d1 = Some (b, d2) \<Longrightarrow>
   visit ix (name # rest) dn = Some (a @ [key] @ b, d2)"
  by (simp add: visit.simps [of ix "name # rest"])

text \<open>
  What a visit does to the marks, and that \<open>load_names\<close> follows it: it returns, and its effect
  is that of installing the visited modules one after the other.
\<close>

definition follows :: "loader \<Rightarrow> mod_index \<Rightarrow> string list \<Rightarrow> progress \<Rightarrow> history \<Rightarrow> string list \<Rightarrow> string list \<Rightarrow> bool"
where
  "follows l ix names s h ks d =
     (load_names l ix names s h =
        (case run_state (install_all l ix ks s) h of (t, h') \<Rightarrow> Some (t\<lparr>p_done := d\<rparr>, h')))"

text \<open>Induction over a visit: the names left get fewer, or a module that was not marked is.\<close>

lemma visit_induct [consumes 1, case_names Nil skip key]:
  assumes "finite (modules ix)" and "\<And>dn. P [] dn"
    and "\<And>name rest dn. resolve_module ix name = None \<or> (\<exists>key. resolve_module ix name = Some key \<and> key \<in> set dn) \<Longrightarrow>
      P rest dn \<Longrightarrow> P (name # rest) dn"
    and "\<And>name rest dn key. resolve_module ix name = Some key \<Longrightarrow> key \<notin> set dn \<Longrightarrow> key \<in> modules ix \<Longrightarrow>
      P (prereqs ix key) (key # dn) \<Longrightarrow> (\<And>d. set (key # dn) \<subseteq> set d \<Longrightarrow> P rest d) \<Longrightarrow> P (name # rest) dn"
  shows "P names dn"
proof (induction "(card (modules ix - set dn), length names)" arbitrary: names dn
    rule: wf_induct_rule [OF wf_lex_prod [OF wf_less_than wf_less_than]])
  case (1 names dn)
  show ?case
  proof (cases names)
    case (Cons name rest)
    show ?thesis
    proof (cases "\<exists>key. resolve_module ix name = Some key \<and> key \<notin> set dn")
      case False
      then have "resolve_module ix name = None \<or> (\<exists>key. resolve_module ix name = Some key \<and> key \<in> set dn)"
        by (cases "resolve_module ix name") auto
      moreover have "P rest dn" by (rule 1) (simp add: Cons)
      ultimately show ?thesis unfolding Cons by (rule assms(3))
    next
      case True
      then obtain key where key: "resolve_module ix name = Some key" "key \<notin> set dn" by blast
      have km: "key \<in> modules ix" by (rule resolve_module_in [OF key(1)])
      have step: "P ns d" if "set (key # dn) \<subseteq> set d" for ns d
      proof (rule 1)
        have "card (modules ix - set d) < card (modules ix - set dn)"
          by (rule psubset_card_mono) (use assms(1) km key that in auto)
        then show "((card (modules ix - set d), length ns), card (modules ix - set dn), length names) \<in> less_than <*lex*> less_than"
          by simp
      qed
      show ?thesis unfolding Cons by (rule assms(4) [OF key km step step]) simp_all
    qed
  qed (simp add: assms(2))
qed

lemma follows_key:
  assumes key: "resolve_module ix name = Some key" "key \<notin> set dn" and s: "p_done s = dn"
    and a: "\<forall>s h. p_done s = key # dn \<longrightarrow> follows l ix (prereqs ix key) s h a d1"
    and b: "\<forall>s h. p_done s = d1 \<longrightarrow> follows l ix rest s h b d2"
  shows "follows l ix (name # rest) s h (a @ [key] @ b) d2"
proof -
  obtain t h1 where t: "run_state (install_all l ix a s) h = (t, h1)" by fastforce
  obtain u h2 where u: "run_state (install l ix key t) h1 = (u, h2)" by fastforce
  obtain w h3 where w: "run_state (install_all l ix b u) h2 = (w, h3)" by fastforce
  have "load_names l ix (prereqs ix key) (s\<lparr>p_done := key # dn\<rparr>) h = Some (t\<lparr>p_done := d1\<rparr>, h1)"
    using a [rule_format, of "s\<lparr>p_done := key # dn\<rparr>" h] t by (simp add: follows_def install_all_done)
  moreover have "load_names l ix rest (u\<lparr>p_done := d1\<rparr>) h2 = Some (w\<lparr>p_done := d2\<rparr>, h3)"
    using b [rule_format, of "u\<lparr>p_done := d1\<rparr>" h2] w by (simp add: follows_def install_all_done)
  ultimately have "load_names l ix (name # rest) s h = Some (w\<lparr>p_done := d2\<rparr>, h3)"
    using u key s by (simp add: load_names.simps [of l ix "name # rest"] install_done)
  moreover have "run_state (install_all l ix (a @ [key] @ b) s) h = (w, h3)"
    using t u w by (simp add: install_all_append)
  ultimately show ?thesis by (simp add: follows_def)
qed

lemma load_names_visit:
  assumes "finite (modules ix)"
  shows "\<exists>ks d. visit ix names dn = Some (ks, d) \<and> set d = set ks \<union> set dn \<and> distinct ks \<and>
    set ks \<inter> set dn = {} \<and> set ks \<subseteq> modules ix \<and>
    (\<forall>s h. p_done s = dn \<longrightarrow> follows l ix names s h ks d)"
  using assms
proof (induction names dn rule: visit_induct)
  case (Nil dn)
  show ?case by (auto simp: follows_def)
next
  case (skip name rest dn)
  have "p_done s = dn \<longrightarrow> load_names l ix (name # rest) s h = load_names l ix rest s h" for s h
    using skip(1) by (auto simp: load_names.simps [of l ix "name # rest"])
  then show ?case using skip(2) visit_skip [OF skip(1)] by (auto simp: follows_def)
next
  case (key name rest dn k)
  then obtain a d1 where a: "visit ix (prereqs ix k) (k # dn) = Some (a, d1)"
    "set d1 = set a \<union> set (k # dn)" "distinct a" "set a \<inter> set (k # dn) = {}" "set a \<subseteq> modules ix"
    "\<forall>s h. p_done s = k # dn \<longrightarrow> follows l ix (prereqs ix k) s h a d1" by blast
  then obtain b d2 where b: "visit ix rest d1 = Some (b, d2)" "set d2 = set b \<union> set d1" "distinct b"
    "set b \<inter> set d1 = {}" "set b \<subseteq> modules ix" "\<forall>s h. p_done s = d1 \<longrightarrow> follows l ix rest s h b d2"
    using key.IH(2) [of d1] by blast
  have "visit ix (name # rest) dn = Some (a @ [k] @ b, d2)"
    by (rule visit_key [OF key(1,2) a(1) b(1)])
  with a(2-5) b(2-5) key(2,3) follows_key [OF key(1,2) _ a(6) b(6)] show ?case
    by (intro exI [of _ "a @ [k] @ b"] exI [of _ d2]) auto
qed

section \<open>Dependencies first\<close>

definition ready :: "mod_index \<Rightarrow> string set \<Rightarrow> string \<Rightarrow> bool" where
  "ready ix D k =
     (\<forall>n\<in>set (prereqs ix k). case resolve_module ix n of None \<Rightarrow> True | Some d \<Rightarrow> d \<in> D)"

fun deps_first :: "mod_index \<Rightarrow> string set \<Rightarrow> string list \<Rightarrow> bool" where
  "deps_first ix D [] = True"
| "deps_first ix D (k # ks) = (ready ix D k \<and> deps_first ix (insert k D) ks)"

lemma deps_first_append:
  "deps_first ix D (xs @ ys) \<longleftrightarrow> deps_first ix D xs \<and> deps_first ix (D \<union> set xs) ys"
  by (induction xs arbitrary: D) auto

definition covered :: "mod_index \<Rightarrow> string set \<Rightarrow> string list \<Rightarrow> bool" where
  "covered ix D names =
     (\<forall>n\<in>set names. case resolve_module ix n of None \<Rightarrow> True | Some d \<Rightarrow> d \<in> D)"

text \<open>A tree without cycles: every dependency has a smaller rank.\<close>

definition ranked :: "mod_index \<Rightarrow> (string \<Rightarrow> nat) \<Rightarrow> bool" where
  "ranked ix rank =
     (\<forall>k\<in>modules ix. \<forall>n\<in>set (prereqs ix k).
        case resolve_module ix n of None \<Rightarrow> True | Some d \<Rightarrow> rank d < rank k)"

definition below :: "mod_index \<Rightarrow> (string \<Rightarrow> nat) \<Rightarrow> string list \<Rightarrow> string set \<Rightarrow> bool" where
  "below ix rank names grey =
     (\<forall>n\<in>set names. case resolve_module ix n of None \<Rightarrow> True | Some d \<Rightarrow> \<forall>g\<in>grey. rank d < rank g)"

text \<open>\<open>grey\<close> are the modules whose visit has begun and not ended.\<close>

lemma below_prereqs:
  assumes "ranked ix rank" and "resolve_module ix name = Some key" and "key \<in> modules ix"
    and "below ix rank (name # rest) grey"
  shows "below ix rank (prereqs ix key) (insert key grey)"
  unfolding below_def
proof
  fix n assume n: "n \<in> set (prereqs ix key)"
  have g: "\<forall>g\<in>grey. rank key < rank g" using assms(2,4) by (simp add: below_def)
  show "case resolve_module ix n of None \<Rightarrow> True | Some d \<Rightarrow> \<forall>g\<in>insert key grey. rank d < rank g"
  proof (cases "resolve_module ix n")
    case (Some m)
    with assms(1,3) n have "rank m < rank key" by (fastforce simp: ranked_def)
    with g Some show ?thesis by fastforce
  qed simp
qed

lemma visit_deps_first:
  assumes "finite (modules ix)" and "ranked ix rank"
  shows "visit ix names dn = Some (ks, d) \<Longrightarrow> grey \<subseteq> set dn \<Longrightarrow> below ix rank names grey \<Longrightarrow>
    deps_first ix (set dn - grey) ks \<and> covered ix (set ks \<union> (set dn - grey)) names"
  using assms(1)
proof (induction names dn arbitrary: ks d grey rule: visit_induct)
  case (Nil dn)
  then show ?case by (simp add: covered_def)
next
  case (skip name rest dn)
  have "below ix rank rest grey" using skip.prems(3) by (simp add: below_def)
  then have "deps_first ix (set dn - grey) ks \<and> covered ix (set ks \<union> (set dn - grey)) rest"
    using skip.IH skip.prems(1,2) visit_skip [OF skip.hyps] by simp
  moreover have "key \<in> set dn - grey" if "resolve_module ix name = Some key" for key
    using that skip.hyps skip.prems(3) by (auto simp: below_def)
  ultimately show ?case by (auto simp: covered_def split: option.split)
next
  case (key name rest dn k)
  obtain a d1 where a: "visit ix (prereqs ix k) (k # dn) = Some (a, d1)"
    "set d1 = set a \<union> set (k # dn)" "set a \<inter> set (k # dn) = {}"
    using load_names_visit [OF assms(1), of "prereqs ix k" "k # dn"] by blast
  obtain b d2 where b: "visit ix rest d1 = Some (b, d2)"
    using load_names_visit [OF assms(1), of rest d1] by blast
  have ks: "ks = a @ [k] @ b"
    using visit_key [OF key.hyps(1,2) a(1) b] key.prems(1) by simp
  let ?D = "set dn - grey"
  have "below ix rank (prereqs ix k) (insert k grey)"
    using below_prereqs [OF assms(2) key.hyps(1,3)] key.prems(3) by simp
  moreover have "insert k grey \<subseteq> set (k # dn)" using key.prems(2) by auto
  moreover have D: "set (k # dn) - insert k grey = ?D" using key.hyps(2) by auto
  ultimately have iha: "deps_first ix ?D a \<and> covered ix (set a \<union> ?D) (prereqs ix k)"
    using key.IH(1) [OF a(1), of "insert k grey"] by simp
  have "set (k # dn) \<subseteq> set d1" "grey \<subseteq> set d1" "below ix rank rest grey"
    using key.prems(2,3) a(2) by (auto simp: below_def)
  then have ihb: "deps_first ix (set d1 - grey) b \<and> covered ix (set b \<union> (set d1 - grey)) rest"
    using key.IH(2) b by blast
  have D1: "set d1 - grey = insert k (?D \<union> set a)"
    using a(2,3) key.hyps(2) key.prems(2) by auto
  have "ready ix (?D \<union> set a) k"
    using iha unfolding Un_commute [of ?D] covered_def ready_def by blast
  then have "deps_first ix ?D ks"
    using iha ihb unfolding ks D1 by (simp add: deps_first_append)
  moreover have "covered ix (set ks \<union> ?D) (name # rest)"
    using ihb key.hyps(1) unfolding D1 ks
    by (auto simp: covered_def split: option.splits)
  ultimately show ?case by blast
qed

section \<open>Counting\<close>

lemma install_counts:
  "run_state (install l ix k s) h = (t, h') \<Longrightarrow>
   p_loaded t + length (p_errs t) = Suc (p_loaded s + length (p_errs s)) \<and> p_loaded s \<le> p_loaded t"
  by (auto simp: install_def add_err_def split: sum.splits option.splits if_splits prod.splits)

lemma install_all_counts:
  "run_state (install_all l ix ks s) h = (t, h') \<Longrightarrow>
   p_loaded t + length (p_errs t) = length ks + p_loaded s + length (p_errs s) \<and> p_loaded s \<le> p_loaded t"
proof (induction ks arbitrary: s h)
  case (Cons k ks)
  obtain u h1 where u: "run_state (install l ix k s) h = (u, h1)" by fastforce
  with Cons.prems have "run_state (install_all l ix ks u) h1 = (t, h')" by simp
  from Cons.IH [OF this] install_counts [OF u] show ?case by auto
qed simp

section \<open>Every tree is loaded in finite time\<close>

lemma finite_parse_deps: "finite {k. parse_deps data k \<noteq> None}"
proof -
  have "finite {k. m k \<noteq> None} \<Longrightarrow> finite {k. dep_lines ls m k \<noteq> None}" for ls m
  proof (induction ls m rule: dep_lines.induct)
    case (2 l ls m)
    show ?case
    proof (cases "dep_line l")
      case (Some p)
      obtain k i where p: "p = (k, i)" by fastforce
      have "{x. (m(k := Some i)) x \<noteq> None} \<subseteq> insert k {x. m x \<noteq> None}" by auto
      with 2 have "finite {x. (m(k := Some i)) x \<noteq> None}" by (meson finite_insert finite_subset)
      with "2.IH" Some p show ?thesis by (simp only: dep_lines.simps option.case prod.case)
    qed (use 2 in simp)
  qed simp
  then show ?thesis by (simp add: parse_deps_def)
qed

lemma new_resolver_finite:
  "run_state (new_resolver l base) h = (Inr (Some ix), h') \<Longrightarrow> finite (modules ix)"
  using finite_parse_deps
  by (auto simp: new_resolver_def read_deps_def modules_def
      split: sum.splits option.splits if_splits prod.splits)

lemma load_names_returns:
  assumes "finite (modules ix)"
  shows "\<exists>r. load_names l ix names s h = Some r"
proof -
  obtain ks d where "follows l ix names s h ks d"
    using load_names_visit [OF assms, of names "p_done s"] by blast
  then show ?thesis by (simp add: follows_def split: prod.splits)
qed

lemma load_devices_returns:
  assumes "finite (modules ix)"
  shows "\<exists>r. load_devices n l ix devices seen s h = Some r"
proof (induction n arbitrary: seen s h)
  case (Suc n)
  obtain mods e h1 where d: "run_state devices h = ((mods, e), h1)" by (metis surj_pair)
  obtain r where "load_names l ix (match_devices (ix_device ix) mods) s h1 = Some r"
    using load_names_returns [OF assms] by blast
  with d Suc show ?case by (auto split: option.split)
qed simp

section \<open>Drivers for devices\<close>

lemma match_modalias_set:
  "set (match_modalias es m out) = set out \<union> {a_module e | e. e \<in> set es \<and> path_match (a_pattern e) m}"
  by (induction es m out rule: match_modalias.induct) auto

lemma match_modalias_distinct: "distinct out \<Longrightarrow> distinct (match_modalias es m out)"
  by (induction es m out rule: match_modalias.induct) auto

lemma match_from_set:
  "set (match_from es ms out) = set out \<union>
     {a_module e | e. e \<in> set es \<and> (\<exists>m\<in>set ms. path_match (a_pattern e) m)}"
  by (induction es ms out rule: match_from.induct) (auto simp: match_modalias_set)

lemma match_from_distinct: "distinct out \<Longrightarrow> distinct (match_from es ms out)"
  by (induction es ms out rule: match_from.induct) (auto simp: match_modalias_distinct)

section \<open>The loader of the init process\<close>

definition sys_loader :: "kernel \<Rightarrow> (bytes \<Rightarrow> err + bytes) \<Rightarrow> loader" where
  "sys_loader K gunzip =
     \<lparr>ld_read = sys_read_file K, ld_init = sys_init_module K, ld_gunzip = gunzip\<rparr>"

text \<open>Enumerating the devices is the one operation that walks the device tree.\<close>

definition walks :: "history \<Rightarrow> nat" where
  "walks h = length (filter (\<lambda>c. c = WalkModalias) h)"

lemma walks_append [simp]: "walks (h @ h') = walks h + walks h'"
  by (simp add: walks_def)

lemma walks_none: "list_all (\<lambda>c. c \<noteq> WalkModalias) cs \<Longrightarrow> walks cs = 0"
  by (simp add: walks_def list_all_iff filter_empty_conv)

abbreviation stays :: "'a io \<Rightarrow> bool" where "stays m \<equiv> emits (\<lambda>c. c \<noteq> WalkModalias) m"

lemma stays_walks: "stays m \<Longrightarrow> run_state m h = (r, h') \<Longrightarrow> walks h' = walks h"
  by (erule emitsE [where h = h]) (auto dest!: walks_none)

locale module_source =
  fixes l :: loader and devices :: "(string list \<times> err option) io"
  assumes read_stays: "stays (ld_read l p)"
    and init_stays: "stays (ld_init l img params)"
    and devices_walk: "run_state devices h = (r, h') \<Longrightarrow> walks h' = Suc (walks h)"
begin

lemma install_stays: "stays (install l ix k s)"
  unfolding install_def by (intro emits_intros read_stays init_stays)

lemma install_all_stays: "stays (install_all l ix ks s)"
  by (induction ks arbitrary: s) (auto intro!: emits_intros install_stays)

lemma load_names_walks:
  assumes "finite (modules ix)" and "load_names l ix names s h = Some (t, h')"
  shows "walks h' = walks h"
proof -
  obtain ks d where "follows l ix names s h ks d"
    using load_names_visit [OF assms(1), of names "p_done s"] by blast
  with assms(2) show ?thesis
    using stays_walks [OF install_all_stays] by (auto simp: follows_def split: prod.splits)
qed

text \<open>A round that loads nothing is the last, and there are never more than \<open>n\<close>.\<close>

lemma load_devices_walks:
  assumes "finite (modules ix)"
  shows "load_devices n l ix devices seen s h = Some (r, h') \<Longrightarrow> walks h' \<le> walks h + n"
proof (induction n arbitrary: seen s h)
  case (Suc n)
  obtain mods e h1 where d: "run_state devices h = ((mods, e), h1)" by (metis surj_pair)
  note w = devices_walk [OF d]
  show ?case
  proof (cases "mods = [] \<and> e \<noteq> None")
    case True
    with Suc.prems d w show ?thesis by auto
  next
    case False
    obtain t h2 where t: "load_names l ix (match_devices (ix_device ix) mods) s h1 = Some (t, h2)"
      using load_names_returns [OF assms, of l] by (metis surj_pair)
    have w2: "walks h2 = walks h1" by (rule load_names_walks [OF assms t])
    from Suc.prems d False t consider "h' = h2" | "load_devices n l ix devices (length mods) t h2 = Some (r, h')"
      by (auto split: option.splits if_splits)
    then show ?thesis using Suc.IH w w2 by cases fastforce+
  qed
qed simp

end

interpretation sysl: module_source "sys_loader K gunzip" "sys_modaliases K" for K gunzip
proof
  show "stays (ld_read (sys_loader K gunzip) p)" for p
    by (auto simp: sys_loader_def sys_read_file_def intro!: emits_intros)
  show "stays (ld_init (sys_loader K gunzip) img params)" for img params
    by (auto simp: sys_loader_def sys_init_module_def intro!: emits_intros)
  show "walks h' = Suc (walks h)" if "run_state (sys_modaliases K) h = (r, h')" for h r h'
  proof -
    obtain files e where f: "answer_walk K h WalkModalias = (files, e)" by fastforce
    have "stays (read_modaliases K files [])" by (rule emits_read_modaliases) simp
    from stays_walks [OF this, of "h @ [WalkModalias]"] that f show ?thesis
      by (auto simp: sys_modaliases_def walks_def split: prod.splits)
  qed
qed

lemma new_resolver_walks:
  "run_state (new_resolver (sys_loader K gunzip) base) h = (r, h') \<Longrightarrow> walks h' = walks h"
proof (rule stays_walks)
  show "stays (new_resolver (sys_loader K gunzip) base)"
    unfolding new_resolver_def read_deps_def read_aliases_def read_softdeps_def
    by (intro emits_intros sysl.read_stays)
qed

section \<open>An example tree\<close>

text \<open>Two modules that need each other, one of them by a soft dependency on an alias.\<close>

definition cyclic_tree :: mod_index where
  "cyclic_tree =
     \<lparr>ix_base = ''/lib/modules/6.6'',
      ix_deps = [''ext4'' \<mapsto> \<lparr>m_path = ''ext4.ko'', m_deps = [''crc32c'']\<rparr>,
                 ''crc32c_generic'' \<mapsto> \<lparr>m_path = ''crc.ko'', m_deps = [''ext4'']\<rparr>],
      ix_soft = (\<lambda>_. []), ix_alias = [''crc32c'' \<mapsto> ''crc32c_generic''], ix_device = []\<rparr>"

definition plain_tree :: mod_index where
  "plain_tree = cyclic_tree\<lparr>ix_deps :=
     [''ext4'' \<mapsto> \<lparr>m_path = ''ext4.ko'', m_deps = [''crc32c'']\<rparr>,
      ''crc32c_generic'' \<mapsto> \<lparr>m_path = ''crc.ko'', m_deps = []\<rparr>]\<rparr>"

lemma cyclic_tree_modules: "modules cyclic_tree = {''ext4'', ''crc32c_generic''}"
  by (auto simp: modules_def cyclic_tree_def split: if_splits)

lemma plain_tree_modules: "modules plain_tree = {''ext4'', ''crc32c_generic''}"
  by (auto simp: modules_def plain_tree_def cyclic_tree_def split: if_splits)

lemma plain_tree_ranked: "ranked plain_tree (\<lambda>k. if k = ''ext4'' then 1 else 0)"
  unfolding ranked_def plain_tree_modules
  by (simp add: prereqs_def resolve_module_def Let_def plain_tree_def cyclic_tree_def)

section \<open>Properties\<close>

text \<open>
  What is loaded, and in which order, is decided by the index files alone: there is one list
  of modules, without repetition and all of them in \<^verbatim>\<open>modules.dep\<close>, and for every kernel the
  effect of loading is that of handing over these modules one after the other. A module that
  fails stops none of the others, and each is counted once, as loaded or as an error.
\<close>

theorem load_order_fixed_by_index:
  assumes "finite (modules ix)"
  shows "\<exists>ks d. distinct ks \<and> set ks \<subseteq> modules ix \<and>
    (\<forall>l h. \<exists>t h'. run_state (install_all l ix ks start) h = (t, h') \<and>
       load_names l ix names start h = Some (t\<lparr>p_done := d\<rparr>, h') \<and>
       p_loaded t + length (p_errs t) = length ks)"
proof -
  obtain ks d where v: "visit ix names [] = Some (ks, d)" "distinct ks" "set ks \<subseteq> modules ix"
    using load_names_visit [OF assms, of names "[]"] by blast
  have "\<exists>t h'. run_state (install_all l ix ks start) h = (t, h') \<and>
       load_names l ix names start h = Some (t\<lparr>p_done := d\<rparr>, h') \<and>
       p_loaded t + length (p_errs t) = length ks" for l h
  proof -
    obtain ks' d' where v': "visit ix names [] = Some (ks', d')"
      and f: "\<forall>s h. p_done s = [] \<longrightarrow> follows l ix names s h ks' d'"
      using load_names_visit [OF assms, of names "[]" l] by blast
    from v(1) v' f have "follows l ix names start h ks d" by (simp add: start_def)
    moreover obtain t h' where t: "run_state (install_all l ix ks start) h = (t, h')" by fastforce
    ultimately show ?thesis using install_all_counts [OF t] by (simp add: follows_def start_def)
  qed
  with v(2,3) show ?thesis by blast
qed

theorem load_order_fixed_by_index_witness:
  "\<exists>ks d. distinct ks \<and> set ks \<subseteq> modules cyclic_tree \<and>
    (\<forall>l h. \<exists>t h'. run_state (install_all l cyclic_tree ks start) h = (t, h') \<and>
       load_names l cyclic_tree [''ext4''] start h = Some (t\<lparr>p_done := d\<rparr>, h') \<and>
       p_loaded t + length (p_errs t) = length ks)"
  by (rule load_order_fixed_by_index) (simp add: cyclic_tree_modules)

text \<open>
  C6. In a tree without cycles every module is handed to the kernel after everything it
  depends on, hard or soft, through aliases or not, and every requested module is.
\<close>

theorem dependencies_are_loaded_first:
  assumes "finite (modules ix)" and "ranked ix rank"
  shows "\<exists>ks d. deps_first ix {} ks \<and> covered ix (set ks) names \<and>
    (\<forall>l h. load_names l ix names start h =
       (case run_state (install_all l ix ks start) h of (t, h') \<Rightarrow> Some (t\<lparr>p_done := d\<rparr>, h')))"
proof -
  obtain ks d where v: "visit ix names [] = Some (ks, d)"
    using load_names_visit [OF assms(1), of names "[]"] by blast
  have "deps_first ix {} ks \<and> covered ix (set ks) names"
    using visit_deps_first [OF assms v, of "{}"] by (auto simp: below_def split: option.split)
  moreover have "follows l ix names start h ks d" for l h
  proof -
    obtain ks' d' where v': "visit ix names [] = Some (ks', d')"
      and f: "\<forall>s h. p_done s = [] \<longrightarrow> follows l ix names s h ks' d'"
      using load_names_visit [OF assms(1), of names "[]" l] by blast
    from v v' f show ?thesis by (simp add: start_def)
  qed
  ultimately show ?thesis unfolding follows_def by blast
qed

theorem dependencies_are_loaded_first_witness:
  "\<exists>ks d. deps_first plain_tree {} ks \<and> covered plain_tree (set ks) [''ext4''] \<and>
    (\<forall>l h. load_names l plain_tree [''ext4''] start h =
       (case run_state (install_all l plain_tree ks start) h of (t, h') \<Rightarrow> Some (t\<lparr>p_done := d\<rparr>, h')))"
  by (rule dependencies_are_loaded_first [OF _ plain_tree_ranked]) (simp add: plain_tree_modules)

lemma load_all_returns:
  "\<exists>res h'. load_all (sys_loader K gunzip) base names (sys_modaliases K) h = Some (res, h') \<and>
     walks h' \<le> walks h + 8"
proof -
  let ?l = "sys_loader K gunzip"
  obtain r h1 where n: "run_state (new_resolver ?l base) h = (r, h1)" by fastforce
  note w1 = new_resolver_walks [OF n]
  show ?thesis
  proof (cases "\<exists>ix. r = Inr (Some ix)")
    case False
    then show ?thesis
      using n w1 by (cases r) (auto simp: load_all_def split: option.split)
  next
    case True
    then obtain ix where ix: "r = Inr (Some ix)" by blast
    have fin: "finite (modules ix)" using new_resolver_finite n ix by blast
    obtain s h2 where s: "load_names ?l ix names start h1 = Some (s, h2)"
      using load_names_returns [OF fin, of ?l] by (metis surj_pair)
    obtain u seen h3 where u: "load_devices max_device_rounds ?l ix (sys_modaliases K) 0 s h2 = Some ((u, seen), h3)"
      using load_devices_returns [OF fin, of max_device_rounds ?l] by (metis surj_pair)
    from sysl.load_names_walks [OF fin s] sysl.load_devices_walks [OF fin u] w1
    have "walks h3 \<le> walks h + 8" by (simp add: max_device_rounds_def)
    with n ix s u show ?thesis by (simp add: load_all_def)
  qed
qed

text \<open>
  C38. Loading returns on every module tree, with cyclic dependencies too, and discovery asks
  for the devices at most eight times, however the kernel answers.
\<close>

theorem load_all_terminates:
  "\<exists>res h'. load_all (sys_loader K gunzip) base names (sys_modaliases K) h = Some (res, h') \<and>
     walks h' \<le> walks h + 8"
  by (rule load_all_returns)

text \<open>
  Device matching is exact: the modules chosen for a set of devices are those of the
  alias entries that match one of them, each once.
\<close>

theorem match_devices_exact:
  "distinct (match_devices es ms) \<and>
   set (match_devices es ms) = {a_module e | e. e \<in> set es \<and> (\<exists>m\<in>set ms. path_match (a_pattern e) m)}"
  by (simp add: match_devices_def match_from_set match_from_distinct)

definition usb_tree :: mod_index where
  "usb_tree = plain_tree\<lparr>ix_deps := parse_deps (to_bytes ''usb/xhci-pci.ko:''),
     ix_device := [\<lparr>a_pattern = ''pci:v*'', a_module = ''xhci_pci''\<rparr>]\<rparr>"

lemma usb_line: "dep_line ''usb/xhci-pci.ko:'' = Some (''xhci-pci'', \<lparr>m_path = ''usb/xhci-pci.ko'', m_deps = []\<rparr>)"
proof -
  have trim: "trim_space ''usb/xhci-pci.ko:'' = ''usb/xhci-pci.ko:''"
    by (simp add: trim_space_def trim_left_def trim_right_def is_space_def)
  have "path_base ''usb/xhci-pci.ko'' = ''xhci-pci.ko''"
    by (simp add: path_base_def trim_right_def Let_def)
  then have "name_of ''usb/xhci-pci.ko'' = ''xhci-pci''"
    by (simp add: name_of_def trim_suffix_def has_suffix_def)
  then show ?thesis by (simp add: dep_line_def trim str_fields_def)
qed

lemma usb_deps: "ix_deps usb_tree = [''xhci-pci'' \<mapsto> \<lparr>m_path = ''usb/xhci-pci.ko'', m_deps = []\<rparr>]"
proof -
  have "lines ''usb/xhci-pci.ko:'' = [''usb/xhci-pci.ko:'']" by (simp add: lines_def char_of_def)
  then show ?thesis
    by (simp add: usb_tree_def parse_deps_def usb_line)
qed

text \<open>
  A driver whose file name has a dash is never loaded for its device: \<^verbatim>\<open>modules.alias\<close> names
  modules with underscores, the index is keyed by the file's name as it is, and the name that was
  matched resolves to nothing, without an error.
\<close>

theorem dashed_driver_is_never_loaded:
  "match_devices (ix_device usb_tree) [''pci:v00008086d00009D2F''] = [''xhci_pci''] \<and>
   load_names l usb_tree (match_devices (ix_device usb_tree) [''pci:v00008086d00009D2F'']) s h = Some (s, h) \<and>
   resolve_module usb_tree ''xhci-pci'' = Some ''xhci-pci''"
proof -
  have plain: "plain_pattern ''pci:v''" by (simp add: plain_pattern_def)
  have "path_match (''pci:v'' @ ''*'') (''pci:v'' @ ''00008086d00009D2F'')"
    by (subst path_match_prefix [OF plain]) simp
  then have "path_match ''pci:v*'' ''pci:v00008086d00009D2F''" by simp
  then have "match_devices (ix_device usb_tree) [''pci:v00008086d00009D2F''] = [''xhci_pci'']"
    by (simp add: match_devices_def usb_tree_def)
  moreover have "resolve_module usb_tree ''xhci_pci'' = None"
    using usb_deps by (simp add: resolve_module_def Let_def) (simp add: usb_tree_def plain_tree_def cyclic_tree_def)
  moreover have "resolve_module usb_tree ''xhci-pci'' = Some ''xhci-pci''"
    using usb_deps by (simp add: resolve_module_def Let_def)
  ultimately show ?thesis by (simp add: load_names.simps [of l usb_tree "[''xhci_pci'']"])
qed

end
