(* ===== verification/Node_Setup.thy ===== *)
theory Node_Setup
  imports Root_Device Dhcp_Client Net_Config Iso_Reader Module_Loader
begin

text \<open>
  The stages of the boot that may fail without ending it, from \<^verbatim>\<open>cmd/k0smos/init_linux.go\<close>:
  \<^verbatim>\<open>loadModules\<close>, \<^verbatim>\<open>configureDHCP\<close>, \<^verbatim>\<open>loadMetadata\<close> with \<^verbatim>\<open>openMetadata\<close>, and \<^verbatim>\<open>applyMachineConfig\<close>. The
  exchanges that need not come to an end, and the reader that may panic, are functions of the
  world whose value is \<^term>\<open>None\<close> then; \<open>lift_run\<close> and \<open>lift_opt\<close> lift such programs.
\<close>

definition lift_run :: "(history \<Rightarrow> ('a \<times> history) option) \<Rightarrow> world \<Rightarrow> ('a \<times> world) option" where
  "lift_run f w = map_option (\<lambda>(x, h). (x, w\<lparr>w_hist := h\<rparr>)) (f (w_hist w))"

definition lift_opt :: "'a option node \<Rightarrow> world \<Rightarrow> ('a \<times> world) option" where
  "lift_opt m w = (case run_state m w of (Some x, w') \<Rightarrow> Some (x, w') | (None, w') \<Rightarrow> None)"

section \<open>Kernel modules\<close>

definition modules_root :: string where "modules_root = ''/lib/modules''"

text \<open>\<^verbatim>\<open>errors.Join\<close>: nil for no error, and otherwise the texts line by line.\<close>

definition join_errors :: "err list \<Rightarrow> err option" where
  "join_errors errs =
     (if errs = [] then None else Some (msg (join [char_of (10 :: nat)] (map err_text errs))))"

definition module_names :: "config \<Rightarrow> string list" where
  "module_names cfg = (case Modules cfg of None \<Rightarrow> default_modules | Some ms \<Rightarrow> ms)"

text \<open>What is recorded after the loading, by whether there was a module tree.\<close>

definition report_modules :: "platform \<Rightarrow> string \<Rightarrow> load_result \<Rightarrow> err list \<Rightarrow> unit node" where
  "report_modules P release res errs = do {
     _ \<leftarrow> (if errs = [] then pass () else log_step P ''modules'' (join_errors errs) []);
     (if tree_found res
      then log_step P ''modules'' None
             (dec (n_loaded res) @ '' loaded, '' @ dec (n_autoloaded res) @ '' autoloaded for '' @
              dec (n_devices res) @ '' devices ('' @ release @ '')'')
      else do {
        entries \<leftarrow> act (do_names (pf_kernel P) (ReadDir modules_root));
        (case entries of
           Inr (e # es) \<Rightarrow>
             log_step P ''modules'' (Some (Errorf ''kernel %s has no module tree; found %v''
                [release, ''['' @ join '' '' (e # es) @ '']''] None)) []
         | _ \<Rightarrow> log_step P ''modules'' None ''none needed; monolithic kernel'') })
   }"

definition load_modules :: "platform \<Rightarrow> config \<Rightarrow> world \<Rightarrow> (err option \<times> world) option" where
  "load_modules P cfg w =
     (let K = pf_kernel P; names = module_names cfg in
      if names = []
      then Some (None, snd (run_state (log_step P ''modules'' None ''disabled by k0smos.modules=none'') w))
      else (case run_state (act (sys_release K)) w of
              (Inl e, w1) \<Rightarrow> Some (Some (wrap ''uname: %w'' [] e), w1)
            | (Inr release, w1) \<Rightarrow> do {
                r \<leftarrow> lift_run (load_all (sys_loader K (gunzip (pf_decoders P))) (''/lib/modules/'' @ release) names (sys_modaliases K)) w1;
                (case r of ((res, errs), w2) \<Rightarrow>
                   Some (None, snd (run_state (report_modules P release res errs) w2))) }))"

section \<open>Leases\<close>

definition gateway_of :: "lease \<Rightarrow> string" where
  "gateway_of l = (case l_router l of None \<Rightarrow> [] | Some r \<Rightarrow> ip_string r)"

definition apply_lease :: "platform \<Rightarrow> string \<Rightarrow> lease \<Rightarrow> err option node" where
  "apply_lease P iface l = do {
     r \<leftarrow> act (configure (sys_configurer (pf_kernel P)) iface (lease_cidr l) (gateway_of l));
     (case r of
        Some e \<Rightarrow> pass (Some e)
      | None \<Rightarrow> do {
          _ \<leftarrow> log_step P ''network'' None (iface @ '' dhcp '' @ lease_cidr l @ '' gw '' @ gateway_of l);
          pass None })
   }"

definition first_dns :: "lease \<Rightarrow> string" where
  "first_dns l = (case l_dns l of [] \<Rightarrow> [] | d # _ \<Rightarrow> ip_string d)"

text \<open>
  The result is the resolver of the lease, and the lease with its socket, which the renewal
  goroutine goes on with.
\<close>

definition configure_dhcp ::
  "platform \<Rightarrow> config \<Rightarrow> string \<Rightarrow> world \<Rightarrow> ((err + string \<times> int \<times> lease) \<times> world) option"
where
  "configure_dhcp P cfg iface w =
     (let K = pf_kernel P in
      case run_state (act (sys_link_up K iface)) w of
        (Some e, w1) \<Rightarrow> Some (Inl (wrap ''link up: %w'' [] e), w1)
      | (None, w1) \<Rightarrow>
          (case run_state (act (sys_interface_mac K iface)) w1 of
             (Inl e, w2) \<Rightarrow> Some (Inl (wrap ''read MAC: %w'' [] e), w2)
           | (Inr mac, w2) \<Rightarrow>
               (case run_state (act (sys_dhcp_conn K iface)) w2 of
                  (Inl e, w3) \<Rightarrow> Some (Inl (wrap ''open socket: %w'' [] e), w3)
                | (Inr fd, w3) \<Rightarrow> do {
                    r \<leftarrow> lift_run (acquire K (pf_context P) (sys_client K fd mac (Hostname cfg))) w3;
                    (case r of
                       (Inl e, w4) \<Rightarrow> Some (Inl e, snd (run_state (act (do_unit K (CloseFd fd))) w4))
                     | (Inr l, w4) \<Rightarrow>
                         (case run_state (apply_lease P iface l) w4 of
                            (Some e, w5) \<Rightarrow> Some (Inl e, snd (run_state (act (do_unit K (CloseFd fd))) w5))
                          | (None, w5) \<Rightarrow> Some (Inr (first_dns l, fd, l), w5))) })))"

section \<open>Metadata\<close>

definition metadata_mount :: string where "metadata_mount = ''/run/k0smos/metadata''"

fun find_drive :: "kernel \<Rightarrow> string list \<Rightarrow> (string \<times> string) option io" where
  "find_drive K [] = give None"
| "find_drive K (l # ls) = do {
     r \<leftarrow> resolve (sys_prober K) (''LABEL='' @ l);
     (case r of Inr d \<Rightarrow> give (Some (d, l)) | Inl _ \<Rightarrow> find_drive K ls)
   }"

fun mount_drive :: "platform \<Rightarrow> string \<Rightarrow> string \<Rightarrow> string list \<Rightarrow> bool node" where
  "mount_drive P dev label [] = pass False"
| "mount_drive P dev label (ty # tys) = do {
     r \<leftarrow> act (sys_mount (pf_kernel P) dev metadata_mount ty ms_read_only []);
     (case r of
        None \<Rightarrow> do {
          _ \<leftarrow> log_step P ''metadata'' None (dev @ '' ('' @ ty @ '', LABEL='' @ label @ '')'');
          pass True }
      | Some _ \<Rightarrow> mount_drive P dev label tys)
   }"

text \<open>The files of the drive, and whether it has to be unmounted afterwards.\<close>

definition open_metadata :: "platform \<Rightarrow> string \<Rightarrow> string \<Rightarrow> (err + drive \<times> bool) node" where
  "open_metadata P dev label = do {
     let K = pf_kernel P;
     let name = trim_prefix dev ''/dev/'';
     i \<leftarrow> act (identify (sys_prober K) name);
     (if map_option fs_type i = Some ''iso9660'' then do {
        let ra = on_device (sys_prober K) name;
        r \<leftarrow> act (iso_open ra);
        pass (case r of Inl e \<Rightarrow> Inl e | Inr rd \<Rightarrow> Inr (read_file ra rd, False)) }
      else do {
        m \<leftarrow> act (sys_mkdir K metadata_mount perm_0755);
        (case m of
           Some e \<Rightarrow> pass (Inl (wrap ''mkdir %s: %w'' [metadata_mount] e))
         | None \<Rightarrow> do {
             ok \<leftarrow> mount_drive P dev label [''vfat'', ''ext4''];
             pass (if ok then Inr (dir_drive K metadata_mount, True)
                   else Inl (msg ''no filesystem could be read or mounted'')) }) })
   }"

definition nothing_loaded :: "user_data \<times> meta_data" where
  "nothing_loaded = (no_user_data, no_meta_data)"

text \<open>Reading and applying what an opened drive says.\<close>

definition use_drive :: "platform \<Rightarrow> drive \<Rightarrow> (user_data \<times> meta_data) option io" where
  "use_drive P files = do {
     let K = pf_kernel P;
     r \<leftarrow> load_metadata_from (pf_decoders P) files;
     (case r of
        None \<Rightarrow> give None
      | Some (ud, md, Some e) \<Rightarrow> give (Some nothing_loaded)
      | Some (ud, md, None) \<Rightarrow>
          (if ud_write_files ud = [] then give (Some (ud, md))
           else do {
             _ \<leftarrow> apply_files (sys_mkdir K) (sys_write_file K) (ud_write_files ud);
             give (Some (ud, md)) }))
   }"

definition load_metadata :: "platform \<Rightarrow> (user_data \<times> meta_data) option node" where
  "load_metadata P = do {
     let K = pf_kernel P;
     d \<leftarrow> act (find_drive K drive_labels);
     (case d of
        None \<Rightarrow> pass (Some nothing_loaded)
      | Some (dev, label) \<Rightarrow> do {
          f \<leftarrow> open_metadata P dev label;
          (case f of
             Inl _ \<Rightarrow> pass (Some nothing_loaded)
           | Inr (files, mounted) \<Rightarrow> do {
               r \<leftarrow> act (use_drive P files);
               _ \<leftarrow> (if mounted then do { _ \<leftarrow> act (sys_unmount K metadata_mount 0); pass () } else pass ());
               pass r })
        })
   }"

text \<open>What the drive says of the machine wins over the command line, field by field.\<close>

definition apply_machine_config :: "machine_config \<Rightarrow> config \<Rightarrow> config" where
  "apply_machine_config m cfg =
     (let c1 = (if mc_ip m \<noteq> [] then cfg\<lparr>IP := mc_ip m\<rparr> else cfg);
          c2 = (if mc_iface m \<noteq> [] then c1\<lparr>Iface := mc_iface m\<rparr> else c1);
          c3 = (if mc_gateway m \<noteq> [] then c2\<lparr>Gateway := mc_gateway m\<rparr> else c2)
      in if mc_dns m \<noteq> [] then c3\<lparr>DNS := mc_dns m\<rparr> else c3)"

lemma wf_apply_machine_config: "wf_config cfg \<Longrightarrow> wf_config (apply_machine_config m cfg)"
  by (simp add: apply_machine_config_def wf_config_def Let_def)

lemma apply_machine_config_sel [simp]:
  "Exec (apply_machine_config m cfg) = Exec cfg" "Hostname (apply_machine_config m cfg) = Hostname cfg"
  by (simp_all add: apply_machine_config_def Let_def)

section \<open>Properties\<close>

text \<open>
  Malformed instance metadata costs the machine its user-data: the loader returns the parsed
  user-data beside the error, and the boot throws both away, so that no file is written, no
  command interpreted and no address taken from a drive whose user-data are in order.
\<close>

theorem malformed_meta_data_loses_user_data:
  assumes "parse_user_data (pf_decoders P) (content ''user-data'') = (ud, None)"
    and "parse_meta_data (pf_decoders P) (content ''meta-data'') = Inl e"
  shows "fst (run_state (load_metadata_from (pf_decoders P) (\<lambda>n. give (Some (Inr (content n))))) h) = Some (ud, no_meta_data, Some e) \<and>
    run_state (use_drive P (\<lambda>n. give (Some (Inr (content n))))) h = (Some (no_user_data, no_meta_data), h)"
  using assms
  by (simp add: use_drive_def load_metadata_from_def user_data_paths_def meta_data_paths_def nothing_loaded_def Let_def)

definition one_file_decoders :: decoders where
  "one_file_decoders =
     \<lparr>yaml_config = (\<lambda>_. Inr \<lparr>cc_write_files = [\<lparr>rf_path = ''/etc/k0s.yaml'', rf_content = ''spec'', rf_encoding = [], rf_permissions = []\<rparr>],
        cc_runcmd = [], cc_k0smos = no_machine\<rparr>),
      yaml_meta = (\<lambda>_. Inl (msg ''yaml'')), gunzip = (\<lambda>_. Inl (msg ''gzip''))\<rparr>"

theorem malformed_meta_data_loses_user_data_witness:
  "\<exists>ud e. ud_write_files ud \<noteq> [] \<and>
     run_state (use_drive ((plain_platform quiet_kernel)\<lparr>pf_decoders := one_file_decoders\<rparr>)
       (\<lambda>n. give (Some (Inr (to_bytes ''#cloud-config''))))) [] = (Some (no_user_data, no_meta_data), []) \<and>
     fst (run_state (load_metadata_from one_file_decoders (\<lambda>n. give (Some (Inr (to_bytes ''#cloud-config''))))) []) = Some (ud, no_meta_data, Some e)"
proof -
  let ?P = "(plain_platform quiet_kernel)\<lparr>pf_decoders := one_file_decoders\<rparr>"
  let ?b = "to_bytes ''#cloud-config''"
  have trim: "trim_space ''#cloud-config'' = ''#cloud-config''"
    by (simp add: trim_space_def trim_left_def trim_right_def is_space_def)
  have enc: "to_lower (trim_space []) = []" by (simp add: to_lower_def)
  obtain ud where ud: "parse_user_data one_file_decoders ?b = (ud, None)" "ud_write_files ud \<noteq> []"
    by (simp add: parse_user_data_def trim has_prefix_def one_file_decoders_def decode_content_def enc del: trim_space_Nil)
  have md: "parse_meta_data one_file_decoders ?b = Inl (wrap ''parse meta-data: %w'' [] (msg ''yaml''))"
    by (simp add: parse_meta_data_def trim one_file_decoders_def)
  have P: "pf_decoders ?P = one_file_decoders" by simp
  from malformed_meta_data_loses_user_data [of ?P "\<lambda>_. ?b" ud _ "[]"] ud md P show ?thesis by auto
qed

end
