(* ===== verification/Control.thy ===== *)
theory Control
  imports Sys_Calls
begin

text \<open>
  \<^verbatim>\<open>internal/control/control.go\<close>: the host's channel into the guest. A connection is the text the
  port yields until its end, and the bytes written back to it. The goroutines hand events
  over in order on unbuffered channels, so a connection is the list of its events; whether
  the receiver still takes a power command, or the context is cancelled first, is the
  parameter \<open>taken\<close>. The answers to data requests are a program, \<open>responder\<close>.
\<close>

section \<open>Commands and requests\<close>

datatype command = PowerOff | RebootMachine

fun command_string :: "command \<Rightarrow> string" where
  "command_string PowerOff = ''poweroff''"
| "command_string RebootMachine = ''reboot''"

definition parse_command :: "string \<Rightarrow> command option" where
  "parse_command line =
     (let w = to_lower (trim_space line) in
      if w = ''poweroff'' then Some PowerOff
      else if w = ''reboot'' \<or> w = ''restart'' then Some RebootMachine
      else None)"

definition requests :: "string list" where
  "requests = [''kubeconfig'', ''token'', ''status'', ''cat'', ''dmesg'']"

definition is_request :: "string \<Rightarrow> bool" where
  "is_request line = (fst (cut (CHR '' '') line) \<in> set requests)"

definition reply_ok :: string where "reply_ok = ''k0smos-ok''"
definition reply_error :: string where "reply_error = ''k0smos-error''"
definition max_reply_bytes :: nat where "max_reply_bytes = 8 * 2 ^ 20"

datatype event = Power command | Ask string

abbreviation newline :: char where "newline \<equiv> char_of (10 :: nat)"

section \<open>The guest's side\<close>

definition line_event :: "string \<Rightarrow> event option" where
  "line_event text =
     (let line = to_lower (trim_space text) in
      if is_request line then Some (Ask line) else map_option Power (parse_command line))"

definition watch_events :: "string \<Rightarrow> event list" where
  "watch_events input = List.map_filter line_event (fst (scan_lines input))"

definition watch :: "string \<Rightarrow> command list" where
  "watch input = List.map_filter parse_command (fst (scan_lines input))"

type_synonym responder = "string \<Rightarrow> (err + bytes) io"

definition command_ack :: bytes where
  "command_ack = to_bytes (reply_ok @ '' 0'' @ [newline])"

definition one_line :: "string \<Rightarrow> string" where
  "one_line s = map (\<lambda>c. if c = newline then CHR '' '' else c) s"

definition serve_request :: "responder option \<Rightarrow> string \<Rightarrow> bytes io" where
  "serve_request respond req =
     (case respond of
        None \<Rightarrow> give (to_bytes (reply_error @ '' unsupported request '' @ quote req @ [newline]))
      | Some f \<Rightarrow> do {
          r \<leftarrow> f req;
          give (case r of
                  Inl e \<Rightarrow> to_bytes (reply_error @ '' '' @ one_line (err_text e) @ [newline])
                | Inr data \<Rightarrow>
                    to_bytes (reply_ok @ '' '' @ dec (length data) @ [newline]) @ data)
        })"

text \<open>What one connection leads to: whether anything was forwarded, what was written, what was taken.\<close>

record session =
  s_forwarded :: bool
  s_written :: "bytes list"
  s_commands :: "command list"

fun serve_events ::
  "(nat \<Rightarrow> bool) \<Rightarrow> responder option \<Rightarrow> event list \<Rightarrow> session \<Rightarrow> session io"
where
  "serve_events taken respond [] s = give s"
| "serve_events taken respond (Ask req # evs) s = do {
     reply \<leftarrow> serve_request respond req;
     serve_events taken respond evs
       (s\<lparr>s_written := s_written s @ [reply], s_forwarded := True\<rparr>)
   }"
| "serve_events taken respond (Power c # evs) s =
     (let s' = s\<lparr>s_written := s_written s @ [command_ack]\<rparr> in
      if taken (length (s_commands s))
      then serve_events taken respond evs (s'\<lparr>s_commands := s_commands s @ [c], s_forwarded := True\<rparr>)
      else give s')"

definition idle :: session where
  "idle = \<lparr>s_forwarded = False, s_written = [], s_commands = []\<rparr>"

text \<open>\<open>conn\<close> is \<^term>\<open>None\<close> when the port cannot be opened.\<close>

definition read_once :: "(nat \<Rightarrow> bool) \<Rightarrow> responder option \<Rightarrow> string option \<Rightarrow> session io" where
  "read_once taken respond conn =
     (case conn of
        None \<Rightarrow> give idle
      | Some input \<Rightarrow> serve_events taken respond (watch_events input) idle)"

text \<open>
  The loop over reopened ports, for as many connections as there are before the context is
  done: the sessions in order, and how often the loop paused before reopening.
\<close>

fun watch_reopen ::
  "(nat \<Rightarrow> bool) \<Rightarrow> responder option \<Rightarrow> string option list \<Rightarrow> (session list \<times> nat) io"
where
  "watch_reopen taken respond [] = give ([], 0)"
| "watch_reopen taken respond (conn # conns) = do {
     s \<leftarrow> read_once taken respond conn;
     rest \<leftarrow> watch_reopen taken respond conns;
     give (s # fst rest, (if s_forwarded s then 0 else 1) + snd rest)
   }"

section \<open>The host's side\<close>

text \<open>\<^verbatim>\<open>ReadString\<close>: up to and with the first newline, or nothing when there is none.\<close>

fun read_line :: "string \<Rightarrow> (string \<times> string) option" where
  "read_line [] = None"
| "read_line (c # s) =
     (if c = newline then Some ([c], s)
      else (case read_line s of None \<Rightarrow> None | Some (l, rest) \<Rightarrow> Some (c # l, rest)))"

definition line_end :: "char \<Rightarrow> bool" where
  "line_end c = (c = newline \<or> c = char_of (13 :: nat))"

definition parse_reply :: "bytes \<Rightarrow> err + bytes" where
  "parse_reply stream =
     (case read_line (to_text stream) of
        None \<Rightarrow> Inl (wrap ''read reply: %w'' [] (msg ''EOF''))
      | Some (l, rest) \<Rightarrow>
          (case cut (CHR '' '') (trim_right line_end l) of (kind, arg, found) \<Rightarrow>
             if kind = reply_error then Inl (msg arg)
             else if kind = reply_ok then
               (case atoi (trim_space arg) of
                  None \<Rightarrow> Inl (Errorf ''bad reply length %q'' [arg] None)
                | Some n \<Rightarrow>
                    if n < 0 \<or> int max_reply_bytes < n
                    then Inl (Errorf ''reply of %d bytes is out of range'' [dec_int n] None)
                    else if length rest < nat n
                    then Inl (wrap ''read %d byte reply: %w'' [dec_int n] (msg ''unexpected EOF''))
                    else Inr (to_bytes (take (nat n) rest)))
             else Inl (Errorf ''unexpected reply %q'' [trim_right line_end l] None)))"

definition request :: "(bytes \<Rightarrow> err option) \<Rightarrow> bytes \<Rightarrow> string \<Rightarrow> err + bytes" where
  "request send stream name =
     (case send (to_bytes (name @ [newline])) of
        Some e \<Rightarrow> Inl (wrap ''send request: %w'' [] e)
      | None \<Rightarrow> parse_reply stream)"

section \<open>Framing\<close>

lemma char_code: "char_of (n :: nat) = c \<longleftrightarrow> n mod 256 = of_char c" "c = char_of (n :: nat) \<longleftrightarrow> n mod 256 = of_char c"
proof -
  have "of_char (char_of n) = n mod 256" by simp
  moreover have "c = char_of n" if "n mod 256 = of_char c"
    using that by (metis char_of_char char_of_mod_256)
  ultimately show "char_of n = c \<longleftrightarrow> n mod 256 = of_char c" "c = char_of n \<longleftrightarrow> n mod 256 = of_char c"
    by auto
qed

lemmas newline_iff = char_code [where n = 10]

lemma newline_not_space_word: "plain_word w \<Longrightarrow> newline \<notin> set w"
  by (auto simp: plain_word_def)

lemma read_line_append: "newline \<notin> set l \<Longrightarrow> read_line (l @ newline # rest) = Some (l @ [newline], rest)"
  by (induction l) auto

lemma trim_line_end:
  "l = [] \<or> \<not> line_end (last l) \<Longrightarrow> trim_right line_end (l @ [newline]) = l"
  using trim_right_append [of "[newline]" line_end l] by (simp add: line_end_def trim_right_id)

lemma dec_facts: "newline \<notin> set (dec n)" "dec n \<noteq> [] \<and> \<not> line_end (last (dec n))" "trim_space (dec n) = dec n"
proof -
  show "newline \<notin> set (dec n)" using dec_plain [of n] by (rule newline_not_space_word)
  have "char_of (13 :: nat) \<notin> set (dec n)"
    using dec_plain [of n] by (auto simp: plain_word_def is_space_def)
  with \<open>newline \<notin> set (dec n)\<close> show "dec n \<noteq> [] \<and> \<not> line_end (last (dec n))"
    by (metis dec_not_Nil last_in_set line_end_def)
  show "trim_space (dec n) = dec n" by (rule trim_space_plain [OF dec_plain])
qed

lemma reply_words:
  "newline \<notin> set reply_ok" "CHR '' '' \<notin> set reply_ok" "newline \<notin> set reply_error"
  "CHR '' '' \<notin> set reply_error" "reply_ok \<noteq> reply_error"
  by (simp_all add: reply_ok_def reply_error_def newline_iff)

text \<open>The host reads back the payload, whatever bytes it is made of and whatever follows it.\<close>

lemma reply_round_trip:
  assumes "length data \<le> max_reply_bytes"
  shows "parse_reply ((to_bytes (reply_ok @ '' '' @ dec (length data) @ [newline]) @ data) @ extra) = Inr data"
proof -
  let ?l = "reply_ok @ '' '' @ dec (length data)"
  have nl: "newline \<notin> set ?l" using reply_words dec_facts(1) [of "length data"] by (simp add: newline_iff(1) [of "CHR '' ''"])
  have "to_text ((to_bytes (reply_ok @ '' '' @ dec (length data) @ [newline]) @ data) @ extra) =
      ?l @ newline # to_text (data @ extra)" by simp
  then have rd: "read_line (to_text ((to_bytes (reply_ok @ '' '' @ dec (length data) @ [newline]) @ data) @ extra)) =
      Some (?l @ [newline], to_text (data @ extra))" by (simp only: read_line_append [OF nl])
  have tr: "trim_right line_end (?l @ [newline]) = ?l"
    using dec_facts(2) [of "length data"] by (intro trim_line_end) simp
  have ct: "cut (CHR '' '') ?l = (reply_ok, dec (length data), True)"
    using cut_found [OF reply_words(2), of "dec (length data)"] by simp
  have "length data < 2 ^ 63" using assms by (simp add: max_reply_bytes_def)
  then have at: "atoi (trim_space (dec (length data))) = Some (int (length data))"
    by (simp add: dec_facts(3) atoi_dec)
  show ?thesis
    unfolding parse_reply_def rd option.case prod.case tr ct
    using at assms reply_words(5) by simp
qed

lemma blank_not_line_end: "\<not> line_end (CHR '' '')"
  by (simp add: line_end_def char_code)

lemma error_reply:
  assumes "newline \<notin> set tx" and "tx = [] \<or> \<not> line_end (last tx)"
  shows "parse_reply (to_bytes (reply_error @ '' '' @ tx @ [newline]) @ extra) = Inl (msg tx)"
proof -
  let ?l = "reply_error @ '' '' @ tx"
  have nl: "newline \<notin> set ?l" using reply_words assms(1) by (simp add: newline_iff(1) [of "CHR '' ''"])
  have "to_text (to_bytes (reply_error @ '' '' @ tx @ [newline]) @ extra) = ?l @ newline # to_text extra" by simp
  then have rd: "read_line (to_text (to_bytes (reply_error @ '' '' @ tx @ [newline]) @ extra)) =
      Some (?l @ [newline], to_text extra)" by (simp only: read_line_append [OF nl])
  have tr: "trim_right line_end (?l @ [newline]) = ?l"
  proof (rule trim_line_end)
    show "?l = [] \<or> \<not> line_end (last ?l)"
      using assms(2) blank_not_line_end by (cases tx rule: rev_cases) simp_all
  qed
  have ct: "cut (CHR '' '') ?l = (reply_error, tx, True)"
    using cut_found [OF reply_words(4), of tx] by simp
  show ?thesis unfolding parse_reply_def rd option.case prod.case tr ct by simp
qed

lemma one_line_no_newline: "newline \<notin> set (one_line s)"
  by (auto simp: one_line_def newline_iff(1) [of "CHR '' ''"])

section \<open>Events\<close>

lemma command_words:
  "(''reboot'' = ''poweroff'') = False" "(''cat'' = ''status'') = False"
  "(''cat'' = ''kubeconfig'') = False" "(''cat'' = ''token'') = False"
  by simp_all

lemma parse_command_string: "parse_command (command_string c) = Some c"
proof -
  have "plain_word ''poweroff''" and "plain_word ''reboot''" by (simp_all add: plain_word_def is_space_def)
  note trimmed = this [THEN trim_space_plain]
  have "to_lower ''poweroff'' = ''poweroff''" and "to_lower ''reboot'' = ''reboot''"
    by (simp_all add: to_lower_def lower_char_def)
  with trimmed have "parse_command ''poweroff'' = Some PowerOff" and "parse_command ''reboot'' = Some RebootMachine"
    by (simp_all only: parse_command_def command_words Let_def if_True if_False simp_thms)
  then show ?thesis by (cases c) simp_all
qed

definition power_commands :: "event list \<Rightarrow> command list" where
  "power_commands evs = List.map_filter (\<lambda>e. case e of Power c \<Rightarrow> Some c | Ask _ \<Rightarrow> None) evs"

lemma power_commands_simps [simp]:
  "power_commands [] = []" "power_commands (Power c # evs) = c # power_commands evs"
  "power_commands (Ask r # evs) = power_commands evs"
  by (simp_all add: power_commands_def List.map_filter_def)

lemma serve_events_all_taken:
  assumes "\<And>n. taken n"
  shows "s_commands (fst (run_state (serve_events taken respond evs s) h)) = s_commands s @ power_commands evs"
    and "s_forwarded (fst (run_state (serve_events taken respond evs s) h)) = (s_forwarded s \<or> evs \<noteq> [])"
    and "length (s_written (fst (run_state (serve_events taken respond evs s) h))) = length (s_written s) + length evs"
proof -
  show "s_commands (fst (run_state (serve_events taken respond evs s) h)) = s_commands s @ power_commands evs"
  proof (induction evs arbitrary: s h)
    case (Cons e evs)
    then show ?case by (cases e) (simp_all add: assms split: prod.split)
  qed simp
  show "s_forwarded (fst (run_state (serve_events taken respond evs s) h)) = (s_forwarded s \<or> evs \<noteq> [])"
  proof (induction evs arbitrary: s h)
    case (Cons e evs)
    then show ?case by (cases e) (simp_all add: assms split: prod.split)
  qed simp
  show "length (s_written (fst (run_state (serve_events taken respond evs s) h))) = length (s_written s) + length evs"
  proof (induction evs arbitrary: s h)
    case (Cons e evs)
    then show ?case by (cases e) (simp_all add: assms split: prod.split)
  qed simp
qed

section \<open>Properties\<close>

text \<open>
  C30. Guest and host agree on the framing: whatever bytes a responder returns, up to the limit,
  the host's parser reads back exactly those bytes from what the guest wrote, even when more
  follows on the same connection.
\<close>

theorem request_reply_round_trip:
  assumes "fst (run_state (f req) h) = Inr data" and "length data \<le> max_reply_bytes"
  shows "parse_reply (fst (run_state (serve_request (Some f) req) h) @ extra) = Inr data"
proof -
  obtain r h1 where r: "run_state (f req) h = (r, h1)" by fastforce
  with assms(1) have "r = Inr data" by simp
  with r have s: "fst (run_state (serve_request (Some f) req) h) =
      to_bytes (reply_ok @ '' '' @ dec (length data) @ [newline]) @ data"
    by (simp add: serve_request_def)
  show ?thesis unfolding s by (rule reply_round_trip [OF assms(2)])
qed

theorem request_reply_round_trip_witness:
  "parse_reply (fst (run_state (serve_request (Some (\<lambda>_. give (Inr [10, 0, 107]))) ''status'') []) @ [7]) =
     Inr [10, 0, 107]"
  by (rule request_reply_round_trip) (simp_all add: max_reply_bytes_def)

text \<open>
  A failed request is one line: however many lines the error text has, the host reads back
  that text with its line breaks replaced, and none of it can be taken for a payload.
\<close>

theorem error_reply_is_one_line:
  assumes "fst (run_state (f req) h) = Inl e"
    and "one_line (err_text e) = [] \<or> \<not> line_end (last (one_line (err_text e)))"
  shows "parse_reply (fst (run_state (serve_request (Some f) req) h) @ extra) =
    Inl (msg (one_line (err_text e)))"
proof -
  obtain r h1 where r: "run_state (f req) h = (r, h1)" by fastforce
  with assms(1) have "r = Inl e" by simp
  with r have s: "fst (run_state (serve_request (Some f) req) h) =
      to_bytes (reply_error @ '' '' @ one_line (err_text e) @ [newline])"
    by (simp add: serve_request_def)
  show ?thesis unfolding s by (rule error_reply [OF one_line_no_newline assms(2)])
qed

theorem error_reply_is_one_line_witness:
  "parse_reply (fst (run_state (serve_request (Some (\<lambda>_. give (Inl Canceled))) ''cat /x'') []) @ []) =
     Inl (msg (one_line (err_text Canceled)))"
proof (rule error_reply_is_one_line)
  show "fst (run_state (give (Inl Canceled :: err + bytes)) []) = Inl Canceled" by simp
  show "one_line (err_text Canceled) = [] \<or> \<not> line_end (last (one_line (err_text Canceled)))"
    by (simp add: one_line_def line_end_def char_code)
qed

text \<open>
  No stray input disables the channel: on one connection every recognised line is answered
  once, in order, unrecognised ones not at all, and the power commands handed to PID 1 are
  exactly those of the input, as long as it takes them.
\<close>

theorem every_event_is_answered:
  assumes "\<And>n. taken n"
  shows "length (s_written (fst (run_state (read_once taken respond (Some input)) h))) =
      length (watch_events input) \<and>
    s_commands (fst (run_state (read_once taken respond (Some input)) h)) =
      power_commands (watch_events input) \<and>
    s_forwarded (fst (run_state (read_once taken respond (Some input)) h)) = (watch_events input \<noteq> [])"
  using serve_events_all_taken [OF assms, where respond = respond and evs = "watch_events input" and s = idle and h = h]
  by (simp add: read_once_def idle_def)

theorem every_event_is_answered_witness:
  "length (s_written (fst (run_state (read_once (\<lambda>_. True) None (Some ''poweroff'')) []))) =
     length (watch_events ''poweroff'')"
  using every_event_is_answered [of "\<lambda>_. True" None "''poweroff''" "[]"] by blast

text \<open>
  The path of a \<^verbatim>\<open>cat\<close> request is lower-cased with its verb: the host that asks for
  \<^verbatim>\<open>/var/log/K0S\<close> is answered with \<^verbatim>\<open>/var/log/k0s\<close>, and a file with an upper-case letter in its
  path cannot be reached.
\<close>

theorem cat_path_is_lowered:
  "watch_events ''cat /var/log/K0S'' = [Ask ''cat /var/log/k0s'']"
proof -
  have low: "to_lower ''cat /var/log/K0S'' = ''cat /var/log/k0s''"
    by (simp add: to_lower_def lower_char_def char_code)
  have trim: "trim_space ''cat /var/log/K0S'' = ''cat /var/log/K0S''"
    by (simp add: trim_space_def trim_left_def trim_right_def is_space_def)
  have verb: "fst (cut (CHR '' '') ''cat /var/log/k0s'') = ''cat''" by simp
  have "is_request ''cat /var/log/k0s''"
    by (simp only: is_request_def verb requests_def list.set insert_iff simp_thms)
  with low trim have event: "line_event ''cat /var/log/K0S'' = Some (Ask ''cat /var/log/k0s'')"
    by (simp only: line_event_def Let_def if_True)
  have "lines ''cat /var/log/K0S'' = [''cat /var/log/K0S'']" by (simp add: lines_def char_of_def)
  moreover have suffix: "trim_suffix ''cat /var/log/K0S'' [newline] = ''cat /var/log/K0S''"
    by (simp add: trim_suffix_def has_suffix_def char_code)
  moreover have "chomp ''cat /var/log/K0S'' = ''cat /var/log/K0S''"
    by (simp add: chomp_def suffix drop_cr_def trim_suffix_def has_suffix_def char_code)
  ultimately have "fst (scan_lines ''cat /var/log/K0S'') = [''cat /var/log/K0S'']"
    by (simp add: scan_lines_def max_token_def)
  with event show ?thesis by (simp only: watch_events_def List.map_filter_simps option.case)
qed

end
