(* ===== verification/Host_Requests.thy ===== *)
theory Host_Requests
  imports Status Config Control
begin

text \<open>
  What the host can ask of a running node, from \<^verbatim>\<open>cmd/k0smos/init_linux.go\<close>: locating the
  control port and the power button (\<^verbatim>\<open>findControlPort\<close>, \<^verbatim>\<open>watchPowerButton\<close>) and answering data
  requests (\<^verbatim>\<open>answerRequest\<close> and the functions it calls). \<^verbatim>\<open>os.Stat\<close> is a call whose answer is the
  size of a file, or -1 for a directory; running \<^verbatim>\<open>k0s token create\<close> is a call whose answer is
  what it wrote to its two outputs, and an error.
\<close>

section \<open>Devices\<close>

definition virtio_ports_dir :: string where "virtio_ports_dir = ''/sys/class/virtio-ports''"
definition control_port_name :: string where "control_port_name = ''k0smos.control''"
definition input_dev_dir :: string where "input_dev_dir = ''/dev/input''"

fun find_port_from :: "kernel \<Rightarrow> string \<Rightarrow> string list \<Rightarrow> string io" where
  "find_port_from K name [] = give []"
| "find_port_from K name (e # es) = do {
     got \<leftarrow> sys_read_file K (path_join [virtio_ports_dir, e, ''name'']);
     (case got of
        Inl _ \<Rightarrow> find_port_from K name es
      | Inr b \<Rightarrow>
          if trim_space (to_text b) = name then give (''/dev/'' @ e) else find_port_from K name es)
   }"

definition find_control_port :: "kernel \<Rightarrow> string \<Rightarrow> string io" where
  "find_control_port K name = do {
     entries \<leftarrow> do_names K (ReadDir virtio_ports_dir);
     (case entries of Inl _ \<Rightarrow> give [] | Inr es \<Rightarrow> find_port_from K name es)
   }"

text \<open>The input devices that could be opened, each watched by a goroutine of its own.\<close>

fun open_inputs :: "kernel \<Rightarrow> string list \<Rightarrow> string list io" where
  "open_inputs K [] = give []"
| "open_inputs K (e # es) =
     (if \<not> has_prefix e ''event'' then open_inputs K es
      else do {
        f \<leftarrow> do_num K (OpenFile (path_join [input_dev_dir, e]) False);
        rest \<leftarrow> open_inputs K es;
        give (case f of Inl _ \<Rightarrow> rest | Inr _ \<Rightarrow> e # rest)
      })"

definition watch_power_button :: "kernel \<Rightarrow> string list option io" where
  "watch_power_button K = do {
     entries \<leftarrow> do_names K (ReadDir input_dev_dir);
     (case entries of
        Inl _ \<Rightarrow> give None
      | Inr es \<Rightarrow> do { opened \<leftarrow> open_inputs K es; give (if opened = [] then None else Some opened) })
   }"

section \<open>Answers\<close>

definition max_served_file :: int where "max_served_file = 4 * 2 ^ 20"
definition k0s_data_dir :: string where "k0s_data_dir = ''/var/lib/k0s''"
definition join_roles :: "string list" where "join_roles = [''controller'', ''worker'']"

definition read_for_host :: "kernel \<Rightarrow> string \<Rightarrow> (err + bytes) io" where
  "read_for_host K path =
     (if path = [] then give (Inl (Errorf ''no path given; use %q'' [''cat /path''] None))
      else if \<not> is_abs path then give (Inl (Errorf ''path must be absolute: %q'' [path] None))
      else do {
        st \<leftarrow> do_num K (Stat path);
        (case st of
           Inl e \<Rightarrow> give (Inl e)
         | Inr len \<Rightarrow>
             if len < 0 then give (Inl (Errorf ''%s is a directory'' [path] None))
             else if len > max_served_file
             then give (Inl (Errorf ''%s is %d bytes, over the %d-byte limit for a reply''
                               [path, dec_int len, dec_int max_served_file] None))
             else sys_read_file K path)
      })"

definition read_kubeconfig :: "kernel \<Rightarrow> (err + bytes) io" where
  "read_kubeconfig K = do {
     let path = path_join [k0s_data_dir, ''pki'', ''admin.conf''];
     r \<leftarrow> sys_read_file K path;
     give (case r of
             Inl e \<Rightarrow> Inl (wrap ''%s is not readable yet; the cluster may still be starting: %w'' [path] e)
           | Inr b \<Rightarrow> Inr b)
   }"

definition last_line :: "string \<Rightarrow> string" where
  "last_line s =
     (case filter (\<lambda>l. l \<noteq> []) (map trim_space (rev (split_on newline (trim_space s)))) of
        [] \<Rightarrow> ''no output'' | l # _ \<Rightarrow> l)"

text \<open>\<^verbatim>\<open>%v\<close> of a slice of strings.\<close>

definition show_list :: "string list \<Rightarrow> string" where
  "show_list ws = ''['' @ join '' '' ws @ '']''"

definition token_call :: "config \<Rightarrow> string \<Rightarrow> call" where
  "token_call cfg role =
     RunCmd [hd (Exec cfg), ''token'', ''create'', ''--role='' @ role] [''PATH='' @ Path cfg, ''HOME=/root'']"

definition output_of :: "nat \<Rightarrow> string list \<Rightarrow> string" where
  "output_of k outs = (if k < length outs then outs ! k else [])"

definition create_join_token :: "kernel \<Rightarrow> config \<Rightarrow> string \<Rightarrow> (err + bytes) io" where
  "create_join_token K cfg role =
     (if role \<notin> set join_roles
      then give (Inl (Errorf ''role must be one of %v, got %q'' [show_list join_roles, role] None))
      else if Exec cfg = [] \<or> path_base (hd (Exec cfg)) \<noteq> ''k0s''
      then give (Inl (Errorf ''this node is not running k0s (%v), so it cannot mint a join token'' [show_list (Exec cfg)] None))
      else do {
        r \<leftarrow> do_walk K (token_call cfg role);
        give (case r of
                (outs, Some e) \<Rightarrow>
                  Inl (wrap ''k0s token create --role=%s: %w: %s'' [role, last_line (output_of 1 outs)] e)
              | (outs, None) \<Rightarrow> Inr (to_bytes (trim_space (output_of 0 outs))))
      })"

definition answer_request :: "kernel \<Rightarrow> config \<Rightarrow> boot_record \<Rightarrow> responder" where
  "answer_request K cfg rec req =
     (case cut (CHR '' '') req of (verb, arg, _) \<Rightarrow>
        if verb = ''kubeconfig'' then read_kubeconfig K
        else if verb = ''token'' then create_join_token K cfg (trim_space arg)
        else if verb = ''status'' then give (Inr (marshal rec))
        else if verb = ''dmesg'' then sys_kernel_log K
        else if verb = ''cat'' then read_for_host K (trim_space arg)
        else give (Inl (Errorf ''unknown request %q'' [req] None)))"

text \<open>
  The watch over the port, for as many connections as there are: \<^term>\<open>None\<close> when the machine has no
  control port, the sessions otherwise. The sends of a session are taken or not as \<open>taken\<close> says.
\<close>

definition watch_control_port ::
  "kernel \<Rightarrow> config \<Rightarrow> boot_record \<Rightarrow> (nat \<Rightarrow> bool) \<Rightarrow> string option list \<Rightarrow> (session list \<times> nat) option io"
where
  "watch_control_port K cfg rec taken conns = do {
     dev \<leftarrow> find_control_port K control_port_name;
     (if dev = [] then give None
      else do {
        s \<leftarrow> watch_reopen taken (Some (answer_request K cfg rec)) conns;
        give (Some s) })
   }"

section \<open>What a request can do\<close>

text \<open>Reading, the kernel's log, and one command with one of two roles.\<close>

definition harmless :: "config \<Rightarrow> call \<Rightarrow> bool" where
  "harmless cfg c =
     (case c of
        Klog k n \<Rightarrow> True
      | RunCmd argv env \<Rightarrow>
          Exec cfg \<noteq> [] \<and> path_base (hd (Exec cfg)) = ''k0s'' \<and> (c = token_call cfg ''controller'' \<or> c = token_call cfg ''worker'')
      | _ \<Rightarrow> reads c)"

lemma harmless_calls:
  "harmless cfg (ReadFile p)" "harmless cfg (Stat p)" "harmless cfg (Klog k n)"
  "role \<in> set join_roles \<Longrightarrow> Exec cfg \<noteq> [] \<Longrightarrow> path_base (hd (Exec cfg)) = ''k0s'' \<Longrightarrow> harmless cfg (token_call cfg role)"
  by (auto simp: harmless_def token_call_def join_roles_def)

lemma answer_request_harmless: "emits (harmless cfg) (answer_request K cfg rec req)"
  unfolding answer_request_def read_kubeconfig_def create_join_token_def read_for_host_def
    sys_kernel_log_def sys_read_file_def Let_def
  by (intro emits_intros harmless_calls) auto

lemma serve_request_harmless: "emits (harmless cfg) (serve_request (Some (answer_request K cfg rec)) req)"
  unfolding serve_request_def by (simp) (intro emits_intros answer_request_harmless)

lemma serve_events_harmless:
  "emits (harmless cfg) (serve_events taken (Some (answer_request K cfg rec)) evs s)"
proof (induction evs arbitrary: s)
  case (Cons ev evs)
  then show ?case
    by (cases ev) (auto simp: Let_def intro!: emits_intros serve_request_harmless)
qed (auto intro: emits_intros)

lemma read_once_harmless: "emits (harmless cfg) (read_once taken (Some (answer_request K cfg rec)) conn)"
  by (auto simp: read_once_def serve_events_harmless intro: emits_intros split: option.split)

lemma watch_reopen_harmless: "emits (harmless cfg) (watch_reopen taken (Some (answer_request K cfg rec)) conns)"
  by (induction conns) (auto intro!: emits_intros read_once_harmless)

lemma find_control_port_harmless: "emits (harmless cfg) (find_control_port K name)"
proof -
  have "emits (harmless cfg) (find_port_from K name es)" for es
    by (induction es) (auto simp: sys_read_file_def harmless_def intro!: emits_intros split: sum.split)
  then show ?thesis unfolding find_control_port_def
    by (auto simp: harmless_def intro!: emits_intros split: sum.split)
qed

lemma harmless_cases:
  assumes "harmless cfg c"
  shows "reads c \<or> (\<exists>k n. c = Klog k n) \<or>
    (path_base (hd (Exec cfg)) = ''k0s'' \<and>
     (\<exists>role\<in>{''controller'', ''worker''}.
        c = RunCmd [hd (Exec cfg), ''token'', ''create'', ''--role='' @ role] [''PATH='' @ Path cfg, ''HOME=/root'']))"
  using assms by (cases c) (auto simp: harmless_def token_call_def)

text \<open>The power commands in a connection's input, and that a session passes on a beginning of them.\<close>

definition powers :: "event list \<Rightarrow> command list" where
  "powers evs = List.map_filter (\<lambda>ev. case ev of Power c \<Rightarrow> Some c | Ask _ \<Rightarrow> None) evs"

lemma powers_simps [simp]: "powers [] = []" "powers (Power c # evs) = c # powers evs" "powers (Ask r # evs) = powers evs"
  by (simp_all add: powers_def List.map_filter_simps)

definition passes_on :: "string option \<Rightarrow> session \<Rightarrow> bool" where
  "passes_on conn s =
     prefix (s_commands s) (case conn of None \<Rightarrow> [] | Some input \<Rightarrow> powers (watch_events input))"

lemma serve_events_commands:
  "run_state (serve_events taken f evs s) h = (s', h') \<Longrightarrow>
   \<exists>ys. s_commands s' = s_commands s @ ys \<and> prefix ys (powers evs)"
proof (induction evs arbitrary: s h)
  case (Cons ev evs)
  show ?case
  proof (cases ev)
    case (Ask req)
    obtain reply h1 where "run_state (serve_request f req) h = (reply, h1)" by fastforce
    with Cons.prems Ask Cons.IH show ?thesis by fastforce
  next
    case (Power c)
    show ?thesis
    proof (cases "taken (length (s_commands s))")
      case True
      with Cons.prems Power Cons.IH obtain ys where "s_commands s' = (s_commands s @ [c]) @ ys" "prefix ys (powers evs)"
        by (fastforce simp: Let_def)
      with Power show ?thesis by (intro exI [of _ "c # ys"]) simp
    qed (use Cons.prems Power in \<open>auto simp: Let_def\<close>)
  qed
qed simp

lemma read_once_passes_on: "run_state (read_once taken f conn) h = (s, h') \<Longrightarrow> passes_on conn s"
  by (cases conn) (auto simp: read_once_def passes_on_def idle_def dest!: serve_events_commands)

lemma watch_reopen_passes_on:
  "run_state (watch_reopen taken f conns) h = ((ss, n), h') \<Longrightarrow> list_all2 passes_on conns ss"
proof (induction conns arbitrary: h ss n h')
  case (Cons conn conns)
  obtain s h1 where s: "run_state (read_once taken f conn) h = (s, h1)" by fastforce
  obtain ss' n' h2 where w: "run_state (watch_reopen taken f conns) h1 = ((ss', n'), h2)" by (metis surj_pair)
  with Cons.prems s have "ss = s # ss'" by simp
  with Cons.IH [OF w] read_once_passes_on [OF s] show ?case by simp
qed simp

section \<open>Properties\<close>

text \<open>
  C13. The control port is no shell. While it serves the port, whatever the host writes, over any number of
  connections, the node makes no other calls than reading files and its own log and running
  \<^verbatim>\<open>token create\<close> of a k0s binary, the one the kernel command line names, with one of the two roles. The
  words that stop the machine make no call there either: of them only a beginning of those that were
  written, in their order, is handed to the waiting init, which then stops the machine as its own
  properties say.
\<close>

theorem host_input_runs_only_token_create:
  assumes "run_state (watch_control_port K cfg rec taken conns) h = (r, h')"
  shows "\<exists>cs. h' = h @ cs \<and>
    (\<forall>c\<in>set cs. reads c \<or> (\<exists>k n. c = Klog k n) \<or>
       (path_base (hd (Exec cfg)) = ''k0s'' \<and>
        (\<exists>role\<in>{''controller'', ''worker''}.
           c = RunCmd [hd (Exec cfg), ''token'', ''create'', ''--role='' @ role] [''PATH='' @ Path cfg, ''HOME=/root'']))) \<and>
    (case r of None \<Rightarrow> True | Some (sessions, n) \<Rightarrow> list_all2 passes_on conns sessions)"
proof -
  have "emits (harmless cfg) (watch_control_port K cfg rec taken conns)"
    unfolding watch_control_port_def
    by (intro emits_intros find_control_port_harmless watch_reopen_harmless)
  then obtain cs where "snd (run_state (watch_control_port K cfg rec taken conns) h) = h @ cs" "list_all (harmless cfg) cs"
    by (rule emitsE)
  with assms have cs: "h' = h @ cs" "list_all (harmless cfg) cs" by simp_all
  have "list_all2 passes_on conns ss" if "r = Some (ss, n)" for ss n
    using assms that watch_reopen_passes_on by (auto simp: watch_control_port_def split: prod.splits if_splits)
  then have "case r of None \<Rightarrow> True | Some (sessions, n) \<Rightarrow> list_all2 passes_on conns sessions"
    by (simp split: option.split prod.split)
  moreover have "\<forall>c\<in>set cs. reads c \<or> (\<exists>k n. c = Klog k n) \<or>
       (path_base (hd (Exec cfg)) = ''k0s'' \<and>
        (\<exists>role\<in>{''controller'', ''worker''}.
           c = RunCmd [hd (Exec cfg), ''token'', ''create'', ''--role='' @ role] [''PATH='' @ Path cfg, ''HOME=/root'']))"
    using cs(2) harmless_cases unfolding list_all_iff by blast
  ultimately show ?thesis using cs(1) by blast
qed

definition token_line :: string where "token_line = ''token worker''"

lemma token_line_event: "watch_events token_line = [Ask ''token worker'']"
proof -
  have low: "to_lower ''token worker'' = ''token worker''"
    by (simp add: to_lower_def lower_char_def)
  have trim: "trim_space ''token worker'' = ''token worker''"
    by (simp add: trim_space_def trim_left_def trim_right_def is_space_def)
  have verb: "fst (cut (CHR '' '') ''token worker'') = ''token''" by simp
  have "is_request ''token worker''"
    by (simp only: is_request_def verb requests_def list.set insert_iff simp_thms)
  with low trim have event: "line_event ''token worker'' = Some (Ask ''token worker'')"
    by (simp only: line_event_def Let_def if_True)
  have "lines ''token worker'' = [''token worker'']" by (simp add: lines_def char_of_def)
  moreover have suffix: "trim_suffix ''token worker'' [newline] = ''token worker''"
    by (simp add: trim_suffix_def has_suffix_def char_code)
  moreover have "chomp ''token worker'' = ''token worker''"
    by (simp add: chomp_def suffix drop_cr_def trim_suffix_def has_suffix_def char_code)
  ultimately have "fst (scan_lines ''token worker'') = [''token worker'']"
    by (simp add: scan_lines_def max_token_def)
  with event show ?thesis by (simp only: watch_events_def token_line_def List.map_filter_simps option.case)
qed

definition ported_kernel :: kernel where
  "ported_kernel = quiet_kernel\<lparr>
     answer_names := (\<lambda>h c. Inr [''vport0p1'']),
     answer_bytes := (\<lambda>h c. Inr (to_bytes control_port_name))\<rparr>"

lemma ported_finds: "run_state (find_control_port ported_kernel control_port_name) h =
    (''/dev/vport0p1'', h @ [ReadDir virtio_ports_dir, ReadFile (path_join [virtio_ports_dir, ''vport0p1'', ''name''])])"
proof -
  have "trim_space control_port_name = control_port_name"
    by (simp add: control_port_name_def trim_space_def trim_left_def trim_right_def is_space_def)
  then show ?thesis
    by (simp add: find_control_port_def ported_kernel_def sys_read_file_def)
qed

theorem host_input_runs_only_token_create_witness:
  "\<exists>c. (\<exists>argv env. c = RunCmd argv env) \<and> path_base (hd (Exec default_config)) = ''k0s'' \<and>
     c \<in> set (added (watch_control_port ported_kernel default_config (new_record []) (\<lambda>_. True) [Some token_line]) [])"
proof -
  let ?c = "token_call default_config ''worker''"
  have base: "path_base (hd (Exec default_config)) = ''k0s''"
    by (simp add: default_config_def default_exec_def path_base_def trim_right_def Let_def)
  have cut: "cut (CHR '' '') ''token worker'' = (''token'', ''worker'', True)" by simp
  have trim: "trim_space ''worker'' = ''worker''"
    by (simp add: trim_space_def trim_left_def trim_right_def is_space_def)
  have mint: "?c \<in> set (added (watch_control_port ported_kernel default_config (new_record []) (\<lambda>_. True) [Some token_line]) [])"
    using base
    by (simp add: watch_control_port_def ported_finds read_once_def token_line_event serve_request_def answer_request_def cut trim
        create_join_token_def join_roles_def default_config_def default_exec_def added_def split: prod.split)
  obtain r h' where run: "run_state (watch_control_port ported_kernel default_config (new_record []) (\<lambda>_. True) [Some token_line]) [] = (r, h')"
    by fastforce
  from host_input_runs_only_token_create [OF this] obtain cs where cs: "h' = [] @ cs"
    "\<forall>c\<in>set cs. reads c \<or> (\<exists>k n. c = Klog k n) \<or>
       (path_base (hd (Exec default_config)) = ''k0s'' \<and>
        (\<exists>role\<in>{''controller'', ''worker''}.
           c = RunCmd [hd (Exec default_config), ''token'', ''create'', ''--role='' @ role] [''PATH='' @ Path default_config, ''HOME=/root'']))"
    by blast
  moreover have "?c \<in> set cs" using mint run cs(1) by (simp add: added_def)
  ultimately show ?thesis using base mint by (auto simp: token_call_def)
qed

end
