(* ===== verification/Pseudo_Mounts.thy ===== *)
theory Pseudo_Mounts
  imports Scripts
begin

text \<open>
  The mounts every boot needs: \<^verbatim>\<open>internal/mount/mount.go\<close> (the pseudo-filesystems and the
  writable overlays of a read-only root) and \<^verbatim>\<open>internal/cgroup/cgroup.go\<close>.
\<close>

section \<open>The interface and the mount table\<close>

record mounter =
  mo_mounts :: "(err + mount_point list) io"
  mo_mkdir :: "string \<Rightarrow> nat \<Rightarrow> err option io"
  mo_mount :: "string \<Rightarrow> string \<Rightarrow> string \<Rightarrow> nat \<Rightarrow> string \<Rightarrow> err option io"

record mount_spec =
  sp_source :: string
  sp_target :: string
  sp_fstype :: string
  sp_flags :: nat
  sp_data :: string
  sp_perm :: nat

definition pseudo_fs :: "string \<Rightarrow> string \<Rightarrow> string \<Rightarrow> nat \<Rightarrow> mount_spec" where
  "pseudo_fs source target fstype perm =
     \<lparr>sp_source = source, sp_target = target, sp_fstype = fstype, sp_flags = 0, sp_data = [], sp_perm = perm\<rparr>"

definition default_mounts :: "mount_spec list" where
  "default_mounts =
     [pseudo_fs ''proc'' ''/proc'' ''proc'' perm_0555,
      pseudo_fs ''sysfs'' ''/sys'' ''sysfs'' perm_0555,
      pseudo_fs ''devtmpfs'' ''/dev'' ''devtmpfs'' perm_0755,
      pseudo_fs ''devpts'' ''/dev/pts'' ''devpts'' perm_0755,
      pseudo_fs ''tmpfs'' ''/dev/shm'' ''tmpfs'' perm_0755,
      pseudo_fs ''tmpfs'' ''/run'' ''tmpfs'' perm_0755,
      pseudo_fs ''tmpfs'' ''/tmp'' ''tmpfs'' perm_01777]"

section \<open>Ensure\<close>

fun ensure_specs :: "'m mounter_scheme \<Rightarrow> string list \<Rightarrow> mount_spec list \<Rightarrow> err option io" where
  "ensure_specs m have_targets [] = give None"
| "ensure_specs m have_targets (s # ss) =
     (if sp_target s \<in> set have_targets then ensure_specs m have_targets ss
      else guard_err (mo_mkdir m (sp_target s) (sp_perm s)) (\<lambda>e. Some (wrap ''mkdir %s: %w'' [sp_target s] e))
        (guard_err (mo_mount m (sp_source s) (sp_target s) (sp_fstype s) (sp_flags s) (sp_data s))
          (\<lambda>e. Some (wrap ''mount %s: %w'' [sp_target s] e))
          (ensure_specs m have_targets ss)))"

definition ensure_mounts :: "'m mounter_scheme \<Rightarrow> err option io" where
  "ensure_mounts m = do {
     r \<leftarrow> mo_mounts m;
     ensure_specs m (case r of Inl e \<Rightarrow> [] | Inr l \<Rightarrow> map mp_target l) default_mounts
   }"

section \<open>Writable overlays\<close>

definition rw_scratch :: string where "rw_scratch = ''/run/k0smos/rw''"

definition writable_paths :: "string list" where "writable_paths = [''/etc'', ''/usr/libexec'']"

definition scratch_dir :: "string \<Rightarrow> string \<Rightarrow> string" where
  "scratch_dir path kind = path_join [rw_scratch, path, kind]"

definition overlay_data :: "string \<Rightarrow> string" where
  "overlay_data path =
     ''lowerdir='' @ path @ '',upperdir='' @ scratch_dir path ''upper'' @ '',workdir='' @ scratch_dir path ''work''"

fun make_dirs :: "'m mounter_scheme \<Rightarrow> string list \<Rightarrow> err option io" where
  "make_dirs m [] = give None"
| "make_dirs m (d # ds) =
     guard_err (mo_mkdir m d perm_0755) (\<lambda>e. Some (wrap ''mkdir %s: %w'' [d] e)) (make_dirs m ds)"

fun make_writable :: "'m mounter_scheme \<Rightarrow> string list \<Rightarrow> err option io" where
  "make_writable m [] = give None"
| "make_writable m (path # paths) =
     guard_err (make_dirs m [scratch_dir path ''upper'', scratch_dir path ''work'']) Some
       (guard_err (mo_mount m ''overlay'' path ''overlay'' 0 (overlay_data path))
         (\<lambda>e. Some (wrap ''overlay %s: %w'' [path] e))
         (make_writable m paths))"

section \<open>cgroup2\<close>

record controller =
  cg_mkdir :: "string \<Rightarrow> nat \<Rightarrow> err option io"
  cg_mount :: "string \<Rightarrow> string \<Rightarrow> string \<Rightarrow> nat \<Rightarrow> string \<Rightarrow> err option io"
  cg_write_file :: "string \<Rightarrow> bytes \<Rightarrow> nat \<Rightarrow> err option io"

definition cgroup_root :: string where "cgroup_root = ''/sys/fs/cgroup''"
definition cgroup_subtree :: string where "cgroup_subtree = cgroup_root @ ''/cgroup.subtree_control''"

definition cgroup_setup :: "controller \<Rightarrow> err option io" where
  "cgroup_setup c =
     guard_err (cg_mkdir c cgroup_root perm_0755) (\<lambda>e. Some (wrap ''mkdir cgroup root: %w'' [] e))
       (guard_err (cg_mount c ''cgroup2'' cgroup_root ''cgroup2'' 0 ''nsdelegate'')
         (\<lambda>e. Some (wrap ''mount cgroup2: %w'' [] e))
         (guard_err (cg_write_file c cgroup_subtree (to_bytes ''+cpu +memory +pids +io'') perm_0644)
           (\<lambda>e. Some (wrap ''enable controllers: %w'' [] e))
           (give None)))"

section \<open>The contract of a mounter\<close>

text \<open>Making a directory and mounting are one system call each; reading the table changes nothing.\<close>

locale mounting =
  fixes K :: kernel and m :: "'m mounter_scheme"
  assumes mkdir_call: "mo_mkdir m path perm = do_unit K (MkdirAll path (syscall_mode perm))"
    and mount_call: "mo_mount m src tgt fs flags data = do_unit K (MountFs src tgt fs flags data)"
    and mounts_read: "emits reads (mo_mounts m)"
begin

definition mount_script :: "mount_spec \<Rightarrow> call list" where
  "mount_script s = [MkdirAll (sp_target s) (syscall_mode (sp_perm s)),
     MountFs (sp_source s) (sp_target s) (sp_fstype s) (sp_flags s) (sp_data s)]"

definition overlay_script :: "string \<Rightarrow> call list" where
  "overlay_script path = [MkdirAll (scratch_dir path ''upper'') perm_0755,
     MkdirAll (scratch_dir path ''work'') perm_0755, MountFs ''overlay'' path ''overlay'' 0 (overlay_data path)]"

lemma ensure_specs_scripted:
  "scripted K (ensure_specs m hs ss) (concat (map mount_script (filter (\<lambda>s. sp_target s \<notin> set hs) ss)))"
proof (induction ss)
  case (Cons s ss)
  show ?case
  proof (cases "sp_target s \<in> set hs")
    case False
    with Cons show ?thesis
      by (auto simp: mount_script_def mkdir_call mount_call intro!: scripted_intros)
  qed (use Cons in simp)
qed (simp add: scripted_intros)

lemma make_writable_scripted: "scripted K (make_writable m paths) (concat (map overlay_script paths))"
proof (induction paths)
  case (Cons p ps)
  have "scripted K (make_dirs m [d, e]) [MkdirAll d perm_0755, MkdirAll e perm_0755]" for d e
    by (auto simp: mkdir_call intro!: scripted_intros)
  from scripted_guard [OF this scripted_step [OF Cons, where c = "MountFs ''overlay'' p ''overlay'' 0 (overlay_data p)"]]
  show ?case by (simp add: overlay_script_def mount_call del: make_dirs.simps)
qed (simp add: scripted_intros)

end

definition sys_mounter :: "kernel \<Rightarrow> mounter" where
  "sys_mounter K = \<lparr>mo_mounts = sys_mounts K, mo_mkdir = sys_mkdir K, mo_mount = sys_mount K\<rparr>"

definition sys_controller :: "kernel \<Rightarrow> controller" where
  "sys_controller K = \<lparr>cg_mkdir = sys_mkdir K, cg_mount = sys_mount K, cg_write_file = sys_write_file K\<rparr>"

interpretation sysm: mounting K "sys_mounter K" for K
proof
  show "emits reads (mo_mounts (sys_mounter K))"
    unfolding sys_mounter_def mounter.select_convs sys_mounts_def by (intro emits_intros) simp
qed (simp_all add: sys_mounter_def sys_defs)

lemma cgroup_setup_scripted:
  "scripted K (cgroup_setup (sys_controller K))
     [MkdirAll cgroup_root perm_0755, MountFs ''cgroup2'' cgroup_root ''cgroup2'' 0 ''nsdelegate'',
      WriteFile cgroup_subtree (to_bytes ''+cpu +memory +pids +io'') perm_0644]"
  by (auto simp: cgroup_setup_def sys_controller_def sys_defs intro!: scripted_intros)

section \<open>Properties\<close>

text \<open>
  Ensure mounts exactly what is missing: after reading the mount table, whatever it holds
  and also when it cannot be read, the calls made are those that make and mount the default
  filesystems not in the table, in the order of the list, up to the first one refused, and an
  error is reported exactly when one was.
\<close>

theorem ensure_mounts_what_is_missing:
  "case run_state (sys_mounts K) h of (table, h1) \<Rightarrow>
     (let present = (case table of Inl e \<Rightarrow> [] | Inr l \<Rightarrow> map mp_target l);
          script = concat (map sysm.mount_script (filter (\<lambda>s. sp_target s \<notin> set present) default_mounts))
      in snd (run_state (ensure_mounts (sys_mounter K)) h) = snd (run_script K script h1) \<and>
         (fst (run_state (ensure_mounts (sys_mounter K)) h) = None) = fst (run_script K script h1))"
proof -
  obtain table h1 where t: "run_state (mo_mounts (sys_mounter K)) h = (table, h1)" by fastforce
  then have "run_state (sys_mounts K) h = (table, h1)" by (simp add: sys_mounter_def)
  with t show ?thesis
    using scriptedD [OF sysm.ensure_specs_scripted] by (simp add: ensure_mounts_def Let_def)
qed

end
