(* ===== verification/Datavol.thy ===== *)
theory Datavol
  imports Blkid
begin

text \<open>
  \<^verbatim>\<open>internal/datavol/datavol.go\<close>: the mutable data volume is found, formatted when it is
  blank, and mounted. The safety rule of the package is that a device which already has a
  filesystem is never formatted; it is stated over every call \<open>prepare\<close> makes.
\<close>

section \<open>The volume interface and the operations\<close>

record volume = prober +
  mkfs :: "string \<Rightarrow> string \<Rightarrow> string \<Rightarrow> err option io"
  vol_mkdir :: "string \<Rightarrow> nat \<Rightarrow> err option io"
  vol_mount :: "string \<Rightarrow> string \<Rightarrow> string \<Rightarrow> nat \<Rightarrow> string \<Rightarrow> err option io"

record options =
  opt_spec :: string
  opt_label :: string
  opt_fstype :: string
  opt_mount_point :: string

record prep_result =
  res_device :: string
  res_formatted :: bool

definition no_result :: prep_result where
  "no_result = \<lparr>res_device = [], res_formatted = False\<rparr>"

definition select_device :: "'v prober_scheme \<Rightarrow> options \<Rightarrow> (err + string) io" where
  "select_device v opts =
     (if opt_spec opts \<noteq> ''auto'' then
        (if has_prefix (opt_spec opts) ''/dev/'' then give (Inr (opt_spec opts))
         else do {
           r \<leftarrow> resolve v (opt_spec opts);
           give (case r of Inl e \<Rightarrow> Inr [] | Inr dev \<Rightarrow> Inr dev)
         })
      else do {
        r \<leftarrow> resolve v (''LABEL='' @ opt_label opts);
        (case r of
           Inr dev \<Rightarrow> give (Inr dev)
         | Inl _ \<Rightarrow> do {
             c \<leftarrow> blank v;
             give (case c of
                     Inl e \<Rightarrow> Inl e
                   | Inr [] \<Rightarrow> Inr []
                   | Inr [d] \<Rightarrow> Inr (''/dev/'' @ d)
                   | Inr ds \<Rightarrow> Inl (Errorf
                       ''refusing to guess: %d blank devices (%v) -- name one with k0smos.data=/dev/...''
                       (dec (length ds) # ds) None))
           })
      })"

definition prepare :: "'v volume_scheme \<Rightarrow> options \<Rightarrow> (prep_result \<times> err option) io" where
  "prepare v opts =
     (if opt_spec opts = [] then give (no_result, None)
      else do {
        sel \<leftarrow> select_device v opts;
        (case sel of
           Inl e \<Rightarrow> give (no_result, Some e)
         | Inr dev \<Rightarrow>
             if dev = [] then give (no_result, None)
             else do {
               found \<leftarrow> identify v (trim_prefix dev ''/dev/'');
               f \<leftarrow> (case found of
                       Some _ \<Rightarrow> give (Inr False)
                     | None \<Rightarrow>
                         guard_err (mkfs v dev (opt_fstype opts) (opt_label opts))
                           (\<lambda>e. Inl (wrap ''format %s as %s: %w'' [dev, opt_fstype opts] e))
                           (give (Inr True)));
               (case f of
                  Inl e \<Rightarrow> give (no_result, Some e)
                | Inr formatted \<Rightarrow>
                    (let res = \<lparr>res_device = dev, res_formatted = formatted\<rparr> in
                     guard_err (vol_mkdir v (opt_mount_point opts) perm_0700)
                       (\<lambda>e. (res, Some (wrap ''mkdir %s: %w'' [opt_mount_point opts] e)))
                       (guard_err (vol_mount v dev (opt_mount_point opts) (opt_fstype opts) 0 [])
                         (\<lambda>e. (res, Some (wrap ''mount %s at %s: %w''
                                 [dev, opt_mount_point opts] e)))
                         (give (res, None)))))
             })
      })"

section \<open>The contract of a volume\<close>

text \<open>
  A volume is a prober that can also format, make directories and mount, each with one call
  that says what it does.
\<close>

locale data_volume = block_prober v for v :: "'v volume_scheme" +
  assumes mkfs_call: "run_state (mkfs v dev fs label) h = (r, h') \<Longrightarrow>
      h' = h @ [RunCmd (mkfs_argv dev fs label) []]"
    and mkdir_call: "run_state (vol_mkdir v path perm) h = (r, h') \<Longrightarrow> h' = h @ [MkdirAll path (syscall_mode perm)]"
    and mount_call: "run_state (vol_mount v src tgt fs flags data) h = (r, h') \<Longrightarrow>
      h' = h @ [MountFs src tgt fs flags data]"
begin

lemma select_device_reads: "emits reads (select_device v opts)"
  unfolding select_device_def by (intro emits_intros resolve_reads blank_reads)

text \<open>
  Everything \<open>prepare\<close> does besides reading, in order: format the device it selected if the
  identification found nothing on it, make the mount point, mount. A failure stops the
  sequence where it happens.
\<close>

definition ideal_effects :: "options \<Rightarrow> string \<Rightarrow> bool \<Rightarrow> call list" where
  "ideal_effects opts dev format =
     (if format then [RunCmd (mkfs_argv dev (opt_fstype opts) (opt_label opts)) []] else []) @
     [MkdirAll (opt_mount_point opts) perm_0700,
      MountFs dev (opt_mount_point opts) (opt_fstype opts) 0 []]"

lemma prepare_effects:
  assumes sel: "run_state (select_device v opts) h = (sel, h1)" and spec: "opt_spec opts \<noteq> []"
  shows "case sel of
      Inl e \<Rightarrow> effects (prepare v opts) h = [] \<and> snd (fst (run_state (prepare v opts) h)) = Some e
    | Inr dev \<Rightarrow>
        if dev = [] then effects (prepare v opts) h = [] \<and>
          fst (run_state (prepare v opts) h) = (no_result, None)
        else (let format = (fst (run_state (identify v (trim_prefix dev ''/dev/'')) h1) = None);
                  ideal = ideal_effects opts dev format;
                  out = fst (run_state (prepare v opts) h)
              in prefix (effects (prepare v opts) h) ideal \<and> effects (prepare v opts) h \<noteq> [] \<and>
                 (snd out = None \<longrightarrow> effects (prepare v opts) h = ideal \<and>
                    fst out = \<lparr>res_device = dev, res_formatted = format\<rparr>))"
proof -
  from readsE [OF select_device_reads sel] obtain cs
    where h1: "h1 = h @ cs" "filter (\<lambda>c. \<not> reads c) cs = []" .
  show ?thesis
  proof (cases sel)
    case (Inl e)
    with sel spec h1 show ?thesis by (simp add: prepare_def effects_def added_def)
  next
    case (Inr dev)
    show ?thesis
    proof (cases "dev = []")
      case True
      with Inr sel spec h1 show ?thesis by (simp add: prepare_def effects_def added_def)
    next
      case False
      obtain i h2 where i: "run_state (identify v (trim_prefix dev ''/dev/'')) h1 = (i, h2)"
        by fastforce
      from readsE [OF identify_reads i] obtain ds
        where h2: "h2 = h1 @ ds" "filter (\<lambda>c. \<not> reads c) ds = []" .
      obtain r3 h3 where fm: "run_state (mkfs v dev (opt_fstype opts) (opt_label opts)) h2 = (r3, h3)"
        by fastforce
      note fm' = mkfs_call [OF fm]
      let ?h = "if i = None then h3 else h2"
      obtain r4 h4 where md: "run_state (vol_mkdir v (opt_mount_point opts) perm_0700) ?h = (r4, h4)"
        by fastforce
      note md' = mkdir_call [OF md]
      obtain r5 h5 where mt: "run_state (vol_mount v dev (opt_mount_point opts) (opt_fstype opts) 0 []) h4
          = (r5, h5)"
        by fastforce
      note mt' = mount_call [OF mt]
      show ?thesis
        using Inr False sel spec h1 h2 i fm fm' md md' mt mt'
        by (cases i; cases r3; cases r4; cases r5)
           (simp_all add: prepare_def effects_def added_def ideal_effects_def Let_def no_result_def)
    qed
  qed
qed

end

definition sys_volume :: "kernel \<Rightarrow> volume" where
  "sys_volume K =
     \<lparr>block_devices = sys_block_devices K, read_at = sys_read_at K, mkfs = sys_mkfs K,
      vol_mkdir = sys_mkdir K, vol_mount = sys_mount K\<rparr>"

interpretation sysv: data_volume "sys_volume K" for K
  by unfold_locales
     (auto simp: sys_volume_def sys_block_devices_def sys_mkfs_def sys_mkdir_def sys_mount_def
        intro: read_at_length emits_sys_read_at emits_intros)

section \<open>Selecting and preparing, against disks that hold still\<close>

text \<open>The device a boot selects, as a function of the disks that are there.\<close>

definition chosen_device :: "(string \<Rightarrow> bytes option) \<Rightarrow> string list \<Rightarrow> options \<Rightarrow> string option" where
  "chosen_device disks names opts =
     (let labelled = find (\<lambda>d. matches_spec False (opt_label opts) (disks d)) names;
          blanks = [d \<leftarrow> names. \<not> is_virtual d \<and> image_info (disks d) = None]
      in case labelled of
           Some d \<Rightarrow> Some (''/dev/'' @ d)
         | None \<Rightarrow> (case blanks of [] \<Rightarrow> Some [] | [d] \<Rightarrow> Some (''/dev/'' @ d) | _ \<Rightarrow> None))"

interpretation sysvd: still_disks "sys_volume (with_disks disks names K)" disks names
  for disks names K
  by unfold_locales
     (auto simp: sys_volume_def sys_read_at_def sys_block_devices_def with_disks_def
        split: option.splits dest: read_image_length)

lemma select_device_chosen:
  assumes "opt_spec opts = ''auto''"
  shows "(case fst (run_state (select_device (sys_volume (with_disks disks names K)) opts) h) of
            Inl _ \<Rightarrow> None | Inr d \<Rightarrow> Some d) = chosen_device disks names opts"
proof -
  let ?v = "sys_volume (with_disks disks names K)"
  have cut: "cut (CHR ''='') (''LABEL='' @ opt_label opts) = (''LABEL'', opt_label opts, True)"
    using cut_found [of "CHR ''=''" "''LABEL''" "opt_label opts"] by simp
  have label: "to_upper ''LABEL'' = ''LABEL''" by (simp add: to_upper_def upper_char_def)
  obtain r h1 where r: "run_state (resolve ?v (''LABEL='' @ opt_label opts)) h = (r, h1)" by fastforce
  obtain b h2 where b: "run_state (blank ?v) h1 = (b, h2)" by fastforce
  have r': "r = (case find (\<lambda>d. matches_spec False (opt_label opts) (disks d)) names of
        Some d \<Rightarrow> Inr (''/dev/'' @ d)
      | None \<Rightarrow> Inl (Errorf ''no block device matches %s'' [''LABEL='' @ opt_label opts] None))"
    using sysvd.resolve_image [OF cut, of disks names K h] r label by simp
  have b': "b = Inr [d \<leftarrow> names. \<not> is_virtual d \<and> image_info (disks d) = None]"
    using sysvd.blank_image [of disks names K h1] b by simp
  show ?thesis
    using assms r b r' b'
    by (auto simp: select_device_def chosen_device_def Let_def split: option.splits list.splits)
qed

section \<open>What formatting can and cannot reach\<close>

lemma select_device_run:
  obtains sel h1 where "run_state (select_device v opts) h = (sel, h1)"
  by fastforce

lemma format_call_source:
  assumes "RunCmd argv env \<in> set (effects (prepare (sys_volume K) opts) h)"
  obtains dev h1 where "run_state (select_device (sys_volume K) opts) h = (Inr dev, h1)"
    and "dev \<noteq> []" and "argv = mkfs_argv dev (opt_fstype opts) (opt_label opts)"
    and "fst (run_state (identify (sys_volume K) (trim_prefix dev ''/dev/'')) h1) = None"
proof -
  have spec: "opt_spec opts \<noteq> []"
    using assms by (auto simp: prepare_def effects_def added_def)
  obtain sel h1 where sel: "run_state (select_device (sys_volume K) opts) h = (sel, h1)"
    by (rule select_device_run)
  note * = sysv.prepare_effects [OF sel spec]
  from * assms obtain dev where "sel = Inr dev" and "dev \<noteq> []"
    by (auto split: sum.splits if_splits)
  with * assms that [of dev h1] sel show thesis
    by (auto simp: Let_def sysv.ideal_effects_def dest!: set_mono_prefix split: if_splits)
qed

lemma identify_sys_image:
  "fst (run_state (identify (sys_volume (with_disks disks names K)) d) h) = image_info (disks d)"
  by (rule sysvd.identify_image)

text \<open>
  C1. Formatting is the only destructive thing the package does, and whatever the options
  name, the device handed to mkfs is one on which no probe of the table recognises a
  filesystem. The disks hold still under the probing; every other answer of the kernel,
  failures included, is arbitrary.
\<close>

theorem prepare_never_formats_a_filesystem:
  assumes "RunCmd argv env \<in>
    set (effects (prepare (sys_volume (with_disks disks names K)) opts) h)"
  shows "\<exists>dev. argv = mkfs_argv dev (opt_fstype opts) (opt_label opts) \<and>
    image_info (disks (trim_prefix dev ''/dev/'')) = None"
  using assms by (rule format_call_source) (auto simp: identify_sys_image)

lemma slice_replicate [simp]: "slice i j (replicate n x) = replicate (min (j - i) (n - i)) x"
  by (simp add: slice_def)

lemma zeros_read: "read_image (replicate n 0) k off = Some b \<Longrightarrow> b = replicate k 0"
  by (auto simp: read_image_def split: if_splits)

lemma probe_zeros:
  "probe_ext4 (replicate n 0) = None" "probe_erofs (replicate n 0) = None"
  "probe_iso9660 (replicate n 0) = None" "probe_fat (replicate n 0) = None"
  by (auto simp: probe_ext4_def probe_erofs_def probe_iso9660_def probe_fat_def layout_defs
      le16_def le32_def Let_def)

lemma image_info_zeros: "image_info (Some (replicate n 0)) = None"
  by (auto simp: image_info_def probers_def probe_zeros split: option.splits dest: zeros_read)

definition demo_options :: options where
  "demo_options = \<lparr>opt_spec = ''auto'', opt_label = ''k0smos-data'', opt_fstype = ''ext4'',
     opt_mount_point = ''/var''\<rparr>"

definition demo_disks :: "string \<Rightarrow> bytes option" where
  "demo_disks d = (if d = ''vdb'' then Some (replicate 65536 0) else None)"

lemma demo_blank [simp]: "image_info (demo_disks ''vdb'') = None"
  by (simp add: demo_disks_def image_info_zeros)

lemma demo_formats:
  "RunCmd (mkfs_argv ''/dev/vdb'' ''ext4'' ''k0smos-data'') [] \<in>
   set (effects (prepare (sys_volume (with_disks demo_disks [''loop0'', ''vdb''] quiet_kernel))
     demo_options) [])"
proof -
  let ?K = "with_disks demo_disks [''loop0'', ''vdb''] quiet_kernel"
  have loop: "image_info (demo_disks ''loop0'') = None"
    by (simp add: demo_disks_def image_info_def probers_def)
  have chosen: "chosen_device demo_disks [''loop0'', ''vdb''] demo_options = Some ''/dev/vdb''"
    by (simp add: chosen_device_def matches_spec_def loop is_virtual_def virtual_prefixes_def
        has_prefix_def)
  obtain sel h1 where sel: "run_state (select_device (sys_volume ?K) demo_options) [] = (sel, h1)"
    by (rule select_device_run)
  have auto_spec: "opt_spec demo_options = ''auto''" by (simp add: demo_options_def)
  from select_device_chosen [OF auto_spec, of demo_disks "[''loop0'', ''vdb'']" quiet_kernel "[]"]
    sel chosen have "sel = Inr ''/dev/vdb''"
    by (auto split: sum.splits)
  have trim: "trim_prefix ''/dev/vdb'' ''/dev/'' = ''vdb''"
    by (simp add: trim_prefix_def has_prefix_def)
  have "fst (run_state (identify (sys_volume ?K) ''vdb'') h1) = None"
    by (simp add: identify_sys_image)
  moreover have "opt_spec demo_options \<noteq> []" by (simp add: demo_options_def)
  ultimately show ?thesis
    using sysv.prepare_effects [OF sel] \<open>sel = _\<close>
    by (auto simp: trim Let_def sysv.ideal_effects_def demo_options_def prefix_Cons)
qed

theorem prepare_never_formats_a_filesystem_witness:
  "\<exists>dev. mkfs_argv ''/dev/vdb'' ''ext4'' ''k0smos-data'' =
     mkfs_argv dev (opt_fstype demo_options) (opt_label demo_options) \<and>
     image_info (demo_disks (trim_prefix dev ''/dev/'')) = None"
  by (rule prepare_never_formats_a_filesystem [OF demo_formats])

lemma find_matching_not_blank:
  "find (\<lambda>d. matches_spec False l (disks d)) names = Some d \<Longrightarrow> image_info (disks d) \<noteq> None"
  by (auto simp: find_Some_iff matches_spec_def split: option.splits)

lemma trim_dev [simp]: "trim_prefix (''/dev/'' @ d) ''/dev/'' = d"
  by (rule trim_prefix_append)

text \<open>
  C29. In automatic mode the formatted device is the only candidate there is: it is listed,
  it is not a kernel pseudo-device, nothing is recognised on it, no other listed device
  qualifies, and no device carries the wanted label. With two candidates nothing is
  formatted.
\<close>

theorem prepare_auto_formats_the_sole_blank:
  assumes auto: "opt_spec opts = ''auto''"
    and run: "RunCmd argv env \<in>
      set (effects (prepare (sys_volume (with_disks disks names K)) opts) h)"
  shows "\<exists>d. argv = mkfs_argv (''/dev/'' @ d) (opt_fstype opts) (opt_label opts) \<and>
    [n \<leftarrow> names. \<not> is_virtual n \<and> image_info (disks n) = None] = [d] \<and>
    (\<forall>n\<in>set names. \<not> matches_spec False (opt_label opts) (disks n))"
proof -
  from run obtain dev h1
    where sel: "run_state (select_device (sys_volume (with_disks disks names K)) opts) h = (Inr dev, h1)"
      and dev: "dev \<noteq> []" "argv = mkfs_argv dev (opt_fstype opts) (opt_label opts)"
      and none: "image_info (disks (trim_prefix dev ''/dev/'')) = None"
    by (rule format_call_source) (simp add: identify_sys_image)
  from select_device_chosen [OF auto, of disks names K h] sel
  have chosen: "chosen_device disks names opts = Some dev" by simp
  let ?found = "find (\<lambda>d. matches_spec False (opt_label opts) (disks d)) names"
  have unlabelled: "?found = None"
  proof (rule ccontr)
    assume "?found \<noteq> None"
    then obtain d where d: "?found = Some d" by blast
    with chosen have "dev = ''/dev/'' @ d" by (simp add: chosen_device_def)
    then have "trim_prefix dev ''/dev/'' = d" by (simp only: trim_dev)
    with none find_matching_not_blank [OF d] show False by simp
  qed
  with chosen dev(1) obtain d
    where "[n \<leftarrow> names. \<not> is_virtual n \<and> image_info (disks n) = None] = [d]" "dev = ''/dev/'' @ d"
    by (auto simp: chosen_device_def split: list.splits)
  with unlabelled dev(2) show ?thesis by (auto simp: find_None_iff)
qed

theorem prepare_auto_formats_the_sole_blank_witness:
  "\<exists>d. mkfs_argv ''/dev/vdb'' ''ext4'' ''k0smos-data'' =
      mkfs_argv (''/dev/'' @ d) (opt_fstype demo_options) (opt_label demo_options) \<and>
    [n \<leftarrow> [''loop0'', ''vdb'']. \<not> is_virtual n \<and> image_info (demo_disks n) = None] = [d] \<and>
    (\<forall>n\<in>set [''loop0'', ''vdb'']. \<not> matches_spec False (opt_label demo_options) (demo_disks n))"
  by (rule prepare_auto_formats_the_sole_blank [OF _ demo_formats]) (simp add: demo_options_def)

text \<open>
  A disk with a partition table: boot code, one partition entry, the boot signature, and
  whatever length of empty sectors. No prober of the table knows a partition table.
\<close>

definition mbr_sector :: bytes where
  "mbr_sector = replicate 446 0 @ [0x80, 0, 2, 0, 0x83, 0, 0, 0, 0, 8, 0, 0, 0, 0, 1, 0] @
     replicate 48 0 @ [0x55, 0xaa]"

definition partitioned_disk :: "nat \<Rightarrow> bytes" where
  "partitioned_disk n = mbr_sector @ replicate n 0"

lemma length_mbr_sector [simp]: "length mbr_sector = 512"
  by (simp add: mbr_sector_def)

lemma zeros_no_prefix: "\<not> has_prefix (to_text (replicate n 0)) (CHR ''F'' # s)"
  by (cases n) (auto simp: has_prefix_def to_text_def char_of_byte_def
      dest: arg_cong [where f = "of_char :: char \<Rightarrow> nat"])

lemma probe_fat_mbr:
  "probe_fat (mbr_sector @ replicate n 0) = None"
proof -
  have "slice fat32_type_off (fat32_type_off + 5) (mbr_sector @ replicate n 0) = replicate 5 0"
    and "slice fat16_type_off (fat16_type_off + 3) (mbr_sector @ replicate n 0) = replicate 3 0"
    by (simp_all add: mbr_sector_def slice_append_left layout_defs)
  then show ?thesis by (simp add: probe_fat_def zeros_no_prefix)
qed

lemma partitioned_read_high:
  "read_image (partitioned_disk n) k 1024 = Some b \<Longrightarrow> b = replicate k 0"
  by (auto simp: read_image_def partitioned_disk_def slice_append_right split: if_splits)

lemma partitioned_read_low:
  assumes "read_image (partitioned_disk n) (512 + k) 0 = Some b"
  shows "b = mbr_sector @ replicate k 0"
  using assms by (auto simp: read_image_def partitioned_disk_def slice_def split: if_splits)

lemma probe_iso_mbr: "probe_iso9660 (mbr_sector @ replicate n 0) = None"
  by (auto simp: probe_iso9660_def layout_defs Let_def)

lemma image_info_partitioned: "image_info (Some (partitioned_disk n)) = None"
  using partitioned_read_low [of n 34304] partitioned_read_low [of n 512]
  by (auto simp: image_info_def probers_def layout_defs probe_zeros probe_fat_mbr probe_iso_mbr
      split: option.splits dest: partitioned_read_high)

lemma filter_eq_singleton: "distinct xs \<Longrightarrow> x \<in> set xs \<Longrightarrow> [y \<leftarrow> xs. y = x] = [x]"
  by (induction xs) (auto simp: filter_empty_conv)

text \<open>
  The safety rule reaches only as far as the probes do. A disk that holds a partition
  table and, in its partitions, filesystems with other labels, is itself one on which
  nothing is recognised: automatic mode selects it, and so formats it, when it is the only
  such device. The comment above \<^verbatim>\<open>Identify\<close> takes a negative answer to mean "blank and
  therefore safe to format".
\<close>

theorem partitioned_disk_is_selected:
  assumes "disks d = Some (partitioned_disk n)" and "d \<in> set names" and "\<not> is_virtual d"
    and "\<forall>e\<in>set names. e \<noteq> d \<longrightarrow> (\<exists>i. image_info (disks e) = Some i \<and> fs_label i \<noteq> opt_label opts)"
    and "distinct names"
  shows "chosen_device disks names opts = Some (''/dev/'' @ d)"
proof -
  have d: "image_info (disks d) = None" using assms(1) by (simp add: image_info_partitioned)
  have "find (\<lambda>e. matches_spec False (opt_label opts) (disks e)) names = None"
    using assms(4) d by (auto simp: find_None_iff matches_spec_def spec_match_def split: option.splits)
  moreover have "[e \<leftarrow> names. \<not> is_virtual e \<and> image_info (disks e) = None] = [e \<leftarrow> names. e = d]"
    using assms(3,4) d by (intro filter_cong) auto
  moreover have "[e \<leftarrow> names. e = d] = [d]"
    using assms(5,2) by (rule filter_eq_singleton)
  ultimately show ?thesis by (simp add: chosen_device_def)
qed

theorem partitioned_disk_is_selected_witness:
  "chosen_device (\<lambda>d. if d = ''vda'' then Some (partitioned_disk 65536) else None) [''vda'']
     demo_options = Some ''/dev/vda''"
  using partitioned_disk_is_selected
    [of "\<lambda>d. if d = ''vda'' then Some (partitioned_disk 65536) else None" "''vda''" 65536
      "[''vda'']" demo_options]
  by (simp add: is_virtual_def virtual_prefixes_def has_prefix_def)

end
