(* ===== verification/Run_Plan.thy ===== *)
theory Run_Plan
  imports Metadata
begin

text \<open>
  \<^verbatim>\<open>internal/metadata/plan.go\<close>: what becomes of the commands in user-data. Nothing is executed;
  a recognised command is an \<open>action\<close> or the workload to supervise. The Go interface \<^verbatim>\<open>Applier\<close>
  is the record \<open>applier\<close>; what the boot relies on is the locale \<open>quiet_applier\<close>: carrying
  out actions makes file system calls and never runs a program.
\<close>

section \<open>Plans\<close>

datatype action =
    Mkdir string
  | Chmod_to string nat
  | Chown_to string int int
  | Symlink_to string string

record plan =
  p_workload :: "string list option"
  p_env :: "string list"
  p_actions :: "action list"
  p_unsupported :: "string list list"

definition no_plan :: plan where
  "no_plan = \<lparr>p_workload = None, p_env = [], p_actions = [], p_unsupported = []\<rparr>"

definition service_managers :: "string list" where
  "service_managers = [''systemctl'', ''service'', ''rc-update'', ''rc-service'']"

definition named_owners :: "string \<Rightarrow> int option" where
  "named_owners s = (if s = ''root'' then Some 0 else if s = ''nobody'' then Some 65534 else None)"

section \<open>The workload\<close>

definition install_only_flags :: "string list" where "install_only_flags = [''--force'']"

text \<open>The arguments after the role: what is passed on, and the environment taken out of them.\<close>

fun split_env :: "string list \<Rightarrow> string list \<times> string list" where
  "split_env [] = ([], [])"
| "split_env (a # rest) =
     (if a \<in> set install_only_flags then split_env rest
      else if a = ''--env'' \<or> a = ''-e'' then
        (case rest of
           [] \<Rightarrow> split_env rest
         | v # rest' \<Rightarrow> (case split_env rest' of (argv, env) \<Rightarrow> (argv, v # env)))
      else if has_prefix a ''--env='' then
        (case split_env rest of (argv, env) \<Rightarrow> (argv, trim_prefix a ''--env='' # env))
      else if has_prefix a ''-e='' then
        (case split_env rest of (argv, env) \<Rightarrow> (argv, trim_prefix a ''-e='' # env))
      else (case split_env rest of (argv, env) \<Rightarrow> (a # argv, env)))"

fun translate_install :: "string list \<Rightarrow> string list \<times> string list" where
  "translate_install (bin # sub # role # rest) =
     (case split_env rest of (argv, env) \<Rightarrow> (bin # role # argv, env))"
| "translate_install _ = ([], [])"

section \<open>File commands\<close>

definition operands :: "string list \<Rightarrow> string list" where
  "operands args = filter (\<lambda>a. \<not> has_prefix a ''-'') args"

definition has_flag :: "string list \<Rightarrow> char \<Rightarrow> bool" where
  "has_flag args c =
     list_ex (\<lambda>a. a = [CHR ''-'', c] \<or>
                  (has_prefix a ''-'' \<and> \<not> has_prefix a ''--'' \<and> contains_char a c)) args"

definition resolve_owner :: "string \<Rightarrow> int option" where
  "resolve_owner s = (case atoi s of Some n \<Rightarrow> Some n | None \<Rightarrow> named_owners s)"

definition owner_of :: "string \<Rightarrow> (int \<times> int) option" where
  "owner_of spec =
     (case cut (CHR '':'') spec of (u, g, found) \<Rightarrow>
        (case (resolve_owner u, resolve_owner (if found then g else u)) of
           (Some uid, Some gid) \<Rightarrow> Some (uid, gid) | _ \<Rightarrow> None))"

definition interpret_cmd :: "string \<Rightarrow> string list \<Rightarrow> action list option" where
  "interpret_cmd bin cmd =
     (let args = tl cmd; rest = operands args in
      if bin = ''mkdir'' then (if rest = [] then None else Some (map Mkdir rest))
      else if bin = ''chmod'' then
        (case rest of
           m # f # fs \<Rightarrow>
             (case parse_uint m 8 32 of
                None \<Rightarrow> None | Some mode \<Rightarrow> Some (map (\<lambda>p. Chmod_to p mode) (f # fs)))
         | _ \<Rightarrow> None)
      else if bin = ''chown'' then
        (case rest of
           w # f # fs \<Rightarrow>
             (case owner_of w of
                None \<Rightarrow> None | Some (uid, gid) \<Rightarrow> Some (map (\<lambda>p. Chown_to p uid gid) (f # fs)))
         | _ \<Rightarrow> None)
      else if bin = ''ln'' then
        (case rest of
           [target, link] \<Rightarrow>
             if has_flag args (CHR ''s'') then Some [Symlink_to target link] else None
         | _ \<Rightarrow> None)
      else None)"

definition is_install :: "string list \<Rightarrow> bool" where
  "is_install cmd =
     (path_base (hd cmd) = ''k0s'' \<and> 3 \<le> length cmd \<and> cmd ! 1 = ''install'')"

definition plan_command :: "string list \<Rightarrow> plan \<Rightarrow> plan" where
  "plan_command cmd p =
     (if cmd = [] then p
      else let bin = path_base (hd cmd) in
        if is_install cmd then
          (case translate_install cmd of
             (argv, env) \<Rightarrow> p\<lparr>p_workload := Some argv, p_env := p_env p @ env\<rparr>)
        else if bin = ''k0s'' \<and> 2 \<le> length cmd \<and> (cmd ! 1 = ''start'' \<or> cmd ! 1 = ''stop'') then p
        else if bin \<in> set service_managers then p
        else
          (case interpret_cmd bin cmd of
             None \<Rightarrow> p\<lparr>p_unsupported := p_unsupported p @ [cmd]\<rparr>
           | Some as \<Rightarrow> p\<lparr>p_actions := p_actions p @ as\<rparr>))"

definition plan_of :: "user_data \<Rightarrow> plan" where
  "plan_of u = fold plan_command (ud_runcmd u) no_plan"

section \<open>Carrying out the actions\<close>

record applier =
  ap_mkdir_all :: "string \<Rightarrow> nat \<Rightarrow> err option io"
  ap_chmod :: "string \<Rightarrow> nat \<Rightarrow> err option io"
  ap_chown :: "string \<Rightarrow> int \<Rightarrow> int \<Rightarrow> err option io"
  ap_symlink :: "string \<Rightarrow> string \<Rightarrow> err option io"

fun run_action :: "applier \<Rightarrow> action \<Rightarrow> err option io" where
  "run_action a (Mkdir p) = ap_mkdir_all a p perm_0755"
| "run_action a (Chmod_to p m) = ap_chmod a p m"
| "run_action a (Chown_to p u g) = ap_chown a p u g"
| "run_action a (Symlink_to t l) = ap_symlink a t l"

fun action_path :: "action \<Rightarrow> string" where
  "action_path (Mkdir p) = p"
| "action_path (Chmod_to p m) = p"
| "action_path (Chown_to p u g) = p"
| "action_path (Symlink_to t l) = l"

fun run_actions :: "applier \<Rightarrow> action list \<Rightarrow> err list io" where
  "run_actions a [] = give []"
| "run_actions a (act # acts) = do {
     r \<leftarrow> run_action a act;
     errs \<leftarrow> run_actions a acts;
     give (case r of None \<Rightarrow> errs | Some e \<Rightarrow> wrap ''%s: %w'' [action_path act] e # errs)
   }"

definition sys_applier :: "kernel \<Rightarrow> applier" where
  "sys_applier K =
     \<lparr>ap_mkdir_all = sys_mkdir K, ap_chmod = sys_chmod K, ap_chown = sys_chown K,
      ap_symlink = sys_symlink K\<rparr>"

text \<open>Each operation is one call about the path it was given.\<close>

fun call_of :: "action \<Rightarrow> call" where
  "call_of (Mkdir p) = MkdirAll p perm_0755"
| "call_of (Chmod_to p m) = Chmod p (syscall_mode m)"
| "call_of (Chown_to p u g) = Chown p u g"
| "call_of (Symlink_to t l) = Symlink t l"

locale quiet_applier =
  fixes a :: applier
  assumes one_call: "snd (run_state (run_action a act) h) = h @ [call_of act]"
begin

lemma run_actions_calls: "snd (run_state (run_actions a acts) h) = h @ map call_of acts"
proof (induction acts arbitrary: h)
  case (Cons act acts)
  obtain r where r: "run_state (run_action a act) h = (r, h @ [call_of act])"
    using one_call [of act h] by (metis prod.collapse)
  obtain errs where "run_state (run_actions a acts) (h @ [call_of act]) = (errs, (h @ [call_of act]) @ map call_of acts)"
    using Cons [of "h @ [call_of act]"] by (metis prod.collapse)
  with r show ?case by simp
qed simp

lemma run_actions_errs: "length (fst (run_state (run_actions a acts) h)) \<le> length acts"
proof (induction acts arbitrary: h)
  case (Cons act acts)
  obtain r h1 where r: "run_state (run_action a act) h = (r, h1)" by fastforce
  obtain errs h2 where "run_state (run_actions a acts) h1 = (errs, h2)" by fastforce
  with r Cons [of h1] show ?case by (auto split: option.split)
qed simp

end

interpretation sysa: quiet_applier "sys_applier K" for K
proof
  show "snd (run_state (run_action (sys_applier K) act) h) = h @ [call_of act]" for act h
    by (cases act) (simp_all add: sys_applier_def sys_defs)
qed

section \<open>What a plan can contain\<close>

text \<open>The arguments that are passed on to the foreground command.\<close>

definition passed_on :: "string \<Rightarrow> bool" where
  "passed_on a =
     (a \<notin> set install_only_flags \<and> a \<noteq> ''--env'' \<and> a \<noteq> ''-e'' \<and>
      \<not> has_prefix a ''--env='' \<and> \<not> has_prefix a ''-e='')"

definition proper_workload :: "string list \<Rightarrow> bool" where
  "proper_workload argv =
     (2 \<le> length argv \<and> path_base (hd argv) = ''k0s'' \<and> list_all passed_on (drop 2 argv))"

lemma split_env_argv: "list_all passed_on (fst (split_env args))"
proof (induction args rule: measure_induct_rule [of length])
  case (less args)
  show ?case
  proof (cases args)
    case (Cons b rest)
    have ih: "list_all passed_on (fst (split_env xs))" if "length xs \<le> length rest" for xs
      using less [of xs] that Cons by simp
    then have ihr: "list_all passed_on (fst (split_env rest))" by simp
    show ?thesis
    proof (cases "b \<noteq> ''--env'' \<and> b \<noteq> ''-e''")
      case True
      with ihr Cons show ?thesis by (simp add: passed_on_def [of b] case_prod_beta)
    next
      case False
      then have e: "b = ''--env'' \<or> b = ''-e''" and f: "b \<notin> set install_only_flags"
        by (auto simp: install_only_flags_def)
      have "split_env args = (case rest of [] \<Rightarrow> split_env rest
          | v # rest' \<Rightarrow> (case split_env rest' of (argv, env) \<Rightarrow> (argv, v # env)))"
        using e f unfolding Cons by (simp only: split_env.simps if_True if_False)
      with ih ihr show ?thesis by (cases rest) (simp_all add: case_prod_beta)
    qed
  qed simp
qed

lemma split_env_plain: "list_all passed_on args \<Longrightarrow> split_env args = (args, [])"
proof (induction args)
  case (Cons b args)
  then show ?case by (simp add: passed_on_def [of b])
qed simp

lemma install_workload:
  assumes "is_install cmd" shows "proper_workload (fst (translate_install cmd))"
proof -
  obtain bin sub role rest where cmd: "cmd = bin # sub # role # rest"
    using assms by (auto simp: is_install_def neq_Nil_conv Suc_le_length_iff numeral_3_eq_3)
  with assms show ?thesis
    using split_env_argv [of rest]
    by (simp add: proper_workload_def is_install_def case_prod_beta)
qed

lemma plan_command_workload:
  assumes "p_workload p = None \<or> (\<exists>argv. p_workload p = Some argv \<and> proper_workload argv)"
  shows "p_workload (plan_command cmd p) = None \<or>
    (\<exists>argv. p_workload (plan_command cmd p) = Some argv \<and> proper_workload argv)"
  using assms install_workload [of cmd]
  by (auto simp: plan_command_def Let_def case_prod_beta split: option.split)

lemma fold_plan_workload:
  "p_workload p = None \<or> (\<exists>argv. p_workload p = Some argv \<and> proper_workload argv) \<Longrightarrow>
   p_workload (fold plan_command cmds p) = None \<or>
    (\<exists>argv. p_workload (fold plan_command cmds p) = Some argv \<and> proper_workload argv)"
  by (induction cmds arbitrary: p) (simp_all add: plan_command_workload)

text \<open>Every command leaves its trace in the plan, or is one of those dropped on purpose.\<close>

definition dropped :: "string list \<Rightarrow> bool" where
  "dropped cmd =
     (cmd = [] \<or> path_base (hd cmd) \<in> set service_managers \<or>
      (path_base (hd cmd) = ''k0s'' \<and> 2 \<le> length cmd \<and> cmd ! 1 \<in> {''start'', ''stop'', ''install''}))"

lemma plan_actions_and_unsupported:
  "p_unsupported (fold plan_command cmds p) = p_unsupported p @
     filter (\<lambda>c. \<not> dropped c \<and> interpret_cmd (path_base (hd c)) c = None \<or>
       c \<noteq> [] \<and> path_base (hd c) = ''k0s'' \<and> \<not> is_install c \<and> \<not> (2 \<le> length c \<and> c ! 1 \<in> {''start'', ''stop''})) cmds"
proof (induction cmds arbitrary: p)
  case (Cons c cmds)
  have k0s: "''k0s'' \<notin> set service_managers" by (simp add: service_managers_def)
  have none: "interpret_cmd ''k0s'' c = None" by (simp add: interpret_cmd_def Let_def)
  have "p_unsupported (plan_command c p) = p_unsupported p @
      (if \<not> dropped c \<and> interpret_cmd (path_base (hd c)) c = None \<or>
       c \<noteq> [] \<and> path_base (hd c) = ''k0s'' \<and> \<not> is_install c \<and> \<not> (2 \<le> length c \<and> c ! 1 \<in> {''start'', ''stop''})
       then [c] else [])"
    using k0s none
    by (auto simp: plan_command_def dropped_def Let_def case_prod_beta is_install_def split: option.split)
  with Cons [of "plan_command c p"] show ?case by simp
qed simp

section \<open>Properties\<close>

text \<open>
  User-data cannot choose what the machine runs: whatever commands it lists, the planned
  workload is none or a foreground k0s command, and none of the flags that ask a service
  manager for something are left in it.
\<close>

theorem workload_is_always_k0s:
  "case p_workload (plan_of u) of None \<Rightarrow> True | Some argv \<Rightarrow> proper_workload argv"
  using fold_plan_workload [of no_plan "ud_runcmd u"]
  by (auto simp: plan_of_def no_plan_def)

text \<open>
  What a shell command asks for, read off its words: the first word names the program, with or without
  a directory, words that start with a dash are flags and the others operands. A command whose
  operands do not fit asks for nothing.
\<close>

inductive commanded :: "string list \<Rightarrow> call list \<Rightarrow> bool" where
  mkdir: "path_base bin = ''mkdir'' \<Longrightarrow> filter (\<lambda>a. \<not> has_prefix a ''-'') args = d # ds \<Longrightarrow>
    commanded (bin # args) (map (\<lambda>p. MkdirAll p 493) (d # ds))"
| chmod: "path_base bin = ''chmod'' \<Longrightarrow> filter (\<lambda>a. \<not> has_prefix a ''-'') args = m # p # ps \<Longrightarrow>
    parse_uint m 8 32 = Some mode \<Longrightarrow> commanded (bin # args) (map (\<lambda>p. Chmod p (syscall_mode mode)) (p # ps))"
| chown: "path_base bin = ''chown'' \<Longrightarrow> filter (\<lambda>a. \<not> has_prefix a ''-'') args = w # p # ps \<Longrightarrow>
    owner_of w = Some (uid, gid) \<Longrightarrow> commanded (bin # args) (map (\<lambda>p. Chown p uid gid) (p # ps))"
| symlink: "path_base bin = ''ln'' \<Longrightarrow> filter (\<lambda>a. \<not> has_prefix a ''-'') args = [target, link] \<Longrightarrow>
    has_flag args (CHR ''s'') \<Longrightarrow> commanded (bin # args) [Symlink target link]"

inductive_cases commanded_cmdE: "commanded (bin # args) cs"
inductive_cases commanded_NilE: "commanded [] cs"

definition commanded_actions :: "string list \<Rightarrow> action list option" where
  "commanded_actions cmd = (if cmd = [] then None else interpret_cmd (path_base (hd cmd)) cmd)"

lemma commanded_interpreted: "commanded cmd cs \<Longrightarrow> \<exists>as. commanded_actions cmd = Some as \<and> cs = map call_of as"
  by (induction rule: commanded.induct) (simp_all add: commanded_actions_def interpret_cmd_def operands_def Let_def)

lemma interpreted_commanded: "commanded_actions cmd = Some as \<Longrightarrow> commanded cmd (map call_of as)"
proof -
  assume i: "commanded_actions cmd = Some as"
  then obtain bin args where cmd: "cmd = bin # args" by (cases cmd) (simp_all add: commanded_actions_def)
  let ?ops = "filter (\<lambda>a. \<not> has_prefix a ''-'') args"
  from i cmd have i': "interpret_cmd (path_base bin) (bin # args) = Some as" by (simp add: commanded_actions_def)
  consider (m) "path_base bin = ''mkdir''" | (c) "path_base bin = ''chmod''" | (o) "path_base bin = ''chown''" | (l) "path_base bin = ''ln''"
    using i' by (auto simp: interpret_cmd_def Let_def split: if_splits)
  then show ?thesis
  proof cases
    case m
    with i' obtain d ds where "?ops = d # ds" "as = map Mkdir (d # ds)"
      by (cases ?ops) (auto simp: interpret_cmd_def operands_def Let_def)
    with commanded.mkdir [OF m this(1)] show ?thesis by (simp add: cmd comp_def)
  next
    case c
    with i' obtain w p ps mode where "?ops = w # p # ps" "parse_uint w 8 32 = Some mode" "as = map (\<lambda>p. Chmod_to p mode) (p # ps)"
      by (auto simp: interpret_cmd_def operands_def Let_def split: list.splits option.splits)
    with commanded.chmod [OF c this(1,2)] show ?thesis by (simp add: cmd comp_def)
  next
    case o
    with i' obtain w p ps uid gid where "?ops = w # p # ps" "owner_of w = Some (uid, gid)" "as = map (\<lambda>p. Chown_to p uid gid) (p # ps)"
      by (auto simp: interpret_cmd_def operands_def Let_def split: list.splits option.splits)
    with commanded.chown [OF o this(1,2)] show ?thesis by (simp add: cmd comp_def)
  next
    case l
    with i' obtain a b where "?ops = [a, b]" "has_flag args (CHR ''s'')" "as = [Symlink_to a b]"
      by (auto simp: interpret_cmd_def operands_def Let_def split: list.splits if_splits)
    with commanded.symlink [OF l this(1,2)] show ?thesis by (simp add: cmd)
  qed
qed

lemma plan_command_actions:
  "p_actions (plan_command cmd p) = p_actions p @ (case commanded_actions cmd of None \<Rightarrow> [] | Some as \<Rightarrow> as)"
  by (auto simp: plan_command_def commanded_actions_def is_install_def interpret_cmd_def service_managers_def Let_def
      split: option.split prod.split)

lemma fold_plan_actions:
  "p_actions (fold plan_command cmds p) =
     p_actions p @ concat (map (\<lambda>c. case commanded_actions c of None \<Rightarrow> [] | Some as \<Rightarrow> as) cmds)"
  by (induction cmds arbitrary: p) (simp_all add: plan_command_actions)


text \<open>
  No command is lost: what is reported as unsupported are exactly the commands that are
  neither dropped on purpose nor interpreted, in their order, each as often as it occurs.
\<close>

theorem unsupported_commands_are_reported:
  "p_unsupported (plan_of u) =
     filter (\<lambda>c. \<not> dropped c \<and> interpret_cmd (path_base (hd c)) c = None \<or>
       c \<noteq> [] \<and> path_base (hd c) = ''k0s'' \<and> \<not> is_install c \<and>
       \<not> (2 \<le> length c \<and> c ! 1 \<in> {''start'', ''stop''})) (ud_runcmd u)"
  by (simp add: plan_of_def plan_actions_and_unsupported no_plan_def)

definition encoded_file :: "write_file \<Rightarrow> raw_file" where
  "encoded_file w =
     \<lparr>rf_path = wf_path w, rf_content = b64_encode (to_bytes (wf_content w)),
      rf_encoding = ''base64'', rf_permissions = wf_permissions w\<rparr>"

text \<open>
  Files survive their encoding: when the document decodes to files that a provider encoded
  with base64, the parsed user-data holds each path, permission and the original content,
  none dropped and none warned about.
\<close>

theorem encoded_files_round_trip:
  assumes "has_prefix (trim_space (to_text b)) ''#cloud-config''"
    and "yaml_config D b = Inr cc" and "cc_write_files cc = map encoded_file ws"
  shows "ud_write_files (fst (parse_user_data D b)) = ws \<and> snd (parse_user_data D b) = None"
proof -
  have "trim_space (to_text b) \<noteq> []" using assms(1) by (auto simp: has_prefix_def)
  moreover have "decode_content D (rf_encoding (encoded_file w)) (rf_content (encoded_file w)) =
      Inr (wf_content w)" for w
    using decode_encoded by (simp add: encoded_file_def)
  then have "concat (map (\<lambda>f. case decode_content D (rf_encoding f) (rf_content f) of Inl _ \<Rightarrow> []
      | Inr c \<Rightarrow> [\<lparr>wf_path = rf_path f, wf_content = c, wf_permissions = rf_permissions f\<rparr>])
      (map encoded_file ws)) = ws"
    by (induction ws) (simp_all add: encoded_file_def)
  ultimately show ?thesis
    using assms by (simp add: parse_user_data_def add_files_facts add_commands_facts no_user_data_def)
qed

lemma cloud_config_word: "plain_word ''#cloud-config''"
  by (simp add: plain_word_def is_space_def)

theorem encoded_files_round_trip_witness:
  "ud_write_files (fst (parse_user_data
     \<lparr>yaml_config = \<lambda>_. Inr \<lparr>cc_write_files =
          [encoded_file \<lparr>wf_path = ''/etc/token'', wf_content = ''s3cret'', wf_permissions = ''0600''\<rparr>],
        cc_runcmd = [], cc_k0smos = no_machine\<rparr>,
      yaml_meta = \<lambda>_. Inl Canceled, gunzip = \<lambda>_. Inl Canceled\<rparr>
     (to_bytes ''#cloud-config''))) =
   [\<lparr>wf_path = ''/etc/token'', wf_content = ''s3cret'', wf_permissions = ''0600''\<rparr>]"
proof -
  let ?w = "\<lparr>wf_path = ''/etc/token'', wf_content = ''s3cret'', wf_permissions = ''0600''\<rparr>"
  let ?cc = "\<lparr>cc_write_files = [encoded_file ?w], cc_runcmd = [], cc_k0smos = no_machine\<rparr>"
  let ?D = "\<lparr>yaml_config = \<lambda>_. Inr ?cc, yaml_meta = \<lambda>_. Inl Canceled, gunzip = \<lambda>_. Inl Canceled\<rparr>"
  have h: "has_prefix (trim_space (to_text (to_bytes ''#cloud-config''))) ''#cloud-config''"
    using has_prefix_append [of "''#cloud-config''" "[]"]
    by (simp only: to_text_to_bytes trim_space_plain [OF cloud_config_word] append_Nil2)
  have y: "yaml_config ?D (to_bytes ''#cloud-config'') = Inr ?cc" by (simp only: decoders.select_convs)
  have c: "cc_write_files ?cc = map encoded_file [?w]" by (simp only: cloud_config.select_convs list.map)
  from encoded_files_round_trip [OF h y c] show ?thesis by (rule conjunct1)
qed

text \<open>
  The value of a flag is taken for an operand: of \<^verbatim>\<open>mkdir -m 0700 /etc/k0s\<close> two directories
  are made, one of them called \<^verbatim>\<open>0700\<close>, and neither with that mode.
\<close>

theorem flag_value_becomes_directory:
  "p_actions (plan_of (no_user_data\<lparr>ud_runcmd := [[''mkdir'', ''-m'', ''0700'', ''/etc/k0s'']]\<rparr>)) =
     [Mkdir ''0700'', Mkdir ''/etc/k0s'']"
proof -
  have "path_base ''mkdir'' = ''mkdir''" by (simp add: path_base_no_slash)
  then show ?thesis
    by (simp add: plan_of_def plan_command_def is_install_def interpret_cmd_def service_managers_def
        operands_def has_prefix_def no_plan_def)
qed

text \<open>
  The sticky bit is lost: \<^verbatim>\<open>chmod 1777 /srv\<close> is interpreted, and reaches the kernel as 0777,
  because the octal mode is used as a Go file mode.
\<close>

theorem chmod_loses_sticky_bit:
  "map call_of (p_actions (plan_of (no_user_data\<lparr>ud_runcmd := [[''chmod'', ''1777'', ''/srv'']]\<rparr>))) =
     [Chmod ''/srv'' 511]"
proof -
  have "path_base ''chmod'' = ''chmod''" by (simp add: path_base_no_slash)
  moreover have "parse_uint ''1777'' 8 32 = Some 1023" by (simp add: parse_uint_def)
  ultimately show ?thesis
    by (simp add: plan_of_def plan_command_def is_install_def interpret_cmd_def service_managers_def
        operands_def has_prefix_def no_plan_def syscall_mode_def)
qed

end
