(* ===== verification/Etcd.thy ===== *)
theory Etcd
  imports Run_Plan
begin

text \<open>
  \<^verbatim>\<open>internal/etcd/etcd.go\<close>: the command that gives up a controller's etcd membership, built from
  the arguments of the workload. Go's nil result is \<^term>\<open>None\<close>.
\<close>

definition flags_to_propagate :: "string list" where
  "flags_to_propagate = [''--data-dir'', ''--status-socket'']"

fun flag_value :: "string list \<Rightarrow> string \<Rightarrow> string option" where
  "flag_value [] name = None"
| "flag_value (a # as) name =
     (if a = name \<and> as \<noteq> [] then Some (hd as)
      else if has_prefix a (name @ ''='') then Some (drop (length name + 1) a)
      else flag_value as name)"

definition single_node :: "string \<Rightarrow> bool" where
  "single_node a = (a = ''--single'' \<or> has_prefix a ''--single='')"

definition propagate :: "string list \<Rightarrow> string \<Rightarrow> string list" where
  "propagate args want = (case flag_value args want of Some v \<Rightarrow> [want, v] | None \<Rightarrow> [])"

definition leave_cmd :: "string list \<Rightarrow> string list option" where
  "leave_cmd workload =
     (case workload of
        bin # sub # args \<Rightarrow>
          if path_base bin \<noteq> ''k0s'' \<or> sub \<noteq> ''controller'' \<or> list_ex single_node args then None
          else Some ([bin, ''etcd'', ''leave''] @ concat (map (propagate args) flags_to_propagate))
      | _ \<Rightarrow> None)"

section \<open>Where a flag's value is\<close>

text \<open>The first occurrence decides, in either of the two forms.\<close>

lemma flag_value_split:
  "flag_value args name = Some v \<Longrightarrow>
   \<exists>as bs. (args = as @ name # v # bs \<or> args = as @ (name @ ''='' @ v) # bs) \<and> flag_value as name = None"
proof (induction args)
  case (Cons a args)
  show ?case
  proof (cases "a = name \<and> args \<noteq> []")
    case True
    with Cons.prems show ?thesis
      by (intro exI [of _ "[]"] exI [of _ "tl args"]) (auto simp: neq_Nil_conv)
  next
    case no_pair: False
    show ?thesis
    proof (cases "has_prefix a (name @ ''='')")
      case True
      with Cons.prems no_pair show ?thesis
        by (intro exI [of _ "[]"] exI [of _ args]) (auto simp: has_prefix_iff)
    next
      case False
      with Cons.prems no_pair have rest: "flag_value args name = Some v" by (auto split: if_splits)
      from Cons.IH [OF rest] obtain as bs
        where s: "args = as @ name # v # bs \<or> args = as @ (name @ ''='' @ v) # bs" "flag_value as name = None"
        by blast
      from rest have "args \<noteq> []" by auto
      with no_pair have "a \<noteq> name" by blast
      with s False show ?thesis by (intro exI [of _ "a # as"] exI [of _ bs]) auto
    qed
  qed
qed simp

lemma leave_cmd_eq:
  "leave_cmd (bin # sub # args) =
     (if path_base bin = ''k0s'' \<and> sub = ''controller'' \<and> \<not> list_ex single_node args
      then Some ([bin, ''etcd'', ''leave''] @ propagate args ''--data-dir'' @ propagate args ''--status-socket'')
      else None)"
  by (simp add: leave_cmd_def flags_to_propagate_def)

text \<open>
  A node leaves etcd exactly when it is a member: the workload is a k0s controller that is not
  a single node. The command is then the workload's own binary with a fixed subcommand, and what
  follows it are only the two flags, each with a value the workload was started with.
\<close>

theorem leaves_exactly_as_a_member:
  "case leave_cmd workload of
     None \<Rightarrow> \<not> (2 \<le> length workload \<and> path_base (workload ! 0) = ''k0s'' \<and> workload ! 1 = ''controller'' \<and>
                \<not> list_ex single_node (drop 2 workload))
   | Some argv \<Rightarrow> 2 \<le> length workload \<and> path_base (workload ! 0) = ''k0s'' \<and> workload ! 1 = ''controller'' \<and>
       \<not> list_ex single_node (drop 2 workload) \<and>
       (\<exists>dirs socks. argv = [workload ! 0, ''etcd'', ''leave''] @ dirs @ socks \<and>
          (case flag_value (drop 2 workload) ''--data-dir'' of
             None \<Rightarrow> dirs = [] | Some v \<Rightarrow> dirs = [''--data-dir'', v]) \<and>
          (case flag_value (drop 2 workload) ''--status-socket'' of
             None \<Rightarrow> socks = [] | Some v \<Rightarrow> socks = [''--status-socket'', v]))"
proof (cases workload)
  case (Cons bin rest)
  show ?thesis
  proof (cases rest)
    case Nil
    with Cons show ?thesis by (simp add: leave_cmd_def)
  next
    case (Cons sub args)
    with \<open>workload = bin # rest\<close> show ?thesis
      by (simp add: leave_cmd_eq propagate_def split: option.split)
  qed
qed (simp add: leave_cmd_def)

end
