(* ===== verification/Supervisor.thy ===== *)
theory Supervisor
  imports Status
begin

text \<open>
  \<^verbatim>\<open>internal/supervise/supervise.go\<close>: the workload is started, waited for and started again with
  capped exponential backoff until the context is cancelled. Running the child is one call
  that returns when it exits; \<open>stop\<close> says of a history whether the context is cancelled. The
  callback \<open>on_exit\<close> threads a state of its own, which is the boot record in the program.
\<close>

record sup_options =
  so_command :: string
  so_args :: "string list"
  so_env :: "string list"
  so_max_backoff :: nat

definition millisecond :: nat where "millisecond = 10 ^ 6"
definition first_backoff :: nat where "first_backoff = 200 * millisecond"
definition default_max_backoff :: nat where "default_max_backoff = 10 * 10 ^ 9"

definition max_backoff :: "sup_options \<Rightarrow> nat" where
  "max_backoff o' = (if so_max_backoff o' = 0 then default_max_backoff else so_max_backoff o')"

definition next_backoff :: "sup_options \<Rightarrow> nat \<Rightarrow> nat" where
  "next_backoff o' b = (if 2 * b > max_backoff o' then max_backoff o' else 2 * b)"

definition start_call :: "sup_options \<Rightarrow> call" where
  "start_call o' = RunCmd (so_command o' # so_args o') (so_env o')"

text \<open>One run of the child: its start, which ends with its exit, and the callback.\<close>

definition run_child :: "kernel \<Rightarrow> sup_options \<Rightarrow> (err option \<Rightarrow> 'r \<Rightarrow> 'r io) \<Rightarrow> 'r \<Rightarrow> 'r io" where
  "run_child K o' on_exit r = do {
     e \<leftarrow> do_unit K (start_call o');
     on_exit e r
   }"

partial_function (option) supervise_loop ::
  "kernel \<Rightarrow> (history \<Rightarrow> bool) \<Rightarrow> sup_options \<Rightarrow> (err option \<Rightarrow> 'r \<Rightarrow> 'r io) \<Rightarrow> nat \<Rightarrow> 'r \<Rightarrow> history \<Rightarrow>
     ('r \<times> history) option"
where
  "supervise_loop K stop o' on_exit backoff r h =
     (if stop h then Some (r, h)
      else case run_state (run_child K o' on_exit r) h of
        (r1, h1) \<Rightarrow>
          if stop h1 then Some (r1, h1)
          else supervise_loop K stop o' on_exit (next_backoff o' backoff) r1
                 (snd (run_state (do_unit K (Sleep backoff)) h1)))"

definition supervise ::
  "kernel \<Rightarrow> (history \<Rightarrow> bool) \<Rightarrow> sup_options \<Rightarrow> (err option \<Rightarrow> 'r \<Rightarrow> 'r io) \<Rightarrow> 'r \<Rightarrow> history \<Rightarrow> ('r \<times> history) option"
where
  "supervise K stop o' on_exit r h = supervise_loop K stop o' on_exit first_backoff r h"

section \<open>The reference: a number of restarts\<close>

text \<open>
  \<open>restarts n\<close> is what happens while the context is not cancelled: \<open>n\<close> runs of the child, each
  followed by its pause. \<open>backoff_at\<close> is the pause after the \<open>k\<close>-th run in closed form.
\<close>

fun restarts ::
  "kernel \<Rightarrow> sup_options \<Rightarrow> (err option \<Rightarrow> 'r \<Rightarrow> 'r io) \<Rightarrow> nat \<Rightarrow> nat \<Rightarrow> 'r \<Rightarrow> history \<Rightarrow> 'r \<times> history"
where
  "restarts K o' f 0 b r h = (r, h)"
| "restarts K o' f (Suc n) b r h =
     (case run_state (run_child K o' f r) h of
        (r1, h1) \<Rightarrow> restarts K o' f n (next_backoff o' b) r1 (h1 @ [Sleep b]))"

definition backoff_at :: "sup_options \<Rightarrow> nat \<Rightarrow> nat" where
  "backoff_at o' k = (if k = 0 then first_backoff else min (first_backoff * 2 ^ k) (max_backoff o'))"

lemma next_backoff_at: "(next_backoff o' ^^ k) first_backoff = backoff_at o' k"
proof (induction k)
  case (Suc k)
  then have "(next_backoff o' ^^ Suc k) first_backoff = next_backoff o' (backoff_at o' k)" by simp
  also have "\<dots> = backoff_at o' (Suc k)"
    by (cases k) (auto simp: next_backoff_def backoff_at_def min_def)
  finally show ?case .
qed (simp add: backoff_at_def)

text \<open>The loop stops or makes one more restart.\<close>

lemma supervise_loop_restart:
  "\<not> stop h \<Longrightarrow> run_state (run_child K o' f r) h = (r1, h1) \<Longrightarrow> \<not> stop h1 \<Longrightarrow>
   supervise_loop K stop o' f b r h = supervise_loop K stop o' f (next_backoff o' b) r1 (h1 @ [Sleep b])"
  by (subst supervise_loop.simps) simp

definition keeps_going :: "kernel \<Rightarrow> (history \<Rightarrow> bool) \<Rightarrow> sup_options \<Rightarrow> (err option \<Rightarrow> 'r \<Rightarrow> 'r io) \<Rightarrow> nat \<Rightarrow> 'r \<Rightarrow> history \<Rightarrow> nat \<Rightarrow> bool" where
  "keeps_going K stop o' f b r h n =
     list_all (\<lambda>k. \<not> stop (snd (restarts K o' f k b r h)) \<and>
        \<not> stop (snd (run_state (run_child K o' f (fst (restarts K o' f k b r h))) (snd (restarts K o' f k b r h))))) [0..<n]"

lemma keeps_going_iff:
  "keeps_going K stop o' f b r h n \<longleftrightarrow>
   (\<forall>k < n. \<not> stop (snd (restarts K o' f k b r h)) \<and>
      \<not> stop (snd (run_state (run_child K o' f (fst (restarts K o' f k b r h))) (snd (restarts K o' f k b r h)))))"
  by (auto simp: keeps_going_def list_all_iff)

lemma supervise_loop_restarts:
  "keeps_going K stop o' f b r h n \<Longrightarrow>
   supervise_loop K stop o' f b r h =
     (case restarts K o' f n b r h of (r', h') \<Rightarrow> supervise_loop K stop o' f ((next_backoff o' ^^ n) b) r' h')"
proof (induction n arbitrary: b r h)
  case (Suc n)
  obtain r1 h1 where run: "run_state (run_child K o' f r) h = (r1, h1)" by fastforce
  have "\<forall>k < Suc n. \<not> stop (snd (restarts K o' f k b r h)) \<and>
      \<not> stop (snd (run_state (run_child K o' f (fst (restarts K o' f k b r h))) (snd (restarts K o' f k b r h))))"
    using Suc.prems by (simp add: keeps_going_iff)
  note all = this [rule_format]
  have "\<not> stop h" and "\<not> stop h1" using all [of 0] run by simp_all
  note first = supervise_loop_restart [OF this(1) run this(2), of b]
  have "keeps_going K stop o' f (next_backoff o' b) r1 (h1 @ [Sleep b]) n"
    using all [of "Suc _"] run by (simp add: keeps_going_iff)
  from Suc.IH [OF this] first run show ?case by (simp add: funpow_swap1)
qed simp

text \<open>How often the child was started in a history.\<close>

definition starts :: "sup_options \<Rightarrow> history \<Rightarrow> nat" where
  "starts o' h = length (filter (\<lambda>c. c = start_call o') h)"

lemma starts_append [simp]: "starts o' (h @ h') = starts o' h + starts o' h'"
  by (simp add: starts_def)

lemma starts_start [simp]: "starts o' (start_call o' # h) = Suc (starts o' h)"
  by (simp add: starts_def)

lemma supervise_loop_returns:
  assumes cancelled: "\<And>h. N \<le> starts o' h \<Longrightarrow> stop h"
    and quiet: "\<And>e r. emits (\<lambda>c. c \<noteq> start_call o') (f e r)"
    and "starts o' h \<le> N"
  shows "\<exists>r' h'. supervise_loop K stop o' f b r h = Some (r', h') \<and> stop h' \<and> starts o' h' \<le> N"
  using assms(3)
proof (induction "N - starts o' h" arbitrary: b r h rule: less_induct)
  case less
  show ?case
  proof (cases "stop h")
    case True
    with less.prems show ?thesis by (subst supervise_loop.simps) simp
  next
    case False
    with cancelled less.prems have room: "starts o' h < N" by (meson le_less_linear)
    obtain r1 h1 where run: "run_state (run_child K o' f r) h = (r1, h1)" by fastforce
    then have "snd (run_state (f (answer_unit K h (start_call o')) r) (h @ [start_call o'])) = h1"
      by (simp add: run_child_def)
    with quiet obtain cs where cs: "h1 = (h @ [start_call o']) @ cs" "list_all (\<lambda>c. c \<noteq> start_call o') cs"
      by (metis emitsE)
    then have "starts o' cs = 0" by (simp add: starts_def filter_empty_conv list_all_iff)
    with cs have n: "starts o' h1 = Suc (starts o' h)" by (simp add: starts_def)
    show ?thesis
    proof (cases "stop h1")
      case True
      with False run n room show ?thesis by (subst supervise_loop.simps) simp
    next
      case going: False
      have "starts o' (h1 @ [Sleep b]) = starts o' h1" by (simp add: starts_def start_call_def)
      with n room less.hyps [of "h1 @ [Sleep b]" "next_backoff o' b" r1]
      show ?thesis by (simp add: supervise_loop_restart [OF False run going])
    qed
  qed
qed

section \<open>Properties\<close>

text \<open>
  C21. The workload is restarted as long as the context lives: after any number of exits the loop
  is where the reference says, with the pauses 200ms, 400ms and so on, doubled each time and
  capped, whatever the exits were.
\<close>

theorem workload_is_restarted_with_backoff:
  assumes "keeps_going K stop o' f first_backoff r h n"
  shows "supervise K stop o' f r h =
    (case restarts K o' f n first_backoff r h of
       (r', h') \<Rightarrow> supervise_loop K stop o' f (backoff_at o' n) r' h')"
  using supervise_loop_restarts [OF assms] by (simp add: supervise_def next_backoff_at)

theorem workload_is_restarted_with_backoff_witness:
  "supervise quiet_kernel (\<lambda>_. False) \<lparr>so_command = ''k0s'', so_args = [], so_env = [], so_max_backoff = 0\<rparr>
       (\<lambda>e r. give r) () [] =
    (case restarts quiet_kernel \<lparr>so_command = ''k0s'', so_args = [], so_env = [], so_max_backoff = 0\<rparr>
       (\<lambda>e r. give r) 2 first_backoff () [] of
       (r', h') \<Rightarrow> supervise_loop quiet_kernel (\<lambda>_. False)
         \<lparr>so_command = ''k0s'', so_args = [], so_env = [], so_max_backoff = 0\<rparr> (\<lambda>e r. give r)
         (backoff_at \<lparr>so_command = ''k0s'', so_args = [], so_env = [], so_max_backoff = 0\<rparr> 2) r' h')"
  by (rule workload_is_restarted_with_backoff) (simp add: keeps_going_def list_all_iff)

text \<open>
  Cancelling ends the supervision: if the context is cancelled by the time the child was
  started \<open>N\<close> times, the loop returns, on a cancelled context, and never started it more often.
\<close>

theorem supervision_ends_when_cancelled:
  assumes "\<And>h. N \<le> starts o' h \<Longrightarrow> stop h"
    and "\<And>e r. emits (\<lambda>c. c \<noteq> start_call o') (f e r)" and "starts o' h \<le> N"
  shows "\<exists>r' h'. supervise K stop o' f r h = Some (r', h') \<and> stop h' \<and> starts o' h' \<le> N"
  using supervise_loop_returns [where N = N and stop = stop and f = f and o' = o', OF assms]
  by (simp add: supervise_def)

definition k0s_worker :: sup_options where
  "k0s_worker = \<lparr>so_command = ''k0s'', so_args = [''worker''], so_env = [], so_max_backoff = 10 * 10 ^ 9\<rparr>"

theorem supervision_ends_when_cancelled_witness:
  "\<exists>r' h'. supervise quiet_kernel (\<lambda>h. 3 \<le> starts k0s_worker h) k0s_worker (\<lambda>e r. give r) () [] = Some (r', h') \<and>
     3 \<le> starts k0s_worker h' \<and> starts k0s_worker h' \<le> 3"
  by (rule supervision_ends_when_cancelled) (simp_all add: emits_give starts_def)

text \<open>
  A restarted workload is reported as stopped: the record says it runs until the first exit,
  and from then on, while the second, third and every later child runs, it says that nothing
  does, because only \<^verbatim>\<open>SetChild\<close> sets the flag and nothing calls it at a start.
\<close>

theorem restarted_workload_reported_stopped:
  assumes "0 < n"
  shows "\<not> ce_running (br_child (rc_rec (fst (restarts K o' child_exited n b r h)))) \<and>
    ce_restarts (br_child (rc_rec (fst (restarts K o' child_exited n b r h)))) =
      ce_restarts (br_child (rc_rec r)) + n"
  using assms
proof (induction n arbitrary: b r h)
  case (Suc n)
  obtain r1 h1 where run: "run_state (run_child K o' child_exited r) h = (r1, h1)" by fastforce
  then have r1: "\<exists>e. rc_rec r1 = exit_child e (rc_rec r)"
    by (auto simp: run_child_def child_exited_def change_def Let_def split: prod.splits)
  show ?case
  proof (cases "n = 0")
    case True
    with run r1 show ?thesis by (auto simp: exit_child_def)
  next
    case False
    with Suc.IH [of "next_backoff o' b" r1 "h1 @ [Sleep b]"] run r1 show ?thesis
      by (auto simp: exit_child_def)
  qed
qed simp

theorem restarted_workload_reported_stopped_witness:
  "\<not> ce_running (br_child (rc_rec (fst (restarts quiet_kernel k0s_worker child_exited 1 first_backoff
      \<lparr>rc_rec = put_child [''k0s'', ''worker''] (new_record ''t0''), rc_sink = None\<rparr> []))))"
  by (rule restarted_workload_reported_stopped [THEN conjunct1]) simp

end
