(* ===== verification/Shutdown.thy ===== *)
theory Shutdown
  imports Scripts "HOL-Library.Sublist"
begin

text \<open>
  \<^verbatim>\<open>internal/shutdown/shutdown.go\<close>: everything is stopped, the disks are flushed, what is
  mounted is detached deepest first, the root is remounted read-only, and the machine is
  handed back to the kernel.
\<close>

definition power_off :: nat where "power_off = 0x4321fedc"
definition reboot_restart :: nat where "reboot_restart = 0x1234567"
definition mnt_detach :: nat where "mnt_detach = 2"
definition ms_remount_rdonly :: nat where "ms_remount_rdonly = 0x20 OR 0x1"
definition sig_term :: nat where "sig_term = 15"
definition sig_kill :: nat where "sig_kill = 9"
definition term_grace :: nat where "term_grace = 5 * 10 ^ 9"

record shutdowner =
  sd_mounts :: "(err + string list) io"
  sd_sync :: "err option io"
  sd_unmount :: "string \<Rightarrow> nat \<Rightarrow> err option io"
  sd_mount :: "string \<Rightarrow> string \<Rightarrow> string \<Rightarrow> nat \<Rightarrow> string \<Rightarrow> err option io"
  sd_kill_all :: "nat \<Rightarrow> err option io"
  sd_reboot :: "nat \<Rightarrow> err option io"

section \<open>The order of detaching\<close>

definition pseudo_roots :: "string list" where
  "pseudo_roots = [''/proc'', ''/sys'', ''/dev'', ''/run'', ''/tmp'']"

definition is_pseudo :: "string \<Rightarrow> bool" where
  "is_pseudo target = list_ex (\<lambda>p. target = p \<or> has_prefix target (p @ ''/'')) pseudo_roots"

definition depth :: "string \<Rightarrow> nat" where
  "depth target = length (filter (\<lambda>c. c = CHR ''/'') target)"

definition detachable :: "string \<Rightarrow> bool" where
  "detachable target = (target \<noteq> ''/'' \<and> \<not> is_pseudo target)"

text \<open>\<^verbatim>\<open>sort.SliceStable\<close> by falling depth: \<^const>\<open>sort_key\<close> is stable.\<close>

definition unmount_order :: "string list \<Rightarrow> string list" where
  "unmount_order targets = sort_key (\<lambda>t. - int (depth t)) (filter detachable targets)"

section \<open>Do\<close>

fun unmount_all :: "shutdowner \<Rightarrow> string list \<Rightarrow> unit io" where
  "unmount_all s [] = give ()"
| "unmount_all s (t # ts) = do {
     _ \<leftarrow> sd_unmount s t mnt_detach;
     unmount_all s ts
   }"

definition shutdown_do :: "kernel \<Rightarrow> shutdowner \<Rightarrow> nat \<Rightarrow> err option io" where
  "shutdown_do K s cmd = do {
     _ \<leftarrow> sd_kill_all s sig_term;
     _ \<leftarrow> do_unit K (Sleep term_grace);
     _ \<leftarrow> sd_kill_all s sig_kill;
     _ \<leftarrow> sd_sync s;
     r \<leftarrow> sd_mounts s;
     (case r of
        Inl e \<Rightarrow> give (Some (wrap ''read mounts: %w'' [] e))
      | Inr targets \<Rightarrow> do {
          _ \<leftarrow> unmount_all s (unmount_order targets);
          _ \<leftarrow> sd_sync s;
          _ \<leftarrow> sd_mount s [] ''/'' [] ms_remount_rdonly [];
          sd_reboot s cmd
        })
   }"

definition sys_shutdowner :: "kernel \<Rightarrow> shutdowner" where
  "sys_shutdowner K =
     \<lparr>sd_mounts = sys_mount_targets K, sd_sync = sys_sync K, sd_unmount = sys_unmount K,
      sd_mount = sys_mount K, sd_kill_all = sys_kill_all K, sd_reboot = sys_reboot K\<rparr>"

section \<open>The contract of a shutdowner\<close>

definition stop_calls :: "call list" where
  "stop_calls = [Kill (-1) sig_term, Sleep term_grace, Kill (-1) sig_kill, Sync]"

definition detach_calls :: "string list \<Rightarrow> nat \<Rightarrow> call list" where
  "detach_calls targets cmd =
     map (\<lambda>t. UnmountFs t mnt_detach) (unmount_order targets) @
     [Sync, MountFs [] ''/'' [] ms_remount_rdonly [], Reboot cmd]"

locale stopping =
  fixes K :: kernel and s :: shutdowner
  assumes kill_call: "sd_kill_all s n = do_unit K (Kill (-1) n)"
    and sync_call: "sd_sync s = do_unit K Sync"
    and unmount_call: "sd_unmount s t flags = do_unit K (UnmountFs t flags)"
    and mount_call: "sd_mount s src tgt fs flags data = do_unit K (MountFs src tgt fs flags data)"
    and reboot_call: "sd_reboot s cmd = do_unit K (Reboot cmd)"
begin

lemma unmount_all_calls:
  "run_state (unmount_all s ts) h = ((), h @ map (\<lambda>t. UnmountFs t mnt_detach) ts)"
  by (induction ts arbitrary: h) (simp_all add: unmount_call)

lemma shutdown_calls:
  assumes "run_state (sd_mounts s) (h @ stop_calls) = (r, h1)"
  shows "run_state (shutdown_do K s cmd) h =
    (case r of
       Inl e \<Rightarrow> (Some (wrap ''read mounts: %w'' [] e), h1)
     | Inr ts \<Rightarrow> (answer_unit K (butlast (h1 @ detach_calls ts cmd)) (Reboot cmd), h1 @ detach_calls ts cmd))"
  using assms
  by (simp add: shutdown_do_def stop_calls_def kill_call sync_call mount_call reboot_call
      unmount_all_calls detach_calls_def butlast_append split: sum.split)

end

interpretation syssd: stopping K "sys_shutdowner K" for K
  by unfold_locales (simp_all add: sys_shutdowner_def sys_defs)

section \<open>Ordering\<close>

lemma depth_append [simp]: "depth (s @ t) = depth s + depth t"
  by (simp add: depth_def)

lemma sorted_before:
  assumes "sorted (map f xs)" and "x \<in> set xs" and "y \<in> set xs" and "f x < f y"
  shows "\<exists>us vs ws. xs = us @ x # vs @ y # ws"
proof -
  from assms(2) obtain us rest where xs: "xs = us @ x # rest" by (meson split_list)
  have "y \<notin> set us"
  proof
    assume "y \<in> set us"
    then have "f y \<le> f x" using assms(1) by (simp add: xs sorted_append)
    with assms(4) show False by simp
  qed
  moreover have "y \<noteq> x" using assms(4) by auto
  ultimately have "y \<in> set rest" using assms(3) by (simp add: xs)
  then obtain vs ws where "rest = vs @ y # ws" by (meson split_list)
  with xs show ?thesis by blast
qed

lemma set_unmount_order [simp]: "set (unmount_order ts) = {t \<in> set ts. detachable t}"
  by (auto simp: unmount_order_def)

section \<open>Properties\<close>

text \<open>
  C32. A mount is detached before the one it lies in, neither the root nor a kernel filesystem is
  detached at all, everything else is, and mounts of one depth keep the order of the table.
\<close>

theorem children_are_unmounted_first:
  assumes "child \<in> set targets" and "parent \<in> set targets"
    and "child = parent @ ''/'' @ rest" and "detachable child" and "detachable parent"
  shows "(\<exists>us vs ws. unmount_order targets = us @ child # vs @ parent # ws) \<and>
    set (unmount_order targets) = {t \<in> set targets. t \<noteq> ''/'' \<and> \<not> is_pseudo t} \<and>
    (\<forall>n. filter (\<lambda>t. depth t = n) (unmount_order targets) =
         filter (\<lambda>t. depth t = n \<and> detachable t) targets)"
proof (intro conjI allI)
  have "depth parent < depth child" using assms(3) by (simp add: depth_def)
  then show "\<exists>us vs ws. unmount_order targets = us @ child # vs @ parent # ws"
    using assms sorted_before [of "\<lambda>t. - int (depth t)" "unmount_order targets" child parent]
    by (simp add: unmount_order_def)
  show "set (unmount_order targets) = {t \<in> set targets. t \<noteq> ''/'' \<and> \<not> is_pseudo t}"
    by (simp add: detachable_def)
  fix n
  have "filter (\<lambda>t. - int (depth t) = - int n) (unmount_order targets) =
      filter (\<lambda>t. - int (depth t) = - int n) (filter detachable targets)"
    unfolding unmount_order_def by (rule sort_key_stable)
  then show "filter (\<lambda>t. depth t = n) (unmount_order targets) =
      filter (\<lambda>t. depth t = n \<and> detachable t) targets" by (simp add: conj_commute)
qed

theorem children_are_unmounted_first_witness:
  "\<exists>us vs ws. unmount_order [''/'', ''/var'', ''/proc'', ''/var/lib''] = us @ ''/var/lib'' # vs @ ''/var'' # ws"
proof -
  have d: "detachable ''/var''" "detachable ''/var/lib''"
    by (simp_all add: detachable_def is_pseudo_def pseudo_roots_def has_prefix_def)
  show ?thesis
    by (rule conjunct1 [OF children_are_unmounted_first [where rest = "''lib''"]]) (simp_all add: d)
qed

text \<open>
  The machine stops whatever fails on the way: if the mount table can be read, the calls are
  the signals, the flush, every detachment, the flush, the read-only remount of the root and
  \<^verbatim>\<open>reboot(2)\<close>, in this order, and the answer is that of \<^verbatim>\<open>reboot(2)\<close>; if it cannot,
  nothing is detached and the machine is not stopped.
\<close>

theorem shutdown_always_reaches_reboot:
  "case run_state (sys_mount_targets K) (h @ stop_calls) of (table, h1) \<Rightarrow>
     snd (run_state (shutdown_do K (sys_shutdowner K) cmd) h) =
       (case table of Inl e \<Rightarrow> h1
        | Inr ts \<Rightarrow> h1 @ map (\<lambda>t. UnmountFs t mnt_detach) (unmount_order ts) @
            [Sync, MountFs [] ''/'' [] ms_remount_rdonly [], Reboot cmd]) \<and>
     (fst (run_state (shutdown_do K (sys_shutdowner K) cmd) h) =
       (case table of Inl e \<Rightarrow> Some (wrap ''read mounts: %w'' [] e)
        | Inr ts \<Rightarrow> answer_unit K (butlast (h1 @ detach_calls ts cmd)) (Reboot cmd)))"
proof -
  obtain table h1 where t: "run_state (sys_mount_targets K) (h @ stop_calls) = (table, h1)" by fastforce
  then have "run_state (sd_mounts (sys_shutdowner K)) (h @ stop_calls) = (table, h1)"
    by (simp add: sys_shutdowner_def)
  from syssd.shutdown_calls [OF this] t show ?thesis
    by (simp add: detach_calls_def split: sum.split)
qed

end
