(* ===== verification/Boot.thy ===== *)
theory Boot
  imports Node_Setup Host_Requests Pseudo_Mounts Datavol Run_Plan Etcd Supervisor Shutdown
begin

text \<open>
  The life of the init process: \<^verbatim>\<open>boot\<close>, \<^verbatim>\<open>leaveEtcd\<close> and the wait loop of
  \<^verbatim>\<open>cmd/k0smos/init_linux.go\<close>, and \<^verbatim>\<open>gate\<close>, \<^verbatim>\<open>readCmdline\<close> of \<^verbatim>\<open>cmd/k0smos/main.go\<close>. The stages are those
  of the other theories, in the order of the code. \<open>start_node\<close> goes up to the start of the
  workload; its value is \<^term>\<open>None\<close> when an exchange of the DHCP client does not come to an end
  or the ISO reader panics. What the goroutines do while the process waits is a list of calls.
\<close>

section \<open>Starting\<close>

definition cmdline_path :: string where "cmdline_path = ''/proc/cmdline''"

definition gate :: "int \<Rightarrow> err option" where
  "gate pid =
     (if pid \<noteq> 1 then Some (Errorf ''k0smos is an init (PID1), not a CLI; got pid %d'' [dec_int pid] None) else None)"

definition read_cmdline :: "kernel \<Rightarrow> string \<Rightarrow> string io" where
  "read_cmdline K path = do {
     r \<leftarrow> do_bytes K (ReadFile path);
     give (case r of Inl _ \<Rightarrow> [] | Inr b \<Rightarrow> trim_space (to_text b))
   }"

text \<open>What a started node runs with.\<close>

record started =
  st_config :: config
  st_workload :: "string list"
  st_env :: "string list"
  st_port :: string
  st_inputs :: "string list option"
  st_leases :: "(string \<times> int \<times> lease) list"

datatype outcome = Failed err | Replaced | Started started

text \<open>A stage whose failure ends the boot records it and says so.\<close>

definition vital :: "platform \<Rightarrow> string \<Rightarrow> string \<Rightarrow> err option io \<Rightarrow> err option node" where
  "vital P name fmt m = do {
     r \<leftarrow> act m;
     _ \<leftarrow> log_step P name r [];
     pass (case r of None \<Rightarrow> None | Some e \<Rightarrow> Some (wrap fmt [] e))
   }"

text \<open>The writable overlays of a read-only root, and the data volume: failures are only reported.\<close>

definition overlay_root :: "kernel \<Rightarrow> unit io" where
  "overlay_root K = do {
     ro \<leftarrow> sys_is_read_only K ''/'';
     (case ro of
        Inr True \<Rightarrow> do { _ \<leftarrow> make_writable (sys_mounter K) writable_paths; give () }
      | _ \<Rightarrow> give ())
   }"

definition data_options :: "config \<Rightarrow> options" where
  "data_options cfg =
     \<lparr>opt_spec = Data cfg, opt_label = DataLabel cfg, opt_fstype = DataFSType cfg, opt_mount_point = DataDir cfg\<rparr>"

definition mount_data :: "kernel \<Rightarrow> config \<Rightarrow> unit io" where
  "mount_data K cfg = do {
     r \<leftarrow> prepare (sys_volume K) (data_options cfg);
     (case r of
        (res, None) \<Rightarrow>
          (if res_device res \<noteq> [] then do { _ \<leftarrow> sys_mkdir K ''/var/opt'' perm_0755; give () } else give ())
      | (_, Some _) \<Rightarrow> give ())
   }"

text \<open>The interfaces in order; the first resolver a lease names is kept unless there is one.\<close>

fun set_up_nics ::
  "platform \<Rightarrow> config \<Rightarrow> nic list \<Rightarrow> string \<Rightarrow> (string \<times> int \<times> lease) list \<Rightarrow> world \<Rightarrow>
     ((string \<times> (string \<times> int \<times> lease) list) \<times> world) option"
where
  "set_up_nics P cfg [] dns leases w = Some ((dns, leases), w)"
| "set_up_nics P cfg (n # ns) dns leases w =
     (if nic_dhcp n then do {
        r \<leftarrow> configure_dhcp P cfg (nic_name n) w;
        (case r of
           (Inl _, w1) \<Rightarrow> set_up_nics P cfg ns dns leases w1
         | (Inr (lease_dns, fd, l), w1) \<Rightarrow>
             set_up_nics P cfg ns (if dns = [] then lease_dns else dns) (leases @ [(nic_name n, fd, l)]) w1)
      }
      else (case run_state (act (configure (sys_configurer (pf_kernel P)) (nic_name n) (nic_addr n) (nic_gateway n))) w of
              (Some _, w1) \<Rightarrow> set_up_nics P cfg ns dns leases w1
            | (None, w1) \<Rightarrow>
                set_up_nics P cfg ns dns leases
                  (snd (run_state (log_step P ''network'' None (nic_name n @ '' '' @ nic_addr n @ '' gw '' @ nic_gateway n)) w1))))"

definition write_resolv :: "kernel \<Rightarrow> string \<Rightarrow> unit io" where
  "write_resolv K dns =
     (if dns = [] then give ()
      else do {
        _ \<leftarrow> sys_write_file K ''/etc/resolv.conf'' (to_bytes (''nameserver '' @ dns @ [newline])) perm_0644;
        give () })"

definition set_node_name :: "platform \<Rightarrow> string \<Rightarrow> unit node" where
  "set_node_name P name = do {
     e \<leftarrow> act (sys_sethostname (pf_kernel P) name);
     (case e of Some _ \<Rightarrow> pass () | None \<Rightarrow> recording (set_hostname name))
   }"

text \<open>From the metadata on: the network, the name, the control port and the workload.\<close>

definition run_workload_stage ::
  "platform \<Rightarrow> config \<Rightarrow> user_data \<Rightarrow> (string \<times> int \<times> lease) list \<Rightarrow> started node" where
  "run_workload_stage P cfg ud leases = do {
     let K = pf_kernel P;
     port \<leftarrow> act (find_control_port K control_port_name);
     inputs \<leftarrow> act (watch_power_button K);
     let pl = plan_of ud;
     _ \<leftarrow> act (run_actions (sys_applier K) (p_actions pl));
     let argv = (case p_workload pl of Some a \<Rightarrow> if a \<noteq> [] then a else Exec cfg | None \<Rightarrow> Exec cfg);
     _ \<leftarrow> recording (set_child argv);
     pass \<lparr>st_config = cfg, st_workload = argv, st_env = p_env pl, st_port = port, st_inputs = inputs, st_leases = leases\<rparr>
   }"

definition name_node ::
  "platform \<Rightarrow> config \<Rightarrow> user_data \<Rightarrow> meta_data \<Rightarrow> string \<Rightarrow> (string \<times> int \<times> lease) list \<Rightarrow> started node" where
  "name_node P cfg ud md dns leases = do {
     _ \<leftarrow> act (write_resolv (pf_kernel P) dns);
     _ \<leftarrow> set_node_name P (if md_hostname md \<noteq> [] then md_hostname md else Hostname cfg);
     run_workload_stage P cfg ud leases
   }"

definition network_stage ::
  "platform \<Rightarrow> config \<Rightarrow> user_data \<Rightarrow> meta_data \<Rightarrow> world \<Rightarrow> (outcome \<times> world) option" where
  "network_stage P cfg ud md w =
     (let K = pf_kernel P in
      case run_state (vital P ''loopback'' ''net: %w'' (net_up (sys_configurer K))) w of
        (Some e, w1) \<Rightarrow> Some (Failed e, w1)
      | (None, w1) \<Rightarrow> do {
          r \<leftarrow> set_up_nics P cfg (nics cfg) (DNS cfg) [] w1;
          (case r of ((dns, leases), w2) \<Rightarrow>
             (case run_state (name_node P cfg ud md dns leases) w2 of
                (s, w3) \<Rightarrow> Some (Started s, w3))) })"

definition storage_stage :: "platform \<Rightarrow> config \<Rightarrow> world \<Rightarrow> (outcome \<times> world) option" where
  "storage_stage P cfg w =
     (let K = pf_kernel P in
      case run_state (do {
          _ \<leftarrow> act (overlay_root K);
          _ \<leftarrow> act (mount_data K cfg);
          vital P ''cgroup2'' ''cgroup: %w'' (cgroup_setup (sys_controller K)) }) w of
        (Some e, w1) \<Rightarrow> Some (Failed e, w1)
      | (None, w1) \<Rightarrow> do {
          r \<leftarrow> lift_opt (load_metadata P) w1;
          (case r of ((ud, md), w2) \<Rightarrow>
             network_stage P (apply_machine_config (ud_machine ud) cfg) ud md w2) })"

text \<open>The record moves to its file, the command line is read, and the search path set.\<close>

definition read_config :: "platform \<Rightarrow> config node" where
  "read_config P = do {
     _ \<leftarrow> record_to P bootrecord_path;
     line \<leftarrow> act (read_cmdline (pf_kernel P) cmdline_path);
     _ \<leftarrow> act (do_unit (pf_kernel P) (Setenv ''PATH'' (Path (parse line))));
     pass (parse line)
   }"

definition start_node :: "platform \<Rightarrow> bool \<Rightarrow> world \<Rightarrow> (outcome \<times> world) option" where
  "start_node P switched w =
     (let K = pf_kernel P in
      case run_state (do {
          _ \<leftarrow> recording (set_switched switched);
          vital P ''mounts'' ''mounts: %w'' (ensure_mounts (sys_mounter K)) }) w of
        (Some e, w1) \<Rightarrow> Some (Failed e, w1)
      | (None, w1) \<Rightarrow>
          (case run_state (read_config P) w1 of
             (cfg, w2) \<Rightarrow> do {
               r \<leftarrow> load_modules P cfg w2;
               (case r of (_, w3) \<Rightarrow>
                  if Root cfg \<noteq> no_root_spec \<and> \<not> switched
                  then (case run_state (pivot P cfg) w3 of
                          (Some e, w4) \<Rightarrow> Some (Failed (wrap ''switch root: %w'' [] e), w4)
                        | (None, w4) \<Rightarrow> Some (Replaced, w4))
                  else storage_stage P cfg w3) }))"

section \<open>Waiting and stopping\<close>

text \<open>
  What the loop can select: a signal, a command from the control port or its closing, a press of
  the button or its closing, the end of the context. A closed channel is not looked at again.
\<close>

datatype wait_event = Signal | Host "command option" | Button bool | Cancelled

fun wait_loop :: "bool \<Rightarrow> bool \<Rightarrow> wait_event list \<Rightarrow> nat option" where
  "wait_loop host btn [] = None"
| "wait_loop host btn (Signal # evs) = Some power_off"
| "wait_loop host btn (Cancelled # evs) = Some power_off"
| "wait_loop host btn (Host c # evs) =
     (if \<not> host then wait_loop host btn evs
      else (case c of
              None \<Rightarrow> wait_loop False btn evs
            | Some RebootMachine \<Rightarrow> Some reboot_restart
            | Some PowerOff \<Rightarrow> Some power_off))"
| "wait_loop host btn (Button pressed # evs) =
     (if \<not> btn then wait_loop host btn evs
      else if pressed then Some power_off else wait_loop host False evs)"

definition child_grace :: nat where "child_grace = 5 * 10 ^ 9"

definition leave_etcd :: "kernel \<Rightarrow> string list \<Rightarrow> unit io" where
  "leave_etcd K workload =
     (case leave_cmd workload of
        None \<Rightarrow> give ()
      | Some argv \<Rightarrow> do { _ \<leftarrow> do_unit K (RunCmd argv []); give () })"

text \<open>\<open>child_done\<close>: the supervisor ended within the grace period after it was cancelled.\<close>

definition stop_node :: "kernel \<Rightarrow> string list \<Rightarrow> bool \<Rightarrow> nat \<Rightarrow> err option io" where
  "stop_node K workload child_done how = do {
     _ \<leftarrow> leave_etcd K workload;
     _ \<leftarrow> (if child_done then give () else do { _ \<leftarrow> do_unit K (Sleep child_grace); give () });
     shutdown_do K (sys_shutdowner K) how
   }"

text \<open>The options the workload is supervised with.\<close>

definition supervised :: "started \<Rightarrow> sup_options" where
  "supervised s =
     \<lparr>so_command = hd (st_workload s), so_args = tl (st_workload s), so_env = st_env s, so_max_backoff = 10 * 10 ^ 9\<rparr>"

text \<open>
  The whole life: \<open>busy\<close> is what the goroutines did until the event that ends the waiting. The
  result is the outcome of the start, or what \<open>stop_node\<close> answers; \<^term>\<open>None\<close> inside is a node
  that is still waiting.
\<close>

definition node_life ::
  "platform \<Rightarrow> bool \<Rightarrow> call list \<Rightarrow> wait_event list \<Rightarrow> bool \<Rightarrow> world \<Rightarrow>
     ((outcome \<times> err option option) \<times> history) option"
where
  "node_life P switched busy evs child_done w = do {
     r \<leftarrow> start_node P switched w;
     (case r of
        (Started s, w1) \<Rightarrow>
          (case wait_loop (st_port s \<noteq> []) (st_inputs s \<noteq> None) evs of
             None \<Rightarrow> Some ((Started s, None), w_hist w1 @ busy)
           | Some how \<Rightarrow>
               (case run_state (stop_node (pf_kernel P) (st_workload s) child_done how) (w_hist w1 @ busy) of
                  (e, h) \<Rightarrow> Some ((Started s, Some e), h)))
      | (out, w1) \<Rightarrow> Some ((out, None), w_hist w1))
   }"

section \<open>How a start can end\<close>

text \<open>
  What the kernel answers to the reading of \<^verbatim>\<open>/proc/cmdline\<close> in a start: after the kernel filesystems were
  mounted and the boot record was moved to its file.
\<close>

definition cmdline_of_boot :: "platform \<Rightarrow> bool \<Rightarrow> world \<Rightarrow> string" where
  "cmdline_of_boot P switched w =
     (let w1 = snd (run_state (do {
            _ \<leftarrow> recording (set_switched switched);
            vital P ''mounts'' ''mounts: %w'' (ensure_mounts (sys_mounter (pf_kernel P))) }) w);
          w2 = snd (run_state (record_to P bootrecord_path) w1)
      in case answer_bytes (pf_kernel P) (w_hist w2) (ReadFile ''/proc/cmdline'') of
           Inl _ \<Rightarrow> [] | Inr b \<Rightarrow> trim_space (to_text b))"

text \<open>The user-data the boot reads: after the modules were loaded and the storage was set up.\<close>

definition metadata_of_boot :: "platform \<Rightarrow> bool \<Rightarrow> world \<Rightarrow> (user_data \<times> meta_data) option" where
  "metadata_of_boot P switched w =
     (let w1 = snd (run_state (do {
            _ \<leftarrow> recording (set_switched switched);
            vital P ''mounts'' ''mounts: %w'' (ensure_mounts (sys_mounter (pf_kernel P))) }) w)
      in case run_state (read_config P) w1 of (cfg, w2) \<Rightarrow>
           (case load_modules P cfg w2 of
              None \<Rightarrow> None
            | Some (_, w3) \<Rightarrow>
                let w4 = snd (run_state (do {
                       _ \<leftarrow> act (overlay_root (pf_kernel P));
                       _ \<leftarrow> act (mount_data (pf_kernel P) cfg);
                       vital P ''cgroup2'' ''cgroup: %w'' (cgroup_setup (sys_controller (pf_kernel P))) }) w3)
                in fst (run_state (load_metadata P) w4)))"

text \<open>The workload of a configuration and user-data: the last install command, or else the configured one.\<close>

definition installs :: "user_data \<Rightarrow> string list list" where
  "installs ud = filter is_install (ud_runcmd ud)"

definition wanted_workload :: "string list \<Rightarrow> user_data \<Rightarrow> string list" where
  "wanted_workload configured ud =
     (if installs ud = [] then configured else fst (translate_install (last (installs ud))))"

lemma fold_plan_installs:
  "p_workload (fold plan_command cmds p) =
     (if filter is_install cmds = [] then p_workload p else Some (fst (translate_install (last (filter is_install cmds)))))"
proof (induction cmds arbitrary: p)
  case (Cons c cmds)
  have "p_workload (plan_command c p) = (if is_install c then Some (fst (translate_install c)) else p_workload p)"
    by (auto simp: plan_command_def is_install_def Let_def case_prod_beta split: option.split)
  with Cons.IH [of "plan_command c p"] show ?case by simp
qed simp

lemma installed_proper: "installs ud \<noteq> [] \<Longrightarrow> proper_workload (wanted_workload c ud)"
proof -
  assume i: "installs ud \<noteq> []"
  then have "last (installs ud) \<in> set (installs ud)" by (rule last_in_set)
  then have "is_install (last (installs ud))" by (simp add: installs_def)
  with install_workload i show ?thesis by (simp add: wanted_workload_def)
qed

lemma run_workload_stage_chosen:
  "st_workload (fst (run_state (run_workload_stage P cfg ud leases) w)) = wanted_workload (Exec cfg) ud"
proof -
  have p: "p_workload (plan_of ud) = (if installs ud = [] then None else Some (wanted_workload (Exec cfg) ud))"
    using fold_plan_installs [of "ud_runcmd ud" no_plan] by (simp add: plan_of_def installs_def wanted_workload_def no_plan_def)
  have "installs ud \<noteq> [] \<Longrightarrow> wanted_workload (Exec cfg) ud \<noteq> []"
    using installed_proper [of ud "Exec cfg"] by (auto simp: proper_workload_def)
  with p show ?thesis
    by (auto simp: run_workload_stage_def Let_def wanted_workload_def split: prod.split)
qed

lemma name_node_chosen: "st_workload (fst (run_state (name_node P cfg ud md dns leases) w)) = wanted_workload (Exec cfg) ud"
  by (simp add: name_node_def run_workload_stage_chosen split: prod.split)

lemma network_stage_outcome:
  assumes "network_stage P cfg ud md w = Some (out, w')"
  shows "(\<exists>e. out = Failed (wrap ''net: %w'' [] e)) \<or> (\<exists>s. out = Started s \<and> st_workload s = wanted_workload (Exec cfg) ud)"
  using assms name_node_chosen [of P cfg ud md]
  by (auto simp: network_stage_def vital_def Let_def split: prod.splits option.splits bind_splits) (metis fst_conv)+

lemma storage_stage_outcome:
  assumes "storage_stage P cfg w = Some (out, w')"
  shows "(\<exists>e. out = Failed (wrap ''net: %w'' [] e) \<or> out = Failed (wrap ''cgroup: %w'' [] e)) \<or>
    (\<exists>s ud md. out = Started s \<and> st_workload s = wanted_workload (Exec cfg) ud \<and>
       fst (run_state (load_metadata P) (snd (run_state (do {
          _ \<leftarrow> act (overlay_root (pf_kernel P));
          _ \<leftarrow> act (mount_data (pf_kernel P) cfg);
          vital P ''cgroup2'' ''cgroup: %w'' (cgroup_setup (sys_controller (pf_kernel P))) }) w))) = Some (ud, md))"
proof -
  let ?m = "do { _ \<leftarrow> act (overlay_root (pf_kernel P)); _ \<leftarrow> act (mount_data (pf_kernel P) cfg);
      vital P ''cgroup2'' ''cgroup: %w'' (cgroup_setup (sys_controller (pf_kernel P))) }"
  obtain r w1 where m: "run_state ?m w = (r, w1)" by fastforce
  show ?thesis
  proof (cases r)
    case (Some e)
    then have "\<exists>e'. e = wrap ''cgroup: %w'' [] e'" using m by (auto simp: vital_def split: prod.splits option.splits)
    moreover have "out = Failed e" using assms m Some unfolding storage_stage_def Let_def by simp
    ultimately show ?thesis by blast
  next
    case None
    with assms m obtain ud md w2 where l: "lift_opt (load_metadata P) w1 = Some ((ud, md), w2)"
      and n: "network_stage P (apply_machine_config (ud_machine ud) cfg) ud md w2 = Some (out, w')"
      unfolding storage_stage_def Let_def by (auto split: bind_splits prod.splits)
    have "fst (run_state (load_metadata P) w1) = Some (ud, md)"
      using l by (auto simp: lift_opt_def split: prod.splits option.splits)
    with m network_stage_outcome [OF n] show ?thesis by auto
  qed
qed

lemma read_config_line:
  "fst (run_state (read_config P) w1) =
     parse (case answer_bytes (pf_kernel P) (w_hist (snd (run_state (record_to P bootrecord_path) w1))) (ReadFile ''/proc/cmdline'') of
              Inl _ \<Rightarrow> [] | Inr b \<Rightarrow> trim_space (to_text b))"
  by (simp add: read_config_def read_cmdline_def cmdline_path_def split: prod.split)

lemma start_node_cases:
  assumes "start_node P switched w = Some (out, w')"
  shows "(\<exists>e. out \<in> {Failed (wrap ''mounts: %w'' [] e), Failed (wrap ''net: %w'' [] e), Failed (wrap ''cgroup: %w'' [] e)}) \<or>
    \<not> switched \<and> (out = Replaced \<or> (\<exists>e. out = Failed (wrap ''switch root: %w'' [] e))) \<or>
    (\<exists>s ud md. out = Started s \<and> metadata_of_boot P switched w = Some (ud, md) \<and>
       st_workload s = wanted_workload (Exec (parse (cmdline_of_boot P switched w))) ud)"
proof -
  let ?m = "do { _ \<leftarrow> recording (set_switched switched);
      vital P ''mounts'' ''mounts: %w'' (ensure_mounts (sys_mounter (pf_kernel P))) }"
  obtain r w1 where m: "run_state ?m w = (r, w1)" by fastforce
  obtain cfg w2 where c: "run_state (read_config P) w1 = (cfg, w2)" by fastforce
  have cfg: "cfg = parse (cmdline_of_boot P switched w)"
    using read_config_line [of P w1] c m by (simp add: cmdline_of_boot_def)
  show ?thesis
  proof (cases r)
    case (Some e)
    then have "\<exists>e'. e = wrap ''mounts: %w'' [] e'"
      using m by (auto simp: vital_def split: prod.splits option.splits)
    moreover have "out = Failed e"
      using assms m Some unfolding start_node_def Let_def by simp
    ultimately show ?thesis by blast
  next
    case None
    with assms m c obtain e w3 where l: "load_modules P cfg w2 = Some (e, w3)"
      and rest: "(if Root cfg \<noteq> no_root_spec \<and> \<not> switched
                  then (case run_state (pivot P cfg) w3 of
                          (Some e, w4) \<Rightarrow> Some (Failed (wrap ''switch root: %w'' [] e), w4)
                        | (None, w4) \<Rightarrow> Some (Replaced, w4))
                  else storage_stage P cfg w3) = Some (out, w')"
      unfolding start_node_def Let_def by (auto split: bind_splits prod.splits)
    show ?thesis
    proof (cases "Root cfg \<noteq> no_root_spec \<and> \<not> switched")
      case True
      with rest show ?thesis by (auto split: prod.splits option.splits)
    next
      case False
      with rest have "storage_stage P cfg w3 = Some (out, w')" by simp
      from storage_stage_outcome [OF this] show ?thesis
        using m c l by (auto simp: metadata_of_boot_def cfg [symmetric])
    qed
  qed
qed

lemma exec_not_empty: "Exec (parse line) \<noteq> []" "hd (Exec (parse line)) \<noteq> []"
  using wf_parse [of line] by (simp_all add: wf_config_def)

lemma proper_not_empty: "proper_workload argv \<Longrightarrow> argv \<noteq> [] \<and> hd argv \<noteq> []"
  by (auto simp: proper_workload_def path_base_def)



section \<open>That a start comes to an end\<close>

text \<open>Nothing but the ISO reader and the DHCP exchange can keep it from one.\<close>

lemma load_modules_returns: "\<exists>r w'. load_modules P cfg w = Some (r, w')"
proof -
  let ?K = "pf_kernel P"
  obtain r w1 where rel: "run_state (act (sys_release ?K)) w = (r, w1)" by fastforce
  show ?thesis
  proof (cases r)
    case (Inr release)
    obtain res h' where "load_all (sys_loader ?K (gunzip (pf_decoders P))) (''/lib/modules/'' @ release)
        (module_names cfg) (sys_modaliases ?K) (w_hist w1) = Some (res, h')"
      using load_all_returns by blast
    with rel Inr show ?thesis
      by (cases res) (simp add: load_modules_def lift_run_def Let_def)
  next
    case (Inl e)
    with rel show ?thesis by (simp add: load_modules_def Let_def)
  qed
qed

definition dhcp_returns :: "platform \<Rightarrow> bool" where
  "dhcp_returns P = (\<forall>fd mac name h. acquire (pf_kernel P) (pf_context P) (sys_client (pf_kernel P) fd mac name) h \<noteq> None)"

lemma configure_dhcp_returns:
  assumes "dhcp_returns P"
  shows "\<exists>r w'. configure_dhcp P cfg iface w = Some (r, w')"
proof -
  let ?K = "pf_kernel P"
  obtain u w1 where u: "run_state (act (sys_link_up ?K iface)) w = (u, w1)" by fastforce
  obtain m w2 where m: "run_state (act (sys_interface_mac ?K iface)) w1 = (m, w2)" by fastforce
  obtain s w3 where s: "run_state (act (sys_dhcp_conn ?K iface)) w2 = (s, w3)" by fastforce
  show ?thesis
  proof (cases u; cases m; cases s)
    fix mac fd assume ok: "u = None" "m = Inr mac" "s = Inr fd"
    obtain r h' where a: "acquire ?K (pf_context P) (sys_client ?K fd mac (Hostname cfg)) (w_hist w3) = Some (r, h')"
      using assms unfolding dhcp_returns_def by (metis option.exhaust surj_pair)
    obtain e w5 where "\<And>l. r = Inr l \<Longrightarrow> run_state (apply_lease P iface l) (w3\<lparr>w_hist := h'\<rparr>) = (e, w5)"
      by (metis prod.exhaust sum.inject(2))
    with u m s ok a show ?thesis
      by (cases r; cases e) (simp_all add: configure_dhcp_def lift_run_def Let_def del: run_act)
  qed (use u m s in \<open>simp_all add: configure_dhcp_def Let_def del: run_act\<close>)
qed

lemma set_up_nics_returns:
  assumes "dhcp_returns P"
  shows "\<exists>r w'. set_up_nics P cfg ns dns leases w = Some (r, w')"
proof (induction ns arbitrary: dns leases w)
  case (Cons n ns)
  obtain r w1 where c: "configure_dhcp P cfg (nic_name n) w = Some (r, w1)"
    using configure_dhcp_returns [OF assms] by blast
  show ?case
    using Cons c by (cases r) (auto split: prod.split option.split)
qed simp

text \<open>
  C5. The boot is best-effort: once the kernel filesystems, the cgroup hierarchy and the loopback can
  be set up, the process on the real root starts a workload, whatever becomes of the modules, the
  data volume, the metadata, the interfaces, the names and the actions, as long as the network
  falls silent at some point and the metadata drive does not make its reader panic.
\<close>

theorem boot_reaches_the_workload:
  assumes "\<And>h. fst (run_state (ensure_mounts (sys_mounter (pf_kernel P))) h) = None"
    and "\<And>h. fst (run_state (cgroup_setup (sys_controller (pf_kernel P))) h) = None"
    and "\<And>h. fst (run_state (net_up (sys_configurer (pf_kernel P))) h) = None"
    and "\<And>g. n \<le> length g \<Longrightarrow> \<exists>e. answer_bytes (pf_kernel P) g (RecvDatagram max_reply default_timeout) = Inl e"
    and "\<And>w. fst (run_state (load_metadata P) w) \<noteq> None"
  shows "\<exists>s w'. start_node P True w = Some (Started s, w')"
proof -
  let ?K = "pf_kernel P"
  have "sysc.dries_up ?K fd mac hostname n" for fd mac hostname
    by (rule sys_dries_up) (rule assms(4))
  then have dhcp: "dhcp_returns P"
    using sysc.acquire_returns by (fastforce simp: dhcp_returns_def)
  have vital: "\<exists>w2. run_state (vital P name fmt m) w1 = (None, w2)"
    if "\<And>h. fst (run_state m h) = None" for name fmt m w1
    using that [of "w_hist w1"] by (auto simp: vital_def split: prod.splits)
  have network: "\<exists>s w2. network_stage P cfg ud md w1 = Some (Started s, w2)" for cfg ud md w1
  proof -
    obtain w2 where v: "run_state (vital P ''loopback'' ''net: %w'' (net_up (sys_configurer ?K))) w1 = (None, w2)"
      using vital [OF assms(3)] by blast
    obtain dns ls w3 where n: "set_up_nics P cfg (nics cfg) (DNS cfg) [] w2 = Some ((dns, ls), w3)"
      using set_up_nics_returns [OF dhcp] by fast
    show ?thesis using v n by (simp add: network_stage_def Let_def split: prod.split)
  qed
  have storage: "\<exists>s w2. storage_stage P cfg w1 = Some (Started s, w2)" for cfg w1
  proof -
    obtain w2 where v: "run_state (vital P ''cgroup2'' ''cgroup: %w'' (cgroup_setup (sys_controller ?K)))
        (snd (run_state (act (mount_data ?K cfg)) (snd (run_state (act (overlay_root ?K)) w1)))) = (None, w2)"
      using vital [OF assms(2)] by blast
    obtain ud md w3 where m: "run_state (load_metadata P) w2 = (Some (ud, md), w3)"
      using assms(5) [of w2] by (cases "run_state (load_metadata P) w2") auto
    show ?thesis
      using v m network by (simp add: storage_stage_def Let_def lift_opt_def split: prod.splits)
  qed
  obtain w2 where v: "run_state (vital P ''mounts'' ''mounts: %w'' (ensure_mounts (sys_mounter ?K)))
      (snd (run_state (recording (set_switched True)) w)) = (None, w2)"
    using vital [OF assms(1)] by blast
  obtain cfg w3 where c: "run_state (read_config P) w2 = (cfg, w3)" by fastforce
  obtain r w4 where "load_modules P cfg w3 = Some (r, w4)" using load_modules_returns by blast
  with v c storage show ?thesis
    by (simp add: start_node_def Let_def split: prod.splits)
qed

text \<open>A machine with nothing in it: no disks, no modules, and a silent network.\<close>

definition bare_kernel :: kernel where
  "bare_kernel = quiet_kernel\<lparr>answer_bytes :=
     (\<lambda>h c. if c = ReadFile ''/proc/self/mountinfo'' then Inr [] else Inl DeadlineExceeded)\<rparr>"

lemma bare_unit: "answer_unit bare_kernel h c = None"
  by (simp add: bare_kernel_def quiet_kernel_def)

lemma bare_script: "fst (run_script bare_kernel cs h)"
  by (simp add: run_script_quiet bare_unit)

lemma bare_mounts: "fst (run_state (ensure_mounts (sys_mounter bare_kernel)) h) = None"
proof -
  obtain table h1 where "run_state (mo_mounts (sys_mounter bare_kernel)) h = (table, h1)" by fastforce
  then show ?thesis
    using scriptedD(2) [OF sysm.ensure_specs_scripted] by (simp add: ensure_mounts_def Let_def bare_script)
qed

lemma bare_cgroup: "fst (run_state (cgroup_setup (sys_controller bare_kernel)) h) = None"
  by (subst scriptedD(2) [OF cgroup_setup_scripted]) (rule bare_script)

lemma bare_net: "fst (run_state (net_up (sys_configurer bare_kernel)) h) = None"
  by (simp add: net_up_def sys_configurer_def sys_link_up_def with_socket_def bare_kernel_def quiet_kernel_def)

lemma bare_metadata: "fst (run_state (load_metadata (plain_platform bare_kernel)) w) \<noteq> None"
proof -
  have none: "run_state (sys_block_devices bare_kernel) h = (Inr [], h @ [ReadDir ''/sys/class/block''])" for h
    by (simp add: sys_block_devices_def bare_kernel_def quiet_kernel_def)
  have "fst (run_state (resolve (sys_prober bare_kernel) (''LABEL='' @ l)) h) =
      Inl (Errorf ''no block device matches %s'' [''LABEL='' @ l] None)" for l h
    by (simp add: resolve_def to_upper_def upper_char_def sys_prober_def none)
  then have "fst (run_state (find_drive bare_kernel ls) h) = None" for ls h
    by (induction ls arbitrary: h) (auto split: prod.split sum.split simp del: append.simps, metis fst_conv sum.distinct(1))
  then show ?thesis
    by (auto simp: load_metadata_def plain_platform_def Let_def split: prod.split option.split) (metis fst_conv option.distinct(1))
qed

theorem boot_reaches_the_workload_witness:
  "\<exists>s w'. start_node (plain_platform bare_kernel) True fresh_world = Some (Started s, w')"
proof -
  have k: "pf_kernel (plain_platform bare_kernel) = bare_kernel" by (simp add: plain_platform_def)
  show ?thesis
  proof (rule boot_reaches_the_workload [where n = 0])
    show "\<exists>e. answer_bytes (pf_kernel (plain_platform bare_kernel)) g (RecvDatagram max_reply default_timeout) = Inl e" for g
      unfolding k by (simp add: bare_kernel_def)
  qed (simp_all only: k bare_mounts bare_cgroup bare_net bare_metadata not_False_eq_True)
qed

section \<open>Stopping\<close>

definition leave_calls :: "string list \<Rightarrow> call list" where
  "leave_calls workload = (case leave_cmd workload of None \<Rightarrow> [] | Some argv \<Rightarrow> [RunCmd argv []])"

text \<open>
  C24. The order of a stop: an etcd member leaves the cluster before anything is signalled, the
  workload has its grace period, and only then is everything killed and flushed, the mount table
  read and its filesystems detached before the machine is powered off or restarted.
\<close>

theorem stop_calls_in_order:
  "let h0 = h @ leave_calls workload @ (if child_done then [] else [Sleep child_grace]) @ stop_calls
   in snd (run_state (stop_node K workload child_done how) h) =
      h0 @ [ReadFile ''/proc/self/mountinfo''] @
      (case fst (run_state (sys_mount_targets K) h0) of Inl _ \<Rightarrow> [] | Inr targets \<Rightarrow> detach_calls targets how)"
proof -
  let ?h = "h @ leave_calls workload @ (if child_done then [] else [Sleep child_grace])"
  have h: "snd (run_state (stop_node K workload child_done how) h) = snd (run_state (shutdown_do K (sys_shutdowner K) how) ?h)"
    by (simp add: stop_node_def leave_etcd_def leave_calls_def split: option.split)
  obtain r h1 where t: "run_state (sys_mount_targets K) (?h @ stop_calls) = (r, h1)" by fastforce
  then have h1: "h1 = (?h @ stop_calls) @ [ReadFile ''/proc/self/mountinfo'']"
    by (auto simp: sys_mount_targets_def sys_mounts_def)
  have "sd_mounts (sys_shutdowner K) = sys_mount_targets K" by (simp add: sys_shutdowner_def)
  with syssd.shutdown_calls [of K ?h r h1 how] t h1 h show ?thesis
    by (cases r) (simp_all add: Let_def)
qed

section \<open>Waiting\<close>

text \<open>An event that stops the machine, and how.\<close>

definition stops :: "wait_event \<Rightarrow> nat option" where
  "stops e =
     (case e of
        Signal \<Rightarrow> Some power_off | Cancelled \<Rightarrow> Some power_off
      | Host (Some RebootMachine) \<Rightarrow> Some reboot_restart | Host (Some PowerOff) \<Rightarrow> Some power_off
      | Button True \<Rightarrow> Some power_off | _ \<Rightarrow> None)"

text \<open>
  A closed channel is no request: only a signal, a command that was received, a press of the
  button or the end of the context ends the waiting, the first of them decides, and the machine
  is restarted exactly when that one is the host's reboot.
\<close>

theorem closed_channels_do_not_stop_the_node:
  assumes "list_all (\<lambda>e. stops e = None) evs"
    and "case e of Host _ \<Rightarrow> host \<and> Host None \<notin> set evs | Button _ \<Rightarrow> btn \<and> Button False \<notin> set evs | _ \<Rightarrow> True"
    and "stops e = Some how"
  shows "wait_loop host btn evs = None \<and> wait_loop host btn (evs @ e # later) = Some how \<and>
    (how = reboot_restart \<longleftrightarrow> e = Host (Some RebootMachine))"
proof (intro conjI)
  have different: "power_off \<noteq> reboot_restart" by (simp add: power_off_def reboot_restart_def)
  have quiet: "e' = Host None \<or> e' = Button False" if "stops e' = None" for e'
    using that by (auto simp: stops_def split: wait_event.splits option.splits command.splits bool.splits)
  show "wait_loop host btn evs = None"
    using assms(1) by (induction evs arbitrary: host btn) (auto dest!: quiet)
  show "wait_loop host btn (evs @ e # later) = Some how"
    using assms
  proof (induction evs arbitrary: host btn)
    case Nil
    then show ?case
      by (auto simp: stops_def split: wait_event.splits option.splits command.splits bool.splits)
  next
    case (Cons e' evs)
    then show ?case by (auto dest!: quiet split: wait_event.splits)
  qed
  show "how = reboot_restart \<longleftrightarrow> e = Host (Some RebootMachine)"
    using assms(3) different
    by (auto simp: stops_def split: wait_event.splits option.splits command.splits bool.splits)
qed

theorem closed_channels_do_not_stop_the_node_witness:
  "wait_loop True True [Button False] = None \<and>
   wait_loop True True ([Button False] @ Host (Some RebootMachine) # [Signal]) = Some reboot_restart"
  using closed_channels_do_not_stop_the_node
    [where evs = "[Button False]" and e = "Host (Some RebootMachine)" and host = True and btn = True and
      how = reboot_restart and later = "[Signal]"]
  by (simp add: stops_def)


section \<open>The resolver\<close>

lemma configure_dhcp_resolver:
  "configure_dhcp P cfg iface w = Some (Inr (d, fd, l), w') \<Longrightarrow> d = first_dns l"
  by (auto simp: configure_dhcp_def Let_def lift_run_def split: prod.splits sum.splits option.splits bind_splits)

definition first_named :: "string list \<Rightarrow> string" where
  "first_named ds = (case filter (\<lambda>d. d \<noteq> []) ds of [] \<Rightarrow> [] | d # _ \<Rightarrow> d)"

lemma first_named_simps:
  "first_named [] = []" "first_named (d # ds) = (if d \<noteq> [] then d else first_named ds)"
  by (simp_all add: first_named_def)

lemma first_named_merge: "first_named ((if d = [] then e else d) # ds) = first_named (d # e # ds)"
  by (simp add: first_named_simps)

lemma set_up_nics_resolver:
  "set_up_nics P cfg ns dns leases w = Some ((dns', leases'), w') \<Longrightarrow>
   \<exists>new. leases' = leases @ new \<and> subseq (map fst new) (map nic_name (filter nic_dhcp ns)) \<and>
     dns' = first_named (dns # map (\<lambda>(name, fd, l). first_dns l) new)"
proof (induction ns arbitrary: dns leases w)
  case Nil
  then show ?case by (simp add: first_named_simps)
next
  case (Cons n ns)
  show ?case
  proof (cases "nic_dhcp n")
    case False
    with Cons.prems obtain w1 where "set_up_nics P cfg ns dns leases w1 = Some ((dns', leases'), w')"
      by (auto split: prod.splits option.splits)
    from Cons.IH [OF this] False show ?thesis by simp
  next
    case True
    with Cons.prems obtain r w1 where r: "configure_dhcp P cfg (nic_name n) w = Some (r, w1)"
      by (cases "configure_dhcp P cfg (nic_name n) w") auto
    show ?thesis
    proof (cases r)
      case (Inl e)
      with True r Cons.prems have "set_up_nics P cfg ns dns leases w1 = Some ((dns', leases'), w')" by simp
      from Cons.IH [OF this] True show ?thesis by (auto intro: list_emb_Cons)
    next
      case (Inr q)
      then obtain d fd l where q: "r = Inr (d, fd, l)" by (cases q) auto
      with r have d: "d = first_dns l" using configure_dhcp_resolver by blast
      from True r q Cons.prems have
        "set_up_nics P cfg ns (if dns = [] then d else dns) (leases @ [(nic_name n, fd, l)]) w1 = Some ((dns', leases'), w')"
        by simp
      from Cons.IH [OF this] obtain new where "leases' = leases @ (nic_name n, fd, l) # new"
        "subseq (map fst new) (map nic_name (filter nic_dhcp ns))"
        "dns' = first_named (dns # d # map (\<lambda>(name, fd, l). first_dns l) new)"
        by (auto simp: first_named_merge)
      with True d show ?thesis by (intro exI [of _ "(nic_name n, fd, l) # new"]) simp
    qed
  qed
qed

text \<open>
  The resolver: an explicit one is kept, and otherwise it is the first that a lease names, in the
  order of the interfaces; an interface that gets no lease does not keep the others from theirs.
\<close>

theorem resolver_is_the_first_named:
  "case set_up_nics P cfg ns dns leases w of
     None \<Rightarrow> True
   | Some ((dns', leases'), w') \<Rightarrow>
       \<exists>new. leases' = leases @ new \<and> subseq (map fst new) (map nic_name (filter nic_dhcp ns)) \<and>
         dns' = first_named (dns # map (\<lambda>(name, fd, l). first_dns l) new)"
  using set_up_nics_resolver [of P cfg ns dns leases w] by (auto split: option.split)

end
