(* ===== verification/Reaper.thy ===== *)
theory Reaper
  imports Sys_Linux
begin

text \<open>
  Collecting the dead: \<^verbatim>\<open>internal/reaper/reaper.go\<close> and the signal plumbing of
  \<^verbatim>\<open>cmd/k0smos/main.go\<close>. One trigger may stand for many exits, so each is answered by reaping
  until there is nothing left. The loop over one trigger is a program; the concurrency around
  it (children exiting, the signal, the pump, the reaper, the supervisor's own wait) is a
  step relation.
\<close>

section \<open>Draining\<close>

partial_function (option) drain :: "(err + (int \<times> bool)) io \<Rightarrow> history \<Rightarrow> history option" where
  "drain reap h =
     (case run_state reap h of
        (Inl e, h1) \<Rightarrow> Some h1
      | (Inr (pid, ok), h1) \<Rightarrow> if ok then drain reap h1 else Some h1)"

text \<open>The kernel's side: \<open>n\<close> children are waiting to be collected after the history \<open>h\<close>.\<close>

definition has_zombies :: "kernel \<Rightarrow> history \<Rightarrow> nat \<Rightarrow> bool" where
  "has_zombies K h n =
     (list_all (\<lambda>k. case answer_num K (h @ replicate k Wait4) Wait4 of Inr pid \<Rightarrow> 0 < pid | Inl e \<Rightarrow> False) [0..<n] \<and>
      (case answer_num K (h @ replicate n Wait4) Wait4 of Inr pid \<Rightarrow> pid \<le> 0 | Inl e \<Rightarrow> True))"

lemma sys_reap_run:
  "run_state (sys_reap K) h =
     (case answer_num K h Wait4 of
        Inl e \<Rightarrow> (if e = Errno ECHILD then Inr (0, False) else Inl e)
      | Inr pid \<Rightarrow> (if pid \<le> 0 then Inr (0, False) else Inr (pid, True)), h @ [Wait4])"
  by (simp add: sys_reap_def)

lemma has_zombies_Suc:
  "has_zombies K h (Suc n) \<Longrightarrow> (\<exists>pid > 0. answer_num K h Wait4 = Inr pid) \<and> has_zombies K (h @ [Wait4]) n"
proof -
  assume z: "has_zombies K h (Suc n)"
  then have "\<forall>k < Suc n. case answer_num K (h @ replicate k Wait4) Wait4 of Inr pid \<Rightarrow> 0 < pid | Inl e \<Rightarrow> False"
    by (simp add: has_zombies_def list_all_iff del: upt_Suc)
  note each = this [rule_format]
  have rep: "(h @ [Wait4]) @ replicate k Wait4 = h @ replicate (Suc k) Wait4" for k by simp
  have "list_all (\<lambda>k. case answer_num K ((h @ [Wait4]) @ replicate k Wait4) Wait4 of Inr pid \<Rightarrow> 0 < pid | Inl e \<Rightarrow> False) [0..<n]"
    unfolding rep list_all_iff using each [of "Suc _"] by simp
  moreover have "case answer_num K ((h @ [Wait4]) @ replicate n Wait4) Wait4 of Inr pid \<Rightarrow> pid \<le> 0 | Inl e \<Rightarrow> True"
    unfolding rep using z by (simp add: has_zombies_def)
  moreover have "\<exists>pid > 0. answer_num K h Wait4 = Inr pid"
    using each [of 0] by (auto split: sum.splits)
  ultimately show ?thesis by (simp add: has_zombies_def)
qed

section \<open>The signal, the pump and the reaper\<close>

text \<open>
  \<open>r_signal\<close> and \<open>r_trigger\<close> are the two channels of capacity one: an arrival at a full one is
  dropped. The pump holds a signal between taking it and offering the trigger; the reaper is
  draining between taking the trigger and finding no child. The supervisor's \<^verbatim>\<open>Wait\<close> may
  collect a child as well.
\<close>

record reap_state =
  r_zombies :: nat
  r_signal :: bool
  r_pumping :: bool
  r_trigger :: bool
  r_draining :: bool

definition reap_start :: reap_state where
  "reap_start = \<lparr>r_zombies = 0, r_signal = False, r_pumping = False, r_trigger = False, r_draining = False\<rparr>"

inductive reap_step :: "reap_state \<Rightarrow> reap_state \<Rightarrow> bool" where
  child_exits: "reap_step s (s\<lparr>r_zombies := Suc (r_zombies s), r_signal := True\<rparr>)"
| pump_takes: "r_signal s \<Longrightarrow> \<not> r_pumping s \<Longrightarrow> reap_step s (s\<lparr>r_signal := False, r_pumping := True\<rparr>)"
| pump_offers: "r_pumping s \<Longrightarrow> reap_step s (s\<lparr>r_pumping := False, r_trigger := True\<rparr>)"
| reaper_takes: "r_trigger s \<Longrightarrow> \<not> r_draining s \<Longrightarrow> reap_step s (s\<lparr>r_trigger := False, r_draining := True\<rparr>)"
| reaps: "r_draining s \<Longrightarrow> 0 < r_zombies s \<Longrightarrow> reap_step s (s\<lparr>r_zombies := r_zombies s - 1\<rparr>)"
| drained: "r_draining s \<Longrightarrow> r_zombies s = 0 \<Longrightarrow> reap_step s (s\<lparr>r_draining := False\<rparr>)"
| other_wait: "0 < r_zombies s \<Longrightarrow> reap_step s (s\<lparr>r_zombies := r_zombies s - 1\<rparr>)"

inductive_cases reap_stepE: "reap_step s s'"

text \<open>Nobody has anything to do unless another child exits.\<close>

definition at_rest :: "reap_state \<Rightarrow> bool" where
  "at_rest s = (\<not> r_signal s \<and> \<not> r_pumping s \<and> \<not> r_trigger s \<and> \<not> r_draining s)"

lemma wakeup_pending:
  "reap_step\<^sup>*\<^sup>* reap_start s \<Longrightarrow> 0 < r_zombies s \<Longrightarrow> \<not> at_rest s"
proof (induction rule: rtranclp_induct)
  case base
  then show ?case by (simp add: reap_start_def)
next
  case (step y z)
  from step(2) show ?case
    using step(3,4) by cases (auto simp: at_rest_def)
qed

section \<open>Properties\<close>

text \<open>
  One trigger collects every child that is waiting: with \<open>n\<close> of them the drain makes \<open>n\<close>
  collecting waits and one that finds none, and returns.
\<close>

theorem drain_collects_every_child:
  assumes "has_zombies K h n"
  shows "drain (sys_reap K) h = Some (h @ replicate (Suc n) Wait4)"
  using assms
proof (induction n arbitrary: h)
  case 0
  then show ?case
    by (subst drain.simps) (auto simp: sys_reap_run has_zombies_def split: sum.splits)
next
  case (Suc n)
  from has_zombies_Suc [OF Suc.prems] obtain pid where pid: "0 < pid" "answer_num K h Wait4 = Inr pid"
    and n: "has_zombies K (h @ [Wait4]) n" by blast
  from Suc.IH [OF n] pid show ?case by (subst drain.simps) (simp add: sys_reap_run)
qed

definition two_dead :: kernel where
  "two_dead = quiet_kernel\<lparr>answer_num := (\<lambda>h c. if length h < 2 then Inr (int (length h) + 40) else Inl (Errno ECHILD))\<rparr>"

theorem drain_collects_every_child_witness: "drain (sys_reap two_dead) [] = Some [Wait4, Wait4, Wait4]"
proof -
  have "has_zombies two_dead [] 2" by (simp add: has_zombies_def two_dead_def upt_rec)
  from drain_collects_every_child [OF this] show ?thesis by (simp add: numeral_eq_Suc)
qed

text \<open>
  C31. No exit is forgotten: signals coalesce at two places and children are collected at two, and
  still, in every state the program can reach, when the signal, the pump, the trigger and the
  reaper are all idle, no child is left uncollected.
\<close>

theorem no_zombie_at_rest:
  assumes "reap_step\<^sup>*\<^sup>* reap_start s" and "at_rest s"
  shows "r_zombies s = 0"
  using wakeup_pending [OF assms(1)] assms(2) by blast

theorem no_zombie_at_rest_witness:
  "\<exists>s. reap_step\<^sup>*\<^sup>* reap_start s \<and> at_rest s \<and> r_zombies s = 0"
proof -
  let ?a = "reap_start\<lparr>r_zombies := 1, r_signal := True\<rparr>"
  let ?b = "?a\<lparr>r_signal := False, r_pumping := True\<rparr>"
  let ?c = "?b\<lparr>r_pumping := False, r_trigger := True\<rparr>"
  let ?d = "?c\<lparr>r_trigger := False, r_draining := True\<rparr>"
  let ?e = "?d\<lparr>r_zombies := 0\<rparr>"
  let ?f = "?e\<lparr>r_draining := False\<rparr>"
  have "reap_step reap_start ?a" using reap_step.child_exits [of reap_start] by (simp add: reap_start_def)
  moreover have "reap_step ?a ?b" by (rule reap_step.pump_takes) (simp_all add: reap_start_def)
  moreover have "reap_step ?b ?c" by (rule reap_step.pump_offers) simp
  moreover have "reap_step ?c ?d" by (rule reap_step.reaper_takes) (simp_all add: reap_start_def)
  moreover have "reap_step ?d ?e" using reap_step.reaps [of ?d] by simp
  moreover have "reap_step ?e ?f" by (rule reap_step.drained) simp_all
  ultimately have run: "reap_step\<^sup>*\<^sup>* reap_start ?f" by (meson r_into_rtranclp rtranclp_trans)
  have rest: "at_rest ?f" by (simp add: at_rest_def reap_start_def)
  from no_zombie_at_rest [OF run rest] run rest show ?thesis by blast
qed

end
