(* ===== verification/Power_Button.thy ===== *)
theory Power_Button
  imports Byte_Order Go_Strings
begin

text \<open>
  \<^verbatim>\<open>internal/power/power.go\<close>: finding presses of the power key in a stream of 24-byte evdev
  records. \<^verbatim>\<open>io.ReadFull\<close> makes the reading independent of how the stream is cut into reads, so
  the stream is one list of bytes. \<open>taken n\<close> says whether the \<open>n\<close>-th report is received before the
  context ends.
\<close>

definition event_size :: nat where "event_size = 24"
definition type_off :: nat where "type_off = 16"
definition code_off :: nat where "code_off = 18"
definition value_off :: nat where "value_off = 20"
definition ev_key :: "16 word" where "ev_key = 1"
definition key_power :: "16 word" where "key_power = 116"

definition is_power_press :: "bytes \<Rightarrow> bool" where
  "is_power_press ev =
     (event_size \<le> length ev \<and> le16 (drop type_off ev) = ev_key \<and> le16 (drop code_off ev) = key_power \<and>
      sint (le32 (drop value_off ev)) = 1)"

function watch_power :: "(nat \<Rightarrow> bool) \<Rightarrow> nat \<Rightarrow> bytes \<Rightarrow> nat" where
  "watch_power taken n stream =
     (if length stream < event_size then n
      else if \<not> is_power_press (take event_size stream) then watch_power taken n (drop event_size stream)
      else if taken n then watch_power taken (Suc n) (drop event_size stream) else n)"
  by pat_completeness auto
termination
  by (relation "measure (\<lambda>(t, n, s). length s)") (simp_all add: event_size_def)

declare watch_power.simps [simp del]

section \<open>The records the kernel writes\<close>

record input_event =
  ev_time :: bytes
  ev_type :: "16 word"
  ev_code :: "16 word"
  ev_value :: "32 word"

definition put_event :: "input_event \<Rightarrow> bytes" where
  "put_event e = ev_time e @ put_le16 (ev_type e) @ put_le16 (ev_code e) @ put_le32 (ev_value e)"

definition proper_event :: "input_event \<Rightarrow> bool" where
  "proper_event e = (length (ev_time e) = 16)"

definition press :: "input_event \<Rightarrow> bool" where
  "press e = (ev_type e = ev_key \<and> ev_code e = key_power \<and> ev_value e = 1)"

lemma length_put_event: "proper_event e \<Longrightarrow> length (put_event e) = event_size"
  by (simp add: put_event_def proper_event_def event_size_def le16.length_put le32.length_put)

lemma sint_one: "(sint (v :: 32 word) = 1) = (v = 1)"
proof
  assume "sint v = 1"
  then have "word_of_int (sint v) = (word_of_int 1 :: 32 word)" by (rule arg_cong)
  then show "v = 1" by simp
qed simp

lemma put_event_press:
  assumes "proper_event e"
  shows "is_power_press (put_event e) = press e"
proof -
  have t: "length (ev_time e) = 16" using assms by (simp add: proper_event_def)
  have "le16 (drop (length (ev_time e)) (put_event e)) = ev_type e"
    by (rule le16.get_slice) (simp add: put_event_def)
  then have ty: "le16 (drop type_off (put_event e)) = ev_type e" by (simp add: t type_off_def)
  have "le16 (drop (length (ev_time e @ put_le16 (ev_type e))) (put_event e)) = ev_code e"
    by (rule le16.get_slice) (simp add: put_event_def)
  then have cod: "le16 (drop code_off (put_event e)) = ev_code e"
    by (simp add: t code_off_def le16.length_put)
  have "le32 (drop (length (ev_time e @ put_le16 (ev_type e) @ put_le16 (ev_code e))) (put_event e)) = ev_value e"
    by (rule le32.get_slice [where ys = "[]"]) (simp add: put_event_def)
  then have val: "le32 (drop value_off (put_event e)) = ev_value e"
    by (simp add: t value_off_def le16.length_put)
  show ?thesis
    unfolding is_power_press_def press_def ty cod val sint_one length_put_event [OF assms] by simp
qed

lemma watch_power_event:
  assumes "proper_event e"
  shows "watch_power taken n (put_event e @ rest) =
    (if press e then if taken n then watch_power taken (Suc n) rest else n else watch_power taken n rest)"
  using length_put_event [OF assms] put_event_press [OF assms]
  by (subst watch_power.simps) (simp add: event_size_def)

text \<open>
  The button is heard: whatever records surround them, each press of the power key in the
  stream is reported once, releases, repeats and other keys are not, and a record cut off at
  the end is not taken for one.
\<close>

theorem presses_are_counted:
  assumes "list_all proper_event evs" and "length partial < event_size" and "\<And>n. taken n"
  shows "watch_power taken 0 (concat (map put_event evs) @ partial) = length (filter press evs)"
proof -
  have "watch_power taken n (concat (map put_event evs) @ partial) = n + length (filter press evs)" for n
    using assms(1)
  proof (induction evs arbitrary: n)
    case Nil
    with assms(2) show ?case by (simp add: watch_power.simps)
  next
    case (Cons e evs)
    with assms(3) show ?case by (simp add: watch_power_event)
  qed
  then show ?thesis by simp
qed

theorem presses_are_counted_witness:
  "\<exists>stream. length stream = 75 \<and> watch_power (\<lambda>_. True) 0 stream = 1"
proof -
  let ?e = "\<lambda>v. \<lparr>ev_time = replicate 16 0, ev_type = ev_key, ev_code = key_power, ev_value = v\<rparr>"
  let ?evs = "[?e 1, ?e 0, ?e 2]"
  have "watch_power (\<lambda>_. True) 0 (concat (map put_event ?evs) @ [1, 2, 3]) = length (filter press ?evs)"
    by (rule presses_are_counted) (simp_all add: proper_event_def event_size_def)
  moreover have "length (filter press ?evs) = 1" by (simp add: press_def)
  moreover have "length (concat (map put_event ?evs) @ [1, 2, 3 :: byte]) = 75"
    by (simp add: put_event_def le16.length_put le32.length_put)
  ultimately show ?thesis by metis
qed

end
