(* ===== verification/Nethub.thy ===== *)
theory Nethub
  imports Byte_Order "HOL-Library.Sublist"
begin

text \<open>
  The Ethernet hub for QEMU guests (\<^verbatim>\<open>internal/nethub/nethub.go\<close>): the framing of a guest's
  byte stream, and the hub as a step relation. One goroutine per port reads frames and
  floods them; \<open>activity\<close> is where that goroutine is, and a step is one action between two
  points at which another goroutine may run: reading a frame and sampling the other ports,
  taking a port's lock and writing the header, writing the frame and releasing the lock,
  leaving. A write to a connection can fail after any part of its data, and a connection
  whose write failed or that was closed takes nothing more.
\<close>

section \<open>Framing\<close>

definition max_frame :: nat where "max_frame = 2 ^ 17"

datatype frame_read = Incomplete | BadLength nat | Whole bytes bytes

definition read_frame :: "bytes \<Rightarrow> frame_read" where
  "read_frame s =
     (if length s < 4 then Incomplete
      else let hdr = take 4 s; n = unat (be32 hdr) in
        if n = 0 \<or> n > max_frame then BadLength n
        else if length (drop 4 s) < n then Incomplete
        else Whole hdr (take n (drop 4 s)))"

text \<open>What a peer writes for one frame, and for a sequence of them.\<close>

definition frame_header :: "bytes \<Rightarrow> bytes" where
  "frame_header f = put_be32 (word_of_nat (length f))"

definition wire :: "bytes list \<Rightarrow> bytes" where
  "wire fs = concat (map (\<lambda>f. frame_header f @ f) fs)"

definition good_frame :: "bytes \<Rightarrow> bool" where
  "good_frame f = (1 \<le> length f \<and> length f \<le> max_frame)"

function frames_of :: "bytes \<Rightarrow> bytes list" where
  "frames_of s = (case read_frame s of
     Whole h f \<Rightarrow> f # frames_of (drop (length h + length f) s)
   | _ \<Rightarrow> [])"
  by pat_completeness auto

lemma read_frame_Whole:
  assumes "read_frame s = Whole h f"
  shows "h = frame_header f" and "good_frame f" and "s = h @ f @ drop (length h + length f) s"
    and "length h = 4"
proof -
  let ?n = "unat (be32 (take 4 s))"
  from assms have s: "4 \<le> length s" and n: "?n \<noteq> 0" "?n \<le> max_frame" "?n \<le> length s - 4"
    and h: "h = take 4 s" and f: "f = take ?n (drop 4 s)"
    by (auto simp: read_frame_def Let_def split: if_splits)
  then have lf: "length f = ?n" by simp
  then show "good_frame f" using n by (simp add: good_frame_def)
  have lh: "length h = 4" using h s by simp
  then show "length h = 4" .
  have "put_be32 (be32 h) = h"
  proof -
    have "unat (be32 h) = le_val (rev h)" using lh by (simp add: be32_put_unat)
    then show ?thesis using lh le_digits_val [of "rev h"] by (simp add: put_be32_def)
  qed
  moreover have "word_of_nat (length f) = be32 h" using lf h by simp
  ultimately show "h = frame_header f" by (simp add: frame_header_def)
  show "s = h @ f @ drop (length h + length f) s"
    using lh lf n(3) by (simp add: h f add.commute [of 4] flip: drop_drop)
qed

lemma read_frame_progress:
  assumes "read_frame s = Whole h f"
  shows "length s - (length h + length f) < length s"
proof -
  have "length s = length (h @ f @ drop (length h + length f) s)"
    using read_frame_Whole(3) [OF assms] by (rule arg_cong)
  with read_frame_Whole(4) [OF assms] show ?thesis by simp
qed

termination frames_of
  by (relation "measure length") (auto dest: read_frame_progress)

declare frames_of.simps [simp del]

lemma length_frame_header [simp]: "length (frame_header f) = 4"
  by (simp add: frame_header_def)

lemma max_frame_32: "good_frame f \<Longrightarrow> length f < 2 ^ 32"
  by (simp add: good_frame_def max_frame_def)

lemma read_frame_wire:
  assumes "good_frame f"
  shows "read_frame (frame_header f @ f @ rest) = Whole (frame_header f) f"
proof -
  have "unat (be32 (frame_header f)) = length f"
    using max_frame_32 [OF assms] be32.get_put [of "word_of_nat (length f)" "[]"]
    by (simp add: frame_header_def unat_of_nat)
  moreover have "f \<noteq> []" using assms by (auto simp: good_frame_def)
  ultimately show ?thesis using assms by (simp add: read_frame_def Let_def good_frame_def)
qed

lemma wire_simps [simp]:
  "wire [] = []" "wire (f # fs) = frame_header f @ f @ wire fs"
  "wire (fs @ gs) = wire fs @ wire gs"
  by (simp_all add: wire_def)

lemma frames_of_Nil [simp]: "frames_of [] = []"
  by (subst frames_of.simps) (simp add: read_frame_def)

lemma frames_of_wire:
  "list_all good_frame fs \<Longrightarrow> frames_of (wire fs @ rest) = fs @ frames_of rest"
proof (induction fs)
  case (Cons f fs)
  then have "read_frame (wire (f # fs) @ rest) = Whole (frame_header f) f"
    using read_frame_wire [of f "wire fs @ rest"] by simp
  then show ?case using Cons by (subst frames_of.simps) simp
qed simp

lemma frames_of_wire_all: "list_all good_frame fs \<Longrightarrow> frames_of (wire fs) = fs"
  using frames_of_wire [of fs "[]"] by simp

section \<open>The hub\<close>

text \<open>
  A port's goroutine: reading, flooding a frame to the ports sampled for it, between the
  header and the frame of one of them (its lock held), about to return, returned.
\<close>

datatype activity =
    Reading
  | Flooding bytes bytes "nat list"
  | Sending bytes bytes nat "nat list"
  | Leaving
  | Closing
  | Gone

text \<open>
  A port: what its guest has sent so far and how much of that was read, what was written to
  the guest, whether the connection still takes writes, and who holds the write lock.
\<close>

record port =
  p_stream :: bytes
  p_pos :: nat
  p_out :: bytes
  p_open :: bool
  p_lock :: "nat option"
  p_act :: activity

record hub =
  h_ports :: "nat list"
  h_seen :: "nat list"
  h_port :: "nat \<Rightarrow> port"
  h_closed :: bool
  h_closing :: "nat list"
  h_drops :: "(nat \<times> nat) list"

definition new_port :: port where
  "new_port = \<lparr>p_stream = [], p_pos = 0, p_out = [], p_open = True, p_lock = None, p_act = Reading\<rparr>"

definition new_hub :: hub where
  "new_hub = \<lparr>h_ports = [], h_seen = [], h_port = (\<lambda>_. new_port), h_closed = False, h_closing = [], h_drops = []\<rparr>"

abbreviation set_port :: "nat \<Rightarrow> (port \<Rightarrow> port) \<Rightarrow> hub \<Rightarrow> hub" where
  "set_port p f h \<equiv> h\<lparr>h_port := (h_port h)(p := f (h_port h p))\<rparr>"

abbreviation p_unread :: "port \<Rightarrow> bytes" where
  "p_unread q \<equiv> drop (p_pos q) (p_stream q)"

text \<open>\<open>h_seen\<close> are the connections accepted so far, so that a port is one connection.\<close>

definition add_port :: "nat \<Rightarrow> hub \<Rightarrow> hub" where
  "add_port p h = set_port p (\<lambda>_. new_port) (h\<lparr>h_ports := h_ports h @ [p], h_seen := h_seen h @ [p]\<rparr>)"

definition close_conn :: "port \<Rightarrow> port" where
  "close_conn q = q\<lparr>p_open := False\<rparr>"

text \<open>A write of \<open>data\<close>: all of it, or the first \<open>k\<close> bytes and an error.\<close>

definition put_all :: "bytes \<Rightarrow> port \<Rightarrow> port" where
  "put_all data q = q\<lparr>p_out := p_out q @ data\<rparr>"

definition put_some :: "nat \<Rightarrow> bytes \<Rightarrow> port \<Rightarrow> port" where
  "put_some k data q = q\<lparr>p_out := (if p_open q then p_out q @ take k data else p_out q), p_open := False\<rparr>"

inductive hub_step :: "hub \<Rightarrow> hub \<Rightarrow> bool" where
  accepts: "\<lbrakk>\<not> h_closed h; p \<notin> set (h_seen h)\<rbrakk> \<Longrightarrow> hub_step h (add_port p h)"
| arrives: "p \<in> set (h_seen h) \<Longrightarrow>
    hub_step h (set_port p (\<lambda>q. q\<lparr>p_stream := p_stream q @ data\<rparr>) h)"
| reads: "\<lbrakk>p \<in> set (h_seen h); p_act (h_port h p) = Reading;
      read_frame (p_unread (h_port h p)) = Whole hdr f;
      distinct others; set others = set (h_ports h) - {p}\<rbrakk> \<Longrightarrow>
    hub_step h (set_port p (\<lambda>q. q\<lparr>p_pos := p_pos q + length hdr + length f,
                                     p_act := Flooding hdr f others\<rparr>) h)"
| drops: "\<lbrakk>p \<in> set (h_seen h); p_act (h_port h p) = Reading;
      read_frame (p_unread (h_port h p)) = BadLength n\<rbrakk> \<Longrightarrow>
    hub_step h (set_port p (\<lambda>q. q\<lparr>p_act := Leaving\<rparr>) (h\<lparr>h_drops := h_drops h @ [(p, n)]\<rparr>))"
| read_fails: "\<lbrakk>p \<in> set (h_seen h); p_act (h_port h p) = Reading\<rbrakk> \<Longrightarrow>
    hub_step h (set_port p (\<lambda>q. q\<lparr>p_act := Leaving\<rparr>) h)"
| writes_header: "\<lbrakk>p_act (h_port h p) = Flooding hdr f (t # ts); p_lock (h_port h t) = None;
      p_open (h_port h t)\<rbrakk> \<Longrightarrow>
    hub_step h (set_port p (\<lambda>q. q\<lparr>p_act := Sending hdr f t ts\<rparr>)
      (set_port t (\<lambda>q. (put_all hdr q)\<lparr>p_lock := Some p\<rparr>) h))"
| header_fails: "\<lbrakk>p_act (h_port h p) = Flooding hdr f (t # ts); p_lock (h_port h t) = None; k < length hdr\<rbrakk> \<Longrightarrow>
    hub_step h (set_port p (\<lambda>q. q\<lparr>p_act := Flooding hdr f ts\<rparr>) (set_port t (put_some k hdr) h))"
| writes_frame: "\<lbrakk>p_act (h_port h p) = Sending hdr f t ts; p_open (h_port h t)\<rbrakk> \<Longrightarrow>
    hub_step h (set_port p (\<lambda>q. q\<lparr>p_act := Flooding hdr f ts\<rparr>)
      (set_port t (\<lambda>q. (put_all f q)\<lparr>p_lock := None\<rparr>) h))"
| frame_fails: "\<lbrakk>p_act (h_port h p) = Sending hdr f t ts; k < length f\<rbrakk> \<Longrightarrow>
    hub_step h (set_port p (\<lambda>q. q\<lparr>p_act := Flooding hdr f ts\<rparr>)
      (set_port t (\<lambda>q. (put_some k f q)\<lparr>p_lock := None\<rparr>) h))"
| flooded: "p_act (h_port h p) = Flooding hdr f [] \<Longrightarrow>
    hub_step h (set_port p (\<lambda>q. q\<lparr>p_act := Reading\<rparr>) h)"
| leaves: "p_act (h_port h p) = Leaving \<Longrightarrow>
    hub_step h (set_port p (\<lambda>q. q\<lparr>p_act := Closing\<rparr>) (h\<lparr>h_ports := removeAll p (h_ports h)\<rparr>))"
| disconnects: "p_act (h_port h p) = Closing \<Longrightarrow>
    hub_step h (set_port p (\<lambda>q. (close_conn q)\<lparr>p_act := Gone\<rparr>) h)"
| closes: "\<not> h_closed h \<Longrightarrow> hub_step h (h\<lparr>h_closed := True, h_closing := h_ports h\<rparr>)"
| closes_port: "h_closing h = p # ps \<Longrightarrow>
    hub_step h (set_port p close_conn (h\<lparr>h_closing := ps\<rparr>))"

inductive_cases hub_stepE: "hub_step h h'"

section \<open>Well-formed hubs\<close>

text \<open>The frames read from a guest so far, and the frame and ports its goroutine has in hand.\<close>

definition sent :: "port \<Rightarrow> bytes list" where
  "sent q = frames_of (take (p_pos q) (p_stream q))"

fun in_hand :: "activity \<Rightarrow> (bytes \<times> bytes \<times> nat list) option" where
  "in_hand (Flooding hdr f ts) = Some (hdr, f, ts)"
| "in_hand (Sending hdr f t ts) = Some (hdr, f, t # ts)"
| "in_hand _ = None"

definition port_ok :: "hub \<Rightarrow> nat \<Rightarrow> port \<Rightarrow> bool" where
  "port_ok h p q =
     (p_pos q \<le> length (p_stream q) \<and> take (p_pos q) (p_stream q) = wire (sent q) \<and>
      list_all good_frame (sent q) \<and>
      (\<forall>hdr f ts. in_hand (p_act q) = Some (hdr, f, ts) \<longrightarrow>
         hdr = frame_header f \<and> good_frame f \<and> sent q \<noteq> [] \<and> last (sent q) = f \<and>
         p \<notin> set ts \<and> distinct ts \<and> set ts \<subseteq> set (h_seen h)))"

definition ports_ok :: "hub \<Rightarrow> bool" where
  "ports_ok h = (\<forall>p. port_ok h p (h_port h p))"

definition seen_ok :: "hub \<Rightarrow> bool" where
  "seen_ok h = ((\<forall>p. p \<notin> set (h_seen h) \<longrightarrow> h_port h p = new_port) \<and>
     set (h_ports h) \<subseteq> set (h_seen h) \<and> set (h_closing h) \<subseteq> set (h_seen h))"

fun sends_to :: "activity \<Rightarrow> nat option" where
  "sends_to (Sending hdr f t ts) = Some t"
| "sends_to _ = None"

definition locks_ok :: "hub \<Rightarrow> bool" where
  "locks_ok h = (\<forall>p q. p_lock (h_port h q) = Some p \<longleftrightarrow> sends_to (p_act (h_port h p)) = Some q)"

definition hub_wf :: "hub \<Rightarrow> bool" where
  "hub_wf h = (ports_ok h \<and> seen_ok h \<and> locks_ok h)"

lemma sent_irrelevant [simp]:
  "sent (q\<lparr>p_act := a\<rparr>) = sent q" "sent (q\<lparr>p_lock := l\<rparr>) = sent q" "sent (q\<lparr>p_open := b\<rparr>) = sent q"
  "sent (q\<lparr>p_out := out\<rparr>) = sent q"
  by (simp_all add: sent_def)

lemma put_fields [simp]:
  "p_stream (put_all d q) = p_stream q" "p_pos (put_all d q) = p_pos q" "p_act (put_all d q) = p_act q"
  "p_lock (put_all d q) = p_lock q" "p_open (put_all d q) = p_open q" "p_out (put_all d q) = p_out q @ d"
  "sent (put_all d q) = sent q"
  "p_stream (put_some k d q) = p_stream q" "p_pos (put_some k d q) = p_pos q"
  "p_act (put_some k d q) = p_act q" "p_lock (put_some k d q) = p_lock q" "p_open (put_some k d q) = False"
  "p_out (put_some k d q) = (if p_open q then p_out q @ take k d else p_out q)"
  "sent (put_some k d q) = sent q"
  "p_stream (close_conn q) = p_stream q" "p_pos (close_conn q) = p_pos q" "p_act (close_conn q) = p_act q"
  "p_lock (close_conn q) = p_lock q" "p_open (close_conn q) = False" "p_out (close_conn q) = p_out q"
  "sent (close_conn q) = sent q"
  by (simp_all add: put_all_def put_some_def close_conn_def sent_def)

lemma new_port_fields [simp]:
  "p_stream new_port = []" "p_pos new_port = 0" "p_out new_port = []" "p_open new_port"
  "p_lock new_port = None" "p_act new_port = Reading" "sent new_port = []"
  by (simp_all add: new_port_def sent_def)

lemma sent_arrives:
  "p_pos q \<le> length (p_stream q) \<Longrightarrow> sent (q\<lparr>p_stream := p_stream q @ data\<rparr>) = sent q"
  by (simp add: sent_def)

lemma sent_reads:
  assumes ok: "port_ok h p q" and "read_frame (p_unread q) = Whole hdr f"
  shows "sent (q\<lparr>p_pos := p_pos q + length hdr + length f, p_act := a\<rparr>) = sent q @ [f]"
    and "take (p_pos q + length hdr + length f) (p_stream q) = wire (sent q @ [f])"
    and "p_pos q + length hdr + length f \<le> length (p_stream q)"
proof -
  note facts = read_frame_Whole [OF assms(2)]
  from ok have pos: "p_pos q \<le> length (p_stream q)" and so_far: "take (p_pos q) (p_stream q) = wire (sent q)"
    and good: "list_all good_frame (sent q)" by (simp_all add: port_ok_def)
  from facts(3) have split: "p_unread q = hdr @ f @ drop (length hdr + length f) (p_unread q)" .
  then have "length (p_unread q) = length (hdr @ f @ drop (length hdr + length f) (p_unread q))" by (rule arg_cong)
  with pos show "p_pos q + length hdr + length f \<le> length (p_stream q)" by simp
  have "take (p_pos q + (length hdr + length f)) (p_stream q) =
      take (p_pos q) (p_stream q) @ take (length hdr + length f) (p_unread q)" by (rule take_add)
  also have "take (length hdr + length f) (p_unread q) = hdr @ f"
    by (subst split) simp
  finally show upto: "take (p_pos q + length hdr + length f) (p_stream q) = wire (sent q @ [f])"
    using so_far facts(1) by (simp add: add.assoc)
  have "frames_of (wire (sent q @ [f])) = sent q @ [f]"
    by (rule frames_of_wire_all) (use good facts(2) in simp)
  with upto show "sent (q\<lparr>p_pos := p_pos q + length hdr + length f, p_act := a\<rparr>) = sent q @ [f]"
    by (simp add: sent_def)
qed

lemma hub_wf_new: "hub_wf new_hub"
  by (simp add: hub_wf_def ports_ok_def seen_ok_def locks_ok_def new_hub_def port_ok_def)

text \<open>How a step may change one port.\<close>

lemma port_ok_untouched [simp]:
  "port_ok h p (put_all d q) = port_ok h p q" "port_ok h p (put_some k d q) = port_ok h p q"
  "port_ok h p (close_conn q) = port_ok h p q" "port_ok h p (q\<lparr>p_lock := l\<rparr>) = port_ok h p q"
  by (simp_all add: port_ok_def)

lemma port_ok_seen: "port_ok h p q \<Longrightarrow> set (h_seen h) \<subseteq> set (h_seen h') \<Longrightarrow> port_ok h' p q"
  by (simp add: port_ok_def) (meson order_trans)

lemma port_ok_idle: "port_ok h p q \<Longrightarrow> in_hand a = None \<Longrightarrow> port_ok h p (q\<lparr>p_act := a\<rparr>)"
  by (simp add: port_ok_def)

lemma port_ok_same: "port_ok h p q \<Longrightarrow> in_hand a = in_hand (p_act q) \<Longrightarrow> port_ok h p (q\<lparr>p_act := a\<rparr>)"
  by (simp add: port_ok_def)

lemma port_ok_pass:
  "port_ok h p q \<Longrightarrow> in_hand (p_act q) = Some (hdr, f, t # ts) \<Longrightarrow> in_hand a = Some (hdr, f, ts) \<Longrightarrow>
   port_ok h p (q\<lparr>p_act := a\<rparr>)"
  by (simp add: port_ok_def)

lemma in_handD:
  assumes "ports_ok h" and "in_hand (p_act (h_port h p)) = Some (hdr, f, ts)"
  shows "hdr = frame_header f" "good_frame f" "sent (h_port h p) \<noteq> []" "last (sent (h_port h p)) = f"
    "p \<notin> set ts" "distinct ts" "set ts \<subseteq> set (h_seen h)"
  using assms by (auto simp: ports_ok_def port_ok_def)

lemma ports_ok_update:
  assumes "ports_ok h" and "set (h_seen h) \<subseteq> set (h_seen h')" and "\<And>q. q \<noteq> p \<Longrightarrow> port_ok h q (h_port h' q)"
    and "port_ok h p (h_port h' p)"
  shows "ports_ok h'"
  using assms port_ok_seen by (metis ports_ok_def)

lemma ports_ok_step:
  assumes ok: "ports_ok h" and seen: "seen_ok h" and "hub_step h h'"
  shows "ports_ok h'"
  using assms(3)
proof cases
  case (accepts p)
  show ?thesis
    by (rule ports_ok_update [OF ok, where p = p])
      (use ok in \<open>simp_all add: accepts add_port_def ports_ok_def port_ok_def subset_insertI\<close>)
next
  case (arrives p data)
  from ok have "port_ok h p (h_port h p)" by (simp add: ports_ok_def)
  then have "port_ok h p ((h_port h p)\<lparr>p_stream := p_stream (h_port h p) @ data\<rparr>)"
    by (simp add: port_ok_def sent_arrives)
  then show ?thesis using ok by (intro ports_ok_update [OF ok, where p = p]) (simp_all add: arrives ports_ok_def)
next
  case (reads p hdr f others)
  let ?q = "h_port h p"
  note facts = read_frame_Whole [OF reads(4)]
  from ok have okp: "port_ok h p ?q" by (simp add: ports_ok_def)
  let ?q' = "?q\<lparr>p_pos := p_pos ?q + length hdr + length f, p_act := Flooding hdr f others\<rparr>"
  note ends = sent_reads [OF okp reads(4)]
  from seen reads(6) have "set others \<subseteq> set (h_seen h)" by (auto simp: seen_ok_def)
  moreover from okp have "list_all good_frame (sent ?q)" by (simp add: port_ok_def)
  ultimately have "port_ok h p ?q'"
    using ends facts(1,2) reads(5,6) by (simp add: port_ok_def)
  then show ?thesis by (intro ports_ok_update [OF ok, where p = p])
      (use ok in \<open>simp_all add: reads ports_ok_def\<close>)
next
  case (drops p n)
  show ?thesis by (rule ports_ok_update [OF ok, where p = p])
      (use ok in \<open>simp_all add: drops ports_ok_def port_ok_idle\<close>)
next
  case (read_fails p)
  show ?thesis by (rule ports_ok_update [OF ok, where p = p])
      (use ok in \<open>simp_all add: read_fails ports_ok_def port_ok_idle\<close>)
next
  case (writes_header p hdr f t ts)
  have "p \<noteq> t" using in_handD(5) [OF ok, of p hdr f "t # ts"] writes_header by simp
  then show ?thesis by (intro ports_ok_update [OF ok, where p = p])
      (use ok in \<open>simp_all add: writes_header ports_ok_def port_ok_same\<close>)
next
  case (header_fails p hdr f t ts k)
  have "p \<noteq> t" using in_handD(5) [OF ok, of p hdr f "t # ts"] header_fails by simp
  then show ?thesis by (intro ports_ok_update [OF ok, where p = p])
      (use ok in \<open>simp_all add: header_fails ports_ok_def port_ok_pass\<close>)
next
  case (writes_frame p hdr f t ts)
  have "p \<noteq> t" using in_handD(5) [OF ok, of p hdr f "t # ts"] writes_frame by simp
  then show ?thesis by (intro ports_ok_update [OF ok, where p = p])
      (use ok in \<open>simp_all add: writes_frame ports_ok_def port_ok_pass\<close>)
next
  case (frame_fails p hdr f t ts k)
  have "p \<noteq> t" using in_handD(5) [OF ok, of p hdr f "t # ts"] frame_fails by simp
  then show ?thesis by (intro ports_ok_update [OF ok, where p = p])
      (use ok in \<open>simp_all add: frame_fails ports_ok_def port_ok_pass\<close>)
next
  case (flooded p hdr f)
  show ?thesis by (rule ports_ok_update [OF ok, where p = p])
      (use ok in \<open>simp_all add: flooded ports_ok_def port_ok_idle\<close>)
next
  case (leaves p)
  show ?thesis by (rule ports_ok_update [OF ok, where p = p])
      (use ok in \<open>simp_all add: leaves ports_ok_def port_ok_idle\<close>)
next
  case (disconnects p)
  show ?thesis by (rule ports_ok_update [OF ok, where p = p])
      (use ok in \<open>simp_all add: disconnects ports_ok_def port_ok_idle\<close>)
next
  case closes
  show ?thesis by (rule ports_ok_update [OF ok])
      (use ok in \<open>simp_all add: closes ports_ok_def\<close>)
next
  case (closes_port p ps)
  show ?thesis by (rule ports_ok_update [OF ok, where p = p])
      (use ok in \<open>simp_all add: closes_port ports_ok_def\<close>)
qed

lemma seen_ok_step:
  assumes "ports_ok h" and "seen_ok h" and "hub_step h h'"
  shows "seen_ok h'"
  using assms(3)
proof cases
  case (writes_header p hdr f t ts)
  with in_handD(7) [OF assms(1), of p hdr f "t # ts"] have "t \<in> set (h_seen h)" by simp
  with writes_header assms(2) show ?thesis by (auto simp: seen_ok_def)
next
  case (header_fails p hdr f t ts k)
  with in_handD(7) [OF assms(1), of p hdr f "t # ts"] have "t \<in> set (h_seen h)" by simp
  with header_fails assms(2) show ?thesis by (auto simp: seen_ok_def)
next
  case (writes_frame p hdr f t ts)
  with in_handD(7) [OF assms(1), of p hdr f "t # ts"] have "t \<in> set (h_seen h)" by simp
  with writes_frame assms(2) show ?thesis by (auto simp: seen_ok_def)
next
  case (frame_fails p hdr f t ts k)
  with in_handD(7) [OF assms(1), of p hdr f "t # ts"] have "t \<in> set (h_seen h)" by simp
  with frame_fails assms(2) show ?thesis by (auto simp: seen_ok_def)
qed (use assms(2) in \<open>auto simp: seen_ok_def add_port_def\<close>)

lemma locks_ok_same:
  assumes "locks_ok h" and "\<And>q. p_lock (h_port h' q) = p_lock (h_port h q)"
    and "\<And>p. sends_to (p_act (h_port h' p)) = sends_to (p_act (h_port h p))"
  shows "locks_ok h'"
  using assms by (simp add: locks_ok_def)

lemma locks_ok_step:
  assumes "ports_ok h" and "seen_ok h" and "locks_ok h" and "hub_step h h'"
  shows "locks_ok h'"
  using assms(4)
proof cases
  case (accepts p)
  with assms(2) have "h_port h p = new_port" by (simp add: seen_ok_def)
  then have "h_port h' = h_port h" using accepts by (simp add: add_port_def fun_upd_idem)
  with assms(3) show ?thesis by (simp add: locks_ok_def)
next
  case (writes_header p hdr f t ts)
  have "p \<noteq> t" using in_handD(5) [OF assms(1), of p hdr f "t # ts"] writes_header by simp
  moreover have "\<forall>r. sends_to (p_act (h_port h r)) \<noteq> Some t"
    using writes_header(3) assms(3) by (metis locks_ok_def option.distinct(1))
  ultimately show ?thesis using writes_header assms(3) by (auto simp: locks_ok_def)
next
  case (writes_frame p hdr f t ts)
  have "p \<noteq> t" using in_handD(5) [OF assms(1), of p hdr f "t # ts"] writes_frame by simp
  moreover have "p_lock (h_port h t) = Some p" using writes_frame assms(3) by (simp add: locks_ok_def)
  moreover from this have "\<forall>r. sends_to (p_act (h_port h r)) = Some t \<longrightarrow> r = p"
    using assms(3) by (metis locks_ok_def option.inject)
  ultimately show ?thesis using writes_frame assms(3) by (auto simp: locks_ok_def)
next
  case (frame_fails p hdr f t ts k)
  have "p \<noteq> t" using in_handD(5) [OF assms(1), of p hdr f "t # ts"] frame_fails by simp
  moreover have "p_lock (h_port h t) = Some p" using frame_fails assms(3) by (simp add: locks_ok_def)
  moreover from this have "\<forall>r. sends_to (p_act (h_port h r)) = Some t \<longrightarrow> r = p"
    using assms(3) by (metis locks_ok_def option.inject)
  ultimately show ?thesis using frame_fails assms(3) by (auto simp: locks_ok_def)
next
  case (arrives p data)
  show ?thesis by (rule locks_ok_same [OF assms(3)]) (simp_all add: arrives)
next
  case (reads p hdr f others)
  show ?thesis by (rule locks_ok_same [OF assms(3)]) (simp_all add: reads)
next
  case (drops p n)
  show ?thesis by (rule locks_ok_same [OF assms(3)]) (simp_all add: drops)
next
  case (read_fails p)
  show ?thesis by (rule locks_ok_same [OF assms(3)]) (simp_all add: read_fails)
next
  case (header_fails p hdr f t ts k)
  show ?thesis by (rule locks_ok_same [OF assms(3)]) (simp_all add: header_fails)
next
  case (flooded p hdr f)
  show ?thesis by (rule locks_ok_same [OF assms(3)]) (simp_all add: flooded)
next
  case (leaves p)
  show ?thesis by (rule locks_ok_same [OF assms(3)]) (simp_all add: leaves)
next
  case (disconnects p)
  show ?thesis by (rule locks_ok_same [OF assms(3)]) (simp_all add: disconnects)
next
  case closes
  show ?thesis by (rule locks_ok_same [OF assms(3)]) (simp_all add: closes)
next
  case (closes_port p ps)
  show ?thesis by (rule locks_ok_same [OF assms(3)]) (simp_all add: closes_port)
qed

lemma hub_wf_step: "hub_wf h \<Longrightarrow> hub_step h h' \<Longrightarrow> hub_wf h'"
  unfolding hub_wf_def by (meson ports_ok_step seen_ok_step locks_ok_step)

section \<open>What was delivered\<close>

text \<open>
  \<open>log q\<close> are the frames port \<open>q\<close> was the target of, in order, with the port each came from.
  \<open>passed\<close> are the frames a port's goroutine is done with as far as the target \<open>q\<close> goes.
\<close>

definition from_port :: "nat \<Rightarrow> (nat \<times> bytes) list \<Rightarrow> bytes list" where
  "from_port r l = map snd (filter (\<lambda>x. fst x = r) l)"

definition passed :: "port \<Rightarrow> nat \<Rightarrow> bytes list" where
  "passed q t = (case in_hand (p_act q) of
     Some (hdr, f, ts) \<Rightarrow> if t \<in> set ts then butlast (sent q) else sent q
   | None \<Rightarrow> sent q)"

fun header_out :: "activity \<Rightarrow> bytes" where
  "header_out (Sending hdr f t ts) = hdr"
| "header_out _ = []"

definition in_flight :: "hub \<Rightarrow> nat \<Rightarrow> bytes" where
  "in_flight h q = (case p_lock (h_port h q) of None \<Rightarrow> [] | Some r \<Rightarrow> header_out (p_act (h_port h r)))"

definition due :: "hub \<Rightarrow> nat \<Rightarrow> (nat \<times> bytes) list \<Rightarrow> bytes" where
  "due h q l = wire (map snd l) @ in_flight h q"

definition out_ok :: "port \<Rightarrow> bytes \<Rightarrow> bool" where
  "out_ok q d = (prefix (p_out q) d \<and> (p_open q \<longrightarrow> p_out q = d))"

definition log_ok :: "hub \<Rightarrow> (nat \<Rightarrow> (nat \<times> bytes) list) \<Rightarrow> bool" where
  "log_ok h log =
     (\<forall>q. out_ok (h_port h q) (due h q (log q)) \<and>
          (\<forall>x \<in> set (log q). fst x \<noteq> q \<and> good_frame (snd x)) \<and>
          (\<forall>r. subseq (from_port r (log q)) (passed (h_port h r) q)))"

lemma log_ok_new: "log_ok new_hub (\<lambda>_. [])"
  by (simp add: log_ok_def out_ok_def due_def in_flight_def new_hub_def from_port_def)

lemma from_port_append [simp]:
  "from_port r (l @ [(p, f)]) = (if p = r then from_port r l @ [f] else from_port r l)"
  by (simp add: from_port_def)

lemma passed_idle: "in_hand (p_act q) = None \<Longrightarrow> passed q t = sent q"
  by (simp add: passed_def)

lemma log_ok_same:
  assumes "log_ok h log" and "\<And>q. due h' q (log q) = due h q (log q)"
    and "\<And>q. p_out (h_port h' q) = p_out (h_port h q)" and "\<And>q. p_open (h_port h' q) \<longrightarrow> p_open (h_port h q)"
    and "\<And>r t. passed (h_port h' r) t = passed (h_port h r) t"
  shows "log_ok h' log"
  using assms by (simp add: log_ok_def out_ok_def)

text \<open>One frame is done with: it joins the log of its target.\<close>

lemma log_ok_extend:
  assumes log: "log_ok h log" and ports: "ports_ok h"
    and hand: "in_hand (p_act (h_port h p)) = Some (hdr, f, t # ts)"
    and others: "\<And>q. q \<noteq> t \<Longrightarrow> due h' q (log q) = due h q (log q)"
      "\<And>q. q \<noteq> t \<Longrightarrow> p_out (h_port h' q) = p_out (h_port h q) \<and> p_open (h_port h' q) = p_open (h_port h q)"
    and target: "out_ok (h_port h' t) (due h' t (log t @ [(p, f)]))"
    and passed: "\<And>r q. r \<noteq> p \<Longrightarrow> passed (h_port h' r) q = passed (h_port h r) q"
    and self: "sent (h_port h' p) = sent (h_port h p)" "in_hand (p_act (h_port h' p)) = Some (hdr, f, ts)"
  shows "log_ok h' (log(t := log t @ [(p, f)]))"
proof -
  note facts = in_handD [OF ports hand]
  have done_t: "passed (h_port h' p) t = passed (h_port h p) t @ [f]"
    using facts self hand by (simp add: passed_def) (metis append_butlast_last_id)
  have done_q: "q \<noteq> t \<Longrightarrow> passed (h_port h' p) q = passed (h_port h p) q" for q
    using self hand by (simp add: passed_def)
  have "subseq (from_port r ((log(t := log t @ [(p, f)])) q)) (passed (h_port h' r) q)" for r q
    using log done_t done_q passed
    by (cases "q = t"; cases "r = p") (auto simp: log_ok_def intro: subseq_append_iff [THEN iffD2])
  moreover have "out_ok (h_port h' q) (due h' q ((log(t := log t @ [(p, f)])) q))" for q
    using log target others by (cases "q = t") (simp_all add: log_ok_def out_ok_def)
  moreover have "p \<noteq> t" and "good_frame f" using facts by auto
  ultimately show ?thesis using log by (auto simp: log_ok_def)
qed

lemma due_same:
  assumes "p_lock (h_port h' q) = p_lock (h_port h q)"
    and "\<And>r. p_lock (h_port h q) = Some r \<Longrightarrow> header_out (p_act (h_port h' r)) = header_out (p_act (h_port h r))"
  shows "due h' q l = due h q l"
  using assms by (simp add: due_def in_flight_def split: option.split)

lemma passed_same:
  "in_hand (p_act q') = in_hand (p_act q) \<Longrightarrow> sent q' = sent q \<Longrightarrow> passed q' t = passed q t"
  by (simp add: passed_def split: option.split)

lemma subseq_snoc: "subseq xs (xs @ [x])"
  using subseq_append' [of xs "[]" "[x]"] by simp

lemma passed_flooded: "p_act q = Flooding hdr f [] \<Longrightarrow> passed (q\<lparr>p_act := Reading\<rparr>) t = passed q t"
  by (simp add: passed_def)

lemma out_ok_write:
  "out_ok q d \<Longrightarrow> p_open q \<Longrightarrow> out_ok ((put_all b q)\<lparr>p_lock := l\<rparr>) (d @ b)"
  by (simp add: out_ok_def)

lemma out_ok_fail:
  "out_ok q d \<Longrightarrow> out_ok (put_some k b q) (d @ b @ b')"
  "out_ok q d \<Longrightarrow> out_ok ((put_some k b q)\<lparr>p_lock := l\<rparr>) (d @ b @ b')"
  by (auto simp: out_ok_def take_is_prefix prefix_append intro: prefix_order.trans)

lemma log_ok_reads:
  assumes log: "log_ok h log" and ports: "ports_ok h"
    and p: "p_act (h_port h p) = Reading" "read_frame (p_unread (h_port h p)) = Whole hdr f"
    and h': "h' = set_port p (\<lambda>q. q\<lparr>p_pos := p_pos q + length hdr + length f,
      p_act := Flooding hdr f others\<rparr>) h"
  shows "log_ok h' log"
proof -
  have "port_ok h p (h_port h p)" using ports by (simp add: ports_ok_def)
  note ends = sent_reads(1) [OF this p(2)]
  have more_passed: "subseq (passed (h_port h r) q) (passed (h_port h' r) q)" for r q
    using ends p(1) by (simp add: h' passed_def subseq_snoc)
  have "due h' q (log q) = due h q (log q)" for q
    by (rule due_same) (simp_all add: h' p(1))
  moreover have "subseq (from_port r (log q)) (passed (h_port h' r) q)" for q r
    using log more_passed [of r q] by (auto simp: log_ok_def intro: subseq_order.trans)
  ultimately show ?thesis using log by (auto simp: log_ok_def out_ok_def h')
qed

lemma log_ok_writes_header:
  assumes wf: "hub_wf h" and log: "log_ok h log"
    and step: "p_act (h_port h p) = Flooding hdr f (t # ts)" "p_lock (h_port h t) = None" "p_open (h_port h t)"
    and h_eq: "h' = set_port p (\<lambda>q. q\<lparr>p_act := Sending hdr f t ts\<rparr>)
        (set_port t (\<lambda>q. (put_all hdr q)\<lparr>p_lock := Some p\<rparr>) h)"
  shows "log_ok h' log"
proof -
  from wf have ports: "ports_ok h" and locks: "locks_ok h" by (simp_all add: hub_wf_def)
  have ne: "p \<noteq> t" using in_handD(5) [OF ports, of p hdr f "t # ts"] step(1) by simp
  have idle: "p_lock (h_port h q) \<noteq> Some p" for q using locks step(1) by (simp add: locks_ok_def)
  have others: "due h' q l = due h q l" if "q \<noteq> t" for q l
    by (rule due_same) (use that idle [of q] ne in \<open>auto simp: step h_eq\<close>)
  have target: "due h' t l = due h t l @ hdr" for l
    using step(2) ne by (simp add: step h_eq due_def in_flight_def)
  have out: "out_ok (h_port h' q) (due h' q (log q))" for q
  proof (cases "q = t")
    case True
    have "h_port h' t = (put_all hdr (h_port h t))\<lparr>p_lock := Some p\<rparr>" using ne by (simp add: h_eq)
    moreover have "out_ok (h_port h t) (due h t (log t))" using log by (simp add: log_ok_def)
    ultimately show ?thesis using True step(3) target out_ok_write by metis
  next
    case False
    with log step h_eq ne others show ?thesis by (simp add: log_ok_def out_ok_def)
  qed
  have "passed (h_port h' r) q = passed (h_port h r) q" for r q
    by (rule passed_same) (use ne in \<open>simp_all add: step h_eq\<close>)
  with log out show ?thesis by (simp add: log_ok_def)
qed

lemma log_ok_header_fails:
  assumes wf: "hub_wf h" and log: "log_ok h log"
    and step: "p_act (h_port h p) = Flooding hdr f (t # ts)" "p_lock (h_port h t) = None"
    and h_eq: "h' = set_port p (\<lambda>q. q\<lparr>p_act := Flooding hdr f ts\<rparr>) (set_port t (put_some k hdr) h)"
  shows "log_ok h' (log(t := log t @ [(p, f)]))"
proof -
  from wf have ports: "ports_ok h" and locks: "locks_ok h" by (simp_all add: hub_wf_def)
  have hand: "in_hand (p_act (h_port h p)) = Some (hdr, f, t # ts)" using step(1) by simp
  note facts = in_handD [OF ports hand]
  have ne: "p \<noteq> t" using facts by simp
  have idle: "p_lock (h_port h q) \<noteq> Some p" for q using locks step(1) by (simp add: locks_ok_def)
  have due: "due h' q l = due h q l" for q l
    by (rule due_same) (use idle [of q] ne in \<open>auto simp: step h_eq\<close>)
  have "due h t (log t @ [(p, f)]) = due h t (log t) @ hdr @ f"
    using step(2) facts(1) by (simp add: due_def in_flight_def)
  moreover have "out_ok (h_port h t) (due h t (log t))" using log by (simp add: log_ok_def)
  ultimately have "out_ok (h_port h' t) (due h' t (log t @ [(p, f)]))"
    using step h_eq ne due by (simp add: out_ok_fail)
  then show ?thesis
    by (intro log_ok_extend [OF log ports hand] due passed_same) (use ne in \<open>simp_all add: step h_eq passed_same\<close>)
qed

lemma log_ok_writes_frame:
  assumes wf: "hub_wf h" and log: "log_ok h log"
    and step: "p_act (h_port h p) = Sending hdr f t ts" "p_open (h_port h t)"
    and h_eq: "h' = set_port p (\<lambda>q. q\<lparr>p_act := Flooding hdr f ts\<rparr>)
        (set_port t (\<lambda>q. (put_all f q)\<lparr>p_lock := None\<rparr>) h)"
  shows "log_ok h' (log(t := log t @ [(p, f)]))"
proof -
  from wf have ports: "ports_ok h" and locks: "locks_ok h" by (simp_all add: hub_wf_def)
  have hand: "in_hand (p_act (h_port h p)) = Some (hdr, f, t # ts)" using step(1) by simp
  note facts = in_handD [OF ports hand]
  have ne: "p \<noteq> t" using facts by simp
  have lock: "p_lock (h_port h q) = Some p \<longleftrightarrow> q = t" for q using locks step(1) by (auto simp: locks_ok_def)
  have others: "due h' q l = due h q l" if "q \<noteq> t" for q l
    by (rule due_same) (use that lock [of q] ne in \<open>auto simp: step h_eq\<close>)
  have "due h' t (log t @ [(p, f)]) = due h t (log t) @ f"
    using lock [of t] step(1) facts(1) ne by (simp add: due_def in_flight_def step h_eq)
  moreover have "out_ok (h_port h t) (due h t (log t))" using log by (simp add: log_ok_def)
  ultimately have "out_ok (h_port h' t) (due h' t (log t @ [(p, f)]))"
    using step h_eq ne by (simp add: out_ok_write)
  then show ?thesis
    by (intro log_ok_extend [OF log ports hand] others passed_same) (use ne in \<open>simp_all add: step h_eq passed_same\<close>)
qed

lemma log_ok_frame_fails:
  assumes wf: "hub_wf h" and log: "log_ok h log"
    and step: "p_act (h_port h p) = Sending hdr f t ts"
    and h_eq: "h' = set_port p (\<lambda>q. q\<lparr>p_act := Flooding hdr f ts\<rparr>)
        (set_port t (\<lambda>q. (put_some k f q)\<lparr>p_lock := None\<rparr>) h)"
  shows "log_ok h' (log(t := log t @ [(p, f)]))"
proof -
  from wf have ports: "ports_ok h" and locks: "locks_ok h" by (simp_all add: hub_wf_def)
  have hand: "in_hand (p_act (h_port h p)) = Some (hdr, f, t # ts)" using step(1) by simp
  note facts = in_handD [OF ports hand]
  have ne: "p \<noteq> t" using facts by simp
  have lock: "p_lock (h_port h q) = Some p \<longleftrightarrow> q = t" for q using locks step(1) by (auto simp: locks_ok_def)
  have others: "due h' q l = due h q l" if "q \<noteq> t" for q l
    by (rule due_same) (use that lock [of q] ne in \<open>auto simp: step h_eq\<close>)
  have "due h' t (log t @ [(p, f)]) = due h t (log t) @ f"
    using lock [of t] step(1) facts(1) ne by (simp add: due_def in_flight_def step h_eq)
  moreover have "out_ok (h_port h t) (due h t (log t))" using log by (simp add: log_ok_def)
  ultimately have "out_ok (h_port h' t) (due h' t (log t @ [(p, f)]))"
    using step h_eq ne out_ok_fail(2) [where k = k and b = f and b' = "[]" and l = None] by simp
  then show ?thesis
    by (intro log_ok_extend [OF log ports hand] others passed_same) (use ne in \<open>simp_all add: step h_eq passed_same\<close>)
qed

lemma log_ok_quiet:
  assumes "log_ok h log"
    and "\<And>q. p_lock (h_port h' q) = p_lock (h_port h q)" "\<And>q. p_out (h_port h' q) = p_out (h_port h q)"
      "\<And>q. p_open (h_port h' q) \<longrightarrow> p_open (h_port h q)" "\<And>q. sent (h_port h' q) = sent (h_port h q)"
    and "\<And>q. header_out (p_act (h_port h' q)) = header_out (p_act (h_port h q))"
      "\<And>q. in_hand (p_act (h_port h' q)) = in_hand (p_act (h_port h q))"
  shows "\<exists>log'. log_ok h' log'"
proof
  show "log_ok h' log"
  proof (rule log_ok_same [OF assms(1) due_same])
    show "passed (h_port h' r) t = passed (h_port h r) t" for r t
      by (rule passed_same [OF assms(7,5)])
  qed (use assms in simp_all)
qed

lemma log_ok_step:
  assumes wf: "hub_wf h" and log: "log_ok h log" and "hub_step h h'"
  shows "\<exists>log'. log_ok h' log'"
  using assms(3)
proof cases
  case (accepts p)
  with wf have "h_port h p = new_port" by (simp add: hub_wf_def seen_ok_def)
  then have "h_port h' = h_port h" using accepts by (simp add: add_port_def fun_upd_idem)
  then show ?thesis by (intro log_ok_quiet [OF log]) simp_all
next
  case (arrives p data)
  with wf have "sent ((h_port h p)\<lparr>p_stream := p_stream (h_port h p) @ data\<rparr>) = sent (h_port h p)"
    by (simp add: hub_wf_def ports_ok_def port_ok_def sent_arrives)
  then show ?thesis by (intro log_ok_quiet [OF log]) (simp_all add: arrives)
next
  case (reads p hdr f others)
  from wf have "ports_ok h" by (simp add: hub_wf_def)
  from log_ok_reads [OF log this reads(3,4,1)] show ?thesis by blast
next
  case (flooded p hdr f)
  have "log_ok h' log"
    by (intro log_ok_same [OF log] due_same) (simp_all add: flooded passed_flooded)
  then show ?thesis by blast
next
  case (drops p n)
  show ?thesis by (rule log_ok_quiet [OF log]) (simp_all add: drops)
next
  case (read_fails p)
  show ?thesis by (rule log_ok_quiet [OF log]) (simp_all add: read_fails)
next
  case (leaves p)
  show ?thesis by (rule log_ok_quiet [OF log]) (simp_all add: leaves)
next
  case (disconnects p)
  show ?thesis by (rule log_ok_quiet [OF log]) (simp_all add: disconnects)
next
  case closes
  show ?thesis by (rule log_ok_quiet [OF log]) (simp_all add: closes)
next
  case (closes_port p ps)
  show ?thesis by (rule log_ok_quiet [OF log]) (simp_all add: closes_port)
next
  case (writes_header p hdr f t ts)
  from log_ok_writes_header [OF wf log writes_header(2,3,4) writes_header(1)] show ?thesis by blast
next
  case (header_fails p hdr f t ts k)
  from log_ok_header_fails [OF wf log header_fails(2,3) header_fails(1)] show ?thesis by blast
next
  case (writes_frame p hdr f t ts)
  from log_ok_writes_frame [OF wf log writes_frame(2,3) writes_frame(1)] show ?thesis by blast
next
  case (frame_fails p hdr f t ts k)
  from log_ok_frame_fails [OF wf log frame_fails(2) frame_fails(1)] show ?thesis by blast
qed

section \<open>Reachable hubs\<close>

abbreviation hub_steps :: "hub \<Rightarrow> hub \<Rightarrow> bool" where
  "hub_steps \<equiv> hub_step\<^sup>*\<^sup>*"

lemma hub_steps_ok:
  "hub_steps h h' \<Longrightarrow> hub_wf h \<Longrightarrow> log_ok h log \<Longrightarrow> hub_wf h' \<and> (\<exists>log'. log_ok h' log')"
proof (induction rule: rtranclp_induct)
  case (step y z)
  then show ?case using hub_wf_step log_ok_step by blast
qed blast

lemma reachable_hub:
  assumes "hub_steps new_hub h"
  obtains log where "hub_wf h" and "log_ok h log"
  using hub_steps_ok [OF assms hub_wf_new log_ok_new] by blast

lemma passed_sent: "subseq (passed q t) (sent q)"
proof -
  have "subseq (butlast (sent q)) (sent q)"
    by (cases "sent q" rule: rev_cases) (simp_all add: subseq_snoc)
  then show ?thesis by (simp add: passed_def split: option.split)
qed

text \<open>One flooding run with every target open and unlocked.\<close>

lemma flood_runs:
  "\<lbrakk>p_act (h_port h p) = Flooding hdr f ts; distinct ts; p \<notin> set ts;
    \<And>t. t \<in> set ts \<Longrightarrow> p_open (h_port h t) \<and> p_lock (h_port h t) = None\<rbrakk> \<Longrightarrow>
   \<exists>h'. hub_steps h h' \<and> p_act (h_port h' p) = Reading \<and>
     (\<forall>t \<in> set ts. p_out (h_port h' t) = p_out (h_port h t) @ hdr @ f) \<and>
     (\<forall>t. t \<notin> set ts \<longrightarrow> p_out (h_port h' t) = p_out (h_port h t))"
proof (induction ts arbitrary: h)
  case Nil
  from hub_step.flooded [OF Nil(1)] show ?case
    by (intro exI conjI) (erule r_into_rtranclp, simp_all)
next
  case (Cons t ts)
  define h1 where "h1 = set_port p (\<lambda>q. q\<lparr>p_act := Sending hdr f t ts\<rparr>)
      (set_port t (\<lambda>q. (put_all hdr q)\<lparr>p_lock := Some p\<rparr>) h)"
  define h2 where "h2 = set_port p (\<lambda>q. q\<lparr>p_act := Flooding hdr f ts\<rparr>)
      (set_port t (\<lambda>q. (put_all f q)\<lparr>p_lock := None\<rparr>) h1)"
  have ne: "p \<noteq> t" using Cons.prems(3) by simp
  have "hub_step h h1"
    unfolding h1_def by (rule hub_step.writes_header [OF Cons.prems(1)]) (use Cons.prems(4) in simp_all)
  moreover have "hub_step h1 h2"
    unfolding h2_def by (rule hub_step.writes_frame) (use ne Cons.prems(4) [of t] in \<open>simp_all add: h1_def\<close>)
  ultimately have run: "hub_steps h h2" by (meson r_into_rtranclp rtranclp_trans)
  have out2: "p_out (h_port h2 q) = (if q = t then p_out (h_port h t) @ hdr @ f else p_out (h_port h q))" for q
    using ne by (simp add: h1_def h2_def)
  have rest: "p_open (h_port h2 q) \<and> p_lock (h_port h2 q) = None" if "q \<in> set ts" for q
    using that Cons.prems(2,3) Cons.prems(4) [of q] ne by (auto simp: h1_def h2_def)
  have act2: "p_act (h_port h2 p) = Flooding hdr f ts" by (simp add: h2_def)
  from Cons.IH [OF act2 _ _ rest] Cons.prems(2,3) obtain h' where h': "hub_steps h2 h'"
      "p_act (h_port h' p) = Reading" "\<forall>t \<in> set ts. p_out (h_port h' t) = p_out (h_port h2 t) @ hdr @ f"
      "\<forall>t. t \<notin> set ts \<longrightarrow> p_out (h_port h' t) = p_out (h_port h2 t)" by auto
  from run h'(1) have "hub_steps h h'" by (rule rtranclp_trans)
  moreover have "t \<notin> set ts" using Cons.prems(2) by simp
  ultimately show ?case using h' out2 by (intro exI [of _ h']) auto
qed

section \<open>Properties\<close>

text \<open>
  C12. What a guest receives is exactly frames of the other guests: in every reachable state the
  bytes written to a port are whole frames of acceptable length (and the header of the one in
  flight), none of them its own, and those of one sender are in the order that sender sent
  them, none twice; on a connection that broke they are a prefix of that.
\<close>

theorem hub_forwards_frames_of_others:
  assumes "hub_steps new_hub h"
  shows "\<exists>log.
    (\<forall>(r, f) \<in> set log. r \<noteq> q \<and> 1 \<le> length f \<and> length f \<le> max_frame) \<and>
    (\<forall>r. subseq (from_port r log) (frames_of (take (p_pos (h_port h r)) (p_stream (h_port h r))))) \<and>
    prefix (p_out (h_port h q)) (wire (map snd log) @ in_flight h q) \<and>
    (p_open (h_port h q) \<longrightarrow> p_out (h_port h q) = wire (map snd log) @ in_flight h q) \<and>
    (p_open (h_port h q) \<and> p_lock (h_port h q) = None \<longrightarrow> frames_of (p_out (h_port h q)) = map snd log)"
proof -
  from assms obtain log where log: "log_ok h log" by (rule reachable_hub)
  have order: "subseq (from_port r (log q)) (frames_of (take (p_pos (h_port h r)) (p_stream (h_port h r))))" for r
  proof -
    from log have "subseq (from_port r (log q)) (passed (h_port h r) q)" by (simp add: log_ok_def)
    from subseq_order.trans [OF this passed_sent] show ?thesis by (simp only: sent_def)
  qed
  have good: "\<forall>x \<in> set (log q). fst x \<noteq> q \<and> good_frame (snd x)" using log by (simp add: log_ok_def)
  then have lengths: "\<forall>(r, f) \<in> set (log q). r \<noteq> q \<and> 1 \<le> length f \<and> length f \<le> max_frame"
    by (auto simp: good_frame_def)
  have reparsed: "frames_of (wire (map snd (log q))) = map snd (log q)"
    using good by (intro frames_of_wire_all) (simp add: list_all_iff)
  have out: "prefix (p_out (h_port h q)) (wire (map snd (log q)) @ in_flight h q)"
      "p_open (h_port h q) \<longrightarrow> p_out (h_port h q) = wire (map snd (log q)) @ in_flight h q"
    using log by (simp_all add: log_ok_def out_ok_def due_def)
  have parsed: "p_open (h_port h q) \<and> p_lock (h_port h q) = None \<longrightarrow>
      frames_of (p_out (h_port h q)) = map snd (log q)"
    using out(2) reparsed by (simp add: in_flight_def)
  show ?thesis by (intro exI [of _ "log q"] conjI [OF lengths] conjI [OF _ conjI [OF out(1)]] conjI [OF out(2) parsed]
        allI order)
qed

theorem hub_forwards_frames_of_others_witness:
  "\<exists>log. (\<forall>(r, f) \<in> set log. r \<noteq> (1 :: nat) \<and> 1 \<le> length f \<and> length f \<le> max_frame) \<and>
     prefix (p_out (h_port (add_port 1 (add_port 0 new_hub)) 1)) (wire (map snd log) @ in_flight (add_port 1 (add_port 0 new_hub)) 1)"
proof -
  have "hub_step new_hub (add_port 0 new_hub)"
    by (rule hub_step.accepts) (simp_all add: new_hub_def)
  moreover have "hub_step (add_port 0 new_hub) (add_port 1 (add_port 0 new_hub))"
    by (rule hub_step.accepts) (simp_all add: new_hub_def add_port_def)
  ultimately have "hub_steps new_hub (add_port 1 (add_port 0 new_hub))" by (meson r_into_rtranclp rtranclp_trans)
  from hub_forwards_frames_of_others [OF this, of 1] show ?thesis
    by (elim exE conjE) (rule exI, rule conjI, assumption, assumption)
qed

text \<open>
  A frame reaches everyone: when a guest's next bytes are a whole frame and the other
  registered ports are open with no write in progress, the hub can run to a state in which each of
  them got exactly that frame, nobody else got anything and the sender's goroutine reads again.
\<close>

theorem frame_reaches_every_other_port:
  assumes "p \<in> set (h_seen h)" and "p_act (h_port h p) = Reading" and "distinct (h_ports h)"
    and "read_frame (p_unread (h_port h p)) = Whole hdr f"
    and "\<And>t. t \<in> set (h_ports h) \<Longrightarrow> t \<noteq> p \<Longrightarrow> p_open (h_port h t) \<and> p_lock (h_port h t) = None"
  shows "\<exists>h'. hub_steps h h' \<and> p_act (h_port h' p) = Reading \<and>
    (\<forall>t \<in> set (h_ports h) - {p}. p_out (h_port h' t) = p_out (h_port h t) @ wire [f]) \<and>
    (\<forall>t. t \<notin> set (h_ports h) - {p} \<longrightarrow> p_out (h_port h' t) = p_out (h_port h t))"
proof -
  let ?ts = "filter (\<lambda>t. t \<noteq> p) (h_ports h)"
  let ?h1 = "set_port p (\<lambda>q. q\<lparr>p_pos := p_pos q + length hdr + length f, p_act := Flooding hdr f ?ts\<rparr>) h"
  have ts: "set ?ts = set (h_ports h) - {p}" by auto
  have step: "hub_step h ?h1"
    by (rule hub_step.reads [OF assms(1,2,4)]) (use assms(3) ts in simp_all)
  obtain h' where h': "hub_steps ?h1 h'" "p_act (h_port h' p) = Reading"
      "\<forall>t \<in> set ?ts. p_out (h_port h' t) = p_out (h_port ?h1 t) @ hdr @ f"
      "\<forall>t. t \<notin> set ?ts \<longrightarrow> p_out (h_port h' t) = p_out (h_port ?h1 t)"
    using flood_runs [of ?h1 p hdr f ?ts] assms(3,5) by auto
  from step h'(1) have "hub_steps h h'" by (rule converse_rtranclp_into_rtranclp)
  moreover have "p_out (h_port ?h1 t) = p_out (h_port h t)" for t by simp
  ultimately show ?thesis using h'(2-4) ts read_frame_Whole(1) [OF assms(4)]
    by (intro exI [of _ h']) simp
qed

definition two_guests :: hub where
  "two_guests = \<lparr>h_ports = [0, 1], h_seen = [0, 1],
     h_port = (\<lambda>_. new_port)(0 := new_port\<lparr>p_stream := [0, 0, 0, 2, 7, 9]\<rparr>),
     h_closed = False, h_closing = [], h_drops = []\<rparr>"

theorem frame_reaches_every_other_port_witness:
  "\<exists>h'. hub_steps two_guests h' \<and> p_out (h_port h' 1) = wire [[7, 9]] \<and> p_out (h_port h' 0) = []"
proof -
  have frame: "read_frame (p_unread (h_port two_guests 0)) = Whole [0, 0, 0, 2] [7, 9]"
  proof -
    have "(4 :: nat) = Suc (Suc (Suc (Suc 0)))" by simp
    moreover have "le_digits (Suc (Suc (Suc (Suc 0)))) 2 = [2, 0, 0, 0]" by simp
    ultimately have "le_digits 4 2 = [2, 0, 0, 0]" by (simp only:)
    then have "frame_header [7, 9] = [0, 0, 0, 2]" by (simp add: frame_header_def put_be32_def)
    with read_frame_wire [of "[7, 9]" "[]"] show ?thesis
      by (simp add: two_guests_def good_frame_def max_frame_def)
  qed
  have start: "h_ports two_guests = [0, 1]" "0 \<in> set (h_seen two_guests)" "p_act (h_port two_guests 0) = Reading"
      "p_out (h_port two_guests t) = []" "p_open (h_port two_guests t) \<and> p_lock (h_port two_guests t) = None" for t
    by (simp_all add: two_guests_def)
  then have "distinct (h_ports two_guests)" by simp
  from frame_reaches_every_other_port [OF start(2,3) this frame start(5)]
  obtain h' where h': "hub_steps two_guests h'"
      "\<forall>t \<in> set [0, 1] - {0}. p_out (h_port h' t) = [] @ wire [[7, 9]]"
      "\<forall>t. t \<notin> set [0, 1] - {0} \<longrightarrow> p_out (h_port h' t) = []"
    unfolding start(1,4) by (elim exE conjE)
  from h'(2) have "p_out (h_port h' 1) = wire [[7, 9]]" by simp
  moreover from h'(3) have "p_out (h_port h' 0) = []" by simp
  ultimately show ?thesis using h'(1) by (intro exI conjI)
qed

text \<open>
  The hub's locks cannot deadlock: in every reachable state, the goroutine of a port that is
  not waiting for its guest can take a step, or the goroutine holding the lock it wants can.
\<close>

theorem hub_goroutines_never_deadlock:
  assumes "hub_steps new_hub h" and "p_act (h_port h p) \<noteq> Reading" and "p_act (h_port h p) \<noteq> Gone"
  shows "\<exists>r h'. hub_step h h' \<and> p_act (h_port h' r) \<noteq> p_act (h_port h r) \<and>
    (r = p \<or> (\<exists>hdr f t ts. p_act (h_port h p) = Flooding hdr f (t # ts) \<and> p_lock (h_port h t) = Some r))"
proof -
  from assms(1) obtain log where wf: "hub_wf h" by (rule reachable_hub)
  then have ports: "ports_ok h" and locks: "locks_ok h" by (simp_all add: hub_wf_def)
  have finishes: "\<exists>h'. hub_step h h' \<and> p_act (h_port h' r) \<noteq> p_act (h_port h r)"
    if r: "p_act (h_port h r) = Sending hdr f t ts" for r hdr f t ts
  proof -
    from in_handD(2) [OF ports, of r hdr f "t # ts"] r have "0 < length f" by (auto simp: good_frame_def)
    from hub_step.frame_fails [OF r this] r show ?thesis by (intro exI conjI) (assumption, simp)
  qed
  show ?thesis
  proof (cases "p_act (h_port h p)")
    case (Flooding hdr f ts)
    show ?thesis
    proof (cases ts)
      case Nil
      from hub_step.flooded [OF Flooding [unfolded Nil]] Flooding show ?thesis
        by (intro exI [of _ p] exI conjI) (assumption, simp_all)
    next
      case (Cons t us)
      show ?thesis
      proof (cases "p_lock (h_port h t)")
        case None
        from in_handD(1) [OF ports, of p hdr f ts] Flooding have "0 < length hdr" by simp
        from hub_step.header_fails [OF Flooding [unfolded Cons] None this] Flooding Cons show ?thesis
          by (intro exI [of _ p] exI conjI) (assumption, simp_all)
      next
        case (Some r)
        with locks obtain hdr' f' vs where "p_act (h_port h r) = Sending hdr' f' t vs"
          by (cases "p_act (h_port h r)") (auto simp: locks_ok_def)
        from finishes [OF this] Some Flooding Cons show ?thesis by blast
      qed
    qed
  next
    case (Sending hdr f t ts)
    from finishes [OF this] show ?thesis by blast
  next
    case Leaving
    from hub_step.leaves [OF Leaving] Leaving show ?thesis by (intro exI [of _ p] exI conjI) (assumption, simp_all)
  next
    case Closing
    from hub_step.disconnects [OF Closing] Closing show ?thesis by (intro exI [of _ p] exI conjI) (assumption, simp_all)
  qed (use assms in simp_all)
qed

theorem hub_goroutines_never_deadlock_witness:
  "\<exists>h. hub_steps new_hub h \<and> p_act (h_port h 0) = Leaving \<and>
     (\<exists>r h'. hub_step h h' \<and> p_act (h_port h' r) \<noteq> p_act (h_port h r))"
proof -
  let ?h = "set_port 0 (\<lambda>q. q\<lparr>p_act := Leaving\<rparr>) (add_port 0 new_hub)"
  have "hub_step new_hub (add_port 0 new_hub)"
    by (rule hub_step.accepts) (simp_all add: new_hub_def)
  moreover have "hub_step (add_port 0 new_hub) ?h"
    by (rule hub_step.read_fails) (simp_all add: new_hub_def add_port_def)
  ultimately have run: "hub_steps new_hub ?h" by (meson r_into_rtranclp rtranclp_trans)
  have act: "p_act (h_port ?h 0) = Leaving" by simp
  from hub_goroutines_never_deadlock [OF run, of 0] act run show ?thesis
    by (intro exI [of _ ?h]) auto
qed

end
