(* ===== verification/Iso_Roundtrip.thy ===== *)
theory Iso_Roundtrip
  imports Iso_Writer
begin

text \<open>
  What the reader of \<^verbatim>\<open>internal/iso9660\<close> makes of what its writer produces. The scan of a
  directory is related to the list of records it was built from, each record to the file it
  stands for, and the image to the fields written into it; the properties compose the three.
\<close>

section \<open>Records as byte strings\<close>

lemma puts_append: "puts (ps @ qs) b = puts qs (puts ps b)"
  by (induction ps b rule: puts.induct) auto

text \<open>Writes that follow each other without a gap amount to their concatenation.\<close>

fun contiguous :: "nat \<Rightarrow> (nat \<times> 'a list) list \<Rightarrow> bool" where
  "contiguous k [] = True"
| "contiguous k ((i, ys) # ps) = (i = k \<and> contiguous (k + length ys) ps)"

lemma puts_contiguous:
  "contiguous (length xs) ps \<Longrightarrow> length (concat (map snd ps)) \<le> k \<Longrightarrow>
   puts ps (xs @ replicate k z) =
     xs @ concat (map snd ps) @ replicate (k - length (concat (map snd ps))) z"
proof (induction ps arbitrary: xs k)
  case (Cons q ps)
  obtain ys where q: "q = (length xs, ys)" using Cons.prems(1) by (cases q) auto
  have "put_at (length xs) ys (xs @ replicate k z) = (xs @ ys) @ replicate (k - length ys) z"
    using Cons.prems(2) q by (simp add: put_at_def)
  with Cons.IH [of "xs @ ys" "k - length ys"] Cons.prems q show ?case by simp
qed simp

definition pad_len :: "bytes \<Rightarrow> nat" where
  "pad_len ident = (if odd (rec_name_off + length ident) then 1 else 0)"

definition record_head :: "nat \<Rightarrow> nat \<Rightarrow> nat \<Rightarrow> byte \<Rightarrow> nat \<Rightarrow> bytes" where
  "record_head len extent sz flags name_len =
     [word_of_nat len, 0] @ put_both32 (word_of_nat extent) @ put_both32 (word_of_nat sz) @
     fixed_timestamp @ [flags, 0, 0] @ put_both16 1 @ [word_of_nat name_len]"

lemma length_record_head [simp]: "length (record_head len extent sz flags name_len) = 33"
  by (simp add: record_head_def fixed_timestamp_def)

lemma dir_record_bytes:
  "dir_record ident extent sz flags su =
     record_head (33 + length ident + pad_len ident + length su) extent sz flags (length ident) @
     ident @ replicate (pad_len ident) 0 @ su"
proof -
  let ?n = "33 + length ident + pad_len ident + length su"
  let ?ps = "[(0, [word_of_nat ?n]), (1, [0]), (2, put_both32 (word_of_nat extent)),
    (10, put_both32 (word_of_nat sz)), (18, fixed_timestamp), (25, [flags]), (26, [0]), (27, [0]),
    (28, put_both16 1), (32, [word_of_nat (length ident)]), (33, ident)]"
  let ?head = "record_head ?n extent sz flags (length ident)"
  have "dir_record ident extent sz flags su =
      puts (?ps @ [(33 + length ident + pad_len ident, su)]) (replicate ?n 0)"
    by (simp only: dir_record_def Let_def iso_layout pad_len_def append_Cons append_Nil) simp
  also have "\<dots> = puts [(33 + length ident + pad_len ident, su)] (puts ?ps (replicate ?n 0))"
    by (rule puts_append)
  also have "puts ?ps (replicate ?n 0) =
      ?head @ ident @ replicate (pad_len ident + length su) 0"
    using puts_contiguous [of "[]" ?ps ?n 0]
    by (simp add: record_head_def fixed_timestamp_def)
  also have "puts [(33 + length ident + pad_len ident, su)]
      (?head @ ident @ replicate (pad_len ident + length su) 0) =
      ?head @ ident @ replicate (pad_len ident) 0 @ su"
    by (simp add: put_at_def)
  finally show ?thesis .
qed

lemma length_dir_record:
  "length (dir_record ident extent sz flags su) = 33 + length ident + pad_len ident + length su"
  by (simp add: dir_record_bytes)

text \<open>What the reader reads from the fixed part of a record.\<close>

lemma record_head_fields:
  assumes "extent < 2 ^ 32" and "sz < 2 ^ 32" and "r = record_head len extent sz flags nl @ rest"
  shows "r ! 0 = word_of_nat len" and "r ! 1 = 0" and "r ! 25 = flags" and "r ! 26 = 0"
    and "r ! 27 = 0" and "r ! 32 = word_of_nat nl"
    and "unat (le32 (drop 2 r)) = extent" and "unat (le32 (drop 10 r)) = sz"
proof -
  have nth: "(a @ b) ! i = b ! (i - length a)" if "length a \<le> i" for a b :: bytes and i
    using that by (simp add: nth_append)
  show "r ! 0 = word_of_nat len" and "r ! 1 = 0"
    using assms(3) by (simp_all add: record_head_def)
  have split: "record_head len extent sz flags nl = ([word_of_nat len, 0] @
      put_both32 (word_of_nat extent) @ put_both32 (word_of_nat sz) @ fixed_timestamp) @
      [flags, 0, 0] @ put_both16 1 @ [word_of_nat nl]"
    by (simp add: record_head_def)
  show "r ! 25 = flags" and "r ! 26 = 0" and "r ! 27 = 0" and "r ! 32 = word_of_nat nl"
    unfolding assms(3) split
    by (simp_all add: nth_append fixed_timestamp_def)
  have "drop 2 r = put_both32 (word_of_nat extent) @ drop 10 r"
    and "drop 10 r = put_both32 (word_of_nat sz) @ drop 18 r"
    using assms(3) by (simp_all add: record_head_def)
  then have "le32 (drop 2 r) = word_of_nat extent" and "le32 (drop 10 r) = word_of_nat sz"
    by (metis both32.get_put)+
  then show "unat (le32 (drop 2 r)) = extent" and "unat (le32 (drop 10 r)) = sz"
    using assms(1,2) by (simp_all add: unat_of_nat)
qed

section \<open>Names\<close>

lemma system_use_off_pad: "system_use_off (length ident) = 33 + length ident + pad_len ident"
  by (simp add: system_use_off_def pad_len_def rec_name_off_def Let_def)

lemma unat_byte: "n < 256 \<Longrightarrow> unat (word_of_nat n :: byte) = n"
  by (simp add: unat_of_nat)

lemma entry_name_special:
  assumes "b = 0 \<or> b = 1" and "extent < 2 ^ 32" and "sz < 2 ^ 32"
  shows "entry_name (dir_record [b] extent sz flags su) = Some None"
proof -
  let ?r = "dir_record [b] extent sz flags su"
  have "?r ! 32 = 1"
    using record_head_fields(6) [OF assms(2,3) dir_record_bytes] by simp
  moreover have "slice 33 34 ?r = [b]"
    by (simp add: dir_record_bytes slice_append_right) (simp add: slice_def)
  ultimately show ?thesis
    using assms(1) by (simp add: entry_name_def iso_layout Let_def length_dir_record)
qed

lemma entry_name_dir_record:
  assumes "1 < length ident" and "length ident < 256" and "su \<noteq> []"
    and "extent < 2 ^ 32" and "sz < 2 ^ 32" and "rock_ridge_name su = Some (Some name)"
  shows "entry_name (dir_record ident extent sz flags su) = Some (Some name)"
proof -
  let ?r = "dir_record ident extent sz flags su"
  have n: "?r ! 32 = word_of_nat (length ident)"
    using record_head_fields(6) [OF assms(4,5) dir_record_bytes] by simp
  have len: "length ?r = 33 + length ident + pad_len ident + length su" by (rule length_dir_record)
  have "drop (33 + length ident + pad_len ident) ?r = su" by (simp add: dir_record_bytes)
  moreover have "ident \<noteq> []" using assms(1) by auto
  ultimately show ?thesis
    using assms n len
    by (simp add: entry_name_def rec_name_len_off_def system_use_off_pad unat_byte Let_def rec_name_off_def)
qed

lemma rock_ridge_nm_name:
  assumes "name \<noteq> []" and "length name \<le> 250"
  shows "rock_ridge_name (rock_ridge_nm name) = Some (Some name)"
proof -
  let ?nm = "rock_ridge_nm name"
  have len: "length ?nm = 5 + length name" by (simp add: rock_ridge_nm_def)
  have nm: "?nm = to_bytes ''NM'' @ [word_of_nat (5 + length name), 1, 0] @ to_bytes name"
    by (rule rock_ridge_nm_def)
  have two: "?nm ! 2 = word_of_nat (5 + length name)" by (simp add: nm nth_append)
  have sig: "to_text (take 2 ?nm) = ''NM''" by (simp add: nm)
  have rest: "slice 5 (5 + length name) ?nm = to_bytes name" by (simp add: nm slice_def)
  have fin: "rock_ridge_from x [] = Some x" for x by (subst rock_ridge_from.simps) simp
  have "unat (?nm ! 2) = length ?nm" unfolding two len using assms(2) by (intro unat_byte) simp
  then have "rock_ridge_from [] ?nm = rock_ridge_from (to_bytes name) []"
    using sig rest len by (subst rock_ridge_from.simps) (simp add: Let_def)
  then have "rock_ridge_from [] ?nm = Some (to_bytes name)" by (simp add: fin)
  moreover have "to_bytes name \<noteq> []" using assms(1) by (simp add: to_bytes_def)
  ultimately show ?thesis by (simp add: rock_ridge_name_def)
qed

text \<open>
  The files the writer can represent: an ASCII name of up to 107 bytes, so that a record fits
  its length byte, and no more data than the reader's limit.
\<close>

definition fits :: "iso_file \<Rightarrow> bool" where
  "fits f = (check_name (f_name f) = None \<and> length (f_name f) \<le> 107 \<and>
     list_all (\<lambda>c. (of_char c :: nat) < 128) (f_name f) \<and> length (f_data f) \<le> max_file_size)"

lemma length_iso_name: "length (iso_name name) = length name + 2"
  by (simp add: iso_name_def)

lemma fits_name: "fits f \<Longrightarrow> f_name f \<noteq> []"
  by (auto simp: fits_def check_name_def)

lemma length_file_record:
  "length (file_record f e) = 33 + (length (f_name f) + 2) +
     pad_len (to_bytes (iso_name (f_name f))) + (5 + length (f_name f))"
  by (simp add: file_record_def length_dir_record length_iso_name rock_ridge_nm_def)

definition proper :: "bytes \<Rightarrow> bool" where
  "proper rec = (33 \<le> length rec \<and> length rec < 256 \<and> unat (rec ! 0) = length rec \<and>
     entry_name rec \<noteq> None)"

lemma file_record_entry:
  assumes "fits f" and "e < 2 ^ 32"
  shows "proper (file_record f e)" and "entry_name (file_record f e) = Some (Some (f_name f))"
    and "read_entry w (file_record f e) =
      Inr \<lparr>e_lba = e, e_size = length (f_data f), e_flags = 0\<rparr>"
proof -
  have "length (f_data f) \<le> 8388608" using assms(1) by (simp add: fits_def max_file_size_def)
  then have sz: "length (f_data f) < 2 ^ 32" by simp
  have le: "length (f_name f) \<le> 107" using assms(1) by (simp add: fits_def)
  have nm: "rock_ridge_name (rock_ridge_nm (f_name f)) = Some (Some (f_name f))"
    using fits_name [OF assms(1)] le by (simp add: rock_ridge_nm_name)
  show entry: "entry_name (file_record f e) = Some (Some (f_name f))"
    unfolding file_record_def
    by (rule entry_name_dir_record [OF _ _ _ assms(2) sz nm])
       (use le in \<open>auto simp: length_iso_name rock_ridge_nm_def\<close>)
  note h = record_head_fields [OF assms(2) sz dir_record_bytes]
  have len: "length (file_record f e) < 256"
    using le by (simp add: length_file_record pad_len_def length_iso_name)
  moreover have "file_record f e ! 0 = word_of_nat (length (file_record f e))"
    by (simp add: file_record_def h(1) length_dir_record)
  ultimately show "proper (file_record f e)"
    using entry by (simp add: proper_def unat_byte) (simp add: length_file_record)
  show "read_entry w (file_record f e) = Inr \<lparr>e_lba = e, e_size = length (f_data f), e_flags = 0\<rparr>"
    using h by (simp add: read_entry_def iso_layout file_record_def)
qed

lemma special_proper:
  assumes "n < 2 ^ 16"
  shows "proper (self_record n)" and "entry_name (self_record n) = Some None"
    and "proper (parent_record n)" and "entry_name (parent_record n) = Some None"
proof -
  have sz: "n * sector_len < 2 ^ 32" and ext: "sector_root_dir < 2 ^ 32"
    using assms by (simp_all add: sector_len_def sector_root_dir_def)
  show e: "entry_name (self_record n) = Some None" "entry_name (parent_record n) = Some None"
    unfolding self_record_def parent_record_def id_self_def id_parent_def
    by (rule entry_name_special [OF _ ext sz]; simp)+
  have l: "length (self_record n) = 59" "length (parent_record n) = 34"
    by (simp_all add: self_record_def parent_record_def length_dir_record pad_len_def rec_name_off_def
        susp_def extension_reference_def)
  have "self_record n ! 0 = word_of_nat (length (self_record n))"
    "parent_record n ! 0 = word_of_nat (length (parent_record n))"
    using record_head_fields(1) [OF ext sz dir_record_bytes]
    by (simp_all add: self_record_def parent_record_def length_dir_record)
  with e l show "proper (self_record n)" "proper (parent_record n)"
    by (simp_all add: proper_def)
qed

section \<open>Scanning what was built\<close>

lemma add_record_append:
  assumes "length rec \<le> sector_len"
  shows "\<exists>pad. add_record out rec = out @ replicate pad 0 @ rec \<and>
    (pad = 0 \<or> 0 < length out mod sector_len \<and> pad = sector_len - length out mod sector_len)"
proof (cases "length out mod sector_len + length rec > sector_len")
  case True
  then have "0 < length out mod sector_len" using assms by (cases "length out mod sector_len") auto
  with True show ?thesis by (auto simp: add_record_def)
next
  case False
  then show ?thesis by (auto simp: add_record_def intro: exI [of _ 0])
qed

lemma foldl_add_record_prefix: "prefix out (foldl add_record out recs)"
proof (induction recs arbitrary: out)
  case (Cons rec recs)
  have "prefix out (add_record out rec)" by (auto simp: add_record_def)
  with Cons.IH [of "add_record out rec"] show ?case by (metis foldl_Cons prefix_order.trans)
qed simp

definition first_named :: "string \<Rightarrow> bytes list \<Rightarrow> bytes option" where
  "first_named want recs = find (\<lambda>rec. entry_name rec = Some (Some want)) recs"

definition not_found :: "string \<Rightarrow> (err + iso_entry) option" where
  "not_found want = Some (Inl (wrap ''%q: %w'' [want] NotExist))"

lemma scan_at_record:
  assumes "proper rec" and "dir = out @ rec @ rest"
  shows "scan_dir bs want dir (Suc left) (length out) =
    (if entry_name rec = Some (Some want) then Some (read_entry want rec)
     else scan_dir bs want dir left (length out + length rec))"
proof -
  have "dir ! length out = rec ! 0"
    using assms by (cases rec) (auto simp: proper_def nth_append)
  moreover have "slice (length out) (length out + length rec) dir = rec"
    using assms(2) by (simp add: slice_def)
  moreover obtain n where "entry_name rec = Some n" using assms(1) by (auto simp: proper_def)
  ultimately show ?thesis
    using assms by (auto simp: proper_def rec_name_off_def Let_def)
qed

lemma next_sector:
  assumes "0 < n mod sector_len"
  shows "(n div sector_len + 1) * sector_len = n + (sector_len - n mod sector_len)"
proof -
  have "n mod sector_len < sector_len" by (simp add: sector_len_def)
  moreover have "n div sector_len * sector_len + n mod sector_len = n" by (rule div_mult_mod_eq)
  moreover have "(n div sector_len + 1) * sector_len = n div sector_len * sector_len + sector_len"
    by (simp only: distrib_right mult_1)
  ultimately show ?thesis by linarith
qed

lemma scan_at_padding:
  assumes "0 < length out mod sector_len"
    and "dir = out @ replicate (sector_len - length out mod sector_len) 0 @ rest"
  shows "scan_dir sector_len want dir (Suc left) (length out) =
    (if rest = [] then not_found want
     else scan_dir sector_len want dir left
       (length (out @ replicate (sector_len - length out mod sector_len) (0 :: byte))))"
proof -
  define k where "k = sector_len - length out mod sector_len"
  have pos: "0 < k" by (simp add: k_def sector_len_def)
  then have "dir ! length out = 0" using assms(2) by (simp add: nth_append k_def)
  moreover have "(length out div sector_len + 1) * sector_len = length out + k"
    unfolding k_def by (rule next_sector [OF assms(1)])
  moreover have "length dir = length out + k + length rest" using assms(2) by (simp add: k_def)
  ultimately show ?thesis
    using pos by (simp only: scan_dir.simps Let_def not_found_def k_def [symmetric] length_append
        length_replicate unsigned_0) (cases rest; simp)
qed

text \<open>
  The scan of a directory built from records, from the end of what was laid down first: it
  finds the first of the remaining records with the wanted name, or reports that there is
  none, taking at most two turns for each record and one for the final padding.
\<close>

lemma scan_records:
  assumes "dir = pad_sector (foldl add_record out recs)" and "\<forall>rec\<in>set recs. proper rec"
    and "2 * length recs + 2 \<le> left"
  shows "scan_dir sector_len want dir left (length out) =
    (case first_named want recs of Some rec \<Rightarrow> Some (read_entry want rec) | None \<Rightarrow> not_found want)"
  using assms
proof (induction recs arbitrary: out left)
  case Nil
  then obtain l where l: "left = Suc l" by (cases left) auto
  show ?case
  proof (cases "length out mod sector_len = 0")
    case True
    with Nil l show ?thesis by (simp add: pad_sector_def first_named_def not_found_def)
  next
    case False
    then have "dir = out @ replicate (sector_len - length out mod sector_len) 0 @ []"
      using Nil.prems(1) by (simp add: pad_sector_def Let_def)
    from scan_at_padding [OF _ this] False l show ?thesis by (simp add: first_named_def)
  qed
next
  case (Cons rec recs)
  then obtain l where l: "left = Suc (Suc l)" and l': "2 * length recs + 2 \<le> l"
    by (cases left; cases "left - 1") auto
  have rec: "proper rec" using Cons.prems(2) by simp
  obtain pad where pad: "add_record out rec = out @ replicate pad 0 @ rec"
    and pad_cases: "pad = 0 \<or> 0 < length out mod sector_len \<and> pad = sector_len - length out mod sector_len"
    using add_record_append [of rec out] rec by (auto simp: proper_def sector_len_def)
  have "prefix (add_record out rec) dir"
  proof -
    have "prefix (foldl add_record (add_record out rec) recs) dir"
      using Cons.prems(1) by (simp add: pad_sector_def Let_def)
    with foldl_add_record_prefix show ?thesis by (metis prefix_order.trans)
  qed
  then obtain rest where dir: "dir = (out @ replicate pad 0) @ rec @ rest"
    using pad by (auto simp: prefix_def)
  have IH: "scan_dir sector_len want dir k (length (add_record out rec)) =
      (case first_named want recs of Some rec \<Rightarrow> Some (read_entry want rec) | None \<Rightarrow> not_found want)"
    if "2 * length recs + 2 \<le> k" for k
    using Cons.IH [of "add_record out rec" k] Cons.prems that by simp
  have at_rec: "scan_dir sector_len want dir (Suc k) (length (out @ replicate pad (0 :: byte))) =
      (case first_named want (rec # recs) of Some rec \<Rightarrow> Some (read_entry want rec) | None \<Rightarrow> not_found want)"
    if "2 * length recs + 2 \<le> k" for k
    using scan_at_record [OF rec dir, of sector_len want k] IH [OF that] pad
    by (simp add: first_named_def add.assoc)
  from pad_cases show ?case
  proof
    assume "pad = 0"
    with at_rec [of "Suc l"] l l' show ?thesis by simp
  next
    assume p: "0 < length out mod sector_len \<and> pad = sector_len - length out mod sector_len"
    have "rec \<noteq> []" using rec by (auto simp: proper_def)
    with scan_at_padding [of out dir "rec @ rest" want "Suc l"] p dir
    have "scan_dir sector_len want dir left (length out) =
        scan_dir sector_len want dir (Suc l) (length (out @ replicate pad (0 :: byte)))"
      using l by simp
    with at_rec [OF l'] show ?thesis by simp
  qed
qed

lemma scan_root:
  assumes "\<forall>rec\<in>set recs. proper rec" and "n < 2 ^ 16" and "2 * length recs + 4 \<le> left"
    and "dir = pad_sector (foldl add_record (self_record n @ parent_record n) recs)"
  shows "scan_dir sector_len want dir left 0 =
    (case first_named want recs of Some rec \<Rightarrow> Some (read_entry want rec) | None \<Rightarrow> not_found want)"
proof -
  note sp = special_proper [OF assms(2)]
  have "prefix (self_record n @ parent_record n) dir"
    using assms(4) foldl_add_record_prefix [of "self_record n @ parent_record n" recs]
    by (auto simp: pad_sector_def Let_def prefix_def)
  then obtain rest where dir: "dir = self_record n @ parent_record n @ rest"
    by (auto simp: prefix_def)
  obtain l where l: "left = Suc (Suc l)" and l': "2 * length recs + 2 \<le> l"
    using assms(3) by (cases left; cases "left - 1") auto
  have "scan_dir sector_len want dir left 0 = scan_dir sector_len want dir (Suc l) (length (self_record n))"
    using scan_at_record [OF sp(1), of dir "[]" "parent_record n @ rest" sector_len want "Suc l"] dir sp(2) l by simp
  also have "\<dots> = scan_dir sector_len want dir l (length (self_record n @ parent_record n))"
    using scan_at_record [OF sp(3) dir, of sector_len want l] sp(4) by simp
  finally show ?thesis using scan_records [OF assms(4,1) l'] by simp
qed

section \<open>The layout of an image\<close>

lemma sectors_enough: "n \<le> sectors n * sector_len"
proof -
  have "(2047 + n) div 2048 * 2048 + (2047 + n) mod 2048 = 2047 + n" by (rule div_mult_mod_eq)
  moreover have "(2047 + n) mod 2048 < 2048" by simp
  ultimately have "n \<le> (2047 + n) div 2048 * 2048" by linarith
  then show ?thesis by (simp add: sectors_def sector_len_def)
qed

lemma sectors_pos: "0 < sectors n"
  by (auto simp: sectors_def sector_len_def div_greater_zero_iff)

lemma sectors_limit: "n \<le> max_file_size \<Longrightarrow> sectors n \<le> 4096"
proof -
  assume "n \<le> max_file_size"
  then have "(n + sector_len - 1) div sector_len \<le> (max_file_size + sector_len - 1) div sector_len"
    by (intro div_le_mono) simp
  then show ?thesis by (simp add: sectors_def max_file_size_def sector_len_def)
qed

lemma sectors_whole: "n mod sector_len = 0 \<Longrightarrow> 0 < n \<Longrightarrow> sectors n * sector_len = n"
proof -
  assume n: "n mod sector_len = 0" "0 < n"
  then obtain k where k: "n = sector_len * k" by auto
  have "(sector_len * k + sector_len - 1) div sector_len = k" by (simp add: sector_len_def)
  with n k show ?thesis by (simp add: sectors_def)
qed

lemma length_file_extents:
  "file_extents next fs = (es, n) \<Longrightarrow> length es = length fs"
  by (induction "next" fs arbitrary: es n rule: file_extents.induct) (auto split: prod.splits)

lemma file_extents_bounds:
  assumes "file_extents next fs = (es, n)" and "\<forall>f\<in>set fs. length (f_data f) \<le> max_file_size"
  shows "n \<le> next + 4096 * length fs \<and> next \<le> n \<and> (\<forall>e\<in>set es. e < n)"
  using assms
proof (induction "next" fs arbitrary: es n rule: file_extents.induct)
  case (2 "next" f fs)
  obtain es' where es': "file_extents (next + sectors (length (f_data f))) fs = (es', n)" and "es = next # es'"
    using "2.prems"(1) by (auto split: prod.splits)
  with "2.IH" [OF es'] "2.prems"(2) sectors_limit [of "length (f_data f)"] sectors_pos [of "length (f_data f)"]
  show ?case by auto
qed auto

lemma file_extents_ascending:
  assumes "file_extents next fs = (es, n)"
  shows "ascending (next * sector_len) (map2 (\<lambda>f e. (e * sector_len, f_data f)) fs es) (n * sector_len)"
  using assms
proof (induction "next" fs arbitrary: es n rule: file_extents.induct)
  case (2 "next" f fs)
  obtain es' where es': "file_extents (next + sectors (length (f_data f))) fs = (es', n)"
    and es: "es = next # es'"
    using "2.prems" by (auto split: prod.splits)
  have mono: "ascending k ps m \<Longrightarrow> k' \<le> k \<Longrightarrow> ascending k' ps m" for k k' m and ps :: "(nat \<times> bytes) list"
    by (cases "(k, ps, m)" rule: ascending.cases) auto
  have "next * sector_len + length (f_data f) \<le> (next + sectors (length (f_data f))) * sector_len"
    using sectors_enough by (simp add: distrib_right)
  from mono [OF "2.IH" [OF es'] this] es show ?case by simp
qed simp

text \<open>The size of the directory does not depend on the extents written into it.\<close>

lemma length_add_record:
  "length out = length out' \<Longrightarrow> length rec = length rec' \<Longrightarrow>
   length (add_record out rec) = length (add_record out' rec')"
  by (simp add: add_record_def)

lemma length_foldl_add_record:
  "map length recs = map length recs' \<Longrightarrow> length out = length out' \<Longrightarrow>
   length (foldl add_record out recs) = length (foldl add_record out' recs')"
proof (induction recs arbitrary: recs' out out')
  case (Cons rec recs)
  then obtain rec' rest where r: "recs' = rec' # rest" "length rec = length rec'"
    "map length recs = map length rest" by (cases recs') auto
  from Cons.IH [OF r(3) length_add_record [OF Cons.prems(2) r(2)]] r(1) show ?case by simp
qed simp

lemma length_pad_sector: "length out = length out' \<Longrightarrow> length (pad_sector out) = length (pad_sector out')"
  by (simp add: pad_sector_def Let_def)

lemma length_file_records:
  "length es = length fs \<Longrightarrow>
   map length (map2 file_record fs es) = map (\<lambda>f. length (file_record f 0)) fs"
proof (induction es fs rule: list_induct2)
  case (Cons e es f fs)
  have "length (file_record f e) = length (file_record f 0)" by (simp only: length_file_record)
  with Cons.IH show ?case by simp
qed simp

lemma length_root_extents:
  assumes "length es = length fs" and "length es' = length fs"
  shows "length (build_root_dir_with_extents fs es n) = length (build_root_dir_with_extents fs es' n')"
proof -
  have "map length (map2 file_record fs es) = map length (map2 file_record fs es')"
    using assms by (simp only: length_file_records)
  moreover have "length (self_record n @ parent_record n) = length (self_record n' @ parent_record n')"
    by (simp add: self_record_def parent_record_def length_dir_record)
  ultimately show ?thesis
    unfolding build_root_dir_with_extents_def
    by (rule length_pad_sector [OF length_foldl_add_record])
qed

lemma length_foldl_bound:
  "\<forall>rec\<in>set recs. length rec < 256 \<Longrightarrow>
   length (foldl add_record out recs) \<le> length out + 512 * length recs"
proof (induction recs arbitrary: out)
  case (Cons rec recs)
  then have "length (add_record out rec) \<le> length out + 512" by (auto simp: add_record_def)
  with Cons.IH [of "add_record out rec"] Cons.prems show ?case by simp
qed simp

lemma pad_sector_whole: "length (pad_sector out) mod sector_len = 0"
proof (cases "length out mod sector_len = 0")
  case False
  have "length out mod sector_len < sector_len" by (simp add: sector_len_def)
  with False have "length (pad_sector out) = (length out div sector_len + 1) * sector_len"
    using next_sector [of "length out"] by (simp add: pad_sector_def Let_def)
  then show ?thesis by (simp only: mod_mult_self2_is_0)
qed (simp add: pad_sector_def)

lemma pad_sector_bound: "length (pad_sector out) \<le> length out + sector_len"
  by (simp add: pad_sector_def Let_def)

lemma root_dir_size:
  fixes n :: nat
  assumes "length fs \<le> max_files" and "\<forall>f\<in>set fs. fits f" and "length es = length fs"
  defines "root \<equiv> build_root_dir_with_extents fs es n"
  shows "sectors (length root) * sector_len = length root" and "0 < length root"
    and "length root \<le> 40960"
proof -
  let ?out = "foldl add_record (self_record n @ parent_record n) (map2 file_record fs es)"
  have rec: "\<forall>rec\<in>set (map2 file_record fs es). length rec < 256"
  proof
    fix rec assume "rec \<in> set (map2 file_record fs es)"
    then obtain f e where "f \<in> set fs" and rec: "rec = file_record f e"
      by (auto dest: set_zip_leftD)
    with assms(2) have "length (f_name f) \<le> 107" by (auto simp: fits_def)
    with rec show "length rec < 256"
      by (simp add: length_file_record pad_len_def length_iso_name)
  qed
  have two: "length (self_record n @ parent_record n) = 93"
    by (simp add: self_record_def parent_record_def length_dir_record pad_len_def rec_name_off_def
        susp_def extension_reference_def)
  have "length ?out \<le> 93 + 512 * 64"
    using length_foldl_bound [OF rec, of "self_record n @ parent_record n"] assms(1,3) two
    by (simp add: max_files_def)
  then show "length root \<le> 40960"
    using pad_sector_bound [of ?out]
    by (simp add: root_def build_root_dir_with_extents_def sector_len_def)
  have "93 \<le> length ?out"
    using two foldl_add_record_prefix [THEN prefix_length_le, of "self_record n @ parent_record n"] by metis
  moreover have "length ?out \<le> length (pad_sector ?out)" by (simp add: pad_sector_def Let_def)
  ultimately have "0 < length (pad_sector ?out)" by linarith
  then show pos: "0 < length root" by (simp only: root_def build_root_dir_with_extents_def)
  have "length root mod sector_len = 0"
    unfolding root_def build_root_dir_with_extents_def by (rule pad_sector_whole)
  then show "sectors (length root) * sector_len = length root" using pos by (rule sectors_whole)
qed

section \<open>Reading the image back\<close>

lemma drop_slice: "i \<le> j \<Longrightarrow> drop i b = slice i j b @ drop j b"
  by (metis append_take_drop_id drop_drop le_add_diff_inverse2 slice_def)

lemma slice_slice: "b + j \<le> c \<Longrightarrow> slice i j (slice b c xs) = slice (b + i) (b + j) xs"
  by (simp add: slice_def drop_take add.commute min_def)

lemma length_pad_text [simp]: "length (pad_text n s) = n"
  by (simp add: pad_text_def)

lemma length_zero_date [simp]: "length zero_date = 17"
  by (simp add: zero_date_def)

lemma length_root_record: "length (dir_record [id_self] e n fl []) = 34"
  by (simp add: length_dir_record pad_len_def rec_name_off_def)

lemma ascending_pvd: "ascending 0 (pvd_fields label n_sectors rs) 2048"
  by (simp add: pvd_fields_def iso_layout length_root_record)

lemma ascending_terminator: "ascending 0 terminator_fields 2048"
  by (simp add: terminator_fields_def iso_layout)

lemma ascending_path_tables: "ascending 0 path_table_l_fields 2048" "ascending 0 path_table_m_fields 2048"
  by (simp_all add: path_table_l_fields_def path_table_m_fields_def)

lemma ascending_image_from:
  assumes "length root = rs * sector_len" and "file_extents (sector_root_dir + rs) fs = (es, n)"
  shows "ascending 32768 (image_fields label n rs root fs es) (n * sector_len)"
proof -
  have s: "sector_pvd * sector_len = 32768" "sector_terminator * sector_len = 34816"
    "sector_path_table_l * sector_len = 36864" "sector_path_table_m * sector_len = 38912"
    "sector_root_dir * sector_len = 40960"
    by (simp_all add: sector_pvd_def sector_terminator_def sector_path_table_l_def
        sector_path_table_m_def sector_root_dir_def sector_len_def)
  have sh: "ascending k (shift k ps) (k + 2048)" if "ascending 0 ps 2048" for k and ps :: "(nat \<times> bytes) list"
    using ascending_shift [OF that, of k] by simp
  have files: "ascending (40960 + length root) (map2 (\<lambda>f e. (e * sector_len, f_data f)) fs es) (n * sector_len)"
    using file_extents_ascending [OF assms(2)] assms(1) s(5) by (simp add: distrib_right)
  let ?files = "map2 (\<lambda>f e. (e * sector_len, f_data f)) fs es"
  have a5: "ascending 40960 ([(40960, root)] @ ?files) (n * sector_len)" using files by simp
  have a4: "ascending 38912 (shift 38912 path_table_m_fields @ [(40960, root)] @ ?files) (n * sector_len)"
    by (rule ascending_append [OF _ a5]) (use sh [OF ascending_path_tables(2), of 38912] in simp)
  have a3: "ascending 36864 (shift 36864 path_table_l_fields @ shift 38912 path_table_m_fields @
      [(40960, root)] @ ?files) (n * sector_len)"
    by (rule ascending_append [OF _ a4]) (use sh [OF ascending_path_tables(1), of 36864] in simp)
  have a2: "ascending 34816 (shift 34816 terminator_fields @ shift 36864 path_table_l_fields @
      shift 38912 path_table_m_fields @ [(40960, root)] @ ?files) (n * sector_len)"
    by (rule ascending_append [OF _ a3]) (use sh [OF ascending_terminator, of 34816] in simp)
  show ?thesis
    unfolding image_fields_def s
    by (rule ascending_append [OF _ a2]) (use sh [OF ascending_pvd, of 32768] in simp)
qed

lemma ascending_image:
  assumes "length root = rs * sector_len" and "file_extents (sector_root_dir + rs) fs = (es, n)"
  shows "ascending 0 (image_fields label n rs root fs es) (n * sector_len)"
  using ascending_image_from [OF assms, of label]
  by (cases "image_fields label n rs root fs es") (auto split: prod.splits)

text \<open>Each field of the image reads back from its place.\<close>

lemma image_field:
  assumes "length root = rs * sector_len" and "file_extents (sector_root_dir + rs) fs = (es, n)"
    and "(i, ys) \<in> set (image_fields label n rs root fs es)"
  shows "slice i (i + length ys) (puts (image_fields label n rs root fs es)
    (replicate (n * sector_len) 0)) = ys"
  using slice_puts [of 0 "image_fields label n rs root fs es" "replicate (n * sector_len) 0" i ys]
    ascending_image [OF assms(1,2), of label] assms(3) by simp

lemma ascending_fits: "ascending k ps n \<Longrightarrow> (i, ys) \<in> set ps \<Longrightarrow> i + length ys \<le> n"
  by (induction k ps n rule: ascending.induct) (auto dest: ascending_le)

lemma image_pvd_field:
  assumes "length root = rs * sector_len" and "file_extents (sector_root_dir + rs) fs = (es, n)"
    and "img = puts (image_fields label n rs root fs es) (replicate (n * sector_len) 0)"
    and "(i, ys) \<in> set (pvd_fields label n rs)"
  shows "slice i (i + length ys) (slice pvd_offset (pvd_offset + sector_len) img) = ys"
proof -
  have "i + length ys \<le> 2048" using ascending_fits [OF ascending_pvd assms(4)] .
  moreover have "(pvd_offset + i, ys) \<in> set (image_fields label n rs root fs es)"
    using assms(4) by (force simp: image_fields_def shift_def pvd_offset_def sector_pvd_def sector_len_def)
  from image_field [OF assms(1,2) this]
  have "slice (pvd_offset + i) (pvd_offset + (i + length ys)) img = ys"
    by (simp add: assms(3) add.assoc)
  ultimately show ?thesis by (simp add: slice_slice sector_len_def)
qed

lemma hd_slice: "i < length b \<Longrightarrow> slice i (i + 1) b = [x] \<Longrightarrow> b ! i = x"
  by (metis One_nat_def add.right_neutral lessI nth_Cons_0 nth_slice add_less_cancel_left)

lemma parse_written_pvd:
  assumes "length root = rs * sector_len" and "file_extents (sector_root_dir + rs) fs = (es, n)"
    and "img = puts (image_fields label n rs root fs es) (replicate (n * sector_len) 0)"
    and "rs < 2 ^ 16" and "pvd = slice pvd_offset (pvd_offset + sector_len) img"
  shows "parse_pvd pvd = Inr \<lparr>block_size = sector_len, root_lba = sector_root_dir, root_size = rs * sector_len\<rparr>"
proof -
  have "sector_root_dir * sector_len + length root \<le> n * sector_len"
    using ascending_fits [OF ascending_image [OF assms(1,2), of label]]
    by (auto simp: image_fields_def)
  then have len: "length pvd = 2048"
    using assms(3,5) by (simp add: pvd_offset_def sector_len_def sector_root_dir_def)
  note field = image_pvd_field [OF assms(1-3), folded assms(5)]
  have "slice 1 (1 + length (to_bytes ''CD001'')) pvd = to_bytes ''CD001''"
    by (rule field) (simp add: pvd_fields_def iso_layout)
  moreover have "1 + length (to_bytes ''CD001'') = 6" by simp
  ultimately have idf: "slice 1 6 pvd = to_bytes ''CD001''" by (simp only:)
  have "slice 0 (0 + 1) pvd = [1]" and bs: "slice 128 132 pvd = put_both16 (word_of_nat sector_len)"
    and rd: "slice 156 190 pvd = dir_record [id_self] sector_root_dir (rs * sector_len) flag_directory []"
    using field [of 0 "[1]"] field [of 128 "put_both16 (word_of_nat sector_len)"]
      field [of 156 "dir_record [id_self] sector_root_dir (rs * sector_len) flag_directory []"]
    by (simp_all add: pvd_fields_def iso_layout length_root_record)
  then have first: "pvd ! 0 = 1" using len by (intro hd_slice) simp_all
  have "le16 (drop 128 pvd) = word_of_nat sector_len"
    using drop_slice [of 128 132 pvd] both16.get_put by (simp add: bs)
  then have size: "unat (le16 (drop 128 pvd)) = sector_len" by (simp add: sector_len_def unat_of_nat)
  have "rs * sector_len < 2 ^ 32" "sector_root_dir < 2 ^ 32"
    using assms(4) by (simp_all add: sector_len_def sector_root_dir_def)
  note h = record_head_fields [OF this(2,1) dir_record_bytes]
  show ?thesis
    using first idf rd size h(7,8)
    by (simp add: parse_pvd_def Let_def pvd_type_off_def pvd_id_off_def pvd_block_size_off_def
        pvd_root_dir_off_def rec_extent_off_def rec_size_off_def sector_len_def)
qed

text \<open>What the writer accepts and can represent.\<close>

definition writable :: "iso_file list \<Rightarrow> bool" where
  "writable files =
     (files \<noteq> [] \<and> length files \<le> max_files \<and> distinct (map f_name files) \<and>
      (\<forall>f\<in>set files. fits f))"

lemma sort_files_facts:
  "set (sort_files files) = set files" "length (sort_files files) = length files"
  "distinct (map f_name (sort_files files)) = distinct (map f_name files)"
proof -
  show "set (sort_files files) = set files" "length (sort_files files) = length files"
    by (simp_all add: sort_files_def)
  have "mset (map f_name (sort_files files)) = mset (map f_name files)"
    by (simp add: sort_files_def)
  then show "distinct (map f_name (sort_files files)) = distinct (map f_name files)"
    by (rule mset_eq_imp_distinct_iff)
qed

lemma check_names_ok: "\<forall>f\<in>set fs. fits f \<Longrightarrow> check_names fs = None"
  by (induction fs) (auto simp: fits_def)

lemma sectors_mult [simp]: "0 < k \<Longrightarrow> sectors (k * sector_len) = k"
proof -
  assume "0 < k"
  then have "sectors (k * sector_len) * sector_len = k * sector_len"
    by (intro sectors_whole) (auto simp: sector_len_def)
  then show ?thesis by (simp add: sector_len_def)
qed

text \<open>A written image, with the layout the writer chose for it.\<close>

definition image_of :: "string \<Rightarrow> iso_file list \<Rightarrow> nat list \<Rightarrow> nat \<Rightarrow> nat \<Rightarrow> bytes" where
  "image_of label fs es n rs =
     puts (image_fields label n rs (build_root_dir_with_extents fs es rs) fs es)
       (replicate (n * sector_len) 0)"

definition laid_out :: "iso_file list \<Rightarrow> nat list \<Rightarrow> nat \<Rightarrow> nat \<Rightarrow> bool" where
  "laid_out fs es n rs =
     (file_extents (sector_root_dir + rs) fs = (es, n) \<and>
      length (build_root_dir_with_extents fs es rs) = rs * sector_len \<and>
      0 < rs \<and> rs \<le> 20 \<and> n < 2 ^ 32 \<and> length es = length fs \<and> (\<forall>e\<in>set es. e < 2 ^ 32))"

lemma write_image_layout:
  assumes "writable files"
  shows "\<exists>es n rs. write_image label files = Inr (image_of label (sort_files files) es n rs) \<and>
    laid_out (sort_files files) es n rs"
proof -
  let ?fs = "sort_files files"
  have fits: "\<forall>f\<in>set ?fs. fits f" and len: "length ?fs \<le> max_files"
    using assms by (simp_all add: writable_def sort_files_facts)
  let ?sized = "build_root_dir ?fs 0"
  define rs where "rs = sectors (length ?sized)"
  obtain es n where es: "file_extents (sector_root_dir + rs) ?fs = (es, n)" by fastforce
  have les: "length es = length ?fs" by (rule length_file_extents [OF es])
  let ?root = "build_root_dir_with_extents ?fs es rs"
  have same: "length ?root = length ?sized"
    unfolding build_root_dir_def by (rule length_root_extents [OF les length_replicate])
  note size = root_dir_size [OF len fits les, of rs]
  have "sectors (length ?root) = rs" unfolding same by (simp add: rs_def)
  with size(1) have whole: "rs * sector_len = length ?root" by simp
  with size(2) have "rs \<noteq> 0" by (cases "rs = 0") auto
  then have rs: "0 < rs" "rs \<le> 20" using size(3) whole by (auto simp: sector_len_def)
  have b: "n \<le> sector_root_dir + rs + 4096 * length ?fs" "\<forall>e\<in>set es. e < n"
    using file_extents_bounds [OF es] fits by (auto simp: fits_def)
  then have n: "n < 2 ^ 32" using rs len by (simp add: sector_root_dir_def max_files_def)
  have sec: "sectors (length ?root) = rs" using same by (simp add: rs_def)
  have wr: "write_image label files = Inr (image_of label ?fs es n rs)"
  proof -
    have "files \<noteq> []" "\<not> max_files < length files" using assms by (simp_all add: writable_def)
    then show ?thesis
      unfolding write_image_def Let_def image_of_def
      by (simp only: check_names_ok [OF fits] rs_def [symmetric] es sec if_False option.case
          prod.case simp_thms)
  qed
  have "laid_out ?fs es n rs"
    using es whole rs n les b(2) by (auto simp: laid_out_def)
  with wr show ?thesis by blast
qed

lemma first_named_record:
  assumes "length es = length fs" and "distinct (map f_name fs)" and "\<forall>f\<in>set fs. fits f"
    and "\<forall>e\<in>set es. e < 2 ^ 32" and "(f, e) \<in> set (zip fs es)"
  shows "first_named (f_name f) (map2 file_record fs es) = Some (file_record f e)"
  using assms
proof (induction es fs rule: list_induct2)
  case (Cons x es y fs)
  have y: "entry_name (file_record y x) = Some (Some (f_name y))"
    using Cons.prems by (intro file_record_entry) auto
  show ?case
  proof (cases "(f, e) = (y, x)")
    case True
    with y show ?thesis by (simp add: first_named_def)
  next
    case False
    then have f: "(f, e) \<in> set (zip fs es)" using Cons.prems(4) by auto
    then have "f_name f \<in> f_name ` set fs" by (intro imageI) (rule set_zip_leftD)
    with Cons.prems(1) have "f_name f \<noteq> f_name y" by auto
    with y Cons.IH f Cons.prems show ?thesis by (simp add: first_named_def)
  qed
qed simp

lemma first_named_none:
  assumes "length es = length fs" and "\<forall>f\<in>set fs. fits f" and "\<forall>e\<in>set es. e < 2 ^ 32"
    and "name \<notin> f_name ` set fs"
  shows "first_named name (map2 file_record fs es) = None"
  using assms
proof (induction es fs rule: list_induct2)
  case (Cons x es y fs)
  have "entry_name (file_record y x) = Some (Some (f_name y))"
    using Cons.prems by (intro file_record_entry) auto
  with Cons show ?case by (auto simp: first_named_def)
qed (simp add: first_named_def)

lemma records_proper:
  assumes "\<forall>f\<in>set fs. fits f" and "\<forall>e\<in>set es. e < 2 ^ 32"
  shows "\<forall>rec\<in>set (map2 file_record fs es). proper rec"
  using assms by (auto intro!: file_record_entry(1) dest: set_zip_leftD set_zip_rightD)

lemma path_parts_plain:
  assumes "fits f"
  shows "path_parts (f_name f) = [f_name f]"
proof -
  have "CHR ''/'' \<notin> set (f_name f)"
    using assms by (auto simp: fits_def check_name_def contains_any_def split: if_splits)
  then have "trim_left is_slash (f_name f) = f_name f" "trim_right is_slash (f_name f) = f_name f"
    using fits_name [OF assms] hd_in_set [of "f_name f"] last_in_set [of "f_name f"]
    by (metis is_slash_def trim_left_id trim_right_id)+
  with \<open>CHR ''/'' \<notin> set (f_name f)\<close> show ?thesis by (simp add: path_parts_def split_on_no_sep)
qed

section \<open>The whole way\<close>

text \<open>Opening a device and reading one file of it, as the metadata source does.\<close>

definition read_from_image :: "reader_at \<Rightarrow> string \<Rightarrow> (err + bytes) option io" where
  "read_from_image ra name = do {
     r \<leftarrow> iso_open ra;
     (case r of Inl e \<Rightarrow> give (Some (Inl e)) | Inr rd \<Rightarrow> read_file ra rd name)
   }"

lemma laid_out_parts:
  assumes "laid_out fs es n rs" and "img = image_of label fs es n rs"
  shows "parse_pvd (slice pvd_offset (pvd_offset + sector_len) img) =
      Inr \<lparr>block_size = sector_len, root_lba = sector_root_dir, root_size = rs * sector_len\<rparr>"
    and "slice (sector_root_dir * sector_len) (sector_root_dir * sector_len + rs * sector_len) img =
      build_root_dir_with_extents fs es rs"
    and "(f, e) \<in> set (zip fs es) \<Longrightarrow>
      slice (e * sector_len) (e * sector_len + length (f_data f)) img = f_data f \<and>
      e * sector_len + length (f_data f) \<le> length img"
    and "(sector_root_dir + rs) * sector_len \<le> length img"
proof -
  let ?root = "build_root_dir_with_extents fs es rs"
  have ext: "file_extents (sector_root_dir + rs) fs = (es, n)" and root: "length ?root = rs * sector_len"
    and rs: "rs < 2 ^ 16"
    using assms(1) by (simp_all add: laid_out_def)
  have img: "img = puts (image_fields label n rs ?root fs es) (replicate (n * sector_len) 0)"
    using assms(2) by (simp add: image_of_def)
  show "parse_pvd (slice pvd_offset (pvd_offset + sector_len) img) =
      Inr \<lparr>block_size = sector_len, root_lba = sector_root_dir, root_size = rs * sector_len\<rparr>"
    by (rule parse_written_pvd [OF root ext img rs refl])
  have "(sector_root_dir * sector_len, ?root) \<in> set (image_fields label n rs ?root fs es)"
    by (simp add: image_fields_def)
  from image_field [OF root ext this] root img
  show "slice (sector_root_dir * sector_len) (sector_root_dir * sector_len + rs * sector_len) img = ?root"
    by simp
  note asc = ascending_image [OF root ext, of label]
  have li: "length img = n * sector_len" by (simp add: img)
  show "slice (e * sector_len) (e * sector_len + length (f_data f)) img = f_data f \<and>
      e * sector_len + length (f_data f) \<le> length img" if "(f, e) \<in> set (zip fs es)"
  proof -
    have mem: "(e * sector_len, f_data f) \<in> set (image_fields label n rs ?root fs es)"
      using that by (force simp: image_fields_def)
    from image_field [OF root ext mem] ascending_fits [OF asc mem] img li show ?thesis by simp
  qed
  have "(sector_root_dir * sector_len, ?root) \<in> set (image_fields label n rs ?root fs es)"
    by (simp add: image_fields_def)
  from ascending_fits [OF asc this] root li show "(sector_root_dir + rs) * sector_len \<le> length img"
    by (simp add: distrib_right)
qed

lemma scan_written:
  assumes "laid_out fs es n rs" and "length fs \<le> max_files" and "\<forall>f\<in>set fs. fits f"
  shows "scan_dir sector_len want (build_root_dir_with_extents fs es rs) max_records 0 =
    (case first_named want (map2 file_record fs es) of
       Some rec \<Rightarrow> Some (read_entry want rec) | None \<Rightarrow> not_found want)"
proof (rule scan_root)
  have "length es = length fs" and "\<forall>e\<in>set es. e < 2 ^ 32" and "rs \<le> 20"
    using assms(1) by (simp_all add: laid_out_def)
  then show "\<forall>rec\<in>set (map2 file_record fs es). proper rec" and "rs < 2 ^ 16"
    and "2 * length (map2 file_record fs es) + 4 \<le> max_records"
    using records_proper [OF assms(3)] assms(2) by (simp_all add: max_records_def max_files_def)
qed (rule build_root_dir_with_extents_def)

context iso_image
begin

text \<open>On a device that holds a written image, opening always gives one reader, and each file reads
  back through it as it was given.\<close>

lemma written_reader:
  assumes "writable files" and "write_image label files = Inr written" and "img = Some written"
  shows "\<exists>r. (\<forall>h. fst (run_state (iso_open ra) h) = Inr r) \<and>
    (\<forall>f\<in>set files. \<forall>h. fst (run_state (read_file ra r (f_name f)) h) = Some (Inr (f_data f)))"
proof -
  let ?fs = "sort_files files"
  from write_image_layout [OF assms(1), of label] assms(2)
  obtain es n rs where i: "written = image_of label ?fs es n rs" and lay: "laid_out ?fs es n rs" by auto
  note parts = laid_out_parts [OF lay i]
  have fits: "\<forall>f\<in>set ?fs. fits f" and len: "length ?fs \<le> max_files"
    and dist: "distinct (map f_name ?fs)" and les: "length es = length ?fs"
    and es: "\<forall>e\<in>set es. e < 2 ^ 32" and rs: "0 < rs" "rs \<le> 20"
    using assms(1) lay by (simp_all add: writable_def sort_files_facts laid_out_def)
  let ?r = "\<lparr>block_size = sector_len, root_lba = sector_root_dir, root_size = rs * sector_len\<rparr>"
  have big: "40960 + rs * sector_len \<le> length written"
    using parts(4) by (simp add: sector_root_dir_def sector_len_def)
  then have "pvd_offset + sector_len \<le> length written" by (simp add: pvd_offset_def sector_len_def)
  then have pvd: "image_at img sector_len pvd_offset = Some (slice pvd_offset (pvd_offset + sector_len) written)"
    unfolding assms(3) by (rule image_at_slice)
  have r: "fst (run_state (iso_open ra) h) = Inr ?r" for h
    using open_image [OF pvd, of h] parts(1) by simp
  have dir: "image_at img (rs * sector_len) (sector_root_dir * sector_len) =
      Some (build_root_dir_with_extents ?fs es rs)"
    using parts(2,4) unfolding assms(3) by (subst image_at_slice) (simp_all add: distrib_right)
  have "fst (run_state (read_file ra ?r (f_name f)) h) = Some (Inr (f_data f))" if fin: "f \<in> set files" for f h
  proof -
    obtain e where e: "(f, e) \<in> set (zip ?fs es)"
      using fin les sort_files_facts(1) [of files] by (metis in_set_impl_in_set_zip1)
    then have f: "fits f" and e32: "e < 2 ^ 32"
      using fits es by (auto dest: set_zip_leftD set_zip_rightD)
    have scan: "scan_dir sector_len (f_name f) (build_root_dir_with_extents ?fs es rs) max_records 0 =
        Some (Inr \<lparr>e_lba = e, e_size = length (f_data f), e_flags = 0\<rparr>)"
      using scan_written [OF lay len fits] first_named_record [OF les dist fits es e]
        file_record_entry(3) [OF f e32] by simp
    have data: "image_at img (length (f_data f)) (e * sector_len) = Some (f_data f)"
      using parts(3) [OF e] unfolding assms(3) by (subst image_at_slice) simp_all
    show ?thesis
      by (rule read_root_file [where e = "\<lparr>e_lba = e, e_size = length (f_data f), e_flags = 0\<rparr>"
            and dir = "build_root_dir_with_extents ?fs es rs"])
         (use dir scan data rs f path_parts_plain in \<open>simp_all add: fits_def max_records_def sector_len_def\<close>)
  qed
  with r show ?thesis by blast
qed

lemma written_file_reads_back:
  assumes "writable files" and "write_image label files = Inr written" and "img = Some written"
    and "f \<in> set files"
  shows "fst (run_state (read_from_image ra (f_name f)) h) = Some (Inr (f_data f))"
proof -
  obtain r where r: "fst (run_state (iso_open ra) h) = Inr r"
    and f: "\<And>h. fst (run_state (read_file ra r (f_name f)) h) = Some (Inr (f_data f))"
    using written_reader [OF assms(1-3)] assms(4) by blast
  then show ?thesis
    by (cases "run_state (iso_open ra) h") (simp add: read_from_image_def)
qed

text \<open>A name the drive does not carry is reported as such, which the caller tells from a failure.\<close>

lemma unwritten_name_not_found:
  assumes "writable files" and "write_image label files = Inr written" and "img = Some written"
    and "name \<notin> f_name ` set files" and "path_parts name = [name]"
  shows "\<exists>e. fst (run_state (read_from_image ra name) h) = Some (Inl e) \<and> is_not_exist e"
proof -
  let ?fs = "sort_files files"
  from write_image_layout [OF assms(1), of label] assms(2)
  obtain es n rs where i: "written = image_of label ?fs es n rs" and lay: "laid_out ?fs es n rs" by auto
  note parts = laid_out_parts [OF lay i]
  have fits: "\<forall>f\<in>set ?fs. fits f" and len: "length ?fs \<le> max_files"
    and les: "length es = length ?fs" and es: "\<forall>e\<in>set es. e < 2 ^ 32" and rs: "0 < rs" "rs \<le> 20"
    using assms(1) lay by (simp_all add: writable_def sort_files_facts laid_out_def)
  let ?r = "\<lparr>block_size = sector_len, root_lba = sector_root_dir, root_size = rs * sector_len\<rparr>"
  have big: "40960 + rs * sector_len \<le> length written"
    using parts(4) by (simp add: sector_root_dir_def sector_len_def)
  then have "pvd_offset + sector_len \<le> length written" by (simp add: pvd_offset_def sector_len_def)
  then have pvd: "image_at img sector_len pvd_offset = Some (slice pvd_offset (pvd_offset + sector_len) written)"
    unfolding assms(3) by (rule image_at_slice)
  obtain r h1 where o: "run_state (iso_open ra) h = (r, h1)" by fastforce
  from open_image [OF pvd, of h] o parts(1) have r: "r = Inr ?r" by simp
  have dir: "image_at img (root_size ?r) (root_lba ?r * block_size ?r) =
      Some (build_root_dir_with_extents ?fs es rs)"
    using parts(2,4) unfolding assms(3) by (subst image_at_slice) (simp_all add: distrib_right)
  obtain f h2 where f: "run_state (find_entry ra ?r (root_lba ?r) (root_size ?r) name) h1 = (f, h2)"
    by fastforce
  have "f = not_found name"
    using find_entry_image [OF dir, of name h1] f rs scan_written [OF lay len fits, of name]
      first_named_none [OF les fits es, of name] assms(4) sort_files_facts(1) [of files]
    by (simp add: max_records_def sector_len_def)
  with o r f assms(5) show ?thesis by (simp add: read_from_image_def read_file_def not_found_def)
qed

end

lemma written_before_pvd:
  assumes "laid_out fs es n rs" and "img = image_of label fs es n rs" and "j \<le> 32768" and "i \<le> j"
  shows "slice i j img = replicate (j - i) 0"
proof -
  let ?root = "build_root_dir_with_extents fs es rs"
  have ext: "file_extents (sector_root_dir + rs) fs = (es, n)" and root: "length ?root = rs * sector_len"
    using assms(1) by (simp_all add: laid_out_def)
  have big: "32768 \<le> n * sector_len"
    using laid_out_parts(4) [OF assms(1,2)] assms(2)
    by (simp add: image_of_def sector_root_dir_def sector_len_def)
  have "slice i j img = slice i j (replicate (n * sector_len) 0)"
    unfolding assms(2) image_of_def
    using slice_puts_before [of 32768 "image_fields label n rs ?root fs es" "replicate (n * sector_len) 0" j]
      ascending_image_from [OF root ext, of label] assms(3) by simp
  also have "\<dots> = replicate (j - i) 0"
    using big assms(3,4) by (simp add: slice_def min_def)
  finally show ?thesis .
qed

lemma written_image_info:
  assumes "laid_out fs es n rs" and "img = image_of label fs es n rs"
    and "length label \<le> 32" and "label = [] \<or> \<not> blank_or_nul (last label)"
  shows "image_info (Some img) = Some \<lparr>fs_type = ''iso9660'', fs_uuid = [], fs_label = label\<rparr>"
proof -
  let ?root = "build_root_dir_with_extents fs es rs"
  have ext: "file_extents (sector_root_dir + rs) fs = (es, n)" and root: "length ?root = rs * sector_len"
    using assms(1) by (simp_all add: laid_out_def)
  have img: "img = puts (image_fields label n rs ?root fs es) (replicate (n * sector_len) 0)"
    using assms(2) by (simp add: image_of_def)
  have big: "40960 \<le> length img"
    using laid_out_parts(4) [OF assms(1,2)] by (simp add: sector_root_dir_def sector_len_def)
  have e: "read_image img 256 1024 = Some (replicate 256 0)" "read_image img 128 1024 = Some (replicate 128 0)"
    using big written_before_pvd [OF assms(1,2), of 1280 1024] written_before_pvd [OF assms(1,2), of 1152 1024]
    by (simp_all add: read_image_def)
  have ext4: "probe_ext4 (replicate 256 0) = None"
    by (simp add: probe_ext4_def layout_defs le16_def)
  have erofs: "probe_erofs (replicate 128 0) = None"
    by (simp add: probe_erofs_def layout_defs le32_def)
  define pvd where "pvd = slice pvd_offset (pvd_offset + sector_len) img"
  have pvd: "drop 32768 (slice 0 34816 img) = pvd" "length (slice 0 34816 img) = 34816" "length pvd = 2048"
    using big by (simp_all add: pvd_def pvd_offset_def sector_len_def slice_def drop_take)
  note field = image_pvd_field [OF root ext img, folded pvd_def]
  have "slice 1 (1 + length (to_bytes ''CD001'')) pvd = to_bytes ''CD001''"
    by (rule field) (simp add: pvd_fields_def iso_layout)
  moreover have "1 + length (to_bytes ''CD001'') = 6" by simp
  ultimately have idf: "slice 1 6 pvd = to_bytes ''CD001''" by (simp only:)
  have "slice 0 (0 + 1) pvd = [1]" and lab: "slice 40 72 pvd = pad_text 32 label"
    using field [of 0 "[1]"] field [of 40 "pad_text 32 label"]
    by (simp_all add: pvd_fields_def iso_layout)
  then have first: "pvd ! 0 = 1" using pvd(3) by (intro hd_slice) simp_all
  have "to_text (pad_text 32 label) = label @ replicate (32 - length label) CHR '' ''"
  proof -
    have "char_of_byte 0x20 = CHR '' ''" by code_simp
    then have "to_text (replicate k 0x20) = replicate k CHR '' ''" for k by (simp add: to_text_def)
    then show ?thesis using assms(3) by (simp add: pad_text_def put_at_def)
  qed
  then have trim: "trim_right blank_or_nul (to_text (pad_text 32 label)) = label"
    using assms(4) by (simp add: trim_right_append trim_right_id blank_or_nul_def)
  have "read_image img 34816 0 = Some (slice 0 34816 img)" using big by (simp add: read_image_def)
  moreover have "probe_iso9660 (slice 0 34816 img) = Some ([], label)"
    using pvd first idf lab trim
    by (simp add: probe_iso9660_def iso_pvd_offset_def iso_label_off_def Let_def)
  ultimately show ?thesis
    using e ext4 erofs by (simp add: image_info_def probers_def layout_defs)
qed

section \<open>Properties\<close>

text \<open>
  C4. The drive round trip, for files a directory record can represent: the writer accepts any 1 to 64
  files with distinct ASCII names that pass its check and are at most 107 bytes long and with data within
  the reader's limit, and whatever device then holds the image, opening it and reading one of
  those names gives back exactly the bytes that were written, without a panic. The writer accepts longer
  names too; those do not read back (\<open>long_name_breaks_record\<close>).
\<close>

theorem iso_write_read_roundtrip:
  assumes "writable files" and "f \<in> set files"
  shows "\<exists>img. write_image label files = Inr img \<and>
    (\<forall>disks names K d h. disks d = Some img \<longrightarrow>
       fst (run_state (read_from_image (on_device (sys_prober (with_disks disks names K)) d)
         (f_name f)) h) = Some (Inr (f_data f)))"
proof -
  obtain img where w: "write_image label files = Inr img"
    using write_image_layout [OF assms(1), of label] by blast
  with sysd.held.written_file_reads_back [OF assms(1) w _ assms(2)] show ?thesis by blast
qed

definition example_files :: "iso_file list" where
  "example_files =
     [\<lparr>f_name = ''user-data'', f_data = to_bytes ''k0s:''\<rparr>, \<lparr>f_name = ''meta-data'', f_data = []\<rparr>]"

lemma example_writable: "writable example_files"
  by (simp add: writable_def example_files_def max_files_def fits_def check_name_def
      contains_any_def max_file_size_def path_clean_no_slash)

theorem iso_write_read_roundtrip_witness:
  "\<exists>img. write_image ''cidata'' example_files = Inr img \<and>
    (\<forall>disks names K d h. disks d = Some img \<longrightarrow>
       fst (run_state (read_from_image (on_device (sys_prober (with_disks disks names K)) d)
         ''user-data'') h) = Some (Inr (to_bytes ''k0s:'')))"
  using iso_write_read_roundtrip [OF example_writable,
      of "\<lparr>f_name = ''user-data'', f_data = to_bytes ''k0s:''\<rparr>" "''cidata''"]
  by (simp add: example_files_def)

text \<open>
  Asking a written drive for a name it does not carry is told apart from a drive that
  cannot be read: the error is \<^verbatim>\<open>fs.ErrNotExist\<close>.
\<close>

theorem iso_absent_name_not_exist:
  assumes "writable files" and "write_image label files = Inr img" and "disks d = Some img"
    and "name \<notin> f_name ` set files" and "path_parts name = [name]"
  shows "\<exists>e. fst (run_state (read_from_image (on_device (sys_prober (with_disks disks names K)) d)
    name) h) = Some (Inl e) \<and> is_not_exist e"
  by (rule sysd.held.unwritten_name_not_found [OF assms(1,2)]) (use assms in simp_all)

theorem iso_absent_name_not_exist_witness:
  "\<exists>img e. write_image ''cidata'' example_files = Inr img \<and>
     fst (run_state (read_from_image (on_device (sys_prober (with_disks (\<lambda>_. Some img) [] quiet_kernel)) ''vdb'')
       ''vendor-data'') []) = Some (Inl e) \<and> is_not_exist e"
proof -
  obtain img where w: "write_image ''cidata'' example_files = Inr img"
    using write_image_layout [OF example_writable] by blast
  have "\<exists>e. fst (run_state (read_from_image (on_device (sys_prober (with_disks (\<lambda>_. Some img) [] quiet_kernel)) ''vdb'')
       ''vendor-data'') []) = Some (Inl e) \<and> is_not_exist e"
    by (rule iso_absent_name_not_exist [OF example_writable w])
       (simp_all add: example_files_def path_parts_def is_slash_def trim_left_id trim_right_id split_on_no_sep)
  with w show ?thesis by blast
qed

text \<open>
  A written drive is recognised as what it is: probing the image finds an ISO9660
  filesystem with the label it was written with, so that \<^verbatim>\<open>LABEL=cidata\<close> selects it; the ext4
  and EROFS probes, which come first, do not take it for theirs.
\<close>

theorem written_drive_is_identified:
  assumes "writable files" and "write_image label files = Inr img"
    and "length label \<le> 32" and "label = [] \<or> \<not> blank_or_nul (last label)"
  shows "image_info (Some img) = Some \<lparr>fs_type = ''iso9660'', fs_uuid = [], fs_label = label\<rparr>"
proof -
  from write_image_layout [OF assms(1), of label] assms(2)
  obtain es n rs where "img = image_of label (sort_files files) es n rs"
    and "laid_out (sort_files files) es n rs" by auto
  with assms(3,4) show ?thesis by (simp add: written_image_info)
qed

theorem written_drive_is_identified_witness:
  "\<exists>img. write_image ''cidata'' example_files = Inr img \<and>
     image_info (Some img) = Some \<lparr>fs_type = ''iso9660'', fs_uuid = [], fs_label = ''cidata''\<rparr>"
proof -
  obtain img where w: "write_image ''cidata'' example_files = Inr img"
    using write_image_layout [OF example_writable] by blast
  have "image_info (Some img) = Some \<lparr>fs_type = ''iso9660'', fs_uuid = [], fs_label = ''cidata''\<rparr>"
    by (rule written_drive_is_identified [OF example_writable w]) (simp, code_simp)
  with w show ?thesis by blast
qed

text \<open>The image depends on the files and not on the order in which they are given.\<close>

theorem image_ignores_file_order:
  assumes "mset files = mset files'" and "distinct (map f_name files)"
  shows "write_image label files = write_image label files'"
proof -
  have "inj_on f_name (set files)" using assms(2) by (simp add: distinct_map)
  moreover have "mset files = mset (sort_files files')" using assms(1) by (simp add: sort_files_def)
  moreover have "sorted (map f_name (sort_files files'))" by (simp add: sort_files_def)
  ultimately have "sort_files files = sort_files files'"
    unfolding sort_files_def [of files] by (intro sort_key_inj_key_eq)
  moreover have "length files = length files'" and "(files = []) = (files' = [])"
    using assms(1) by (auto dest: mset_eq_length)
  ultimately show ?thesis unfolding write_image_def by simp
qed

theorem image_ignores_file_order_witness:
  "write_image ''cidata'' example_files = write_image ''cidata'' (rev example_files)"
  by (rule image_ignores_file_order) (simp_all add: example_files_def)

text \<open>
  \<^verbatim>\<open>checkName\<close> lets through what the writer cannot represent: from 108 bytes on, a name
  and its mangled twin no longer fit one directory record, and the length byte the record
  begins with is not its length.
\<close>

theorem long_name_breaks_record:
  assumes "108 \<le> length (f_name f)"
  shows "unat (file_record f e ! 0) \<noteq> length (file_record f e)"
proof -
  have "256 \<le> length (file_record f e)" using assms by (simp add: length_file_record)
  moreover have "unat (file_record f e ! 0) < 256"
    using unsigned_less [of "file_record f e ! 0"] by simp
  ultimately show ?thesis by linarith
qed

theorem long_name_breaks_record_witness:
  "check_name (replicate 108 CHR ''a'') = None \<and>
   unat (file_record \<lparr>f_name = replicate 108 CHR ''a'', f_data = []\<rparr> 21 ! 0) \<noteq>
     length (file_record \<lparr>f_name = replicate 108 CHR ''a'', f_data = []\<rparr> 21)"
proof -
  have "check_name (replicate 108 CHR ''a'') = None"
    by (simp add: check_name_def contains_any_def path_clean_no_slash)
  then show ?thesis
    using long_name_breaks_record [of "\<lparr>f_name = replicate 108 CHR ''a'', f_data = []\<rparr>" 21] by simp
qed

text \<open>
  A four-byte NM entry stops the reader with a run-time panic: it passes the length check,
  and the slice of its name starts after its end. Any directory whose next record carries
  one does this, whatever name is looked for.
\<close>

theorem short_nm_entry_panics:
  assumes "dir = out @ dir_record ident extent sz flags (to_bytes ''NM'' @ [4, v] @ su) @ rest"
    and "1 < length ident" and "length ident + length su \<le> 200"
    and "extent < 2 ^ 32" and "sz < 2 ^ 32"
  shows "scan_dir bs want dir (Suc left) (length out) = None"
proof -
  let ?su = "to_bytes ''NM'' @ [4, v] @ su"
  let ?r = "dir_record ident extent sz flags ?su"
  note h = record_head_fields [OF assms(4,5) dir_record_bytes]
  have len: "length ?r = 33 + length ident + pad_len ident + length ?su" by (rule length_dir_record)
  then have small: "33 \<le> length ?r" "length ?r < 256" using assms(3) by (simp_all add: pad_len_def)
  have sig: "to_text (take 2 ?su) = ''NM''" and four: "unat (?su ! 2) = 4"
    by (simp_all add: nth_append to_text_def to_bytes_def)
  have "rock_ridge_from [] ?su = None"
    using sig four by (subst rock_ridge_from.simps) (simp add: Let_def)
  then have rr: "rock_ridge_name ?su = None" by (simp add: rock_ridge_name_def)
  have "drop (33 + length ident + pad_len ident) ?r = ?su" by (simp add: dir_record_bytes)
  moreover have "?r ! 32 = word_of_nat (length ident)" by (rule h(6))
  moreover have "ident \<noteq> []" "length ident < 256" using assms(2,3) by auto
  ultimately have "entry_name ?r = None"
    using assms(2) len rr
    by (simp add: entry_name_def rec_name_len_off_def system_use_off_pad unat_byte Let_def rec_name_off_def)
  moreover have "dir ! length out = word_of_nat (length ?r)"
    using h(1) len assms(1) small(1) by (simp add: nth_append)
  moreover have "slice (length out) (length out + length ?r) dir = ?r"
    using assms(1) by (simp add: slice_def)
  moreover have "length dir = length out + length ?r + length rest" using assms(1) by simp
  moreover have "unat (word_of_nat (length ?r) :: byte) = length ?r" using small(2) by (rule unat_byte)
  moreover have "?r \<noteq> []" using small(1) by auto
  ultimately show ?thesis
    using small by (simp only: scan_dir.simps Let_def rec_name_off_def) simp
qed

theorem short_nm_entry_panics_witness:
  "scan_dir 2048 ''user-data'' (dir_record (to_bytes ''X;1'') 21 10 0 (to_bytes ''NM'' @ [4, 1])) 4096 0 = None"
  using short_nm_entry_panics [of _ "[]" "to_bytes ''X;1''" 21 10 0 1 "[]" "[]" 2048 "''user-data''" 4095]
  by simp

text \<open>The reader never returns more than its eight mebibyte limit, whatever the device says.\<close>

theorem iso_read_is_bounded:
  assumes "run_state (read_file (on_device (sys_prober K) d) r name) h = (Some (Inr b), h')"
  shows "length b \<le> max_file_size"
  using assms by (rule sysp.dev.read_file_bounded)

theorem iso_read_is_bounded_witness:
  "\<exists>b h'. run_state (read_file (on_device (sys_prober quiet_kernel) ''vdb'')
      \<lparr>block_size = 2048, root_lba = 0, root_size = 0\<rparr> ''x'') [] = (b, h') \<and>
    (\<forall>c. b = Some (Inr c) \<longrightarrow> length c \<le> max_file_size)"
  by (metis iso_read_is_bounded surj_pair)

end
