(* ===== verification/Host_Run.thy ===== *)
theory Host_Run
  imports Sys_Calls
begin

text \<open>
  How the operations of the host tool are put together: programs whose results are errors or values
  (\<open>and_then\<close>, \<open>check\<close>), and runs, which are programs with loops that need not end. \<open>makes P m\<close> says
  which calls a run adds to the history, \<open>ends m\<close> that it ends on every history; the elimination rules
  take a run that returned apart into the returns of its parts.
\<close>

section \<open>Programs that can fail\<close>

text \<open>\<open>and_then m f\<close> is \<^verbatim>\<open>x, err := m; if err != nil { return err }\<close> followed by \<open>f x\<close>.\<close>

definition and_then :: "(err + 'a) io \<Rightarrow> ('a \<Rightarrow> (err + 'b) io) \<Rightarrow> (err + 'b) io" where
  "and_then m f = do {
     r \<leftarrow> m;
     (case r of Inl e \<Rightarrow> give (Inl e) | Inr x \<Rightarrow> f x)
   }"

definition check :: "err option io \<Rightarrow> (err + 'a) io \<Rightarrow> (err + 'a) io" where
  "check m rest = guard_err m Inl rest"

lemma run_and_then [simp]:
  "run_state (and_then m f) h =
     (case run_state m h of (Inl e, h') \<Rightarrow> (Inl e, h') | (Inr x, h') \<Rightarrow> run_state (f x) h')"
  by (simp add: and_then_def split: prod.splits sum.splits)

lemma run_check [simp]:
  "run_state (check m rest) h =
     (case run_state m h of (Some e, h') \<Rightarrow> (Inl e, h') | (None, h') \<Rightarrow> run_state rest h')"
  by (simp add: check_def)

lemma emits_and_then [emits_intros]:
  "emits P m \<Longrightarrow> (\<And>x. emits P (f x)) \<Longrightarrow> emits P (and_then m f)"
  unfolding and_then_def by (intro emits_intros)

lemma emits_check [emits_intros]: "emits P m \<Longrightarrow> emits P rest \<Longrightarrow> emits P (check m rest)"
  unfolding check_def by (intro emits_intros)

lemma check_elim:
  assumes "run_state (check m f) h = (Inr x, h')"
  obtains h1 where "run_state m h = (None, h1)" and "run_state f h1 = (Inr x, h')"
  using assms by (auto simp: check_def split: prod.splits option.splits)

lemma and_then_elim:
  assumes "run_state (and_then m f) h = (Inr x, h')"
  obtains y h1 where "run_state m h = (Inr y, h1)" and "run_state (f y) h1 = (Inr x, h')"
  using assms by (auto split: prod.splits sum.splits)

lemma guard_errE:
  assumes "run_state (guard_err m fail rest) h = (r, h')"
  obtains e h1 where "run_state m h = (Some e, h1)" and "r = fail e" and "h' = h1"
    | h1 where "run_state m h = (None, h1)" and "run_state rest h1 = (r, h')"
  using assms by (cases "fst (run_state m h)") (auto split: prod.splits option.splits)

lemma emits_runE:
  assumes "emits P m" and "run_state m h = (x, h')"
  obtains cs where "h' = h @ cs" and "list_all P cs"
  using assms by (metis emitsE snd_conv)

section \<open>Runs\<close>

text \<open>A run: a program with loops that may not end, which is then no result.\<close>

type_synonym 'a run = "history \<Rightarrow> ('a \<times> history) option"

definition lift :: "'a io \<Rightarrow> 'a run" where "lift m h = Some (run_state m h)"

definition seq_run :: "'a run \<Rightarrow> ('a \<Rightarrow> 'b run) \<Rightarrow> 'b run" where
  "seq_run m f h = (case m h of None \<Rightarrow> None | Some (x, h') \<Rightarrow> f x h')"

text \<open>\<^verbatim>\<open>if err != nil { return fail(err) }\<close>\<close>

definition try_run :: "(err + 'a) run \<Rightarrow> (err \<Rightarrow> err) \<Rightarrow> ('a \<Rightarrow> err option run) \<Rightarrow> err option run" where
  "try_run m fail f = seq_run m (\<lambda>r. case r of Inl e \<Rightarrow> lift (give (Some (fail e))) | Inr x \<Rightarrow> f x)"

definition check_run :: "err option run \<Rightarrow> (err \<Rightarrow> err) \<Rightarrow> err option run \<Rightarrow> err option run" where
  "check_run m fail rest = seq_run m (\<lambda>r. case r of Some e \<Rightarrow> lift (give (Some (fail e))) | None \<Rightarrow> rest)"

section \<open>Which calls a run makes\<close>

definition makes :: "(call \<Rightarrow> bool) \<Rightarrow> 'a run \<Rightarrow> bool" where
  "makes P m = (\<forall>h r h'. m h = Some (r, h') \<longrightarrow> (\<exists>cs. h' = h @ cs \<and> list_all P cs))"

named_theorems makes_intros

lemma makesE:
  assumes "makes P m" and "m h = Some (r, h')"
  obtains cs where "h' = h @ cs" and "list_all P cs"
  using assms unfolding makes_def by blast

lemma makes_lift [makes_intros]: "emits P m \<Longrightarrow> makes P (lift m)"
  by (auto simp: makes_def lift_def elim: emitsE)
    (metis emitsE snd_conv)

lemma makes_seq_run [makes_intros]:
  assumes "makes P m" and "\<And>x. makes P (f x)"
  shows "makes P (seq_run m f)"
  unfolding makes_def
proof (intro allI impI)
  fix h r h'
  assume "seq_run m f h = Some (r, h')"
  then obtain x h1 where m: "m h = Some (x, h1)" and f: "f x h1 = Some (r, h')"
    by (auto simp: seq_run_def split: option.splits)
  obtain c1 where "h1 = h @ c1" "list_all P c1" using assms(1) m by (rule makesE)
  moreover obtain c2 where "h' = h1 @ c2" "list_all P c2" using assms(2) f by (rule makesE)
  ultimately show "\<exists>cs. h' = h @ cs \<and> list_all P cs" by auto
qed

lemma makes_try_run [makes_intros]: "makes P m \<Longrightarrow> (\<And>x. makes P (f x)) \<Longrightarrow> makes P (try_run m fail f)"
  unfolding try_run_def by (auto intro!: makes_intros emits_intros split: sum.split)

lemma makes_check_run [makes_intros]: "makes P m \<Longrightarrow> makes P rest \<Longrightarrow> makes P (check_run m fail rest)"
  unfolding check_run_def by (auto intro!: makes_intros emits_intros split: option.split)

lemma run_makes_case_sum [makes_intros]:
  "(\<And>y. x = Inl y \<Longrightarrow> makes P (f y)) \<Longrightarrow> (\<And>y. x = Inr y \<Longrightarrow> makes P (g y)) \<Longrightarrow>
   makes P (case x of Inl y \<Rightarrow> f y | Inr y \<Rightarrow> g y)"
  by (simp split: sum.split)

lemma run_makes_case_option [makes_intros]:
  "(x = None \<Longrightarrow> makes P m) \<Longrightarrow> (\<And>y. x = Some y \<Longrightarrow> makes P (f y)) \<Longrightarrow>
   makes P (case x of None \<Rightarrow> m | Some y \<Rightarrow> f y)"
  by (simp split: option.split)

lemma run_makes_if [makes_intros]: "(b \<Longrightarrow> makes P m) \<Longrightarrow> (\<not> b \<Longrightarrow> makes P n) \<Longrightarrow> makes P (if b then m else n)"
  by simp

lemma seq_runE:
  assumes "seq_run m f h = Some (r, h')"
  obtains x h1 where "m h = Some (x, h1)" and "f x h1 = Some (r, h')"
  using assms by (auto simp: seq_run_def split: option.splits)

lemma try_runE:
  assumes "try_run m fail f h = Some (r, h')"
  obtains e h1 where "m h = Some (Inl e, h1)" and "h' = h1"
    | x h1 where "m h = Some (Inr x, h1)" and "f x h1 = Some (r, h')"
proof -
  from assms obtain x h1 where m: "m h = Some (x, h1)"
    and f: "(case x of Inl e \<Rightarrow> lift (give (Some (fail e))) | Inr x \<Rightarrow> f x) h1 = Some (r, h')"
    unfolding try_run_def by (rule seq_runE)
  then show thesis using that by (cases x) (auto simp: lift_def)
qed

lemma check_runE:
  assumes "check_run m fail rest h = Some (r, h')"
  obtains e h1 where "m h = Some (Some e, h1)" and "h' = h1"
    | h1 where "m h = Some (None, h1)" and "rest h1 = Some (r, h')"
proof -
  from assms obtain x h1 where m: "m h = Some (x, h1)"
    and f: "(case x of Some e \<Rightarrow> lift (give (Some (fail e))) | None \<Rightarrow> rest) h1 = Some (r, h')"
    unfolding check_run_def by (rule seq_runE)
  then show thesis using that by (cases x) (auto simp: lift_def)
qed

abbreviation grows :: "'a run \<Rightarrow> bool" where "grows \<equiv> makes (\<lambda>_. True)"

lemma makes_any: "makes P m \<Longrightarrow> grows m"
  unfolding makes_def list.pred_True by blast

section \<open>Runs that end\<close>

text \<open>A run that ends on every history.\<close>

definition ends :: "'a run \<Rightarrow> bool" where "ends m = (\<forall>h. \<exists>y. m h = Some y)"

named_theorems ends_intros

lemma ends_lift [ends_intros]: "ends (lift m)" by (simp add: ends_def lift_def)

lemma ends_seq_run [ends_intros]:
  assumes "ends m" and "\<And>x. ends (f x)"
  shows "ends (seq_run m f)"
  unfolding ends_def seq_run_def
proof
  fix h
  obtain x h1 where "m h = Some (x, h1)" using assms(1) unfolding ends_def by fastforce
  moreover obtain y where "f x h1 = Some y" using assms(2) [of x] unfolding ends_def by blast
  ultimately show "\<exists>y. (case m h of None \<Rightarrow> None | Some (x, h') \<Rightarrow> f x h') = Some y" by simp
qed

lemma ends_try_run [ends_intros]: "ends m \<Longrightarrow> (\<And>x. ends (f x)) \<Longrightarrow> ends (try_run m fail f)"
  unfolding try_run_def by (auto intro!: ends_intros split: sum.split)

lemma ends_check_run [ends_intros]: "ends m \<Longrightarrow> ends rest \<Longrightarrow> ends (check_run m fail rest)"
  unfolding check_run_def by (auto intro!: ends_intros split: option.split)

lemma ends_case_sum [ends_intros]:
  "(\<And>y. ends (f y)) \<Longrightarrow> (\<And>y. ends (g y)) \<Longrightarrow> ends (case x of Inl y \<Rightarrow> f y | Inr y \<Rightarrow> g y)"
  by (simp split: sum.split)

lemma ends_case_option [ends_intros]:
  "ends m \<Longrightarrow> (\<And>y. ends (f y)) \<Longrightarrow> ends (case x of None \<Rightarrow> m | Some y \<Rightarrow> f y)"
  by (simp split: option.split)

lemma ends_if [ends_intros]: "ends m \<Longrightarrow> ends n \<Longrightarrow> ends (if b then m else n)" by simp

end
