(* ===== verification/Host_State.thy ===== *)
theory Host_State
  imports Status Host_Run
begin

text \<open>
  \<^verbatim>\<open>cmd/k0smosctl/state.go\<close> with \<^verbatim>\<open>machine_rm.go\<close> and \<^verbatim>\<open>machine_list.go\<close>: where the host tool keeps the
  machines it started. A machine is a name; its console, control socket, record and disks lie in
  one directory below the state root. What the tool learns from its process is the record
  \<open>host\<close>: the kernel, the environment, the home directory, the platform it was built for, how
  \<^verbatim>\<open>json.Unmarshal\<close> reads a machine record and how a recorded time reads on the local clock.
\<close>

section \<open>Messages\<close>

text \<open>Characters of the messages: a dash in UTF-8 and text between backquotes.\<close>

definition em_dash :: string where "em_dash = [CHR 0xE2, CHR 0x80, CHR 0x94]"
definition ticked :: "string \<Rightarrow> string" where "ticked s = CHR 0x60 # s @ [CHR 0x60]"

text \<open>The resolver QEMU's user network is told to advertise.\<close>

definition guest_dns :: string where "guest_dns = ''1.1.1.1''"

section \<open>Names and paths\<close>

record guest_meta =
  gm_name :: string
  gm_pid :: int
  gm_disk :: string
  gm_api_port :: int
  gm_started :: string

record host =
  h_kernel :: kernel
  h_env :: "string \<Rightarrow> string"
  h_home :: "err + string"
  h_goos :: string
  h_goarch :: string
  h_decode_guest :: "bytes \<Rightarrow> err + guest_meta"
  h_local_time :: "string \<Rightarrow> string"

definition default_guest_name :: string where "default_guest_name = ''default''"
definition max_socket_path :: nat where "max_socket_path = 100"
definition console_file :: string where "console_file = ''console.log''"
definition socket_file :: string where "socket_file = ''control.sock''"
definition meta_file :: string where "meta_file = ''guest.json''"
definition root_file :: string where "root_file = ''root.img''"
definition artifact_file :: string where "artifact_file = ''machine.qcow2''"
definition data_file :: string where "data_file = ''data.img''"

definition state_root :: "'h host_scheme \<Rightarrow> err + string" where
  "state_root H =
     (if h_env H ''K0SMOS_STATE_DIR'' \<noteq> [] then Inr (h_env H ''K0SMOS_STATE_DIR'')
      else if h_env H ''XDG_STATE_HOME'' \<noteq> [] then Inr (path_join [h_env H ''XDG_STATE_HOME'', ''k0smos''])
      else (case h_home H of
              Inl e \<Rightarrow> Inl e
            | Inr home \<Rightarrow> Inr (path_join [home, ''.local'', ''state'', ''k0smos''])))"

definition valid_guest_name :: "string \<Rightarrow> err option" where
  "valid_guest_name name =
     (if name = [] then Some (msg ''empty guest name'')
      else if name \<noteq> path_base name \<or> name = ''.'' \<or> name = ''..''
      then Some (Errorf ''guest name %q must be a single path component'' [name] None)
      else None)"

definition guest_dir :: "'h host_scheme \<Rightarrow> string \<Rightarrow> err + string" where
  "guest_dir H name =
     (case valid_guest_name name of
        Some e \<Rightarrow> Inl e
      | None \<Rightarrow> (case state_root H of Inl e \<Rightarrow> Inl e | Inr root \<Rightarrow> Inr (path_join [root, name])))"

definition ensure_guest_dir :: "'h host_scheme \<Rightarrow> string \<Rightarrow> (err + string) io" where
  "ensure_guest_dir H name =
     (case guest_dir H name of
        Inl e \<Rightarrow> give (Inl e)
      | Inr dir \<Rightarrow> check (do_unit (h_kernel H) (MkdirAll dir perm_0700)) (give (Inr dir)))"

definition guest_paths :: "'h host_scheme \<Rightarrow> string \<Rightarrow> err + string \<times> string \<times> string" where
  "guest_paths H name =
     (case guest_dir H name of
        Inl e \<Rightarrow> Inl e
      | Inr dir \<Rightarrow> Inr (path_join [dir, console_file], path_join [dir, socket_file], path_join [dir, meta_file]))"

definition check_socket_path :: "string \<Rightarrow> err option" where
  "check_socket_path sock =
     (if length sock > max_socket_path
      then Some (Errorf (''the control socket path is %d characters, over the %d a unix socket allows: '' @
                         ''use a shorter --name, or set K0SMOS_STATE_DIR to a shorter path'')
                        [dec (length sock), dec max_socket_path] None)
      else None)"

section \<open>The machine record\<close>

text \<open>Numbers and times of a record; a zero \<^verbatim>\<open>omitempty\<close> number is left out.\<close>

definition json_int :: "int \<Rightarrow> string" where "json_int i = dec_int i"

definition guest_fields :: "guest_meta \<Rightarrow> (string \<times> string) list" where
  "guest_fields m =
     [(''name'', json_string (gm_name m)), (''pid'', json_int (gm_pid m))] @
     (if gm_disk m = [] then [] else [(''disk'', json_string (gm_disk m))]) @
     (if gm_api_port m = 0 then [] else [(''apiPort'', json_int (gm_api_port m))]) @
     [(''started'', json_string (gm_started m))]"

definition marshal_guest :: "guest_meta \<Rightarrow> bytes" where
  "marshal_guest m =
     to_bytes (''{'' @ join '','' (map (\<lambda>kv. line_start 1 @ json_string (fst kv) @ '': '' @ snd kv) (guest_fields m)) @
               line_start 0 @ ''}'')"

definition save_meta :: "'h host_scheme \<Rightarrow> string \<Rightarrow> guest_meta \<Rightarrow> err option io" where
  "save_meta H path m =
     do_unit (h_kernel H) (WriteFile path (marshal_guest m @ to_bytes [char_of (10 :: nat)]) perm_0600)"

definition load_meta :: "'h host_scheme \<Rightarrow> string \<Rightarrow> (err + guest_meta) io" where
  "load_meta H path = do {
     r \<leftarrow> do_bytes (h_kernel H) (ReadFile path);
     give (case r of Inl e \<Rightarrow> Inl e | Inr b \<Rightarrow> h_decode_guest H b)
   }"

definition zero_time :: string where "zero_time = ''0001-01-01T00:00:00Z''"

definition bare_guest :: "string \<Rightarrow> guest_meta" where
  "bare_guest name = \<lparr>gm_name = name, gm_pid = 0, gm_disk = [], gm_api_port = 0, gm_started = zero_time\<rparr>"

text \<open>
  The answer to \<open>ListDir\<close> has one name for every entry, with a slash appended when the entry is
  a directory.
\<close>

definition entry_dir :: "string \<Rightarrow> string option" where
  "entry_dir e = (if has_suffix e ''/'' then Some (trim_suffix e ''/'') else None)"

fun guests_of :: "'h host_scheme \<Rightarrow> string \<Rightarrow> string list \<Rightarrow> guest_meta list io" where
  "guests_of H root [] = give []"
| "guests_of H root (e # es) =
     (case entry_dir e of
        None \<Rightarrow> guests_of H root es
      | Some name \<Rightarrow>
          if has_prefix name ''.'' then guests_of H root es
          else do {
            r \<leftarrow> load_meta H (path_join [root, name, meta_file]);
            ms \<leftarrow> guests_of H root es;
            give ((case r of Inl _ \<Rightarrow> bare_guest name | Inr m \<Rightarrow> m\<lparr>gm_name := name\<rparr>) # ms)
          })"

definition list_guests :: "'h host_scheme \<Rightarrow> (err + guest_meta list) io" where
  "list_guests H =
     (case state_root H of
        Inl e \<Rightarrow> give (Inl e)
      | Inr root \<Rightarrow> do {
          r \<leftarrow> do_names (h_kernel H) (ListDir root);
          (case r of
             Inl e \<Rightarrow> give (if is_not_exist e then Inr [] else Inl e)
           | Inr es \<Rightarrow> do { ms \<leftarrow> guests_of H root es; give (Inr ms) })
        })"

section \<open>Sizes\<close>

text \<open>Arithmetic on \<^verbatim>\<open>int64\<close>, which is also \<^verbatim>\<open>int\<close> on the platforms the tool is built for.\<close>

definition int64 :: "int \<Rightarrow> int" where "int64 i = signed_take_bit 63 i"

lemma int64_id: "- (2 ^ 63) \<le> i \<Longrightarrow> i < 2 ^ 63 \<Longrightarrow> int64 i = i"
  by (simp add: int64_def signed_take_bit_int_eq_self)

text \<open>
  \<^verbatim>\<open>fmt.Sscanf(s, "%d", &n)\<close> on text without leading blanks: an optional sign and the longest run
  of digits. What follows the digits is not looked at.
\<close>

definition is_digit :: "char \<Rightarrow> bool" where
  "is_digit c = (48 \<le> (of_char c :: nat) \<and> (of_char c :: nat) \<le> 57)"

definition scan_int :: "string \<Rightarrow> int option" where
  "scan_int s =
     (let signed = (s \<noteq> [] \<and> (hd s = CHR ''-'' \<or> hd s = CHR ''+''));
          ds = takeWhile is_digit (if signed then tl s else s)
      in if ds = [] then None else atoi ((if signed then [hd s] else []) @ ds))"

definition parse_size :: "string \<Rightarrow> err + int" where
  "parse_size text =
     (let s = trim_space (to_upper text) in
      if s = [] then Inl (msg ''empty size'')
      else
        (let mult = (if last s = CHR ''K'' then 2 ^ 10 else if last s = CHR ''M'' then 2 ^ 20
                     else if last s = CHR ''G'' then 2 ^ 30 else 1);
             num = (if last s \<in> {CHR ''K'', CHR ''M'', CHR ''G''} then butlast s else s)
         in case scan_int num of
              None \<Rightarrow> Inl (Errorf ''bad size %q'' [num] None)
            | Some n \<Rightarrow>
                if n \<le> 0 then Inl (Errorf ''bad size %q'' [num] None) else Inr (int64 (n * mult))))"

section \<open>Disks\<close>

text \<open>Creating the file truncates it; closing it again changes nothing.\<close>

definition ensure_data_volume :: "'h host_scheme \<Rightarrow> string \<Rightarrow> string \<Rightarrow> err option io" where
  "ensure_data_volume H path sz = do {
     let K = h_kernel H;
     st \<leftarrow> do_unit K (Stat path);
     (if st = None then give None
      else case parse_size sz of
             Inl e \<Rightarrow> give (Some e)
           | Inr n \<Rightarrow>
               guard_err (do_unit K (MkdirAll (path_dir path) perm_0755)) Some
                 (guard_err (do_unit K (CreateFile path)) Some
                    (do_unit K (TruncateFile path n))))
   }"

definition guest_data :: "'h host_scheme \<Rightarrow> string \<Rightarrow> string \<Rightarrow> (err + string) io" where
  "guest_data H name sz =
     (case guest_dir H name of
        Inl e \<Rightarrow> give (Inl e)
      | Inr dir \<Rightarrow>
          let path = path_join [dir, data_file] in
          check (ensure_data_volume H path sz) (give (Inr path)))"

definition command_output :: "string list \<Rightarrow> string" where
  "command_output outs = (if outs = [] then [] else hd outs)"

definition clone_file :: "'h host_scheme \<Rightarrow> string \<Rightarrow> string \<Rightarrow> err option io" where
  "clone_file H src dst = do {
     e \<leftarrow> do_unit (h_kernel H) (RunCmd [''cp'', ''-c'', src, dst] []);
     (if e = None then give None
      else do {
        r \<leftarrow> do_walk (h_kernel H) (RunCmd [''cp'', src, dst] []);
        (case r of
           (_, None) \<Rightarrow> give None
         | (out, Some e) \<Rightarrow> give (Some (wrap ''%w: %s'' [command_output out] e)))
      })
   }"

definition clone_guest_disk ::
  "'h host_scheme \<Rightarrow> string \<Rightarrow> string \<Rightarrow> string \<Rightarrow> string \<Rightarrow> string \<Rightarrow> (err + string) io"
where
  "clone_guest_disk H name img filename what hint =
     (case guest_dir H name of
        Inl e \<Rightarrow> give (Inl e)
      | Inr dir \<Rightarrow> do {
          let disk = path_join [dir, filename];
          have \<leftarrow> do_unit (h_kernel H) (Stat disk);
          (if have = None then give (Inr disk)
           else do {
             source \<leftarrow> do_unit (h_kernel H) (Stat img);
             (if source \<noteq> None then give (Inl (Errorf (''%s %s not found '' @ em_dash @ '' %s'') [what, img, hint] None))
              else do {
                e \<leftarrow> clone_file H img disk;
                give (case e of Some e \<Rightarrow> Inl (wrap ''clone %s: %w'' [img] e) | None \<Rightarrow> Inr disk)
              })
           })
        })"

definition guest_disk :: "'h host_scheme \<Rightarrow> string \<Rightarrow> string \<Rightarrow> (err + string) io" where
  "guest_disk H name img =
     clone_guest_disk H name img root_file ''root image''
       (''build it with '' @ ticked ''make disk'' @ '', or point at one with --image'')"

definition guest_artifact :: "'h host_scheme \<Rightarrow> string \<Rightarrow> string \<Rightarrow> (err + string) io" where
  "guest_artifact H name img =
     clone_guest_disk H name img artifact_file ''platform artifact''
       (''build it with '' @ ticked ''make metal'' @ '', or point at one with --image'')"

section \<open>Removing and listing machines\<close>

definition guest_is_live :: "kernel \<Rightarrow> string \<Rightarrow> bool io" where
  "guest_is_live K sock = do {
     e \<leftarrow> do_unit K (Dial sock);
     (if e \<noteq> None then give False
      else do { _ \<leftarrow> do_unit K (SockClose sock); give True })
   }"

definition machine_rm :: "'h host_scheme \<Rightarrow> string \<Rightarrow> err option io" where
  "machine_rm H name =
     (case guest_dir H name of
        Inl e \<Rightarrow> give (Some e)
      | Inr dir \<Rightarrow> do {
          st \<leftarrow> do_unit (h_kernel H) (Stat dir);
          (if (case st of None \<Rightarrow> False | Some e \<Rightarrow> is_not_exist e)
           then give (Some (Errorf ''no guest named %q'' [name] None))
           else case guest_paths H name of
                  Inl e \<Rightarrow> give (Some e)
                | Inr (_, sock, _) \<Rightarrow> do {
                    live \<leftarrow> guest_is_live (h_kernel H) sock;
                    (if live
                     then give (Some (Errorf (''guest %q is still running '' @ em_dash @ '' stop it first with '' @
                                              ticked ''k0smosctl machine shutdown --name %s'') [name, name] None))
                     else guard_err (do_unit (h_kernel H) (RemoveAll dir)) Some
                            (do { _ \<leftarrow> do_unit (h_kernel H) (Say ''removed guest %q'' [name]); give None }))
                  })
        })"

definition or_dash :: "string \<Rightarrow> string" where
  "or_dash s = (if trim_space s = [] then ''-'' else s)"

definition list_row :: "'h host_scheme \<Rightarrow> guest_meta \<Rightarrow> bool \<Rightarrow> string list" where
  "list_row H g live =
     [gm_name g, if live then ''running'' else ''stopped'',
      if gm_api_port g \<noteq> 0 then CHR '':'' # dec_int (gm_api_port g) else ''-'',
      if gm_started g \<noteq> zero_time then h_local_time H (gm_started g) else ''-'', or_dash (gm_disk g)]"

fun list_rows :: "'h host_scheme \<Rightarrow> guest_meta list \<Rightarrow> unit io" where
  "list_rows H [] = give ()"
| "list_rows H (g # gs) = do {
     live \<leftarrow> (case guest_paths H (gm_name g) of
                Inl _ \<Rightarrow> give False | Inr (_, sock, _) \<Rightarrow> guest_is_live (h_kernel H) sock);
     _ \<leftarrow> do_unit (h_kernel H) (Say ''%s %s %s %s %s'' (list_row H g live));
     list_rows H gs
   }"

definition machine_list :: "'h host_scheme \<Rightarrow> err option io" where
  "machine_list H = do {
     r \<leftarrow> list_guests H;
     (case r of
        Inl e \<Rightarrow> give (Some e)
      | Inr [] \<Rightarrow> do {
          _ \<leftarrow> do_unit (h_kernel H) (Say (''no guests; start one with '' @ ticked ''k0smosctl machine up'') []);
          give None
        }
      | Inr gs \<Rightarrow> do {
          _ \<leftarrow> do_unit (h_kernel H) (Say ''NAME STATE API STARTED DISK'' []);
          _ \<leftarrow> list_rows H gs;
          give None
        })
   }"

section \<open>Paths below the state root\<close>

definition proper_name :: "string \<Rightarrow> bool" where
  "proper_name n = (n \<notin> {[], ''.'', ''..''} \<and> CHR ''/'' \<notin> set n)"

definition below :: "string \<Rightarrow> string \<Rightarrow> string" where
  "below root n =
     (if path_clean root = ''/'' then CHR ''/'' # n
      else if path_clean root = ''.'' then n else path_clean root @ ''/'' @ n)"

lemma split_on_snoc: "split_on c (u @ c # w) = split_on c u @ split_on c w"
proof (induction u)
  case (Cons x u)
  then show ?case by (cases "x = c") (auto split: list.splits)
qed simp

lemma clean_parts_snoc:
  "proper_name n \<Longrightarrow> clean_parts r st (ws @ [n]) = clean_parts r st ws @ [n]"
  by (induction r st ws rule: clean_parts.induct) (auto simp: proper_name_def)

lemma clean_parts_nonempty:
  "w \<in> set (clean_parts r st ws) \<Longrightarrow> (\<And>v. v \<in> set st \<Longrightarrow> v \<noteq> [] \<and> v \<noteq> ''.'') \<Longrightarrow> w \<noteq> [] \<and> w \<noteq> ''.''"
proof (induction r st ws rule: clean_parts.induct)
  case (2 r st w ws)
  then show ?case by (auto split: if_splits dest: list.set_sel(2) [rotated])
qed auto

lemma clean_parts_subset: "w \<in> set (clean_parts r st ws) \<Longrightarrow> w \<in> set st \<union> set ws"
proof (induction r st ws rule: clean_parts.induct)
  case (2 r st w ws)
  then show ?case by (auto split: if_splits dest: list.set_sel(2) [rotated])
qed simp

lemma join_snoc: "join sep (ws @ [w]) = (if ws = [] then w else join sep ws @ sep @ w)"
  by (induction sep ws rule: join.induct) auto

lemma join_not_Nil: "ws \<noteq> [] \<Longrightarrow> (\<And>w. w \<in> set ws \<Longrightarrow> w \<noteq> []) \<Longrightarrow> join sep ws \<noteq> []"
  by (induction sep ws rule: join.induct) auto

lemma join_dot: "join ''/'' ws = ''.'' \<Longrightarrow> (\<And>w. w \<in> set ws \<Longrightarrow> w \<noteq> [] \<and> w \<noteq> ''.'') \<Longrightarrow> ws = []"
  by (induction "''/''" ws rule: join.induct) (auto simp: append_eq_Cons_conv)

lemma join_not_slash:
  "join ''/'' ws = ''/'' \<Longrightarrow> (\<And>w. w \<in> set ws \<Longrightarrow> w \<noteq> [] \<and> CHR ''/'' \<notin> set w) \<Longrightarrow> False"
  by (induction "''/''" ws rule: join.induct) (auto simp: append_eq_Cons_conv)

lemma path_clean_not_Nil: "path_clean p \<noteq> []"
  by (simp add: path_clean_def Let_def)

lemma path_join_below:
  assumes "root \<noteq> []" and "proper_name n"
  shows "path_join [root, n] = below root n"
proof -
  have n: "n \<noteq> []" "CHR ''/'' \<notin> set n" using assms(2) by (simp_all add: proper_name_def)
  let ?r = "hd root = CHR ''/''" and ?P = "clean_parts (hd root = CHR ''/'') [] (split_on CHR ''/'' root)"
  have P: "w \<noteq> [] \<and> w \<noteq> ''.''" if "w \<in> set ?P" for w
    by (rule clean_parts_nonempty [OF that]) simp
  have no_slash: "CHR ''/'' \<notin> set w" if "w \<in> set ?P" for w
    using clean_parts_subset [OF that] split_on_parts_no_sep by fastforce
  have split: "split_on CHR ''/'' (root @ CHR ''/'' # n) = split_on CHR ''/'' root @ [n]"
    using n by (simp add: split_on_snoc split_on_no_sep)
  have "path_join [root, n] = path_clean (root @ CHR ''/'' # n)"
    using assms(1) n by (simp add: path_join_def)
  also have "\<dots> = (if ?r then CHR ''/'' # join ''/'' (?P @ [n]) else join ''/'' (?P @ [n]))"
    using assms(1) n clean_parts_snoc [OF assms(2)]
    by (simp add: path_clean_def Let_def split join_snoc)
  also have "\<dots> = below root n"
  proof -
    have cl: "path_clean root =
        (if ?r then CHR ''/'' # join ''/'' ?P else if join ''/'' ?P = [] then ''.'' else join ''/'' ?P)"
      using assms(1) by (simp add: path_clean_def Let_def)
    have J: "join ''/'' ?P \<noteq> ''.''" "join ''/'' ?P \<noteq> ''/''" "join ''/'' ?P = [] \<longleftrightarrow> ?P = []"
    proof -
      show "join ''/'' ?P \<noteq> ''.''" using join_dot [of ?P] P by fastforce
      show "join ''/'' ?P \<noteq> ''/''" using join_not_slash [of ?P] P no_slash by blast
      show "join ''/'' ?P = [] \<longleftrightarrow> ?P = []" using join_not_Nil [of ?P "''/''"] P by fastforce
    qed
    show ?thesis unfolding below_def cl using J
      by (cases ?r) (simp_all add: join_snoc del: clean_parts.simps)
  qed
  finally show ?thesis .
qed

lemma valid_name_proper: "valid_guest_name n = None \<Longrightarrow> n \<noteq> ''/'' \<Longrightarrow> proper_name n"
proof -
  assume v: "valid_guest_name n = None" and "n \<noteq> ''/''"
  then have n: "n \<notin> {[], ''.'', ''..''}" "n = path_base n"
    by (auto simp: valid_guest_name_def split: if_splits)
  let ?s = "trim_right (\<lambda>c. c = CHR ''/'') n"
  have "n = last (split_on CHR ''/'' ?s)"
    using n \<open>n \<noteq> ''/''\<close> by (auto simp: path_base_def Let_def split: if_splits)
  then have "n \<in> set (split_on CHR ''/'' ?s)" by (metis last_in_set split_on_not_Nil)
  then have "CHR ''/'' \<notin> set n" by (rule split_on_parts_no_sep)
  with n show ?thesis by (simp add: proper_name_def)
qed

lemma proper_name_valid: "proper_name n \<Longrightarrow> valid_guest_name n = None"
  by (simp add: proper_name_def valid_guest_name_def path_base_no_slash)

lemma state_root_not_Nil: "state_root H = Inr root \<Longrightarrow> root \<noteq> []"
  using path_clean_not_Nil by (auto simp: state_root_def path_join_def split: if_splits sum.splits)

lemma path_base_below: "proper_name n \<Longrightarrow> path_base (below root n) = n"
proof -
  assume n: "proper_name n"
  then have "n \<noteq> []" "CHR ''/'' \<notin> set n" by (auto simp: proper_name_def)
  moreover from this have "last n \<noteq> CHR ''/''" by (metis last_in_set)
  ultimately have n': "n \<noteq> []" "CHR ''/'' \<notin> set n" "last n \<noteq> CHR ''/''" by simp_all
  have base: "path_base (u @ CHR ''/'' # n) = n" for u
    using n' by (simp add: path_base_def trim_right_id split_on_snoc split_on_no_sep Let_def)
  then show ?thesis using base [of "[]"] base [of "path_clean root"] n'
    by (auto simp: below_def path_base_no_slash)
qed

lemma guest_dir_cases:
  assumes "guest_dir H name = Inr dir"
  obtains root where "state_root H = Inr root" and "dir = path_join [root, name]"
    and "valid_guest_name name = None"
  using assms by (auto simp: guest_dir_def split: option.splits sum.splits)

section \<open>Properties\<close>

text \<open>
  Every accepted name but one designates a directory of its own, directly below the state
  root and called like the machine: two machines never share their state.
\<close>

theorem guest_dir_below_root:
  assumes "guest_dir H name = Inr dir" and "name \<noteq> ''/''"
  shows "\<exists>root. state_root H = Inr root \<and> dir = below root name \<and> path_base dir = name"
proof -
  obtain root where r: "state_root H = Inr root" "dir = path_join [root, name]"
    and "valid_guest_name name = None" using assms(1) by (rule guest_dir_cases)
  then have "proper_name name" using assms(2) by (intro valid_name_proper)
  with r show ?thesis using path_join_below [OF state_root_not_Nil [OF r(1)]] path_base_below by simp
qed

definition plain_host :: "kernel \<Rightarrow> host" where
  "plain_host K =
     \<lparr>h_kernel = K, h_env = (\<lambda>k. if k = ''K0SMOS_STATE_DIR'' then ''/state'' else []),
      h_home = Inl NotExist, h_goos = ''linux'', h_goarch = ''amd64'',
      h_decode_guest = (\<lambda>_. Inl (msg ''unexpected end of JSON input'')), h_local_time = (\<lambda>t. t)\<rparr>"

lemma plain_host_root [simp]: "state_root (plain_host K) = Inr ''/state''"
  by (simp add: state_root_def plain_host_def)

lemma plain_host_dir: "proper_name n \<Longrightarrow> guest_dir (plain_host K) n = Inr (''/state/'' @ n)"
proof -
  assume n: "proper_name n"
  have "path_clean ''/state'' = ''/state''" by (simp add: path_clean_def Let_def)
  then have "below ''/state'' n = ''/state/'' @ n" by (simp add: below_def)
  with n show ?thesis by (simp add: guest_dir_def proper_name_valid path_join_below)
qed

theorem guest_dir_below_root_witness:
  "\<exists>root. state_root (plain_host quiet_kernel) = Inr root \<and>
     ''/state/'' @ ''vm2'' = below root ''vm2'' \<and> path_base (''/state/'' @ ''vm2'') = ''vm2''"
  by (rule guest_dir_below_root [OF plain_host_dir]) (simp_all add: proper_name_def)

lemma path_join_slash: "root \<noteq> [] \<Longrightarrow> path_join [root, ''/''] = path_clean root"
proof -
  assume "root \<noteq> []"
  have "clean_parts r st (ws @ [[], []]) = clean_parts r st ws" for r st ws
    by (induction r st ws rule: clean_parts.induct) auto
  moreover have "split_on CHR ''/'' (root @ ''//'') = split_on CHR ''/'' root @ [[], []]"
    using split_on_snoc [of "CHR ''/''" root "''/''"] by simp
  ultimately show ?thesis using \<open>root \<noteq> []\<close> by (simp add: path_join_def path_clean_def Let_def)
qed

text \<open>
  The one other accepted name is a slash: it designates the state root itself, and removing
  the machine of that name removes the state of every machine, running ones included, because
  only a socket directly in the state root is asked whether it answers.
\<close>

theorem slash_removes_every_machine:
  assumes "state_root H = Inr root" and "K = h_kernel H" and "dir = path_clean root"
    and "answer_unit K h (Stat dir) = None"
    and "answer_unit K (h @ [Stat dir]) (Dial (path_join [dir, socket_file])) \<noteq> None"
  shows "snd (run_state (machine_rm H ''/'') h) !
           (length h + 2) = RemoveAll dir"
proof -
  have "valid_guest_name ''/'' = None" by (simp add: valid_guest_name_def path_base_def trim_right_def)
  then have g: "guest_dir H ''/'' = Inr dir"
    using assms(1,3) path_join_slash [OF state_root_not_Nil] by (simp add: guest_dir_def)
  then show ?thesis using assms(4,5)
    by (auto simp: machine_rm_def guest_paths_def guest_is_live_def assms(2) nth_append split: option.splits)
qed

theorem slash_removes_every_machine_witness:
  "snd (run_state (machine_rm (plain_host (quiet_kernel\<lparr>answer_unit := (\<lambda>h c. if c = Dial ''/state/control.sock'' then Some NotExist else None)\<rparr>)) ''/'') []) !
     (length ([] :: history) + 2) = RemoveAll ''/state''"
proof (rule slash_removes_every_machine [OF plain_host_root])
  show "''/state'' = path_clean ''/state''" by (simp add: path_clean_def Let_def)
  have "path_join [''/state'', socket_file] = ''/state/control.sock''"
    by (simp add: path_join_def path_clean_def Let_def socket_file_def)
  then show "answer_unit (quiet_kernel\<lparr>answer_unit := (\<lambda>h c. if c = Dial ''/state/control.sock'' then Some NotExist else None)\<rparr>)
      ([] @ [Stat ''/state'']) (Dial (path_join [''/state'', socket_file])) \<noteq> None" by simp
qed (simp_all add: plain_host_def)

text \<open>
  Removing a machine removes at most its own directory, and only when its control socket
  did not answer just before.
\<close>

theorem rm_spares_live_machines:
  assumes "RemoveAll p \<in> set (added (machine_rm H name) h)"
  shows "guest_dir H name = Inr p \<and>
    (\<exists>con sock meta. guest_paths H name = Inr (con, sock, meta) \<and>
       answer_unit (h_kernel H) (h @ [Stat p]) (Dial sock) \<noteq> None)"
  using assms
  by (auto simp: machine_rm_def added_def guest_is_live_def guest_paths_def guest_dir_def
      split: sum.splits option.splits if_splits)

theorem rm_spares_live_machines_witness:
  "guest_dir (plain_host (quiet_kernel\<lparr>answer_unit := (\<lambda>h c. if c = Dial ''/state/vm2/control.sock'' then Some NotExist else None)\<rparr>))
      ''vm2'' = Inr ''/state/vm2''"
proof -
  let ?K = "quiet_kernel\<lparr>answer_unit := (\<lambda>h c. if c = Dial ''/state/vm2/control.sock'' then Some NotExist else None)\<rparr>"
  have d: "guest_dir (plain_host ?K) ''vm2'' = Inr ''/state/vm2''"
    by (subst plain_host_dir) (simp_all add: proper_name_def)
  have s: "path_join [''/state/vm2'', socket_file] = ''/state/vm2/control.sock''"
    by (simp add: path_join_def path_clean_def Let_def socket_file_def)
  have "RemoveAll ''/state/vm2'' \<in> set (added (machine_rm (plain_host ?K) ''vm2'') [])"
    by (simp add: machine_rm_def d guest_paths_def s guest_is_live_def added_def)
      (simp add: plain_host_def)
  then show ?thesis by (rule conjunct1 [OF rm_spares_live_machines])
qed

lemma is_digit_dec: "c \<in> set (dec n) \<Longrightarrow> is_digit c"
  using dec_digits by (simp add: is_digit_def)

lemma scan_int_dec:
  assumes "n < 2 ^ 63" and "s = [] \<or> \<not> is_digit (hd s)"
  shows "scan_int (dec n @ s) = Some (int n)"
proof -
  have h: "is_digit (hd (dec n))" using is_digit_dec hd_in_set [OF dec_not_Nil] by metis
  then have "hd (dec n) \<noteq> CHR ''-''" "hd (dec n) \<noteq> CHR ''+''" by (auto simp: is_digit_def)
  moreover have "takeWhile is_digit (dec n @ s) = dec n"
    using assms(2) is_digit_dec by (cases s) (auto simp: takeWhile_append2 takeWhile_append1)
  ultimately show ?thesis using assms(1) by (simp add: scan_int_def Let_def atoi_dec)
qed

lemma to_upper_append [simp]: "to_upper (s @ t) = to_upper s @ to_upper t"
  by (simp add: to_upper_def)

lemma to_upper_dec [simp]: "to_upper (dec n) = dec n"
proof -
  have "upper_char c = c" if "c \<in> set (dec n)" for c
    using dec_digits [OF that] by (auto simp: upper_char_def)
  then show ?thesis by (simp add: to_upper_def map_idI)
qed

lemma last_dec: "last (dec n) \<notin> {CHR ''K'', CHR ''M'', CHR ''G''}"
proof -
  have "is_digit (last (dec n))" by (rule is_digit_dec [OF last_in_set [OF dec_not_Nil]])
  then show ?thesis by (auto simp: is_digit_def)
qed

lemma dec_suffix_plain: "\<forall>c\<in>set u. \<not> is_space c \<Longrightarrow> plain_word (dec n @ u)"
  using dec_plain by (auto simp: plain_word_def)

lemma parse_size_text:
  assumes "to_upper u = v" and "\<forall>c\<in>set v. \<not> is_space c"
  shows "parse_size (dec n @ u) =
    (let s = dec n @ v;
         mult = (if last s = CHR ''K'' then 2 ^ 10 else if last s = CHR ''M'' then 2 ^ 20
                 else if last s = CHR ''G'' then 2 ^ 30 else 1);
         num = (if last s \<in> {CHR ''K'', CHR ''M'', CHR ''G''} then butlast s else s)
     in case scan_int num of
          None \<Rightarrow> Inl (Errorf ''bad size %q'' [num] None)
        | Some k \<Rightarrow> if k \<le> 0 then Inl (Errorf ''bad size %q'' [num] None) else Inr (int64 (k * mult)))"
  using trim_space_plain [OF dec_suffix_plain [OF assms(2)]] assms(1)
  by (simp add: parse_size_def Let_def)

definition size_units :: "(string \<times> int) list" where
  "size_units = [([], 1), (''K'', 2 ^ 10), (''k'', 2 ^ 10), (''M'', 2 ^ 20), (''m'', 2 ^ 20), (''G'', 2 ^ 30), (''g'', 2 ^ 30)]"

lemma upper_units:
  "to_upper [] = []" "to_upper ''K'' = ''K''" "to_upper ''M'' = ''M''" "to_upper ''G'' = ''G''"
  "to_upper ''k'' = ''K''" "to_upper ''m'' = ''M''" "to_upper ''g'' = ''G''"
  by (simp_all add: to_upper_def upper_char_def char_of_def bit_iff_odd)

text \<open>
  A number of bytes, or of binary kilobytes, megabytes or gigabytes in either letter case, is
  read as that size when it fits in 63 bits.
\<close>

theorem parse_size_correct:
  assumes "(u, m) \<in> set size_units" and "0 < n" and "int n * m < 2 ^ 63"
  shows "parse_size (dec n @ u) = Inr (int n * m)"
proof -
  have "1 \<le> m" using assms(1) by (auto simp: size_units_def)
  then have "int n \<le> int n * m" by (simp add: mult_le_cancel_left1)
  then have "int n < 2 ^ 63" using assms(3) by (rule le_less_trans)
  then have n: "n < 2 ^ 63" by simp
  have i: "int64 (int n * m) = int n * m"
    using assms(3) \<open>int n \<le> int n * m\<close> by (intro int64_id) auto
  have v: "to_upper u \<in> {[], ''K'', ''M'', ''G''}"
    using assms(1) by (auto simp: size_units_def upper_units)
  then have "\<forall>c\<in>set (to_upper u). \<not> is_space c" by (auto simp: is_space_def)
  from parse_size_text [OF refl this, of n] show ?thesis
    using assms(1,2) last_dec [of n] scan_int_dec [OF n, of "[]"] i
    by (auto simp: size_units_def Let_def upper_units butlast_append)
qed

theorem parse_size_correct_witness: "parse_size (dec 4 @ ''G'') = Inr (int 4 * 2 ^ 30)"
  by (rule parse_size_correct) (simp_all add: size_units_def)

text \<open>
  Text after the digits is not looked at, so the spelling \<^verbatim>\<open>4GB\<close> makes a volume of four
  bytes; and a size past 63 bits wraps around, so 2 to the 34 gigabytes are none at all.
\<close>

theorem size_unit_is_ignored:
  "parse_size (dec 4 @ ''GB'') = Inr 4 \<and> parse_size (dec 17179869184 @ ''G'') = Inr 0"
proof
  have u: "to_upper ''GB'' = ''GB''" "to_upper ''G'' = ''G''" by (simp_all add: to_upper_def upper_char_def)
  have "\<forall>c\<in>set ''GB''. \<not> is_space c" by (simp add: is_space_def)
  from parse_size_text [OF u(1) this, of 4] show "parse_size (dec 4 @ ''GB'') = Inr 4"
    using scan_int_dec [of 4 "''GB''"] by (simp add: is_digit_def int64_def)
  have "\<forall>c\<in>set ''G''. \<not> is_space c" by (simp add: is_space_def)
  from parse_size_text [OF u(2) this, of 17179869184] show "parse_size (dec 17179869184 @ ''G'') = Inr 0"
    using scan_int_dec [of 17179869184 "[]"] by (simp add: int64_def butlast_append)
qed

section \<open>Cloned disks\<close>

definition clone_call :: "string \<Rightarrow> string \<Rightarrow> call \<Rightarrow> bool" where
  "clone_call src dst c =
     (c = Stat dst \<or> c = Stat src \<or> c = RunCmd [''cp'', ''-c'', src, dst] [] \<or> c = RunCmd [''cp'', src, dst] [])"

text \<open>
  A machine's disk is cloned at most once: a disk that exists is returned without any other
  call, and otherwise the only commands copy the image to the machine's own disk. The image
  is never written.
\<close>

theorem disk_is_cloned_once:
  assumes "guest_dir H name = Inr dir" and "disk = path_join [dir, filename]"
  shows "(answer_unit (h_kernel H) h (Stat disk) = None \<longrightarrow>
       run_state (clone_guest_disk H name img filename what hint) h = (Inr disk, h @ [Stat disk])) \<and>
     emits (clone_call img disk) (clone_guest_disk H name img filename what hint) \<and>
     (\<forall>d h'. run_state (clone_guest_disk H name img filename what hint) h = (Inr d, h') \<longrightarrow> d = disk)"
proof (intro conjI)
  have "emits (clone_call img disk) (clone_file H img disk)"
    unfolding clone_file_def by (intro emits_intros) (simp_all add: clone_call_def)
  then show "emits (clone_call img disk) (clone_guest_disk H name img filename what hint)"
    unfolding clone_guest_disk_def assms Let_def sum.case
    by (intro emits_intros) (simp_all add: clone_call_def)
qed (auto simp: clone_guest_disk_def assms Let_def split: option.splits if_splits prod.splits)

theorem disk_is_cloned_once_witness:
  "run_state (clone_guest_disk (plain_host quiet_kernel) ''vm2'' ''/tmp/image'' artifact_file ''artifact'' []) [] =
     (Inr (path_join [''/state/vm2'', artifact_file]), [Stat (path_join [''/state/vm2'', artifact_file])])"
proof -
  have "guest_dir (plain_host quiet_kernel) ''vm2'' = Inr ''/state/vm2''"
    by (subst plain_host_dir) (simp_all add: proper_name_def)
  note once = disk_is_cloned_once [OF this refl]
  have q: "answer_unit (h_kernel (plain_host quiet_kernel)) [] c = None" for c
    by (simp add: plain_host_def quiet_kernel_def)
  show ?thesis by (rule once [THEN conjunct1, rule_format, OF q, unfolded append_Nil])
qed

section \<open>The list of machines\<close>

text \<open>
  The listing has one machine for every directory of the state root that is not hidden, in the
  order in which the directory is read, whether or not its record can be read; the comment
  on \<^verbatim>\<open>listGuests\<close> promises the newest first.
\<close>

lemma guests_of_names:
  "map gm_name (fst (run_state (guests_of H root es) h)) =
     filter (\<lambda>n. \<not> has_prefix n ''.'') (List.map_filter entry_dir es)"
proof (induction es arbitrary: h)
  case (Cons e es)
  then show ?case
    by (cases "entry_dir e") (simp_all add: map_filter_simps split_beta bare_guest_def split: sum.splits)
qed (simp add: map_filter_simps)

theorem list_guests_in_directory_order:
  assumes "run_state (list_guests H) h = (Inr ms, h')" and "state_root H = Inr root"
    and "answer_names (h_kernel H) h (ListDir root) = Inr es"
  shows "map gm_name ms = filter (\<lambda>n. \<not> has_prefix n ''.'') (List.map_filter entry_dir es)"
  using assms guests_of_names [of H root es "h @ [ListDir root]"]
  by (auto simp: list_guests_def split: prod.splits)

end
