(* ===== verification/Cluster_Plan.thy ===== *)
theory Cluster_Plan
  imports Host_State Net_Config
begin

text \<open>
  The plan of \<^verbatim>\<open>k0smosctl cluster create\<close> (\<^verbatim>\<open>planCluster\<close> of \<^verbatim>\<open>cmd/k0smosctl/cluster_create.go\<close> and
  \<^verbatim>\<open>cluster_state.go\<close>): names, roles, addresses and ports of the machines, decided before anything is
  started. The counts and the port are Go's \<^verbatim>\<open>int\<close>, so the sums of the checks wrap at 64 bits.
\<close>

section \<open>Machines and options\<close>

record cluster_machine =
  cm_name :: string
  cm_role :: string
  cm_ip :: string
  cm_api_port :: int

record cluster_meta =
  cs_name :: string
  cs_hub_pid :: int
  cs_hub_address :: string
  cs_machines :: "cluster_machine list"
  cs_created :: string

record create_options =
  co_name :: string
  co_image :: string
  co_firmware :: string
  co_arch :: string
  co_release :: string
  co_cache_dir :: string
  co_controllers :: int
  co_workers :: int
  co_api_port :: int
  co_memory :: int
  co_cpus :: int
  co_kubeconfig :: string
  co_timeout :: int
  co_dry_run :: bool

definition cluster_first_host :: nat where "cluster_first_host = 11"
definition cluster_subnet :: string where "cluster_subnet = ''10.10.0''"

definition name_char :: "char \<Rightarrow> bool" where
  "name_char c = (is_digit c \<or> (97 \<le> (of_char c :: nat) \<and> (of_char c :: nat) \<le> 122))"

text \<open>The pattern \<^verbatim>\<open>^[a-z0-9](?:[-a-z0-9]*[a-z0-9])?$\<close>.\<close>

definition cluster_name_pattern :: "string \<Rightarrow> bool" where
  "cluster_name_pattern s =
     (s \<noteq> [] \<and> name_char (hd s) \<and>
      (tl s = [] \<or> list_all (\<lambda>c. c = CHR ''-'' \<or> name_char c) (butlast (tl s)) \<and> name_char (last s)))"

definition cluster_node_ip :: "nat \<Rightarrow> string" where
  "cluster_node_ip i = cluster_subnet @ ''.'' @ dec (cluster_first_host + i)"

text \<open>\<^verbatim>\<open>%02x\<close> of a number.\<close>

fun hex :: "nat \<Rightarrow> string" where
  "hex n = (if n < 16 then [digit n] else hex (n div 16) @ [digit (n mod 16)])"

declare hex.simps [simp del]

definition hex02 :: "nat \<Rightarrow> string" where
  "hex02 n = (if n < 16 then CHR ''0'' # hex n else hex n)"

definition cluster_node_mac :: "nat \<Rightarrow> string" where
  "cluster_node_mac i = ''52:54:00:c0:5e:'' @ hex02 (cluster_first_host + i)"

definition cluster_state_dir :: "'h host_scheme \<Rightarrow> string \<Rightarrow> err + string" where
  "cluster_state_dir H name =
     (case valid_guest_name name of
        Some e \<Rightarrow> Inl (wrap ''invalid cluster name: %w'' [] e)
      | None \<Rightarrow> (case state_root H of
                   Inl e \<Rightarrow> Inl e | Inr root \<Rightarrow> Inr (path_join [root, ''.clusters'', name])))"

section \<open>The plan\<close>

definition check_options :: "create_options \<Rightarrow> err option" where
  "check_options opts =
     (case valid_guest_name (co_name opts) of
        Some e \<Rightarrow> Some (wrap ''invalid cluster name: %w'' [] e)
      | None \<Rightarrow>
          if length (co_name opts) > 40 \<or> \<not> cluster_name_pattern (co_name opts)
          then Some (msg ''--name must be a lowercase DNS label of at most 40 characters'')
          else if co_controllers opts < 1 then Some (msg ''--controllers must be at least 1'')
          else if co_workers opts < 0 then Some (msg ''--workers cannot be negative'')
          else if int64 (co_controllers opts + co_workers opts) > 200
          then Some (msg ''a cluster may contain at most 200 machines'')
          else if co_api_port opts < 1 \<or> int64 (co_api_port opts + co_controllers opts - 1) > 65535
          then Some (msg ''--api-port and the controller count must fit in the TCP port range'')
          else if co_memory opts < 256 \<or> co_cpus opts < 1
          then Some (msg ''each machine needs at least 256 MiB and one CPU'')
          else if co_timeout opts \<le> 0 then Some (msg ''--timeout must be positive'')
          else if co_kubeconfig opts = [] then Some (msg ''--output cannot be empty'')
          else None)"

definition controller_at :: "create_options \<Rightarrow> nat \<Rightarrow> cluster_machine" where
  "controller_at opts i =
     \<lparr>cm_name = co_name opts @ ''-controller-'' @ dec i, cm_role = ''controller'',
      cm_ip = cluster_node_ip i, cm_api_port = int64 (co_api_port opts + int i)\<rparr>"

definition worker_at :: "create_options \<Rightarrow> nat \<Rightarrow> cluster_machine" where
  "worker_at opts i =
     \<lparr>cm_name = co_name opts @ ''-worker-'' @ dec i, cm_role = ''worker'',
      cm_ip = cluster_node_ip (nat (co_controllers opts) + i), cm_api_port = 0\<rparr>"

definition check_machine :: "'h host_scheme \<Rightarrow> string \<Rightarrow> err option" where
  "check_machine H name =
     (case guest_paths H name of
        Inl e \<Rightarrow> Some e | Inr (_, sock, _) \<Rightarrow> check_socket_path sock)"

fun plan_role :: "'h host_scheme \<Rightarrow> (nat \<Rightarrow> cluster_machine) \<Rightarrow> nat list \<Rightarrow> err + cluster_machine list" where
  "plan_role H mk [] = Inr []"
| "plan_role H mk (i # is) =
     (case check_machine H (cm_name (mk i)) of
        Some e \<Rightarrow> Inl e
      | None \<Rightarrow> (case plan_role H mk is of Inl e \<Rightarrow> Inl e | Inr ms \<Rightarrow> Inr (mk i # ms)))"

definition plan_cluster :: "'h host_scheme \<Rightarrow> create_options \<Rightarrow> err + cluster_machine list" where
  "plan_cluster H opts =
     (case check_options opts of
        Some e \<Rightarrow> Inl e
      | None \<Rightarrow>
          (case plan_role H (controller_at opts) [0..<nat (co_controllers opts)] of
             Inl e \<Rightarrow> Inl e
           | Inr cs \<Rightarrow>
               (case plan_role H (worker_at opts) [0..<nat (co_workers opts)] of
                  Inl e \<Rightarrow> Inl e | Inr ws \<Rightarrow> Inr (cs @ ws))))"

section \<open>What a plan looks like\<close>

lemma plan_role_Inr: "plan_role H mk is = Inr ms \<Longrightarrow> ms = map mk is"
  by (induction "is" arbitrary: ms) (auto split: option.splits sum.splits)

lemma plan_role_checked:
  "plan_role H mk is = Inr ms \<Longrightarrow> m \<in> set ms \<Longrightarrow> check_machine H (cm_name m) = None"
  by (induction "is" arbitrary: ms) (auto split: option.splits sum.splits)

text \<open>The machine with a number, controllers first.\<close>

definition machine_at :: "create_options \<Rightarrow> nat \<Rightarrow> cluster_machine" where
  "machine_at opts k =
     (if k < nat (co_controllers opts) then controller_at opts k
      else worker_at opts (k - nat (co_controllers opts)))"

lemma plan_is_machines:
  assumes "plan_cluster H opts = Inr ms"
  shows "ms = map (machine_at opts) [0..<nat (co_controllers opts) + nat (co_workers opts)]"
    and "check_options opts = None"
proof -
  let ?c = "nat (co_controllers opts)" and ?w = "nat (co_workers opts)"
  from assms obtain cs ws where cs: "plan_role H (controller_at opts) [0..<?c] = Inr cs"
    and ws: "plan_role H (worker_at opts) [0..<?w] = Inr ws" and parts: "ms = cs @ ws"
    by (simp only: plan_cluster_def split: option.split_asm sum.split_asm) auto
  have ms: "ms = map (controller_at opts) [0..<?c] @ map (worker_at opts) [0..<?w]"
    unfolding parts plan_role_Inr [OF cs] plan_role_Inr [OF ws] ..
  have "[0..<c + w] = [0..<c] @ map (\<lambda>i. i + c) [0..<w]" for c w :: nat
    using upt_add_eq_append [of 0 c w] map_add_upt [of c w] by (simp add: add.commute [of w c])
  then have "map (machine_at opts) [0..<?c + ?w] =
      map (machine_at opts) [0..<?c] @ map (\<lambda>i. machine_at opts (i + ?c)) [0..<?w]"
    by (simp only: map_append map_map comp_def)
  also have "\<dots> = ms" unfolding ms by (simp add: machine_at_def)
  finally show "ms = map (machine_at opts) [0..<?c + ?w]" by simp
  show "check_options opts = None"
    using assms by (simp add: plan_cluster_def split: option.splits)
qed

definition no_wrap :: "create_options \<Rightarrow> bool" where
  "no_wrap opts = (co_controllers opts < 2 ^ 62 \<and> co_workers opts < 2 ^ 62 \<and> co_api_port opts < 2 ^ 62)"

lemma int64_small: "- (2 ^ 62) \<le> i \<Longrightarrow> i < 2 ^ 63 \<Longrightarrow> int64 i = i"
  by (rule int64_id) auto

lemma if_Some_None: "(if b then Some x else y) = None \<longleftrightarrow> \<not> b \<and> y = None"
  by simp

lemma check_options_None:
  "check_options opts = None \<longleftrightarrow>
     valid_guest_name (co_name opts) = None \<and>
     \<not> (length (co_name opts) > 40 \<or> \<not> cluster_name_pattern (co_name opts)) \<and>
     \<not> co_controllers opts < 1 \<and> \<not> co_workers opts < 0 \<and>
     \<not> int64 (co_controllers opts + co_workers opts) > 200 \<and>
     \<not> (co_api_port opts < 1 \<or> int64 (co_api_port opts + co_controllers opts - 1) > 65535) \<and>
     \<not> (co_memory opts < 256 \<or> co_cpus opts < 1) \<and> \<not> co_timeout opts \<le> 0 \<and> co_kubeconfig opts \<noteq> []"
  unfolding check_options_def by (cases "valid_guest_name (co_name opts)") (simp_all only: option.case if_Some_None, simp_all)

lemma checked_bounds:
  assumes "check_options opts = None" and "no_wrap opts"
  shows "1 \<le> co_controllers opts" "0 \<le> co_workers opts" "co_controllers opts + co_workers opts \<le> 200"
    "1 \<le> co_api_port opts" "co_api_port opts + co_controllers opts - 1 \<le> 65535"
    "length (co_name opts) \<le> 40" "cluster_name_pattern (co_name opts)"
proof -
  show a: "1 \<le> co_controllers opts" "0 \<le> co_workers opts" "1 \<le> co_api_port opts"
      "length (co_name opts) \<le> 40" "cluster_name_pattern (co_name opts)"
    using assms(1) by (simp_all add: check_options_None)
  have "int64 (co_controllers opts + co_workers opts) \<le> 200"
    "int64 (co_api_port opts + co_controllers opts - 1) \<le> 65535"
    using assms(1) by (simp_all add: check_options_None)
  then show "co_controllers opts + co_workers opts \<le> 200" "co_api_port opts + co_controllers opts - 1 \<le> 65535"
    using assms(2) a by (simp_all add: no_wrap_def int64_small)
qed

lemma dec_inject [simp]: "dec m = dec n \<longleftrightarrow> m = n"
  by (metis digits_value_dec option.inject)

lemma cluster_node_ip_inject [simp]: "cluster_node_ip i = cluster_node_ip j \<longleftrightarrow> i = j"
  by (simp add: cluster_node_ip_def)

lemma machine_name_inject:
  "cm_name (machine_at opts i) = cm_name (machine_at opts j) \<longleftrightarrow> i = j"
  by (auto simp: machine_at_def controller_at_def worker_at_def)

lemma digit_inject_16: "i < 16 \<Longrightarrow> j < 16 \<Longrightarrow> digit i = digit j \<longleftrightarrow> i = j"
proof -
  assume ij: "i < 16" "j < 16"
  have "of_char (digit k) = (if k < 10 then 48 + k else 87 + k)" if "k < 16" for k
    using that by (simp add: digit_def)
  then have "of_char (digit i) = (of_char (digit j) :: nat) \<longleftrightarrow> i = j" using ij by simp
  then show ?thesis by auto
qed

lemma hex02_byte: "n < 256 \<Longrightarrow> hex02 n = [digit (n div 16), digit (n mod 16)]"
proof -
  assume "n < 256"
  then have "n div 16 < 16" by (simp add: less_mult_imp_div_less)
  moreover have "digit 0 = CHR ''0''" by (simp add: digit_def char_of_def bit_iff_odd)
  ultimately show ?thesis by (cases "n < 16") (simp_all add: hex02_def hex.simps)
qed

lemma cluster_node_mac_inject:
  assumes "i < 245" and "j < 245"
  shows "cluster_node_mac i = cluster_node_mac j \<longleftrightarrow> i = j"
proof -
  let ?m = "cluster_first_host + i" and ?n = "cluster_first_host + j"
  have "?m < 256" "?n < 256" using assms by (simp_all add: cluster_first_host_def)
  moreover from this have "?m div 16 < 16" "?n div 16 < 16" by (simp_all add: less_mult_imp_div_less)
  moreover have "?m div 16 = ?n div 16 \<and> ?m mod 16 = ?n mod 16 \<longleftrightarrow> ?m = ?n"
    by (metis div_mult_mod_eq)
  ultimately show ?thesis
    by (simp add: cluster_node_mac_def hex02_byte digit_inject_16)
qed

lemma word_byte: "n < 256 \<Longrightarrow> unat (word_of_nat n :: byte) = n"
  by (simp add: unat_of_nat)

text \<open>The address is the one of that host on the cluster's network, in the text form the node reads.\<close>

lemma cluster_node_ip_string:
  "i < 245 \<Longrightarrow> cluster_node_ip i = ip_string [10, 10, 0, word_of_nat (cluster_first_host + i)]"
proof -
  assume "i < 245"
  then have "cluster_first_host + i < 256" by (simp add: cluster_first_host_def)
  note u = word_byte [OF this]
  have d: "dec 10 = ''10''" "dec 0 = ''0''"
    by (simp_all add: dec.simps [of 10] dec.simps [of "Suc 0"] dec.simps [of 0] digit_def char_of_def bit_iff_odd)
  show ?thesis by (simp add: cluster_node_ip_def cluster_subnet_def ip_string_def u d del: of_nat_add)
qed

section \<open>Properties\<close>

text \<open>What the init and the kernel of a machine can use: a host name and an address in text form.\<close>

definition dns_label :: "string \<Rightarrow> bool" where
  "dns_label s =
     (s \<noteq> [] \<and> length s \<le> 63 \<and> list_all (\<lambda>c. c = CHR ''-'' \<or> name_char c) s \<and>
      name_char (hd s) \<and> name_char (last s))"

lemma name_char_dec: "c \<in> set (dec n) \<Longrightarrow> name_char c"
  using is_digit_dec by (simp add: name_char_def)

lemma length_dec_small: "n < 1000 \<Longrightarrow> length (dec n) \<le> 3"
proof -
  assume "n < 1000"
  then have "n div 10 < 100" "n div 10 div 10 < 10" by auto
  then show ?thesis
    by (simp add: dec.simps [of n] dec.simps [of "n div 10"] dec.simps [of "n div 10 div 10"])
qed

lemma name_pattern_chars:
  "cluster_name_pattern s \<Longrightarrow> list_all (\<lambda>c. c = CHR ''-'' \<or> name_char c) s \<and> name_char (hd s) \<and> s \<noteq> []"
proof -
  assume s: "cluster_name_pattern s"
  then obtain x xs where x: "s = x # xs" by (cases s) (auto simp: cluster_name_pattern_def)
  with s show ?thesis
    by (cases xs rule: rev_cases) (auto simp: cluster_name_pattern_def)
qed

lemma machine_dns_label:
  assumes "cluster_name_pattern (co_name opts)" and "length (co_name opts) \<le> 40" and "k < 1000"
  shows "dns_label (cm_name (machine_at opts k))"
proof -
  have lt: "k - nat (co_controllers opts) < 1000" using assms(3) by simp
  have "dns_label (co_name opts @ mid @ dec n)"
    if "n < 1000" "length mid \<le> 20" "list_all (\<lambda>c. c = CHR ''-'' \<or> name_char c) mid" for mid n
  proof -
    note p = name_pattern_chars [OF assms(1)]
    have "list_all (\<lambda>c. c = CHR ''-'' \<or> name_char c) (dec n)" "name_char (last (dec n))"
      using name_char_dec [of _ n] last_in_set [OF dec_not_Nil [of n]] by (simp_all add: list_all_iff)
    with p that(3) show ?thesis
      using that(2) assms(2) length_dec_small [OF that(1)] by (simp add: dns_label_def)
  qed
  note label = this
  have "dns_label (co_name opts @ ''-controller-'' @ dec k)"
    by (rule label [OF assms(3)]) (simp_all add: name_char_def)
  moreover have "dns_label (co_name opts @ ''-worker-'' @ dec (k - nat (co_controllers opts)))"
    by (rule label [OF lt]) (simp_all add: name_char_def)
  ultimately show ?thesis by (simp add: machine_at_def controller_at_def worker_at_def)
qed

lemma parse_ip24:
  assumes "k < 200"
  shows "parse_cidr (cluster_node_ip k @ ''/24'') =
    Some (v4_prefix @ [10, 10, 0, word_of_nat (cluster_first_host + k)], cidr_mask 24 32)"
proof -
  have d: "dec 24 = ''24''"
    by (simp add: dec.simps [of 24] dec.simps [of 2] digit_def char_of_def bit_iff_odd)
  show ?thesis
    using parse_cidr_string [of 24 10 10 0 "word_of_nat (cluster_first_host + k)"] assms
    by (simp only: d cluster_node_ip_string) simp
qed

text \<open>
  C18. A plan that is accepted for counts and a first port below 2 to the power of 62, so that no sum of the checks
  wraps, is consistent: it has the machines asked for, at most 200, the
  controllers first with consecutive ports that exist and the workers without one; names,
  addresses and hardware addresses are pairwise different, every name is a valid host name,
  every address is one the init parses to that host of the cluster's network, and every
  control socket path is short enough.
\<close>

theorem plan_is_consistent:
  assumes "plan_cluster H opts = Inr ms" and "no_wrap opts"
  shows "length ms = nat (co_controllers opts + co_workers opts) \<and> ms \<noteq> [] \<and> length ms \<le> 200 \<and> 1 \<le> co_api_port opts \<and>
    distinct (map cm_name ms) \<and> distinct (map cm_ip ms) \<and> distinct (map cluster_node_mac [0..<length ms]) \<and>
    (\<forall>k < length ms.
       dns_label (cm_name (ms ! k)) \<and> check_machine H (cm_name (ms ! k)) = None \<and>
       parse_cidr (cm_ip (ms ! k) @ ''/24'') =
         Some (v4_prefix @ [10, 10, 0, word_of_nat (cluster_first_host + k)], cidr_mask 24 32) \<and>
       cm_role (ms ! k) = (if int k < co_controllers opts then ''controller'' else ''worker'') \<and>
       cm_api_port (ms ! k) = (if int k < co_controllers opts then co_api_port opts + int k else 0) \<and>
       cm_api_port (ms ! k) \<le> 65535)"
proof -
  let ?c = "nat (co_controllers opts)" and ?w = "nat (co_workers opts)"
  note ms = plan_is_machines(1) [OF assms(1)] and ok = plan_is_machines(2) [OF assms(1)]
  note b = checked_bounds [OF ok assms(2)]
  have len: "length ms = ?c + ?w" "?c + ?w \<le> 200" "0 < ?c" unfolding ms using b(1-3) by auto
  have nth: "ms ! k = machine_at opts k" if "k < length ms" for k
    using that len(1) by (simp add: ms)
  have checked: "check_machine H (cm_name m) = None" if "m \<in> set ms" for m
    using assms(1) that by (auto simp: plan_cluster_def dest: plan_role_checked split: option.splits sum.splits)
  have ip: "cm_ip (machine_at opts k) = cluster_node_ip k" for k
    by (simp add: machine_at_def controller_at_def worker_at_def)
  have "distinct (map cm_name ms) \<and> distinct (map cm_ip ms)"
    unfolding ms by (simp add: distinct_map inj_on_def machine_name_inject ip)
  moreover have "distinct (map cluster_node_mac [0..<length ms])"
    using len by (auto simp: distinct_map inj_on_def cluster_node_mac_inject)
  moreover have "dns_label (cm_name (ms ! k)) \<and> check_machine H (cm_name (ms ! k)) = None \<and>
       parse_cidr (cm_ip (ms ! k) @ ''/24'') =
         Some (v4_prefix @ [10, 10, 0, word_of_nat (cluster_first_host + k)], cidr_mask 24 32) \<and>
       cm_role (ms ! k) = (if int k < co_controllers opts then ''controller'' else ''worker'') \<and>
       cm_api_port (ms ! k) = (if int k < co_controllers opts then co_api_port opts + int k else 0) \<and>
       cm_api_port (ms ! k) \<le> 65535" if "k < length ms" for k
    using that nth [OF that] b checked [OF nth_mem [OF that]] machine_dns_label [OF b(7,6), of k] len
      parse_ip24 [of k]
    by (auto simp: machine_at_def controller_at_def worker_at_def ip int64_small)
  moreover have "length ms = nat (co_controllers opts + co_workers opts)" "ms \<noteq> []" "length ms \<le> 200" "1 \<le> co_api_port opts"
    using len b(1,2,4) by (auto simp: nat_add_distrib)
  ultimately show ?thesis by blast
qed

lemma plain_host_socket:
  assumes "proper_name n"
  shows "path_join [''/state/'' @ n, socket_file] = ''/state/'' @ n @ ''/control.sock''"
proof -
  have n: "n \<notin> {[], ''.'', ''..''}" "CHR ''/'' \<notin> set n" using assms by (simp_all add: proper_name_def)
  have "split_on CHR ''/'' (''/state/'' @ n) = [[], ''state'', n]"
    using split_on_snoc [of "CHR ''/''" "''/state''" n] n by (simp add: split_on_no_sep)
  then have "path_clean (''/state/'' @ n) = ''/state/'' @ n"
    using n by (simp add: path_clean_def Let_def)
  moreover have "proper_name socket_file" by (simp add: proper_name_def socket_file_def)
  ultimately show ?thesis
    by (simp add: path_join_below below_def socket_file_def)
qed

lemma plain_check_machine:
  "proper_name n \<Longrightarrow> length n \<le> 40 \<Longrightarrow> check_machine (plain_host K) n = None"
  using plain_host_socket [of n]
  by (simp add: check_machine_def guest_paths_def plain_host_dir check_socket_path_def max_socket_path_def)

definition dev_options :: create_options where
  "dev_options =
     \<lparr>co_name = ''dev'', co_image = [], co_firmware = [], co_arch = ''amd64'', co_release = ''latest'',
      co_cache_dir = [], co_controllers = 1, co_workers = 1, co_api_port = 6443, co_memory = 4096,
      co_cpus = 2, co_kubeconfig = ''kubeconfig'', co_timeout = 600 * 10 ^ 9, co_dry_run = False\<rparr>"

lemma dev_plan:
  "plan_cluster (plain_host K) dev_options = Inr [machine_at dev_options 0, machine_at dev_options 1]"
proof -
  have "proper_name ''dev''" by (simp add: proper_name_def)
  then have ok: "check_options dev_options = None"
    unfolding check_options_None by (simp add: proper_name_valid dev_options_def cluster_name_pattern_def name_char_def int64_small)
  have p: "proper_name (''dev-controller-'' @ dec 0)" "proper_name (''dev-worker-'' @ dec 0)"
    using dec_digits [of "CHR ''/''" 0] by (auto simp: proper_name_def)
  have "check_machine (plain_host K) (cm_name (controller_at dev_options 0)) = None"
    "check_machine (plain_host K) (cm_name (worker_at dev_options 0)) = None"
    using plain_check_machine [OF p(1)] plain_check_machine [OF p(2)] length_dec_small [of 0]
    by (simp_all add: controller_at_def worker_at_def dev_options_def)
  then show ?thesis
    by (simp add: plan_cluster_def ok) (simp add: dev_options_def machine_at_def)
qed

theorem plan_is_consistent_witness:
  "distinct (map cm_name [machine_at dev_options 0, machine_at dev_options 1]) \<and>
   distinct (map cm_ip [machine_at dev_options 0, machine_at dev_options 1])"
  using plan_is_consistent [OF dev_plan [of quiet_kernel]]
  by (simp only: no_wrap_def) (simp add: dev_options_def)

text \<open>
  Larger numbers are accepted as well, because the sums of the checks wrap: two counts near the largest \<^verbatim>\<open>int\<close> pass the limits on the number of
  machines and on the ports, and a plan of that length is then built.
\<close>

theorem huge_counts_pass_the_limits:
  "check_options (dev_options\<lparr>co_controllers := 2 ^ 63 - 1, co_workers := 2 ^ 63 - 1\<rparr>) = None"
proof -
  have "check_options dev_options = None"
    using plan_is_machines(2) [OF dev_plan [of quiet_kernel]] .
  then show ?thesis
    unfolding check_options_None by (simp add: dev_options_def int64_def)
qed

end
