(* ===== verification/Config_Drive.thy ===== *)
theory Config_Drive
  imports Cluster_Plan Run_Plan Iso_Roundtrip Control Config
begin

text \<open>
  The configuration drives the host tool writes: \<^verbatim>\<open>k0smosctl gen\<close> (\<^verbatim>\<open>cmd/k0smosctl/gen.go\<close>) and the
  drive of a cluster machine (\<^verbatim>\<open>writeClusterDrive\<close> and \<^verbatim>\<open>renderK0sConfig\<close> of \<^verbatim>\<open>cluster_create.go\<close>).
  Both check what they generate with the parser of the node before they write the image. The
  YAML encoder is a parameter, as the decoder is in \<^verbatim>\<open>Metadata\<close>.
\<close>

section \<open>Checking a drive in memory\<close>

definition mem_drive :: "(string \<times> bytes) list \<Rightarrow> drive" where
  "mem_drive files name =
     give (Some (case map_of files name of Some b \<Rightarrow> Inr b | None \<Rightarrow> Inl NotExist))"

definition load_in_memory :: "decoders \<Rightarrow> bytes \<Rightarrow> bytes \<Rightarrow> (user_data \<times> meta_data \<times> err option) option io" where
  "load_in_memory D body meta =
     load_metadata_from D (mem_drive [(''user-data'', body), (''meta-data'', meta)])"

lemma load_in_memory_run:
  "run_state (load_in_memory D body meta) h =
     (Some (case parse_user_data D body of
              (ud, Some e) \<Rightarrow> (no_user_data, no_meta_data, Some e)
            | (ud, None) \<Rightarrow>
                (case parse_meta_data D meta of
                   Inl e \<Rightarrow> (ud, no_meta_data, Some e) | Inr md \<Rightarrow> (ud, md, None))), h)"
  by (simp add: load_in_memory_def load_metadata_from_def user_data_paths_def meta_data_paths_def mem_drive_def
      split: prod.splits option.splits sum.splits)

definition drive_files :: "bytes \<Rightarrow> bytes \<Rightarrow> iso_file list" where
  "drive_files body meta =
     [\<lparr>f_name = ''user-data'', f_data = body\<rparr>, \<lparr>f_name = ''meta-data'', f_data = meta\<rparr>]"

section \<open>k0smosctl gen\<close>

text \<open>\<^verbatim>\<open>%04o\<close> of permission bits.\<close>

definition octal4 :: "nat \<Rightarrow> string" where
  "octal4 n = map (\<lambda>k. digit (n div 8 ^ k mod 8)) [3, 2, 1, 0]"

definition file_entry :: "string \<Rightarrow> nat \<Rightarrow> bytes \<Rightarrow> string" where
  "file_entry dest perm data =
     ''  - path: '' @ dest @ [newline] @
     ''    permissions: '' @ quote (octal4 perm) @ [newline] @
     ''    encoding: b64'' @ [newline] @
     ''    content: '' @ b64_encode data @ [newline]"

fun file_entries :: "kernel \<Rightarrow> string list \<Rightarrow> (err + string) io" where
  "file_entries K [] = give (Inr [])"
| "file_entries K (spec # specs) =
     (case cut CHR '':'' spec of
        (src, dest, found) \<Rightarrow>
          if \<not> found \<or> src = [] \<or> dest = []
          then give (Inl (Errorf ''--file %q is not SRC:DEST'' [spec] None))
          else if \<not> has_prefix dest ''/''
          then give (Inl (Errorf ''--file %q: the destination must be an absolute path'' [spec] None))
          else
            and_then (do_bytes K (ReadFile src)) (\<lambda>data.
            and_then (do_num K (StatMode src)) (\<lambda>mode.
            and_then (file_entries K specs) (\<lambda>rest.
              give (Inr (file_entry dest (nat mode mod 512) data @ rest))))))"

definition render_write_files :: "kernel \<Rightarrow> string list \<Rightarrow> (err + bytes) io" where
  "render_write_files K specs =
     and_then (file_entries K specs) (\<lambda>text.
       give (Inr (to_bytes (''#cloud-config'' @ [newline] @ ''write_files:'' @ [newline] @ text))))"

definition user_data_body :: "kernel \<Rightarrow> string \<Rightarrow> string list \<Rightarrow> (err + bytes) io" where
  "user_data_body K path files =
     (if path \<noteq> [] \<and> files \<noteq> []
      then give (Inl (msg ''--user-data and --file cannot be combined; put the files in the cloud-config''))
      else if path = ''-'' then do_bytes K ReadInput
      else if path \<noteq> [] then do_bytes K (ReadFile path)
      else if files \<noteq> [] then render_write_files K files
      else give (Inl (msg ''nothing to configure: pass --user-data or --file'')))"

record gen_options =
  go_out :: string
  go_user_data :: string
  go_hostname :: string
  go_instance :: string
  go_label :: string
  go_files :: "string list"

definition gen_meta :: "gen_options \<Rightarrow> bytes" where
  "gen_meta g =
     to_bytes (''instance-id: '' @ go_instance g @ [newline] @
       (if go_hostname g \<noteq> [] then ''local-hostname: '' @ go_hostname g @ [newline] else []))"

fun warn_each :: "kernel \<Rightarrow> string list \<Rightarrow> unit io" where
  "warn_each K [] = give ()"
| "warn_each K (w # ws) = do { _ \<leftarrow> do_unit K (Say ''warning: %s'' [w]); warn_each K ws }"

definition write_drive :: "kernel \<Rightarrow> string \<Rightarrow> string \<Rightarrow> bytes \<Rightarrow> bytes \<Rightarrow> err option io" where
  "write_drive K path label body meta =
     guard_err (do_unit K (CreateFile path)) Some
       (write_iso (\<lambda>img. do_unit K (WriteTo path img)) label (drive_files body meta))"

definition no_effect :: "user_data \<Rightarrow> bool" where
  "no_effect ud = (ud_write_files ud = [] \<and> ud_runcmd ud = [] \<and> ud_warnings ud \<noteq> [])"

definition gen_cmd :: "kernel \<Rightarrow> decoders \<Rightarrow> gen_options \<Rightarrow> err option io" where
  "gen_cmd K D g = do {
     b \<leftarrow> user_data_body K (go_user_data g) (go_files g);
     (case b of
        Inl e \<Rightarrow> give (Some e)
      | Inr body \<Rightarrow> do {
          r \<leftarrow> load_in_memory D body (gen_meta g);
          (case r of
             None \<Rightarrow> give None
           | Some (ud, md, Some e) \<Rightarrow> give (Some (wrap ''the user-data does not parse: %w'' [] e))
           | Some (ud, md, None) \<Rightarrow> do {
               _ \<leftarrow> warn_each K (ud_warnings ud);
               (if no_effect ud
                then give (Some (msg (''this user-data would have no effect on the node; '' @
                                      ''cloud-config must begin with a #cloud-config line'')))
                else guard_err (write_drive K (go_out g) (go_label g) body (gen_meta g)) Some (do {
                  st \<leftarrow> do_num K (Stat (go_out g));
                  (case st of
                     Inl e \<Rightarrow> give (Some e)
                   | Inr n \<Rightarrow> do {
                       _ \<leftarrow> do_unit K (Say ''wrote %s (%d bytes, LABEL=%s)'' [go_out g, dec_int n, go_label g]);
                       give None
                     }) }))
             })
        })
   }"

section \<open>The drive of a cluster machine\<close>

record cluster_cloud =
  kc_ip :: string
  kc_dns :: string
  kc_files :: "raw_file list"
  kc_run :: "string list list"

text \<open>What a YAML decoder makes of such a document.\<close>

definition cloud_of :: "cluster_cloud \<Rightarrow> cloud_config" where
  "cloud_of k =
     \<lparr>cc_write_files = kc_files k, cc_runcmd = map (\<lambda>argv. AList (map AString argv)) (kc_run k),
      cc_k0smos = no_machine\<lparr>mc_ip := kc_ip k, mc_dns := kc_dns k\<rparr>\<rparr>"

definition cluster_file :: "string \<Rightarrow> string \<Rightarrow> string \<Rightarrow> raw_file" where
  "cluster_file path mode content =
     \<lparr>rf_path = path, rf_content = b64_encode (to_bytes content), rf_encoding = ''b64'', rf_permissions = mode\<rparr>"

definition render_k0s_config :: "cluster_machine \<Rightarrow> cluster_machine list \<Rightarrow> string" where
  "render_k0s_config m all =
     ''apiVersion: k0s.k0sproject.io/v1beta1'' @ [newline] @
     ''kind: ClusterConfig'' @ [newline] @
     ''metadata:'' @ [newline] @
     ''  name: k0s'' @ [newline] @
     ''spec:'' @ [newline] @
     ''  api:'' @ [newline] @
     ''    address: '' @ cm_ip m @ [newline] @
     ''    sans: ['' @ join '', '' (''127.0.0.1'' # ''localhost'' # map cm_ip all) @ '']'' @ [newline] @
     ''  storage:'' @ [newline] @
     ''    type: etcd'' @ [newline] @
     ''    etcd:'' @ [newline] @
     ''      peerAddress: '' @ cm_ip m @ [newline]"

definition machine_argv :: "cluster_machine \<Rightarrow> string \<Rightarrow> string list" where
  "machine_argv m token =
     [''/usr/local/bin/k0s'', ''install'', cm_role m] @
     (if cm_role m = ''controller''
      then [''--enable-worker'', ''--no-taints'', ''--config=/etc/k0s/k0s.yaml''] else []) @
     [''--kubelet-extra-args=--node-ip='' @ cm_ip m] @
     (if token \<noteq> [] then [''--token-file=/etc/k0s/join-token''] else [])"

definition machine_files :: "cluster_machine \<Rightarrow> cluster_machine list \<Rightarrow> string \<Rightarrow> raw_file list" where
  "machine_files m all token =
     (if cm_role m = ''controller''
      then [cluster_file ''/etc/k0s/k0s.yaml'' ''0644'' (render_k0s_config m all)] else []) @
     (if token \<noteq> [] then [cluster_file ''/etc/k0s/join-token'' ''0600'' token] else [])"

definition machine_cloud :: "cluster_machine \<Rightarrow> cluster_machine list \<Rightarrow> string \<Rightarrow> cluster_cloud" where
  "machine_cloud m all token =
     \<lparr>kc_ip = ''eth0:dhcp,eth1:'' @ cm_ip m @ ''/24'', kc_dns = guest_dns,
      kc_files = machine_files m all token, kc_run = [machine_argv m token]\<rparr>"

definition machine_meta :: "cluster_machine \<Rightarrow> bytes" where
  "machine_meta m =
     to_bytes (''instance-id: '' @ cm_name m @ [newline] @ ''local-hostname: '' @ cm_name m @ [newline])"

definition cloud_header :: bytes where "cloud_header = to_bytes (''#cloud-config'' @ [newline])"

definition write_cluster_drive ::
  "kernel \<Rightarrow> (cluster_cloud \<Rightarrow> err + bytes) \<Rightarrow> decoders \<Rightarrow> string \<Rightarrow> cluster_machine \<Rightarrow> cluster_machine list \<Rightarrow>
     string \<Rightarrow> err option io"
where
  "write_cluster_drive K yaml D dir m all token =
     (case yaml (machine_cloud m all token) of
        Inl e \<Rightarrow> give (Some e)
      | Inr yml \<Rightarrow> do {
          let body = cloud_header @ yml;
          r \<leftarrow> load_in_memory D body (machine_meta m);
          (case r of
             None \<Rightarrow> give None
           | Some (ud, md, Some e) \<Rightarrow> give (Some (wrap ''validate %s config drive: %w'' [cm_name m] e))
           | Some (ud, md, None) \<Rightarrow>
               write_drive K (path_join [dir, cm_name m @ ''.iso'']) nocloud_label body (machine_meta m))
        })"

section \<open>What the node makes of a cluster drive\<close>

lemma run_argv: "run_entry (AList (map AString argv)) = Inl argv"
  by (simp add: run_entry_def comp_def)

text \<open>The command to supervise: the install command without the word \<^verbatim>\<open>install\<close>.\<close>

definition machine_workload :: "cluster_machine \<Rightarrow> string \<Rightarrow> string list" where
  "machine_workload m token = hd (machine_argv m token) # drop 2 (machine_argv m token)"

lemma machine_argv_passed_on:
  "list_all passed_on (drop 3 (machine_argv m token))"
  by (simp add: machine_argv_def passed_on_def install_only_flags_def has_prefix_def)

lemma base_k0s: "path_base ''/usr/local/bin/k0s'' = ''k0s''"
  by (simp add: path_base_def trim_right_def Let_def)

lemma machine_plan:
  "plan_of (ud\<lparr>ud_runcmd := [machine_argv m token]\<rparr>) = no_plan\<lparr>p_workload := Some (machine_workload m token)\<rparr>"
proof -
  obtain rest where rest: "machine_argv m token = ''/usr/local/bin/k0s'' # ''install'' # cm_role m # rest"
    by (simp add: machine_argv_def)
  then have "split_env rest = (rest, [])"
    using split_env_plain [OF machine_argv_passed_on [of m token]] by simp
  then show ?thesis
    by (simp add: plan_of_def plan_command_def rest is_install_def base_k0s machine_workload_def no_plan_def)
qed

text \<open>The files as the node writes them.\<close>

definition placed_files :: "cluster_machine \<Rightarrow> cluster_machine list \<Rightarrow> string \<Rightarrow> write_file list" where
  "placed_files m all token =
     (if cm_role m = ''controller''
      then [\<lparr>wf_path = ''/etc/k0s/k0s.yaml'', wf_content = render_k0s_config m all, wf_permissions = ''0644''\<rparr>] else []) @
     (if token \<noteq> []
      then [\<lparr>wf_path = ''/etc/k0s/join-token'', wf_content = token, wf_permissions = ''0600''\<rparr>] else [])"

lemma b64_word: "to_lower (trim_space ''b64'') = ''b64''"
proof -
  have "plain_word ''b64''" by (simp add: plain_word_def is_space_def)
  then show ?thesis by (simp add: trim_space_plain to_lower_def lower_char_def)
qed

lemma decode_cluster_file:
  "decode_content D (rf_encoding (cluster_file p mode c)) (rf_content (cluster_file p mode c)) = Inr c"
  by (simp add: decode_content_def cluster_file_def b64_word trim_space_encode b64_decode_encode)

lemma trim_right_keeps:
  assumes "s \<noteq> []" and "\<not> P (last s)"
  shows "has_prefix (trim_right P (s @ t)) s"
proof -
  have "dropWhile P (rev s) = rev s" using assms by (cases s rule: rev_cases) auto
  then have "trim_right P (s @ t) = s @ rev (dropWhile P (rev t))"
    by (simp add: trim_right_def dropWhile_append)
  then show ?thesis by simp
qed

lemma cloud_header_seen:
  "has_prefix (trim_space (to_text (cloud_header @ yml))) ''#cloud-config''"
proof -
  have "trim_left is_space (to_text (cloud_header @ yml)) = ''#cloud-config'' @ newline # to_text yml"
    by (simp add: cloud_header_def trim_left_def is_space_def)
  moreover have "has_prefix (trim_right is_space (''#cloud-config'' @ newline # s)) ''#cloud-config''" for s
    using trim_right_keeps [of "''#cloud-config''" is_space "newline # s"] by (simp add: is_space_def)
  ultimately show ?thesis by (simp add: trim_space_def)
qed

lemma cluster_user_data:
  assumes "yaml_config D (cloud_header @ yml) = Inr (cloud_of (machine_cloud m all token))"
  shows "parse_user_data D (cloud_header @ yml) =
    (\<lparr>ud_write_files = placed_files m all token, ud_runcmd = [machine_argv m token],
      ud_machine = no_machine\<lparr>mc_ip := ''eth0:dhcp,eth1:'' @ cm_ip m @ ''/24'', mc_dns := guest_dns\<rparr>,
      ud_warnings = []\<rparr>, None)"
proof -
  have "trim_space (to_text (cloud_header @ yml)) \<noteq> []"
    using cloud_header_seen [of yml] by (auto simp: has_prefix_def)
  moreover have "add_files D (machine_files m all token) u =
      u\<lparr>ud_write_files := ud_write_files u @ placed_files m all token\<rparr>" for u
    using decode_cluster_file by (simp add: machine_files_def placed_files_def cluster_file_def)
  moreover have "machine_argv m token \<noteq> []" by (simp add: machine_argv_def)
  ultimately show ?thesis
    using assms cloud_header_seen [of yml]
    by (simp add: parse_user_data_def cloud_of_def machine_cloud_def run_argv no_user_data_def)
qed

text \<open>A drive with the two files loads like the pair in memory.\<close>

lemma load_like_memory:
  assumes "\<And>h. fst (run_state (f ''user-data'') h) = Some (Inr body)"
    and "\<And>h. fst (run_state (f ''meta-data'') h) = Some (Inr meta)"
  shows "fst (run_state (load_metadata_from D f) h) = fst (run_state (load_in_memory D body meta) h')"
proof -
  obtain h1 where u: "run_state (f ''user-data'') h = (Some (Inr body), h1)"
    using assms(1) [of h] by (metis prod.collapse)
  obtain h2 where m: "run_state (f ''meta-data'') h1 = (Some (Inr meta), h2)"
    using assms(2) [of h1] by (metis prod.collapse)
  show ?thesis
    unfolding load_in_memory_run fst_conv
    by (simp add: load_metadata_from_def user_data_paths_def meta_data_paths_def u m
        split: prod.splits option.splits sum.splits)
qed

lemma drive_files_writable:
  assumes "length body \<le> max_file_size" and "length meta \<le> max_file_size"
  shows "writable (drive_files body meta)"
  using assms
  by (simp add: writable_def drive_files_def max_files_def fits_def check_name_def
      contains_any_def path_clean_no_slash)

definition plain_meta :: "string \<Rightarrow> raw_meta" where
  "plain_meta name =
     \<lparr>rm_instance_id = name, rm_local_hostname = name, rm_hostname = [], rm_uuid = [], rm_name = []\<rparr>"

lemma plain_word_trim: "plain_word w \<Longrightarrow> trim_space (w @ s) \<noteq> []"
proof -
  assume w: "plain_word w"
  then have "w \<noteq> []" "\<not> is_space (hd w)" "\<not> is_space (last w)"
    by (auto simp: plain_word_def)
  moreover from this have "trim_left is_space (w @ s) = w @ s" by (intro trim_left_id) simp
  ultimately show ?thesis
    using trim_right_keeps [of w is_space s] by (auto simp: trim_space_def has_prefix_def)
qed

lemma cluster_meta_data:
  assumes "yaml_meta D (machine_meta m) = Inr (plain_meta (cm_name m))" and "cm_name m \<noteq> []"
  shows "parse_meta_data D (machine_meta m) = Inr \<lparr>md_instance_id = cm_name m, md_hostname = cm_name m\<rparr>"
proof -
  have w: "plain_word ''instance-id:''" by (simp add: plain_word_def is_space_def)
  have "trim_space (to_text (machine_meta m)) \<noteq> []"
    using plain_word_trim [OF w, of "CHR '' '' # cm_name m @ newline # ''local-hostname: '' @ cm_name m @ [newline]"]
    by (simp add: machine_meta_def)
  then show ?thesis using assms by (simp add: parse_meta_data_def plain_meta_def Let_def)
qed

section \<open>Properties\<close>

lemma drive_read_back:
  assumes "writable (drive_files body meta)" and "write_image nocloud_label (drive_files body meta) = Inr img"
    and load: "\<And>h. fst (run_state (load_in_memory D body meta) h) = Some x" and "disks d = Some img"
  shows "\<exists>r. \<forall>h. fst (run_state (iso_open (on_device (sys_prober (with_disks disks names K)) d)) h) = Inr r \<and>
    fst (run_state (load_metadata_from D (read_file (on_device (sys_prober (with_disks disks names K)) d) r)) h) = Some x"
proof -
  from sysd.held.written_reader [OF assms(1,2), of disks d names K, OF assms(4)] obtain r
    where o: "\<And>h. fst (run_state (iso_open (on_device (sys_prober (with_disks disks names K)) d)) h) = Inr r"
      and f: "\<And>f h. f \<in> set (drive_files body meta) \<Longrightarrow>
        fst (run_state (read_file (on_device (sys_prober (with_disks disks names K)) d) r (f_name f)) h) = Some (Inr (f_data f))"
    by blast
  have "fst (run_state (load_metadata_from D (read_file (on_device (sys_prober (with_disks disks names K)) d) r)) h) = Some x" for h
    using load_like_memory [of _ body meta D h h] f [of "drive_files body meta ! 0"] f [of "drive_files body meta ! 1"] load [of h]
    by (simp add: drive_files_def)
  with o show ?thesis by blast
qed

text \<open>
  C9. What \<^verbatim>\<open>cluster create\<close> puts on a machine's drive is what that machine's init does: the image is
  accepted, and a machine that finds it on any disk reads from it the name of the machine, its
  files with their original contents, its addresses, no warnings, and one supervised workload,
  k0s in the machine's role with the flags of the plan. The YAML encoder and decoder must agree
  on this document.
\<close>

theorem cluster_drive_configures_machine:
  assumes "yaml (machine_cloud m all token) = Inr yml"
    and "yaml_config D (cloud_header @ yml) = Inr (cloud_of (machine_cloud m all token))"
    and "yaml_meta D (machine_meta m) = Inr (plain_meta (cm_name m))" and "cm_name m \<noteq> []"
    and "length (cloud_header @ yml) \<le> max_file_size" and "length (machine_meta m) \<le> max_file_size"
    and "path = path_join [dir, cm_name m @ ''.iso'']" and "answer_unit K h (CreateFile path) = None"
  shows "\<exists>img ud md.
    snd (run_state (write_cluster_drive K yaml D dir m all token) h) = h @ [CreateFile path, WriteTo path img] \<and>
    (\<forall>disks names K' d. disks d = Some img \<longrightarrow>
       (\<exists>r. \<forall>h. fst (run_state (iso_open (on_device (sys_prober (with_disks disks names K')) d)) h) = Inr r \<and>
         fst (run_state (load_metadata_from D
           (read_file (on_device (sys_prober (with_disks disks names K')) d) r)) h) = Some (ud, md, None))) \<and>
    md_hostname md = cm_name m \<and> ud_warnings ud = [] \<and> ud_write_files ud = placed_files m all token \<and>
    mc_ip (ud_machine ud) = ''eth0:dhcp,eth1:'' @ cm_ip m @ ''/24'' \<and>
    plan_of ud = no_plan\<lparr>p_workload := Some (machine_workload m token)\<rparr>"
proof -
  let ?body = "cloud_header @ yml" and ?meta = "machine_meta m"
  let ?files = "drive_files ?body ?meta"
  have wr: "writable ?files" by (rule drive_files_writable) (use assms in auto)
  obtain img where img: "write_image nocloud_label ?files = Inr img"
    using write_image_layout [OF wr] by blast
  note u = cluster_user_data [OF assms(2)]
  note m = cluster_meta_data [OF assms(3,4)]
  obtain ud md where ud: "fst (parse_user_data D ?body) = ud" and md: "md = \<lparr>md_instance_id = cm_name m, md_hostname = cm_name m\<rparr>"
    by blast
  have load: "fst (run_state (load_in_memory D ?body ?meta) h) = Some (ud, md, None)" for h
    using ud unfolding load_in_memory_run u m md by simp
  have "snd (run_state (write_cluster_drive K yaml D dir m all token) h) = h @ [CreateFile path, WriteTo path img]"
    using assms(1,7,8) img ud
    by (simp add: write_cluster_drive_def load_in_memory_run u m write_drive_def write_iso_def)
  moreover have "\<exists>r. \<forall>h. fst (run_state (iso_open (on_device (sys_prober (with_disks disks names K')) d)) h) = Inr r \<and>
         fst (run_state (load_metadata_from D
           (read_file (on_device (sys_prober (with_disks disks names K')) d) r)) h) = Some (ud, md, None)"
    if "disks d = Some img" for disks names K' d
    using that by (intro drive_read_back [OF wr img] load)
  moreover have udef: "ud = \<lparr>ud_write_files = placed_files m all token, ud_runcmd = [machine_argv m token],
      ud_machine = no_machine\<lparr>mc_ip := ''eth0:dhcp,eth1:'' @ cm_ip m @ ''/24'', mc_dns := guest_dns\<rparr>,
      ud_warnings = []\<rparr>" using ud u by simp
  from udef have "plan_of ud = no_plan\<lparr>p_workload := Some (machine_workload m token)\<rparr>"
    using machine_plan [where ud = ud and m = m and token = token] by simp
  moreover have "ud_warnings ud = []" "ud_write_files ud = placed_files m all token"
    "mc_ip (ud_machine ud) = ''eth0:dhcp,eth1:'' @ cm_ip m @ ''/24''" by (simp_all add: udef)
  moreover have "md_hostname md = cm_name m" by (simp add: md)
  ultimately show ?thesis by blast
qed

definition demo_decoders :: "cluster_machine \<Rightarrow> cluster_machine list \<Rightarrow> string \<Rightarrow> decoders" where
  "demo_decoders m all token =
     \<lparr>yaml_config = (\<lambda>_. Inr (cloud_of (machine_cloud m all token))),
      yaml_meta = (\<lambda>_. Inr (plain_meta (cm_name m))), gunzip = (\<lambda>_. Inl Canceled)\<rparr>"

definition demo_machine :: cluster_machine where
  "demo_machine = \<lparr>cm_name = ''vm'', cm_role = ''worker'', cm_ip = ''10.10.0.12'', cm_api_port = 0\<rparr>"

theorem cluster_drive_configures_machine_witness:
  "\<exists>img ud md.
    snd (run_state (write_cluster_drive quiet_kernel (\<lambda>_. Inr []) (demo_decoders demo_machine [demo_machine] ''t'') ''/d'' demo_machine [demo_machine] ''t'') []) =
       [CreateFile (path_join [''/d'', cm_name demo_machine @ ''.iso'']), WriteTo (path_join [''/d'', cm_name demo_machine @ ''.iso'']) img] \<and>
    md_hostname (md :: meta_data) = ''vm'' \<and> ud_warnings (ud :: user_data) = [] \<and>
    ud_write_files ud = placed_files demo_machine [demo_machine] ''t''"
proof -
  let ?m = demo_machine and ?D = "demo_decoders demo_machine [demo_machine] ''t''" and ?y = "\<lambda>_::cluster_cloud. Inr []"
  have y: "?y (machine_cloud ?m [?m] ''t'') = Inr []" by simp
  have c: "yaml_config ?D (cloud_header @ []) = Inr (cloud_of (machine_cloud ?m [?m] ''t''))"
    by (simp only: demo_decoders_def decoders.select_convs)
  have t: "yaml_meta ?D (machine_meta ?m) = Inr (plain_meta (cm_name ?m))"
    by (simp only: demo_decoders_def decoders.select_convs)
  have n: "cm_name ?m = ''vm''" "cm_name ?m \<noteq> []" by (simp_all add: demo_machine_def)
  have l: "length (cloud_header @ []) \<le> max_file_size" "length (machine_meta ?m) \<le> max_file_size"
    by (simp_all add: cloud_header_def machine_meta_def n max_file_size_def)
  have k: "answer_unit quiet_kernel [] (CreateFile (path_join [''/d'', cm_name ?m @ ''.iso''])) = None"
    by (simp only: quiet_kernel_def kernel.select_convs)
  note drive = cluster_drive_configures_machine [OF y c t n(2) l refl k, unfolded append_Nil n(1)]
  show ?thesis unfolding n(1) using drive
    by (elim exE conjE) (intro exI conjI; assumption)
qed

lemma index_of_sub_colons: "CHR '':'' \<notin> set s \<Longrightarrow> index_of_sub ''::'' s = None"
  by (induction s) (auto simp: has_prefix_def)

lemma node_ip_chars: "c \<in> set (cluster_node_ip k @ ''/24'') \<Longrightarrow> c \<noteq> CHR '':'' \<and> c \<noteq> CHR '',''"
  using dec_digits [of c "cluster_first_host + k"] by (auto simp: cluster_node_ip_def cluster_subnet_def)

text \<open>
  The address line of a cluster drive is read by the init as two interfaces: the first by DHCP,
  the second with the machine's address on the cluster network; only the interface of the
  configuration gets the default route.
\<close>

theorem cluster_interfaces:
  "nics (c\<lparr>IP := ''eth0:dhcp,eth1:'' @ cluster_node_ip k @ ''/24''\<rparr>) =
     [\<lparr>nic_name = ''eth0'', nic_addr = ''dhcp'', nic_gateway = (if Iface c = ''eth0'' then Gateway c else [])\<rparr>,
      \<lparr>nic_name = ''eth1'', nic_addr = cluster_node_ip k @ ''/24'',
       nic_gateway = (if Iface c = ''eth1'' then Gateway c else [])\<rparr>]"
proof -
  let ?a = "cluster_node_ip k @ ''/24''"
  have a: "CHR '':'' \<notin> set ?a" "CHR '','' \<notin> set ?a" using node_ip_chars by blast+
  obtain x xs where x: "?a = x # xs" "x \<noteq> CHR '':''"
    using a(1) by (cases "?a") (auto simp: cluster_node_ip_def cluster_subnet_def)
  have "index_of_sub ''::'' (''eth0:dhcp,eth1:'' @ ?a) = None"
    using index_of_sub_colons [OF a(1)] x by (simp add: has_prefix_def)
  moreover have "split_on CHR '','' (''eth0:dhcp'' @ CHR '','' # ''eth1:'' @ ?a) = [''eth0:dhcp'', ''eth1:'' @ ?a]"
    using a(2) by (subst split_on_append) (simp_all add: split_on_no_sep)
  moreover have "cut CHR '':'' (''eth1'' @ CHR '':'' # ?a) = (''eth1'', ?a, True)"
    by (rule cut_found) simp
  moreover have "cut CHR '':'' (''eth0'' @ CHR '':'' # ''dhcp'') = (''eth0'', ''dhcp'', True)"
    by (rule cut_found) simp
  ultimately show ?thesis
    using x(1) by (simp add: nics_def nic_of_spec_def List.map_filter_simps)
qed

lemma octal4_digits:
  assumes "p < 512" shows "parse_uint (octal4 p) 8 32 = Some p"
proof -
  have v: "of_char (digit d) = 48 + d" if "d < 8" for d using that by (simp add: digit_decimal)
  have "p div 512 = 0" using assms by simp
  moreover have "(p div 64 mod 8 * 8 + p div 8 mod 8) * 8 + p mod 8 = p"
  proof -
    have "p div 64 mod 8 = p div 64" using assms by (simp add: less_mult_imp_div_less)
    moreover have "p div 8 div 8 * 8 + p div 8 mod 8 = p div 8" "p div 8 * 8 + p mod 8 = p"
      by (rule div_mult_mod_eq)+
    ultimately show ?thesis by (simp add: div_mult2_eq [symmetric])
  qed
  ultimately have "digits_value 8 0 (octal4 p) = Some p"
    by (simp add: octal4_def v digit_decimal)
  then show ?thesis using assms by (simp add: parse_uint_def octal4_def)
qed

text \<open>
  \<^verbatim>\<open>gen --file\<close> carries permissions across: what is rendered for the source's permission bits is
  read by the init as the same mode.
\<close>

theorem gen_mode_round_trip:
  assumes "p < 512"
  shows "file_mode \<lparr>wf_path = dest, wf_content = c, wf_permissions = octal4 p\<rparr> = p"
proof -
  have "\<not> has_prefix (octal4 p) ''0o''"
  proof
    assume "has_prefix (octal4 p) ''0o''"
    then have "digit (p div 64 mod 8) = CHR ''o''" by (simp add: has_prefix_def octal4_def numeral_2_eq_2)
    moreover have "(of_char (digit (p div 64 mod 8)) :: nat) = 48 + p div 64 mod 8" by (simp add: digit_decimal)
    ultimately have "(of_char (CHR ''o'') :: nat) = 48 + p div 64 mod 8" by metis
    then show False by simp
  qed
  then show ?thesis
    using octal4_digits [OF assms] by (simp add: file_mode_def trim_prefix_def) (simp add: octal4_def)
qed

theorem gen_mode_round_trip_witness:
  "file_mode \<lparr>wf_path = ''/etc/key'', wf_content = [], wf_permissions = octal4 384\<rparr> = 384"
  by (rule gen_mode_round_trip) simp

fun creates :: "call \<Rightarrow> bool" where
  "creates (CreateFile _) = True"
| "creates _ = False"

lemma user_data_body_reads: "emits (\<lambda>c. \<not> creates c) (user_data_body K path files)"
proof -
  have "emits (\<lambda>c. \<not> creates c) (file_entries K specs)" for specs
    by (induction specs) (auto intro!: emits_intros split: prod.split)
  then show ?thesis
    unfolding user_data_body_def render_write_files_def by (auto intro!: emits_intros)
qed

lemma warn_each_says: "emits (\<lambda>c. \<not> creates c) (warn_each K ws)"
  by (induction ws) (auto intro!: emits_intros)

text \<open>
  \<^verbatim>\<open>gen\<close> touches its output only when the node would take the drive: the user-data was obtained,
  the node's own parser reads it and the meta-data without an error, and it is not a document
  that has warnings and nothing else.
\<close>

theorem gen_checks_before_writing:
  assumes "CreateFile p \<in> set (added (gen_cmd K D g) h)"
  shows "\<exists>body ud md. fst (run_state (user_data_body K (go_user_data g) (go_files g)) h) = Inr body \<and>
    parse_user_data D body = (ud, None) \<and> parse_meta_data D (gen_meta g) = Inr md \<and> \<not> no_effect ud \<and> p = go_out g"
proof -
  obtain b h1 where b: "run_state (user_data_body K (go_user_data g) (go_files g)) h = (b, h1)" by fastforce
  obtain cs where h1: "h1 = h @ cs" "CreateFile p \<notin> set cs"
    using user_data_body_reads [of K "go_user_data g" "go_files g"] b
    by (metis creates.simps(1) emitsE list_all_iff snd_conv)
  then obtain body where body: "b = Inr body"
    using assms b by (cases b) (simp_all add: gen_cmd_def added_def)
  obtain ud e where ud: "parse_user_data D body = (ud, e)" by fastforce
  obtain w h2 where w: "run_state (warn_each K (ud_warnings ud)) h1 = (w, h2)" by (metis surj_pair)
  obtain ds where h2: "h2 = h1 @ ds" "CreateFile p \<notin> set ds"
    using warn_each_says [of K "ud_warnings ud"] w
    by (metis creates.simps(1) emitsE list_all_iff snd_conv)
  note run = assms [unfolded added_def gen_cmd_def]
  have e: "e = None"
    using run h1 by (cases e) (simp_all add: b body ud load_in_memory_run)
  obtain md where md: "parse_meta_data D (gen_meta g) = Inr md"
    using run h1 e by (cases "parse_meta_data D (gen_meta g)") (simp_all add: b body ud load_in_memory_run)
  have "\<not> no_effect ud"
    using run h1 h2 e md w by (cases "no_effect ud") (simp_all add: b body ud load_in_memory_run)
  moreover have "p = go_out g"
    using run h1 h2 e md w \<open>\<not> no_effect ud\<close>
    by (auto simp: b body ud load_in_memory_run write_drive_def write_iso_def split: option.splits sum.splits if_splits prod.splits)
  ultimately show ?thesis using b body ud e md by simp
qed

text \<open>
  An empty document passes: it has no effect on the node, but no warning either, so the drive is
  written although the command promises to refuse such a document.
\<close>

definition demo_gen :: gen_options where
  "demo_gen =
     \<lparr>go_out = ''cidata.iso'', go_user_data = ''u'', go_hostname = [], go_instance = ''k0smos'',
      go_label = nocloud_label, go_files = []\<rparr>"

theorem empty_user_data_is_written:
  "CreateFile ''cidata.iso'' \<in> set (added (gen_cmd quiet_kernel (demo_decoders demo_machine [] []) demo_gen) [])"
proof -
  have b: "run_state (user_data_body quiet_kernel (go_user_data demo_gen) (go_files demo_gen)) [] = (Inr [], [ReadFile ''u''])"
    by (simp add: user_data_body_def demo_gen_def quiet_kernel_def)
  have u: "parse_user_data D [] = (no_user_data, None)" for D by (simp add: parse_user_data_def)
  obtain md where m: "parse_meta_data (demo_decoders demo_machine [] []) (gen_meta demo_gen) = Inr md"
    by (cases "trim_space (to_text (gen_meta demo_gen)) = []") (simp_all add: parse_meta_data_def demo_decoders_def Let_def)
  have n: "\<not> no_effect no_user_data" "ud_warnings no_user_data = []" by (simp_all add: no_effect_def no_user_data_def)
  have out: "go_out demo_gen = ''cidata.iso''" by (simp add: demo_gen_def)
  show ?thesis
    by (simp add: gen_cmd_def added_def b load_in_memory_run u m n write_drive_def write_iso_def out
        split: option.split sum.split)
qed

theorem gen_checks_before_writing_witness:
  "\<exists>body ud md. fst (run_state (user_data_body quiet_kernel (go_user_data demo_gen) (go_files demo_gen)) []) = Inr body \<and>
    parse_user_data (demo_decoders demo_machine [] []) body = (ud, None) \<and>
    parse_meta_data (demo_decoders demo_machine [] []) (gen_meta demo_gen) = Inr md \<and> \<not> no_effect ud \<and>
    ''cidata.iso'' = go_out demo_gen"
  by (rule gen_checks_before_writing [OF empty_user_data_is_written])

text \<open>
  A document that only configures the network and has one command the init skips is refused as
  having no effect, although the node would apply its addresses.
\<close>

theorem network_only_document_is_refused:
  assumes "yaml_config D (cloud_header @ yml) =
      Inr \<lparr>cc_write_files = [], cc_runcmd = [AString ''a|b''], cc_k0smos = no_machine\<lparr>mc_ip := ''dhcp''\<rparr>\<rparr>"
  shows "no_effect (fst (parse_user_data D (cloud_header @ yml))) \<and>
    mc_ip (ud_machine (fst (parse_user_data D (cloud_header @ yml)))) = ''dhcp''"
proof -
  have "trim_space (to_text (cloud_header @ yml)) \<noteq> []"
    using cloud_header_seen [of yml] by (auto simp: has_prefix_def)
  then show ?thesis
    using assms cloud_header_seen [of yml]
    by (simp add: parse_user_data_def run_entry_def contains_any_def shell_meta_def no_effect_def no_user_data_def)
qed

end
