(* ===== verification/Console_Tail.thy ===== *)
theory Console_Tail
  imports Host_State Control
begin

text \<open>
  \<^verbatim>\<open>cmd/k0smosctl/machine_logs.go\<close>: \<^verbatim>\<open>machine logs -n\<close> finds the start of the last lines of a console by
  reading the file backwards in blocks of 32 KiB. The definitions follow the loops over blocks
  and bytes; the reference takes the last parts of the text split at its newlines. The size is
  the answer to \<^verbatim>\<open>Seek\<close> to the end, a block is the answer to \<^verbatim>\<open>io.ReadFull\<close> after seeking to its
  start, which fails when the file has become shorter. The rest of the command is in \<open>Console_Logs\<close>.
\<close>

section \<open>Reading backwards\<close>

definition tail_block :: nat where "tail_block = 32 * 2 ^ 10"

text \<open>
  The bytes of a block from the last to the first, with the newlines seen so far: the index after
  the newline that is one too many, or the count at the start of the block.
\<close>

fun scan_chunk :: "nat \<Rightarrow> string \<Rightarrow> nat \<Rightarrow> nat \<Rightarrow> nat + nat" where
  "scan_chunk n chunk 0 newlines = Inr newlines"
| "scan_chunk n chunk (Suc i) newlines =
     (if chunk ! i \<noteq> newline then scan_chunk n chunk i newlines
      else if newlines + 1 > n then Inl (i + 1)
      else scan_chunk n chunk i (newlines + 1))"

function seek_back :: "kernel \<Rightarrow> string \<Rightarrow> nat \<Rightarrow> nat \<Rightarrow> nat \<Rightarrow> (err + nat) io" where
  "seek_back K path n pos newlines =
     (if pos = 0 then give (Inr 0)
      else
        let len = min tail_block pos; start = pos - len
        in and_then (do_bytes K (PRead path (int start) len)) (\<lambda>b.
             if length b < len then give (Inl (msg ''unexpected EOF''))
             else
               let chunk = to_text b
               in case scan_chunk n chunk (length chunk) newlines of
                    Inl i \<Rightarrow> give (Inr (start + i))
                  | Inr newlines' \<Rightarrow> seek_back K path n start newlines'))"
  by pat_completeness auto

termination
  by (relation "measure (\<lambda>(K, path, n, pos, newlines). pos)") (auto simp: tail_block_def)

declare seek_back.simps [simp del]

definition seek_to_last_lines :: "kernel \<Rightarrow> string \<Rightarrow> nat \<Rightarrow> (err + nat) io" where
  "seek_to_last_lines K path n =
     and_then (do_num K (Stat path)) (\<lambda>size. seek_back K path n (nat size) 0)"

section \<open>The reference\<close>

definition last_parts :: "nat \<Rightarrow> string \<Rightarrow> string" where
  "last_parts n s =
     (let parts = split_on newline s in join [newline] (drop (length parts - Suc n) parts))"

text \<open>Byte by byte, with the number of newlines still allowed.\<close>

fun tail_start :: "nat \<Rightarrow> string \<Rightarrow> nat \<Rightarrow> nat" where
  "tail_start k s 0 = 0"
| "tail_start k s (Suc i) =
     (if s ! i \<noteq> newline then tail_start k s i
      else if k = 0 then Suc i else tail_start (k - 1) s i)"

lemma back_le: "tail_start k s i \<le> i"
  by (induction k s i rule: tail_start.induct) auto

lemma back_append: "i \<le> length u \<Longrightarrow> tail_start k (u @ v) i = tail_start k u i"
  by (induction k u i rule: tail_start.induct) (auto simp: nth_append)

lemma split_on_snoc_char:
  "split_on c (s @ [x]) =
     (if x = c then split_on c s @ [[]]
      else butlast (split_on c s) @ [last (split_on c s) @ [x]])"
proof (induction s)
  case (Cons y s)
  obtain w ws where "split_on c s = w # ws" using split_on_not_Nil [of c s] by (cases "split_on c s") auto
  with Cons show ?case by (cases ws) auto
qed auto

lemma join_last_snoc:
  "ws \<noteq> [] \<Longrightarrow> join sep (butlast ws @ [last ws @ [x]]) = join sep ws @ [x]"
  by (cases ws rule: rev_cases) (auto simp: join_snoc)

lemma last_few: "ws \<noteq> [] \<Longrightarrow> \<not> length ws \<le> length ws - Suc k"
  by (cases ws) auto

lemma last_parts_snoc: "x \<noteq> newline \<Longrightarrow> last_parts k (s @ [x]) = last_parts k s @ [x]"
proof -
  assume x: "x \<noteq> newline"
  let ?p = "split_on newline s" and ?d = "length (split_on newline s) - Suc k"
  have ne: "?p \<noteq> []" by simp
  then have len: "length (butlast ?p @ [last ?p @ [x]]) = length ?p" by (cases ?p rule: rev_cases) auto
  have d: "?d \<le> length (butlast ?p)" "drop ?d ?p \<noteq> []" using last_few [OF ne, of k] by simp_all
  have "drop ?d (butlast ?p @ [last ?p @ [x]]) = butlast (drop ?d ?p) @ [last (drop ?d ?p) @ [x]]"
    using d by (simp add: butlast_drop last_drop)
  then show ?thesis
    using x len join_last_snoc [OF d(2)] by (simp add: last_parts_def split_on_snoc_char Let_def)
qed

lemma back_is_last_parts: "drop (tail_start k s (length s)) s = last_parts k s"
proof (induction s arbitrary: k rule: rev_induct)
  case Nil
  then show ?case by (simp add: last_parts_def)
next
  case (snoc x s)
  let ?p = "split_on newline s"
  have ne: "?p \<noteq> []" by simp
  show ?case
  proof (cases "x = newline")
    case True
    show ?thesis
    proof (cases k)
      case 0
      with True show ?thesis by (simp add: last_parts_def split_on_snoc_char)
    next
      case (Suc j)
      have "tail_start k (s @ [x]) (length (s @ [x])) = tail_start j s (length s)"
        using True Suc back_append [of "length s" s j "[x]"] by simp
      then have "drop (tail_start k (s @ [x]) (length (s @ [x]))) (s @ [x]) = last_parts j s @ [x]"
        using snoc [of j] back_le [of j s "length s"] by simp
      also have "\<dots> = last_parts k (s @ [x])"
        using True ne Suc last_few [OF ne, of j] by (simp add: last_parts_def split_on_snoc_char Let_def join_snoc Suc_diff_le)
      finally show ?thesis .
    qed
  next
    case False
    then have "tail_start k (s @ [x]) (length (s @ [x])) = tail_start k s (length s)"
      using back_append [of "length s" s k "[x]"] by simp
    then have "drop (tail_start k (s @ [x]) (length (s @ [x]))) (s @ [x]) = last_parts k s @ [x]"
      using snoc [of k] back_le [of k s "length s"] by simp
    also have "\<dots> = last_parts k (s @ [x])"
      using False by (simp add: last_parts_snoc)
    finally show ?thesis .
  qed
qed

section \<open>The blocks follow the bytes\<close>

lemma scan_chunk_follows:
  assumes "chunk = slice p (p + r) s" and "p + r \<le> length s" and "i \<le> r" and "nl \<le> n"
  shows "case scan_chunk n chunk i nl of
      Inl j \<Rightarrow> tail_start (n - nl) s (p + i) = p + j
    | Inr nl' \<Rightarrow> nl' \<le> n \<and> tail_start (n - nl) s (p + i) = tail_start (n - nl') s p"
  using assms(3,4)
proof (induction i arbitrary: nl)
  case (Suc i)
  have c: "chunk ! i = s ! (p + i)" using Suc.prems assms(1,2) by (simp add: slice_def)
  have step: "tail_start k s (Suc (p + i)) =
      (if s ! (p + i) \<noteq> newline then tail_start k s (p + i)
       else if k = 0 then p + Suc i else tail_start (k - 1) s (p + i))" for k
    by simp
  show ?case
  proof (cases "s ! (p + i) \<noteq> newline \<or> nl = n")
    case True
    then show ?thesis using Suc.IH [of nl] Suc.prems c
      by (auto simp: step simp del: tail_start.simps split: sum.splits)
  next
    case False
    then have "nl + 1 \<le> n" "n - nl = Suc (n - (nl + 1))" using Suc.prems by auto
    with False show ?thesis using Suc.IH [of "nl + 1"] Suc.prems c
      by (auto simp: step simp del: tail_start.simps split: sum.splits)
  qed
qed simp

text \<open>
  A file whose first bytes stay while it is read, from a moment of the history on; and one that
  holds still altogether.
\<close>

definition keeps_start :: "kernel \<Rightarrow> string \<Rightarrow> string \<Rightarrow> history \<Rightarrow> bool" where
  "keeps_start K path s h =
     (\<forall>cs off n. off + n \<le> length s \<longrightarrow>
        answer_bytes K (h @ cs) (PRead path (int off) n) = Inr (to_bytes (slice off (off + n) s)))"

lemma keeps_start_later: "keeps_start K path s h \<Longrightarrow> keeps_start K path s (h @ cs)"
  by (simp add: keeps_start_def)

lemma keeps_start_read:
  "keeps_start K path s h \<Longrightarrow> off + n \<le> length s \<Longrightarrow>
     answer_bytes K h (PRead path (int off) n) = Inr (to_bytes (slice off (off + n) s))"
  unfolding keeps_start_def by (metis append_Nil2)

definition holds :: "kernel \<Rightarrow> string \<Rightarrow> string \<Rightarrow> bool" where
  "holds K path s =
     (\<forall>h. answer_num K h (Stat path) = Inr (int (length s)) \<and>
       (\<forall>off n. off + n \<le> length s \<longrightarrow>
          answer_bytes K h (PRead path (int off) n) = Inr (to_bytes (slice off (off + n) s))))"

lemma seek_back_follows:
  assumes "keeps_start K path s h" and "pos \<le> length s" and "nl \<le> n"
  shows "fst (run_state (seek_back K path n pos nl) h) = Inr (tail_start (n - nl) s pos)"
  using assms
proof (induction pos arbitrary: nl h rule: less_induct)
  case (less pos)
  show ?case
  proof (cases "pos = 0")
    case True
    then show ?thesis by (simp add: seek_back.simps)
  next
    case False
    let ?len = "min tail_block pos"
    let ?start = "pos - ?len"
    let ?chunk = "slice ?start (?start + ?len) s"
    have len: "0 < ?len" "?start + ?len = pos" using False by (auto simp: tail_block_def)
    then have chunk: "length ?chunk = ?len" using less.prems by (simp add: slice_def)
    have read: "answer_bytes K h (PRead path (int ?start) ?len) = Inr (to_bytes ?chunk)"
      using less.prems len by (intro keeps_start_read) simp_all
    have "?start + ?len \<le> length s" using len less.prems by simp
    note follows = scan_chunk_follows [OF refl this, of ?len nl n, simplified len]
    show ?thesis
    proof (cases "scan_chunk n ?chunk ?len nl")
      case (Inl j)
      then show ?thesis using follows less.prems False read chunk
        by (subst seek_back.simps) (simp add: Let_def len)
    next
      case (Inr nl')
      have "?start < pos" using len by linarith
      with Inr show ?thesis
        using follows less.prems False read chunk keeps_start_later [OF less.prems(1), of "[PRead path (int ?start) ?len]"]
          less.IH [of ?start "h @ [PRead path (int ?start) ?len]" nl']
        by (subst seek_back.simps) (simp add: Let_def len)
    qed
  qed
qed

lemma seek_from:
  assumes "answer_num K h (Stat path) = Inr (int (length s))" and "keeps_start K path s h"
  shows "\<exists>pos\<le>length s. fst (run_state (seek_to_last_lines K path n) h) = Inr pos \<and> drop pos s = last_parts n s"
  using assms(1) back_is_last_parts [of n s] back_le [of n s "length s"]
    seek_back_follows [OF keeps_start_later [OF assms(2), of "[Stat path]"], of "length s" 0 n]
  by (simp add: seek_to_last_lines_def)

section \<open>Properties\<close>

text \<open>
  Reading backwards in blocks finds the same place as splitting the whole console into lines:
  what is shown from there are the last parts between newlines, one more than the number asked
  for, of which the last one is empty when the console ends with a newline.
\<close>

theorem seek_finds_last_lines:
  assumes "holds K path s"
  shows "\<exists>pos. fst (run_state (seek_to_last_lines K path n) h) = Inr pos \<and> drop pos s = last_parts n s"
  using assms seek_from [of K h path s n] by (auto simp: holds_def keeps_start_def)

definition file_kernel :: "string \<Rightarrow> string \<Rightarrow> kernel" where
  "file_kernel path s =
     quiet_kernel\<lparr>answer_num := \<lambda>_ _. Inr (int (length s)),
       answer_bytes := \<lambda>_ c. (case c of PRead _ off n \<Rightarrow> Inr (to_bytes (slice (nat off) (nat off + n) s)) | _ \<Rightarrow> Inr [])\<rparr>"

lemma file_kernel_holds: "holds (file_kernel path s) path s"
  by (simp add: holds_def file_kernel_def)

theorem seek_finds_last_lines_witness:
  "\<exists>pos. fst (run_state (seek_to_last_lines (file_kernel ''c'' ''a'') ''c'' 1) []) = Inr pos \<and> drop pos ''a'' = last_parts 1 ''a''"
  by (rule seek_finds_last_lines [OF file_kernel_holds])

text \<open>A console whose last line is not finished yet: the last line and one more are shown.\<close>

theorem unfinished_line_shows_one_more:
  "last_parts 1 (''a'' @ [newline] @ ''b'' @ [newline] @ ''c'') = ''b'' @ [newline] @ ''c''"
  by (simp add: last_parts_def char_of_def bit_iff_odd)

end
