(* ===== verification/Host_Control.thy ===== *)
theory Host_Control
  imports Host_State Control
begin

text \<open>
  How the host tool talks to a running machine: \<^verbatim>\<open>control.go\<close>, \<^verbatim>\<open>machine_power.go\<close>,
  \<^verbatim>\<open>machine_debug.go\<close>, \<^verbatim>\<open>cluster_token.go\<close> and \<^verbatim>\<open>cluster_kubeconfig.go\<close> of \<^verbatim>\<open>cmd/k0smosctl\<close>. QEMU listens
  on the machine's control socket and relays it to the port the init serves (\<^verbatim>\<open>Control\<close>). The answer
  to \<open>SockRecv\<close> is everything that arrives until the other side closes or the deadline passes.
\<close>

section \<open>One exchange\<close>

definition resolve_socket :: "'h host_scheme \<Rightarrow> string \<Rightarrow> string \<Rightarrow> err + string" where
  "resolve_socket H sock name =
     (case (if sock \<noteq> [] then Inr sock
            else case guest_paths H name of Inl e \<Rightarrow> Inl e | Inr (_, resolved, _) \<Rightarrow> Inr resolved) of
        Inl e \<Rightarrow> Inl e
      | Inr s \<Rightarrow> (case check_socket_path s of Some e \<Rightarrow> Inl e | None \<Rightarrow> Inr s))"

definition dial :: "kernel \<Rightarrow> string \<Rightarrow> err option io" where
  "dial K sock = do {
     e \<leftarrow> do_unit K (Dial sock);
     give (map_option (wrap (''no control socket at %s '' @ em_dash @ '' is the guest running? (%w)'') [sock]) e)
   }"

text \<open>\<^verbatim>\<open>control.Request\<close> over the socket.\<close>

definition exchange :: "kernel \<Rightarrow> string \<Rightarrow> string \<Rightarrow> (err + bytes) io" where
  "exchange K sock line = do {
     e \<leftarrow> do_unit K (SockSend sock (to_bytes (line @ [newline])));
     (case e of
        Some e \<Rightarrow> give (Inl (wrap ''send request: %w'' [] e))
      | None \<Rightarrow> do {
          r \<leftarrow> do_bytes K (SockRecv sock);
          give (case r of Inl e \<Rightarrow> Inl (wrap ''read reply: %w'' [] e) | Inr stream \<Rightarrow> parse_reply stream)
        })
   }"

definition host_request :: "kernel \<Rightarrow> string \<Rightarrow> string \<Rightarrow> nat \<Rightarrow> (err + bytes) io" where
  "host_request K sock line timeout =
     check (dial K sock) (do {
       d \<leftarrow> do_unit K (SockDeadline sock timeout);
       r \<leftarrow> (case d of Some e \<Rightarrow> give (Inl e) | None \<Rightarrow> exchange K sock line);
       _ \<leftarrow> do_unit K (SockClose sock);
       give r
     })"

section \<open>Commands\<close>

definition machine_power :: "'h host_scheme \<Rightarrow> string \<Rightarrow> string \<Rightarrow> string \<Rightarrow> nat \<Rightarrow> err option io" where
  "machine_power H verb name sock timeout =
     (let word = command_string (if verb = ''reboot'' then RebootMachine else PowerOff) in
      case resolve_socket H sock name of
        Inl e \<Rightarrow> give (Some e)
      | Inr s \<Rightarrow> do {
          r \<leftarrow> host_request (h_kernel H) s word timeout;
          (case r of
             Inl e \<Rightarrow> give (Some (wrap ''guest did not acknowledge %s: %w'' [word] e))
           | Inr data \<Rightarrow>
               if data \<noteq> [] then give (Some (Errorf ''unexpected %d-byte reply to %s'' [dec (length data), word] None))
               else do { _ \<leftarrow> do_unit (h_kernel H) (Say ''sent %s to %s'' [word, s]); give None })
        })"

definition ask :: "'h host_scheme \<Rightarrow> string \<Rightarrow> string \<Rightarrow> nat \<Rightarrow> string \<Rightarrow> (err + bytes) io" where
  "ask H name sock timeout line =
     (case resolve_socket H sock name of
        Inl e \<Rightarrow> give (Inl e) | Inr s \<Rightarrow> host_request (h_kernel H) s line timeout)"

definition show_out :: "kernel \<Rightarrow> string \<Rightarrow> err option io" where
  "show_out K s = do_unit K (Say ''%s'' [s])"

text \<open>The status record is decoded by \<^verbatim>\<open>json.Unmarshal\<close>, a parameter; what it rejects is shown as it came.\<close>

definition machine_status ::
  "'h host_scheme \<Rightarrow> (bytes \<Rightarrow> boot_record option) \<Rightarrow> string \<Rightarrow> string \<Rightarrow> nat \<Rightarrow> bool \<Rightarrow> err option io"
where
  "machine_status H decode name sock timeout as_json = do {
     r \<leftarrow> ask H name sock timeout ''status'';
     (case r of
        Inl e \<Rightarrow> give (Some e)
      | Inr data \<Rightarrow>
          if as_json then show_out (h_kernel H) (to_text data)
          else do {
            _ \<leftarrow> show_out (h_kernel H) (case decode data of None \<Rightarrow> to_text data @ [newline] | Some r \<Rightarrow> record_text r);
            give None
          })
   }"

definition machine_dmesg :: "'h host_scheme \<Rightarrow> string \<Rightarrow> string \<Rightarrow> nat \<Rightarrow> err option io" where
  "machine_dmesg H name sock timeout = do {
     r \<leftarrow> ask H name sock timeout ''dmesg'';
     (case r of Inl e \<Rightarrow> give (Some e) | Inr data \<Rightarrow> show_out (h_kernel H) (to_text data))
   }"

definition machine_cat :: "'h host_scheme \<Rightarrow> string \<Rightarrow> string \<Rightarrow> nat \<Rightarrow> string \<Rightarrow> string \<Rightarrow> err option io" where
  "machine_cat H name sock timeout path out = do {
     r \<leftarrow> ask H name sock timeout (''cat '' @ path);
     (case r of
        Inl e \<Rightarrow> give (Some e)
      | Inr data \<Rightarrow>
          if out = [] \<or> out = ''-'' then show_out (h_kernel H) (to_text data)
          else do_unit (h_kernel H) (WriteFile out data perm_0644))
   }"

definition token_roles :: "string list" where "token_roles = [''controller'', ''worker'']"

definition bracketed :: "string list \<Rightarrow> string" where
  "bracketed ws = ''['' @ join '' '' ws @ '']''"

definition cluster_token :: "'h host_scheme \<Rightarrow> string \<Rightarrow> string \<Rightarrow> string \<Rightarrow> string \<Rightarrow> nat \<Rightarrow> err option io" where
  "cluster_token H name sock role out timeout =
     (if role \<notin> set token_roles
      then give (Some (Errorf ''--role must be one of %v, got %q'' [bracketed token_roles, role] None))
      else do {
        r \<leftarrow> ask H name sock timeout (''token '' @ role);
        (case r of
           Inl e \<Rightarrow> give (Some e)
         | Inr data \<Rightarrow>
             if out = ''-'' then show_out (h_kernel H) (to_text data @ [newline])
             else guard_err (do_unit (h_kernel H) (WriteFile out data perm_0600)) Some (do {
               _ \<leftarrow> do_unit (h_kernel H) (Say ''wrote %s (%d bytes, role %s)'' [out, dec (length data), role]);
               give None
             }))
      })"

section \<open>Pointing a kubeconfig at the host\<close>

text \<open>
  \<^verbatim>\<open>net.SplitHostPort\<close>: the text before and after the last colon; a host with colons must be in
  brackets, which are taken off.
\<close>

definition last_colon :: "string \<Rightarrow> string \<times> string" where
  "last_colon s =
     (let port = rev (takeWhile (\<lambda>c. c \<noteq> CHR '':'') (rev s))
      in (take (length s - Suc (length port)) s, port))"

definition split_host_port :: "string \<Rightarrow> (string \<times> string) option" where
  "split_host_port s =
     (if CHR '':'' \<notin> set s then None
      else case last_colon s of
        (front, port) \<Rightarrow>
          if hd s = CHR ''['' then
            (case cut CHR '']'' s of
               (inner, rest, found) \<Rightarrow>
                 if found \<and> rest = CHR '':'' # port \<and> CHR ''['' \<notin> set (tl inner @ port) \<and> CHR '']'' \<notin> set port
                 then Some (tl inner, port) else None)
          else if CHR '':'' \<in> set front \<or> CHR ''['' \<in> set s \<or> CHR '']'' \<in> set s then None
          else Some (front, port))"

text \<open>The pattern \<^verbatim>\<open>(server:\s*https://)([^\s]+)\<close> at the start of a text: the two groups and the rest.\<close>

definition re_space :: "char \<Rightarrow> bool" where
  "re_space c = (of_char c \<in> {9, 10, 12, 13, 32 :: nat})"

definition match_server :: "string \<Rightarrow> (string \<times> string \<times> string) option" where
  "match_server s =
     (if \<not> has_prefix s ''server:'' then None
      else
        let r = drop 7 s; blanks = takeWhile re_space r; r2 = dropWhile re_space r
        in if \<not> has_prefix r2 ''https://'' then None
           else
             let auth = takeWhile (\<lambda>c. \<not> re_space c) (drop 8 r2)
             in if auth = [] then None
                else Some (''server:'' @ blanks @ ''https://'', auth, dropWhile (\<lambda>c. \<not> re_space c) (drop 8 r2)))"

lemma match_server_split: "match_server s = Some (p, a, r) \<Longrightarrow> s = p @ a @ r \<and> p \<noteq> []"
  by (auto simp: match_server_def has_prefix_iff Let_def split: if_splits)
    (metis append_assoc takeWhile_dropWhile_id)

function replace_servers :: "(string \<Rightarrow> string) \<Rightarrow> string \<Rightarrow> string" where
  "replace_servers f [] = []"
| "replace_servers f (c # s) =
     (case match_server (c # s) of
        Some (p, a, r) \<Rightarrow> p @ f a @ replace_servers f r
      | None \<Rightarrow> c # replace_servers f s)"
  by pat_completeness auto

termination
  by (relation "measure (\<lambda>(f, s). length s)")
    (auto dest!: match_server_split simp: length_greater_0_conv [symmetric] simp del: length_greater_0_conv dest: arg_cong [where f = length])

fun has_server :: "string \<Rightarrow> bool" where
  "has_server [] = False"
| "has_server (c # s) = (match_server (c # s) \<noteq> None \<or> has_server s)"

definition new_authority :: "string \<Rightarrow> string \<Rightarrow> string" where
  "new_authority server authority =
     (case split_host_port server of
        Some (h, p) \<Rightarrow> h @ '':'' @ p
      | None \<Rightarrow>
          (case split_host_port authority of
             Some (_, p) \<Rightarrow> server @ '':'' @ p | None \<Rightarrow> server))"

definition rewrite_server :: "bytes \<Rightarrow> string \<Rightarrow> err + bytes" where
  "rewrite_server data server =
     (if \<not> has_server (to_text data) then Inl (msg ''no API server URL found in the kubeconfig'')
      else Inr (to_bytes (replace_servers (new_authority server) (to_text data))))"

definition recorded_api_port :: "'h host_scheme \<Rightarrow> string \<Rightarrow> (err + int) io" where
  "recorded_api_port H name =
     (case guest_paths H name of
        Inl e \<Rightarrow> give (Inl e)
      | Inr (_, _, meta) \<Rightarrow> and_then (load_meta H meta) (\<lambda>m. give (Inr (gm_api_port m))))"

definition kubeconfig_server :: "'h host_scheme \<Rightarrow> string \<Rightarrow> string \<Rightarrow> bool \<Rightarrow> string io" where
  "kubeconfig_server H name server changed =
     (if changed \<or> server = [] then give server
      else do {
        p \<leftarrow> recorded_api_port H name;
        give (case p of Inr port \<Rightarrow> if port \<noteq> 0 then server @ '':'' @ dec_int port else server | Inl _ \<Rightarrow> server)
      })"

definition cluster_kubeconfig ::
  "'h host_scheme \<Rightarrow> string \<Rightarrow> string \<Rightarrow> string \<Rightarrow> bool \<Rightarrow> string \<Rightarrow> nat \<Rightarrow> err option io"
where
  "cluster_kubeconfig H name sock server changed out timeout =
     (case resolve_socket H sock name of
        Inl e \<Rightarrow> give (Some e)
      | Inr s \<Rightarrow> do {
          server' \<leftarrow> kubeconfig_server H name server changed;
          r \<leftarrow> host_request (h_kernel H) s ''kubeconfig'' timeout;
          (case (case r of
                   Inl e \<Rightarrow> Inl e
                 | Inr data \<Rightarrow> if server' \<noteq> [] then rewrite_server data server' else Inr data) of
             Inl e \<Rightarrow> give (Some e)
           | Inr data \<Rightarrow>
               if out = ''-'' then show_out (h_kernel H) (to_text data)
               else guard_err (do_unit (h_kernel H) (WriteFile out data perm_0600)) Some (do {
                 _ \<leftarrow> do_unit (h_kernel H) (Say ''wrote %s (%d bytes)'' [out, dec (length data)]);
                 give None
               }))
        })"

section \<open>Both sides of the control port\<close>

lemma lines_from_line: "newline \<notin> set l \<Longrightarrow> lines_from w (l @ [newline]) = [w @ l @ [newline]]"
  by (induction l arbitrary: w) auto

lemma scan_one_line:
  assumes "newline \<notin> set l" and "length l \<le> max_token" and "l \<noteq> []" and "last l \<noteq> char_of (13 :: nat)"
  shows "fst (scan_lines (l @ [newline])) = [l]"
proof -
  have "lines (l @ [newline]) = [l @ [newline]]" using lines_from_line [OF assms(1), of "[]"] by (simp add: lines_def)
  moreover have "chomp (l @ [newline]) = l"
    using assms(3,4) by (cases l rule: rev_cases) (simp_all add: chomp_def drop_cr_def trim_suffix_def has_suffix_def)
  ultimately show ?thesis using assms(2) by (simp add: scan_lines_def)
qed

text \<open>A line the host sends: lower-case words separated by blanks, without blanks at its ends.\<close>

definition host_line :: "string \<Rightarrow> bool" where
  "host_line l =
     (l \<noteq> [] \<and> length l \<le> 100 \<and> to_lower l = l \<and> \<not> is_space (hd l) \<and> \<not> is_space (last l) \<and> newline \<notin> set l)"

lemma host_line_event:
  assumes "host_line l"
  shows "watch_events (l @ [newline]) =
    (case (if is_request l then Some (Ask l) else map_option Power (parse_command l)) of
       None \<Rightarrow> [] | Some e \<Rightarrow> [e])"
proof -
  have l: "l \<noteq> []" "\<not> is_space (hd l)" "\<not> is_space (last l)" "to_lower l = l" "length l \<le> 100" "newline \<notin> set l"
    using assms by (simp_all add: host_line_def)
  have "last l \<noteq> char_of (13 :: nat)" using l(3) by (auto simp: is_space_def)
  with l have "fst (scan_lines (l @ [newline])) = [l]" by (intro scan_one_line) (simp_all add: max_token_def)
  moreover have "trim_space l = l"
    using l by (simp add: trim_space_def trim_left_id trim_right_id)
  ultimately show ?thesis
    using l(4) by (simp add: watch_events_def line_event_def List.map_filter_simps split: option.split)
qed

text \<open>
  Every fixed line the host tool sends is understood by the init as what was meant: the two power
  commands as themselves, the requests as requests of the same text.
\<close>

theorem host_lines_are_understood:
  "map (\<lambda>l. watch_events (l @ [newline]))
     [command_string PowerOff, command_string RebootMachine, ''kubeconfig'', ''status'', ''dmesg'',
      ''token '' @ ''controller'', ''token '' @ ''worker''] =
   [[Power PowerOff], [Power RebootMachine], [Ask ''kubeconfig''], [Ask ''status''], [Ask ''dmesg''],
    [Ask ''token controller''], [Ask ''token worker'']]"
proof -
  have h: "host_line ''poweroff''" "host_line ''reboot''" "host_line ''kubeconfig''" "host_line ''status''"
    "host_line ''dmesg''" "host_line ''token controller''" "host_line ''token worker''"
    by (simp_all add: host_line_def to_lower_def lower_char_def is_space_def newline_iff)
  have r: "is_request ''kubeconfig''" "is_request ''status''" "is_request ''dmesg''"
    "is_request ''token controller''" "is_request ''token worker''" "\<not> is_request ''poweroff''" "\<not> is_request ''reboot''"
    by (simp_all add: is_request_def requests_def)
  show ?thesis
    using h [THEN host_line_event] r parse_command_string [of PowerOff] parse_command_string [of RebootMachine]
    by simp
qed

text \<open>
  A power command that the init acknowledges is reported as sent: the command succeeds when the
  socket carries back the init's acknowledgement, and the line sent was the command.
\<close>

lemma command_ack_reply: "parse_reply command_ack = Inr []"
proof -
  have "dec 0 = ''0''" by (simp add: dec.simps [of 0] digit_def char_code)
  then have "command_ack = to_bytes (reply_ok @ '' '' @ dec (length ([] :: bytes)) @ [newline]) @ []"
    by (simp add: command_ack_def)
  with reply_round_trip [of "[]" "[]"] show ?thesis by (simp add: max_reply_bytes_def)
qed

theorem power_command_is_acknowledged:
  assumes "resolve_socket H sock name = Inr s" and "K = h_kernel H"
    and "answer_unit K h (Dial s) = None" and "answer_unit K (h @ [Dial s]) (SockDeadline s timeout) = None"
    and "answer_unit K (h @ [Dial s, SockDeadline s timeout])
           (SockSend s (to_bytes (command_string (if verb = ''reboot'' then RebootMachine else PowerOff) @ [newline]))) = None"
    and "answer_bytes K (h @ [Dial s, SockDeadline s timeout,
           SockSend s (to_bytes (command_string (if verb = ''reboot'' then RebootMachine else PowerOff) @ [newline]))])
           (SockRecv s) = Inr command_ack"
  shows "fst (run_state (machine_power H verb name sock timeout) h) = None"
  using assms
  by (simp add: machine_power_def host_request_def dial_def exchange_def command_ack_reply Let_def
      split: prod.split)

theorem power_command_is_acknowledged_witness:
  "fst (run_state (machine_power (plain_host (quiet_kernel\<lparr>answer_bytes := \<lambda>_ _. Inr command_ack\<rparr>)) ''shutdown'' ''vm'' ''/s'' 5) []) = None"
  by (rule power_command_is_acknowledged [where s = "''/s''" and K = "quiet_kernel\<lparr>answer_bytes := \<lambda>_ _. Inr command_ack\<rparr>"])
    (simp_all add: resolve_socket_def check_socket_path_def max_socket_path_def plain_host_def quiet_kernel_def)

text \<open>
  Credentials stay private: whatever the machine answers, fetching a kubeconfig or a join token
  writes no file but the one asked for, and that one readable by its owner only.
\<close>

definition private_write :: "string \<Rightarrow> call \<Rightarrow> bool" where
  "private_write out c =
     (\<forall>p d m. c = WriteFile p d m \<longrightarrow> p = out \<and> m = perm_0600)"

lemma private_write_calls [simp]:
  "private_write out (WriteFile p d m) \<longleftrightarrow> p = out \<and> m = perm_0600"
  "private_write out (Say f a)" "private_write out (Dial s)" "private_write out (SockDeadline s n)"
  "private_write out (SockSend s b)" "private_write out (SockRecv s)" "private_write out (SockClose s)"
  "private_write out (ReadFile p)"
  by (auto simp: private_write_def)

lemma host_request_private: "emits (private_write out) (host_request K s line timeout)"
  unfolding host_request_def dial_def exchange_def by (intro emits_intros; simp)

theorem credentials_are_written_private:
  "emits (private_write out) (cluster_kubeconfig H name sock server changed out timeout) \<and>
   emits (private_write out) (cluster_token H name sock role out timeout)"
proof -
  have load: "emits (private_write out) (load_meta H p)" for p
    unfolding load_meta_def by (intro emits_intros; simp)
  have server: "emits (private_write out) (kubeconfig_server H name server changed)"
    unfolding kubeconfig_server_def recorded_api_port_def by (intro emits_intros load; simp)
  show ?thesis
    unfolding cluster_kubeconfig_def cluster_token_def ask_def show_out_def
    by (intro conjI emits_intros host_request_private server; simp)
qed

section \<open>The rewritten kubeconfig\<close>

text \<open>Text in which the pattern's first word does not occur is copied.\<close>

definition no_server :: "string \<Rightarrow> bool" where
  "no_server s = (index_of_sub ''server:'' s = None)"

lemma no_server_Cons: "no_server (c # s) \<Longrightarrow> \<not> has_prefix (c # s) ''server:'' \<and> no_server s"
  by (auto simp: no_server_def split: if_splits)

lemma no_match: "\<not> has_prefix s ''server:'' \<Longrightarrow> match_server s = None"
  by (simp add: match_server_def)

lemma replace_none: "no_server s \<Longrightarrow> replace_servers f s = s"
proof (induction s)
  case (Cons c s)
  then show ?case using no_server_Cons [OF Cons.prems] by (simp add: no_match)
qed simp

lemma has_prefix_length: "has_prefix (u @ v) p \<Longrightarrow> length p \<le> length u \<Longrightarrow> has_prefix u p"
  by (simp add: has_prefix_def)

text \<open>Text in front of a match: the word must not occur in it, nor begin in it.\<close>

lemma replace_front:
  assumes "no_server (u @ ''server'')"
  shows "replace_servers f (u @ ''server:'' @ v) = u @ replace_servers f (''server:'' @ v)"
  using assms
proof (induction u)
  case (Cons c u)
  from no_server_Cons [of c "u @ ''server''"] Cons.prems
  have n: "\<not> has_prefix (c # u @ ''server'') ''server:''" "no_server (u @ ''server'')" by simp_all
  have "\<not> has_prefix (c # u @ ''server:'' @ v) ''server:''"
    using n(1) has_prefix_length [of "c # u @ ''server''" "'':'' @ v" "''server:''"] by auto
  with Cons.IH n(2) show ?case by (simp add: no_match)
qed simp

lemma match_server_line:
  assumes "auth \<noteq> []" and "list_all (\<lambda>c. \<not> re_space c) auth" and "re_space e"
  shows "match_server (''server: https://'' @ auth @ e # post) = Some (''server: https://'', auth, e # post)"
proof -
  have "takeWhile (\<lambda>c. \<not> re_space c) (auth @ e # post) = auth"
    "dropWhile (\<lambda>c. \<not> re_space c) (auth @ e # post) = e # post"
    using assms by (auto simp: list_all_iff takeWhile_append2 dropWhile_append2)
  moreover have "re_space CHR '' ''" "\<not> re_space CHR ''h''" by (simp_all add: re_space_def)
  ultimately show ?thesis
    using assms(1) by (simp add: match_server_def has_prefix_def)
qed

lemma has_server_front: "has_server v \<Longrightarrow> has_server (u @ v)"
  by (induction u) auto

text \<open>
  In a kubeconfig with one server line, rewriting changes the address and nothing else: the text
  before and after it is kept byte for byte, an explicit port wins, and without one the port the
  node wrote stays.
\<close>

theorem kubeconfig_points_at_host:
  assumes "no_server (u @ ''server'')" and "no_server post"
    and "auth \<noteq> []" and "list_all (\<lambda>c. \<not> re_space c) auth"
  shows "rewrite_server (to_bytes (u @ ''server: https://'' @ auth @ newline # post)) server =
    Inr (to_bytes (u @ ''server: https://'' @ new_authority server auth @ newline # post)) \<and>
    (split_host_port server = Some (hst, prt) \<longrightarrow> new_authority server auth = hst @ '':'' @ prt) \<and>
    (split_host_port server = None \<and> split_host_port auth = Some (hst, prt) \<longrightarrow>
       new_authority server auth = server @ '':'' @ prt)"
proof -
  have nl: "re_space newline" by (simp add: re_space_def)
  let ?line = "''server: https://'' @ auth @ newline # post"
  note m = match_server_line [OF assms(3,4) nl, of post]
  have line: "?line = CHR ''s'' # tl ?line" by simp
  have "replace_servers f (newline # post) = newline # post" for f
  proof -
    have "\<not> has_prefix (newline # post) ''server:''" by (simp add: has_prefix_def newline_iff)
    then show ?thesis using replace_none [OF assms(2)] by (simp add: no_match)
  qed
  then have "replace_servers f ?line = ''server: https://'' @ f auth @ newline # post" for f
    using m by (subst line, subst replace_servers.simps(2)) simp
  then have "replace_servers f (u @ ?line) = u @ ''server: https://'' @ f auth @ newline # post" for f
    using replace_front [OF assms(1), of f "'' https://'' @ auth @ newline # post"] by simp
  moreover have "has_server (u @ ?line)"
    by (rule has_server_front, subst line, subst has_server.simps(2)) (use m in simp)
  ultimately show ?thesis by (simp add: rewrite_server_def new_authority_def)
qed

theorem kubeconfig_points_at_host_witness:
  "rewrite_server (to_bytes (''a: '' @ ''server: https://'' @ ''localhost:6443'' @ newline # ''b'')) ''127.0.0.1'' =
    Inr (to_bytes (''a: '' @ ''server: https://'' @ new_authority ''127.0.0.1'' ''localhost:6443'' @ newline # ''b''))"
proof -
  have "no_server (''a: '' @ ''server'')" "no_server ''b''" by (simp_all add: no_server_def has_prefix_def)
  moreover have "list_all (\<lambda>c. \<not> re_space c) ''localhost:6443''" by (simp add: re_space_def)
  ultimately show ?thesis
    by (intro conjunct1 [OF kubeconfig_points_at_host]) simp_all
qed

text \<open>
  An IPv6 address loses its brackets: the host is taken out of them and joined with the port by a
  colon, so the written URL has no recognisable port.
\<close>

theorem ipv6_server_loses_brackets:
  "new_authority ''[::1]:7443'' ''localhost:6443'' = ''::1:7443'' \<and> split_host_port ''::1:7443'' = None"
  by (simp add: new_authority_def split_host_port_def last_colon_def Let_def)

end
