(* ===== verification/Release_Artifact.thy ===== *)
theory Release_Artifact
  imports Host_State
begin

text \<open>
  \<^verbatim>\<open>cmd/k0smosctl/artifact.go\<close>: finding, downloading and verifying the platform image of a GitHub
  release, with a cache. An HTTP request is one call that answers with the status; the body is
  read by a further call. Decoding the JSON of a release and the SHA-256 function are parameters
  of the resolver; the properties hold for any of them.
\<close>

section \<open>Releases\<close>

record release_asset =
  as_name :: string
  as_url :: string
  as_api_url :: string

record github_release =
  gr_tag :: string
  gr_assets :: "release_asset list"

record resolver =
  rs_api :: string
  rs_repo :: string
  rs_cache_dir :: string
  rs_release :: string
  rs_arch :: string
  rs_token :: string
  rs_version :: string
  rs_json :: "bytes \<Rightarrow> err + github_release"
  rs_sha256 :: "bytes \<Rightarrow> bytes"

definition release_repository :: string where "release_repository = ''makhov/k0smos''"
definition github_api :: string where "github_api = ''https://api.github.com''"

definition artifact_cache_dir :: "'h host_scheme \<Rightarrow> string \<Rightarrow> err + string" where
  "artifact_cache_dir H requested =
     (if requested \<noteq> [] then Inr requested
      else if h_env H ''K0SMOS_CACHE_DIR'' \<noteq> [] then Inr (path_join [h_env H ''K0SMOS_CACHE_DIR'', ''images''])
      else if h_env H ''XDG_CACHE_HOME'' \<noteq> [] then Inr (path_join [h_env H ''XDG_CACHE_HOME'', ''k0smos'', ''images''])
      else (case h_home H of
              Inl e \<Rightarrow> Inl e | Inr home \<Rightarrow> Inr (path_join [home, ''.cache'', ''k0smos'', ''images''])))"

text \<open>\<^verbatim>\<open>url.PathEscape\<close>: letters, digits and some punctuation stay, other bytes become \<^verbatim>\<open>%XX\<close>.\<close>

definition path_safe :: "char \<Rightarrow> bool" where
  "path_safe c =
     (is_digit c \<or> (65 \<le> (of_char c :: nat) \<and> (of_char c :: nat) \<le> 90) \<or>
      (97 \<le> (of_char c :: nat) \<and> (of_char c :: nat) \<le> 122) \<or> c \<in> set ''-_.~$&+=:@'')"

definition path_escape :: "string \<Rightarrow> string" where
  "path_escape s =
     concat (map (\<lambda>c. if path_safe c then [c]
                      else [CHR ''%'', upper_digit (of_char c div 16), upper_digit (of_char c mod 16)]) s)"

section \<open>HTTP\<close>

definition request_headers :: "resolver \<Rightarrow> string \<Rightarrow> (string \<times> string) list" where
  "request_headers R accept =
     [(''Accept'', accept), (''User-Agent'', ''k0smosctl/'' @ rs_version R)] @
     (if rs_token R \<noteq> [] then [(''Authorization'', ''Bearer '' @ rs_token R)] else [])"

definition http_ok :: int where "http_ok = 200"
definition http_not_found :: int where "http_not_found = 404"

definition get_json :: "kernel \<Rightarrow> resolver \<Rightarrow> string \<Rightarrow> (err + github_release) io" where
  "get_json K R endpoint =
     and_then (do_num K (HttpGet endpoint (request_headers R ''application/vnd.github+json''))) (\<lambda>status. do {
       b \<leftarrow> do_bytes K (HttpBody endpoint);
       give (if status \<noteq> http_ok then
               Inl (Errorf ''GitHub returned %s: %s%s''
                 [dec_int status, trim_space (case b of Inl _ \<Rightarrow> [] | Inr t \<Rightarrow> to_text (take 4096 t)),
                  if status = http_not_found then ''; if the repository is private, set GITHUB_TOKEN or GH_TOKEN'' else []] None)
             else (case b of Inl e \<Rightarrow> Inl e | Inr t \<Rightarrow> rs_json R t))
     })"

definition release_endpoint :: "resolver \<Rightarrow> string" where
  "release_endpoint R =
     (let base = trim_right (\<lambda>c. c = CHR ''/'') (rs_api R) @ ''/repos/'' @ rs_repo R @ ''/releases/''
      in if rs_release R \<noteq> ''latest'' then base @ ''tags/'' @ path_escape (rs_release R) else base @ ''latest'')"

definition fetch_release :: "kernel \<Rightarrow> resolver \<Rightarrow> (err + github_release) io" where
  "fetch_release K R = do {
     r \<leftarrow> get_json K R (release_endpoint R);
     give (case r of
             Inl e \<Rightarrow> Inl (wrap ''resolve GitHub release %q: %w'' [rs_release R] e)
           | Inr rel \<Rightarrow>
               if gr_tag rel = [] then Inl (msg ''GitHub release response has no tag_name'') else Inr rel)
   }"

definition no_asset :: release_asset where "no_asset = \<lparr>as_name = [], as_url = [], as_api_url = []\<rparr>"

text \<open>The loop over the assets keeps the last asset of each name.\<close>

definition pick_assets :: "string \<Rightarrow> release_asset list \<Rightarrow> release_asset \<times> release_asset" where
  "pick_assets img assets =
     fold (\<lambda>a (i, c). if as_name a = img then (a, c)
                      else if as_name a = img @ ''.sha256'' then (i, a) else (i, c))
       assets (no_asset, no_asset)"

definition sourceless :: "release_asset \<Rightarrow> bool" where
  "sourceless a = (as_url a = [] \<and> as_api_url a = [])"

definition release_artifacts :: "github_release \<Rightarrow> string \<Rightarrow> err + release_asset \<times> release_asset" where
  "release_artifacts rel img =
     (case pick_assets img (gr_assets rel) of
        (i, c) \<Rightarrow>
          if sourceless i \<or> sourceless c
          then Inl (Errorf (''GitHub release %s does not contain %s and %s.sha256; pass --image, '' @
                            ''or publish a release with the current workflow'') [gr_tag rel, img, img] None)
          else Inr (i, c))"

definition asset_source :: "bool \<Rightarrow> release_asset \<Rightarrow> string" where
  "asset_source authenticated a =
     (if authenticated \<and> as_api_url a \<noteq> [] then as_api_url a else as_url a)"

section \<open>Downloads\<close>

text \<open>From a temporary file to its place; the temporary name is removed on every way out.\<close>

definition into_place :: "kernel \<Rightarrow> string \<Rightarrow> string \<Rightarrow> string \<Rightarrow> err option io" where
  "into_place K source tmp path = do {
     copied \<leftarrow> do_unit K (CopyBody source tmp);
     (case copied of
        Some e \<Rightarrow> do { _ \<leftarrow> do_unit K (CloseFile tmp); give (Some e) }
      | None \<Rightarrow> do {
          synced \<leftarrow> do_unit K (SyncFile tmp);
          (case synced of
             Some e \<Rightarrow> do { _ \<leftarrow> do_unit K (CloseFile tmp); give (Some e) }
           | None \<Rightarrow>
               guard_err (do_unit K (CloseFile tmp)) Some
                 (guard_err (do_unit K (Chmod tmp perm_0644)) Some
                    (do_unit K (Rename tmp path))))
        })
   }"

definition download :: "kernel \<Rightarrow> resolver \<Rightarrow> string \<Rightarrow> string \<Rightarrow> err option io" where
  "download K R source path = do {
     r \<leftarrow> do_num K (HttpGet source (request_headers R ''application/octet-stream''));
     (case r of
        Inl e \<Rightarrow> give (Some e)
      | Inr status \<Rightarrow>
          if status \<noteq> http_ok
          then give (Some (Errorf ''download %s: server returned %s'' [source, dec_int status] None))
          else do {
            t \<leftarrow> do_bytes K (TempFile (path_dir path) ''.download-*'');
            (case t of
               Inl e \<Rightarrow> give (Some e)
             | Inr name \<Rightarrow> do {
                 e \<leftarrow> into_place K source (to_text name) path;
                 _ \<leftarrow> do_unit K (Remove (to_text name));
                 give e
               })
          })
   }"

definition ensure_downloaded :: "kernel \<Rightarrow> resolver \<Rightarrow> string \<Rightarrow> string \<Rightarrow> err option io" where
  "ensure_downloaded K R source path = do {
     st \<leftarrow> do_unit K (Stat path);
     (if st = None then give None else download K R source path)
   }"

section \<open>Checksums\<close>

definition hex_char :: "char \<Rightarrow> bool" where
  "hex_char c =
     (is_digit c \<or> (65 \<le> (of_char c :: nat) \<and> (of_char c :: nat) \<le> 70) \<or>
      (97 \<le> (of_char c :: nat) \<and> (of_char c :: nat) \<le> 102))"

definition parse_checksum :: "string \<Rightarrow> bytes \<Rightarrow> err + string" where
  "parse_checksum path b =
     (case str_fields (to_text b) of
        [] \<Rightarrow> Inl (Errorf ''invalid sha256 file %s'' [path] None)
      | f # _ \<Rightarrow>
          if length f \<noteq> 64 then Inl (Errorf ''invalid sha256 file %s'' [path] None)
          else if \<not> list_all hex_char f
          then Inl (wrap ''invalid sha256 file %s: %w'' [path] (msg ''encoding/hex: invalid byte''))
          else Inr (to_lower f))"

definition read_checksum :: "kernel \<Rightarrow> string \<Rightarrow> (err + string) io" where
  "read_checksum K path =
     and_then (do_bytes K (ReadFile path)) (\<lambda>b. give (parse_checksum path b))"

definition file_checksum :: "kernel \<Rightarrow> resolver \<Rightarrow> string \<Rightarrow> (err + string) io" where
  "file_checksum K R path =
     and_then (do_bytes K (ReadFile path)) (\<lambda>b. give (Inr (hex_bytes (rs_sha256 R b))))"

definition write_latest :: "kernel \<Rightarrow> string \<Rightarrow> string \<Rightarrow> err option io" where
  "write_latest K dir tag =
     guard_err (do_unit K (MkdirAll dir perm_0700)) Some (do {
       t \<leftarrow> do_bytes K (TempFile dir ''.latest-*'');
       (case t of
          Inl e \<Rightarrow> give (Some e)
        | Inr name \<Rightarrow> do {
            let tmp = to_text name;
            w \<leftarrow> do_unit K (WriteTo tmp (to_bytes (tag @ [char_of (10 :: nat)])));
            e \<leftarrow> (case w of
                    Some e \<Rightarrow> do { _ \<leftarrow> do_unit K (CloseFile tmp); give (Some e) }
                  | None \<Rightarrow> guard_err (do_unit K (CloseFile tmp)) Some
                              (do_unit K (Rename tmp (path_join [dir, ''latest'']))));
            _ \<leftarrow> do_unit K (Remove tmp);
            give e
          })
     })"

section \<open>Resolving\<close>

definition cached_fallback :: "kernel \<Rightarrow> resolver \<Rightarrow> string \<Rightarrow> (err + string) io" where
  "cached_fallback K R asset =
     and_then
       (if rs_release R = ''latest''
        then and_then (do_bytes K (ReadFile (path_join [rs_cache_dir R, ''latest'']))) (\<lambda>b.
               give (Inr (trim_space (to_text b))))
        else give (Inr (rs_release R)))
       (\<lambda>tag.
         let path = path_join [rs_cache_dir R, path_escape tag, asset] in
         and_then (read_checksum K (path @ ''.sha256'')) (\<lambda>want.
         and_then (file_checksum K R path) (\<lambda>got.
           give (if got \<noteq> want then Inl (msg ''cached artifact checksum mismatch'') else Inr path))))"

text \<open>The checksum a release publishes; an unusable cached one is replaced once.\<close>

definition wanted_checksum :: "kernel \<Rightarrow> resolver \<Rightarrow> string \<Rightarrow> string \<Rightarrow> (err + string) io" where
  "wanted_checksum K R source path =
     check (do { e \<leftarrow> ensure_downloaded K R source path;
                 give (map_option (wrap ''download checksum: %w'' []) e) })
       (do {
          r \<leftarrow> read_checksum K path;
          (case r of
             Inr want \<Rightarrow> give (Inr want)
           | Inl _ \<Rightarrow> do {
               _ \<leftarrow> do_unit K (Remove path);
               e \<leftarrow> download K R source path;
               (case e of
                  Some e \<Rightarrow> give (Inl (wrap ''replace invalid checksum: %w'' [] e))
                | None \<Rightarrow> read_checksum K path)
             })
        })"

definition fetch_image :: "kernel \<Rightarrow> resolver \<Rightarrow> string \<Rightarrow> string \<Rightarrow> string \<Rightarrow> string \<Rightarrow> string \<Rightarrow> (err + string) io" where
  "fetch_image K R tag asset source path want = do {
     _ \<leftarrow> do_unit K (Say ''downloading k0smos %s %s to %s'' [tag, asset, path]);
     check (download K R source path)
       (and_then (file_checksum K R path) (\<lambda>got.
         if got \<noteq> want then do {
           _ \<leftarrow> do_unit K (Remove path);
           give (Inl (Errorf ''checksum mismatch for %s: got %s, want %s'' [asset, got, want] None)) }
         else
           check (if rs_release R = ''latest'' then write_latest K (rs_cache_dir R) tag else give None)
             (do { _ \<leftarrow> do_unit K (Say ''verified sha256:%s'' [got]); give (Inr path) })))
   }"

definition cached_or_fetched :: "kernel \<Rightarrow> resolver \<Rightarrow> string \<Rightarrow> string \<Rightarrow> string \<Rightarrow> string \<Rightarrow> string \<Rightarrow> (err + string) io" where
  "cached_or_fetched K R tag asset source path want = do {
     have \<leftarrow> file_checksum K R path;
     (if have = Inr want then do {
        _ \<leftarrow> do_unit K (Say ''using cached k0smos %s artifact %s'' [tag, path]);
        _ \<leftarrow> (if rs_release R = ''latest'' then write_latest K (rs_cache_dir R) tag else give None);
        give (Inr path) }
      else fetch_image K R tag asset source path want)
   }"

definition resolve_in :: "kernel \<Rightarrow> resolver \<Rightarrow> string \<Rightarrow> github_release \<Rightarrow> (err + string) io" where
  "resolve_in K R asset rel =
     (case release_artifacts rel asset of
        Inl e \<Rightarrow> give (Inl e)
      | Inr (img, sm) \<Rightarrow>
          let dir = path_join [rs_cache_dir R, path_escape (gr_tag rel)];
              path = path_join [dir, asset];
              auth = (rs_token R \<noteq> [])
          in check (do_unit K (MkdirAll dir perm_0700))
               (check (do_unit K (Chmod dir perm_0700))
                 (and_then (wanted_checksum K R (asset_source auth sm) (path @ ''.sha256''))
                   (cached_or_fetched K R (gr_tag rel) asset (asset_source auth img) path))))"

text \<open>The fields that may be left empty; the HTTP client and the progress writer always exist here.\<close>

definition with_defaults :: "resolver \<Rightarrow> resolver" where
  "with_defaults R =
     R\<lparr>rs_api := (if rs_api R = [] then github_api else rs_api R),
       rs_repo := (if rs_repo R = [] then release_repository else rs_repo R),
       rs_release := (if rs_release R = [] then ''latest'' else rs_release R)\<rparr>"

definition artifact_resolve :: "kernel \<Rightarrow> resolver \<Rightarrow> (err + string) io" where
  "artifact_resolve K R0 =
     (let R = with_defaults R0; asset = ''k0smos-metal-'' @ rs_arch R @ ''.qcow2'' in do {
        _ \<leftarrow> do_unit K (Say ''resolving k0smos GitHub release %s for %s'' [rs_release R, rs_arch R]);
        r \<leftarrow> fetch_release K R;
        (case r of
           Inr rel \<Rightarrow> resolve_in K R asset rel
         | Inl e \<Rightarrow> do {
             c \<leftarrow> cached_fallback K R asset;
             (case c of
                Inr cached \<Rightarrow> do {
                  _ \<leftarrow> do_unit K (Say ''GitHub is unavailable; using cached %s'' [cached]);
                  give (Inr cached) }
              | Inl _ \<Rightarrow> give (Inl e))
           })
      })"

definition resolve_release_artifact ::
  "'h host_scheme \<Rightarrow> string \<Rightarrow> (bytes \<Rightarrow> err + github_release) \<Rightarrow> (bytes \<Rightarrow> bytes) \<Rightarrow> string \<Rightarrow> string \<Rightarrow> string \<Rightarrow> (err + string) io"
where
  "resolve_release_artifact H version decode sha arch release cache_dir =
     (case artifact_cache_dir H cache_dir of
        Inl e \<Rightarrow> give (Inl e)
      | Inr dir \<Rightarrow>
          artifact_resolve (h_kernel H)
            \<lparr>rs_api = github_api, rs_repo = release_repository, rs_cache_dir = dir, rs_release = release,
             rs_arch = arch,
             rs_token = (if h_env H ''GITHUB_TOKEN'' \<noteq> [] then h_env H ''GITHUB_TOKEN'' else h_env H ''GH_TOKEN''),
             rs_version = version, rs_json = decode, rs_sha256 = sha\<rparr>)"

section \<open>What was verified\<close>

text \<open>
  \<open>read_as K h c b\<close>: somewhere in the history \<open>h\<close> the call \<open>c\<close> was made and answered with \<open>b\<close>.
  \<open>verified\<close>: the image was read and hashed, the checksum file was read, they agree, and no call
  after the image was read touches it.
\<close>

fun touches :: "string \<Rightarrow> call \<Rightarrow> bool" where
  "touches p (WriteFile q _ _) = (p = q)"
| "touches p (WriteTo q _) = (p = q)"
| "touches p (CreateFile q) = (p = q)"
| "touches p (CopyBody _ q) = (p = q)"
| "touches p (Remove q) = (p = q)"
| "touches p (Rename q r) = (p = q \<or> p = r)"
| "touches p (RemoveAll _) = True"
| "touches p (TruncateFile q _) = (p = q)"
| "touches p _ = False"

definition read_as :: "kernel \<Rightarrow> history \<Rightarrow> call \<Rightarrow> bytes \<Rightarrow> bool" where
  "read_as K h c b = (\<exists>u v. h = u @ c # v \<and> answer_bytes K u c = Inr b)"

definition read_last :: "kernel \<Rightarrow> history \<Rightarrow> string \<Rightarrow> bytes \<Rightarrow> bool" where
  "read_last K h p b =
     (\<exists>u v. h = u @ ReadFile p # v \<and> answer_bytes K u (ReadFile p) = Inr b \<and> list_all (\<lambda>c. \<not> touches p c) v)"

definition verified :: "kernel \<Rightarrow> resolver \<Rightarrow> history \<Rightarrow> string \<Rightarrow> bool" where
  "verified K R h path =
     (\<exists>sm want img. read_as K h (ReadFile (path @ ''.sha256'')) sm \<and>
        parse_checksum (path @ ''.sha256'') sm = Inr want \<and>
        read_last K h path img \<and> hex_bytes (rs_sha256 R img) = want)"

lemma read_as_append: "read_as K h c b \<Longrightarrow> read_as K (h @ cs) c b"
  unfolding read_as_def by (metis append.assoc append_Cons)

lemma read_last_append: "read_last K h p b \<Longrightarrow> list_all (\<lambda>c. \<not> touches p c) cs \<Longrightarrow> read_last K (h @ cs) p b"
  unfolding read_last_def by (metis append.assoc append_Cons list_all_append)

lemma verified_append: "verified K R h p \<Longrightarrow> list_all (\<lambda>c. \<not> touches p c) cs \<Longrightarrow> verified K R (h @ cs) p"
  unfolding verified_def by (metis read_as_append read_last_append)

text \<open>What reading a checksum and hashing a file leave behind.\<close>

lemma read_checksum_leaves:
  assumes "run_state (read_checksum K p) h = (Inr want, h')"
  shows "\<exists>sm. read_as K h' (ReadFile p) sm \<and> parse_checksum p sm = Inr want"
  using assms by (auto simp: read_checksum_def read_as_def split: sum.splits)

lemma read_last_now: "answer_bytes K h (ReadFile p) = Inr b \<Longrightarrow> read_last K (h @ [ReadFile p]) p b"
  unfolding read_last_def by (intro exI [of _ h] exI [of _ "[]"]) simp

lemma file_checksum_leaves:
  assumes "run_state (file_checksum K R p) h = (Inr got, h')"
  shows "h' = h @ [ReadFile p] \<and> (\<exists>img. read_last K h' p img \<and> hex_bytes (rs_sha256 R img) = got)"
  using assms by (auto simp: file_checksum_def intro: read_last_now split: sum.splits)

lemma wanted_checksum_leaves:
  assumes "run_state (wanted_checksum K R src p) h = (Inr want, h')"
  shows "\<exists>sm. read_as K h' (ReadFile p) sm \<and> parse_checksum p sm = Inr want"
  using assms
  by (auto simp: wanted_checksum_def dest!: read_checksum_leaves split: prod.splits sum.splits option.splits)

lemma file_checksum_run:
  "snd (run_state (file_checksum K R p) h) = h @ [ReadFile p]"
  by (auto simp: file_checksum_def split: sum.splits)

lemma pass_checksums:
  assumes "read_as K h (ReadFile (p @ ''.sha256'')) sm" and "parse_checksum (p @ ''.sha256'') sm = Inr want"
    and "run_state (file_checksum K R p) (h @ cs) = (Inr want, h')"
  shows "verified K R h' p"
  using assms file_checksum_leaves [OF assms(3)] read_as_append [of K h _ sm "cs @ [ReadFile p]"]
  unfolding verified_def by auto

text \<open>The names of temporary files and the name of the latest tag are not the image's.\<close>

definition temp_names_avoid :: "kernel \<Rightarrow> string \<Rightarrow> bool" where
  "temp_names_avoid K p = (\<forall>h dir pat n. answer_bytes K h (TempFile dir pat) = Inr n \<longrightarrow> to_text n \<noteq> p)"

lemma write_latest_avoids:
  assumes "temp_names_avoid K p" and "path_join [dir, ''latest''] \<noteq> p"
    and "run_state (write_latest K dir tag) h = (e, h')"
  shows "\<exists>cs. h' = h @ cs \<and> list_all (\<lambda>c. \<not> touches p c) cs"
proof -
  have fresh: "answer_bytes K h (TempFile dir pat) = Inr n \<Longrightarrow> to_text n = p \<Longrightarrow> False" for h pat n
    using assms(1) unfolding temp_names_avoid_def by blast
  show ?thesis using assms(2,3)
    by (auto simp: write_latest_def Let_def dest: fresh split: sum.splits option.splits prod.splits)
qed

lemma run_extends_download: "\<exists>cs. snd (run_state (download K R src p) h) = h @ cs"
  by (auto simp: download_def into_place_def split: sum.splits option.splits prod.splits)

lemma fetch_image_verified:
  assumes run: "run_state (fetch_image K R tag asset src path want) h = (Inr p, h')"
    and "read_as K h (ReadFile (path @ ''.sha256'')) sm" and "parse_checksum (path @ ''.sha256'') sm = Inr want"
    and "temp_names_avoid K p" and "path_join [rs_cache_dir R, ''latest''] \<noteq> p"
  shows "p = path \<and> verified K R h' p"
proof -
  let ?s = "Say ''downloading k0smos %s %s to %s'' [tag, asset, path]"
  let ?w = "if rs_release R = ''latest'' then write_latest K (rs_cache_dir R) tag else give None"
  obtain h1 got h2 where d: "run_state (download K R src path) (h @ [?s]) = (None, h1)"
    and f: "run_state (file_checksum K R path) h1 = (Inr got, h2)"
    and rest: "run_state (if got \<noteq> want then do {
           _ \<leftarrow> do_unit K (Remove path);
           give (Inl (Errorf ''checksum mismatch for %s: got %s, want %s'' [asset, got, want] None)) }
         else check ?w (do { _ \<leftarrow> do_unit K (Say ''verified sha256:%s'' [got]); give (Inr path) })) h2 = (Inr p, h')"
    using run by (simp add: fetch_image_def del: run_check run_and_then) (elim check_elim and_then_elim, blast)
  obtain cs where h1: "h1 = h @ cs"
    using d run_extends_download [of K R src path "h @ [?s]"] by auto
  have got: "got = want" using rest by (auto split: if_splits)
  have v: "verified K R h2 path" using pass_checksums [OF assms(2,3)] f h1 got by simp
  obtain h3 where w: "run_state ?w h2 = (None, h3)" and p: "p = path" and h': "h' = h3 @ [Say ''verified sha256:%s'' [want]]"
    using rest got by (auto simp del: run_check split: if_splits elim!: check_elim)
  have "\<exists>cs. h3 = h2 @ cs \<and> list_all (\<lambda>c. \<not> touches p c) cs"
    using w write_latest_avoids [OF assms(4,5)] by (auto split: if_splits)
  with v h' p show ?thesis by (auto intro!: verified_append)
qed

lemma cached_or_fetched_verified:
  assumes run: "run_state (cached_or_fetched K R tag asset src path want) h = (Inr p, h')"
    and sum: "read_as K h (ReadFile (path @ ''.sha256'')) sm" "parse_checksum (path @ ''.sha256'') sm = Inr want"
    and avoid: "temp_names_avoid K p" "path_join [rs_cache_dir R, ''latest''] \<noteq> p"
  shows "verified K R h' p"
proof -
  let ?w = "if rs_release R = ''latest'' then write_latest K (rs_cache_dir R) tag else give None"
  obtain held h1 where f: "run_state (file_checksum K R path) h = (held, h1)" by fastforce
  with file_checksum_run have h1: "h1 = h @ [ReadFile path]" by (metis snd_conv)
  show ?thesis
  proof (cases "held = Inr want")
    case True
    have v: "verified K R h1 path"
      using pass_checksums [OF sum, where cs = "[]"] f True by simp
    obtain e h3 where w: "run_state ?w (h1 @ [Say ''using cached k0smos %s artifact %s'' [tag, path]]) = (e, h3)"
      by fastforce
    have p: "p = path" "h' = h3"
      using run f True w by (auto simp: cached_or_fetched_def split: if_splits)
    have "\<exists>cs. h3 = (h1 @ [Say ''using cached k0smos %s artifact %s'' [tag, path]]) @ cs \<and> list_all (\<lambda>c. \<not> touches p c) cs"
    proof (cases "rs_release R = ''latest''")
      case True
      with w show ?thesis by (intro write_latest_avoids [OF avoid]) simp
    qed (use w in simp)
    then obtain cs where "h3 = h1 @ (Say ''using cached k0smos %s artifact %s'' [tag, path] # cs)"
      and "list_all (\<lambda>c. \<not> touches p c) cs" by auto
    with v p verified_append [of K R h1 p] show ?thesis by auto
  next
    case False
    then have "run_state (fetch_image K R tag asset src path want) h1 = (Inr p, h')"
      using run f by (simp add: cached_or_fetched_def)
    from fetch_image_verified [OF this _ sum(2) avoid] read_as_append [OF sum(1)] h1
    show ?thesis by auto
  qed
qed

lemma resolve_in_verified:
  assumes run: "run_state (resolve_in K R asset rel) h = (Inr p, h')"
    and avoid: "temp_names_avoid K p" "path_join [rs_cache_dir R, ''latest''] \<noteq> p"
  shows "verified K R h' p"
proof -
  let ?p = "path_join [path_join [rs_cache_dir R, path_escape (gr_tag rel)], asset]"
  let ?auth = "rs_token R \<noteq> []"
  obtain i c where a: "release_artifacts rel asset = Inr (i, c)"
    using run by (auto simp: resolve_in_def split: sum.splits)
  obtain h1 want h2
    where w: "run_state (wanted_checksum K R (asset_source ?auth c) (?p @ ''.sha256'')) h1 = (Inr want, h2)"
      and rest: "run_state (cached_or_fetched K R (gr_tag rel) asset (asset_source ?auth i) ?p want) h2 = (Inr p, h')"
    using run unfolding resolve_in_def Let_def a sum.case prod.case
    by (elim check_elim and_then_elim)
  from wanted_checksum_leaves [OF w]
  obtain sm where "read_as K h2 (ReadFile (?p @ ''.sha256'')) sm" "parse_checksum (?p @ ''.sha256'') sm = Inr want"
    by blast
  from cached_or_fetched_verified [OF rest this avoid] show ?thesis .
qed

lemma cached_fallback_verified:
  assumes run: "run_state (cached_fallback K R asset) h = (Inr p, h')"
  shows "verified K R h' p"
proof -
  obtain tag want got h1 h2 h3
    where s: "run_state (read_checksum K (path_join [rs_cache_dir R, path_escape tag, asset] @ ''.sha256'')) h1 = (Inr want, h2)"
      and f: "run_state (file_checksum K R (path_join [rs_cache_dir R, path_escape tag, asset])) h2 = (Inr got, h3)"
      and g: "run_state (give (if got \<noteq> want then Inl (msg ''cached artifact checksum mismatch'')
          else Inr (path_join [rs_cache_dir R, path_escape tag, asset]))) h3 = (Inr p, h')"
    using run unfolding cached_fallback_def Let_def by (elim and_then_elim)
  have eq: "got = want" "h' = h3" and p: "p = path_join [rs_cache_dir R, path_escape tag, asset]"
    using g by (auto split: if_splits)
  from read_checksum_leaves [OF s] obtain sm
    where sm: "read_as K h2 (ReadFile (p @ ''.sha256'')) sm" "parse_checksum (p @ ''.sha256'') sm = Inr want"
    unfolding p by blast
  show ?thesis using pass_checksums [OF sm, where cs = "[]"] f eq p by simp
qed

text \<open>
  C8. A platform image the resolver hands to the machine has been verified: whatever GitHub, the
  network and the cache answer, if a path is returned, then its checksum file was read in this
  run and holds a SHA-256, the bytes of the image read afterwards hash to it, and nothing
  touched the image since. This holds for a cached image, a fresh download, a download that
  repaired a truncated cache and the fallback when GitHub is unreachable.
\<close>

theorem resolved_image_is_verified:
  assumes "run_state (artifact_resolve K R) h = (Inr p, h')"
    and "temp_names_avoid K p" and "path_join [rs_cache_dir R, ''latest''] \<noteq> p"
  shows "verified K R h' p"
proof -
  let ?R = "with_defaults R"
  let ?asset = "''k0smos-metal-'' @ rs_arch ?R @ ''.qcow2''"
  have same: "verified K ?R = verified K R" "rs_cache_dir ?R = rs_cache_dir R"
    by (simp_all add: verified_def with_defaults_def fun_eq_iff)
  obtain r h1 where "run_state (fetch_release K ?R)
      (h @ [Say ''resolving k0smos GitHub release %s for %s'' [rs_release ?R, rs_arch ?R]]) = (r, h1)"
    by fastforce
  with assms(1) have "(\<exists>rel. run_state (resolve_in K ?R ?asset rel) h1 = (Inr p, h')) \<or>
      (\<exists>h2. run_state (cached_fallback K ?R ?asset) h1 = (Inr p, h2) \<and>
        h' = h2 @ [Say ''GitHub is unavailable; using cached %s'' [p]])"
    by (auto simp: artifact_resolve_def Let_def split: sum.splits prod.splits)
  then show ?thesis
    using resolve_in_verified [of K ?R ?asset _ h1 p h'] cached_fallback_verified [of K ?R ?asset h1 p] assms(2,3)
    by (auto simp: same intro!: verified_append)
qed

definition offline_path :: string where "offline_path = ''/c/v1/k0smos-metal-arm64.qcow2''"

definition offline_kernel :: kernel where
  "offline_kernel = quiet_kernel
     \<lparr>answer_num := (\<lambda>h c. Inl (msg ''dial tcp: lookup api.github.com'')),
      answer_bytes := (\<lambda>h c. if c = ReadFile (offline_path @ ''.sha256'') then Inr (replicate 64 48)
                             else if c = ReadFile offline_path then Inr [7] else Inl NotExist)\<rparr>"

definition offline_resolver :: resolver where
  "offline_resolver =
     \<lparr>rs_api = [], rs_repo = [], rs_cache_dir = ''/c'', rs_release = ''v1'', rs_arch = ''arm64'', rs_token = [],
      rs_version = ''dev'', rs_json = (\<lambda>_. Inl (msg ''EOF'')), rs_sha256 = (\<lambda>_. replicate 32 0)\<rparr>"

lemma offline_checksum: "parse_checksum p (replicate 64 48) = Inr (replicate 64 (CHR ''0''))"
proof -
  have c: "char_of_byte 48 = CHR ''0''" by (simp add: char_of_byte_def char_of_def bit_iff_odd)
  have "str_fields (replicate 64 (CHR ''0'')) = [replicate 64 (CHR ''0'')]"
    using fields_join_plain [of "[replicate 64 (CHR ''0'')]"] by (simp add: plain_word_def is_space_def)
  then show ?thesis
    by (simp add: parse_checksum_def to_text_def c hex_char_def is_digit_def to_lower_def lower_char_def list_all_iff)
qed

lemma offline_hash: "hex_bytes (replicate 32 0) = replicate 64 (CHR ''0'')"
proof -
  have "hex2 0 = ''00''" by (simp add: hex2_def digit_def char_of_def bit_iff_odd)
  then show ?thesis by (simp add: hex_bytes_def numeral_eq_Suc)
qed

lemma path_escape_id: "\<forall>c\<in>set s. path_safe c \<Longrightarrow> path_escape s = s"
  by (induction s) (simp_all add: path_escape_def)

lemma offline_tag: "path_escape ''v1'' = ''v1''"
  by (rule path_escape_id) (simp add: path_safe_def is_digit_def)

lemma offline_path_joined: "path_join [''/c'', path_escape ''v1'', ''k0smos-metal-arm64.qcow2''] = offline_path"
proof -
  have "path_join [''/c'', path_escape ''v1'', ''k0smos-metal-arm64.qcow2''] = path_clean ''/c/v1/k0smos-metal-arm64.qcow2''"
    unfolding offline_tag by (simp add: path_join_def)
  also have "\<dots> = offline_path" by (simp add: path_clean_def offline_path_def Let_def)
  finally show ?thesis .
qed

lemma offline_run: "fst (run_state (artifact_resolve offline_kernel offline_resolver) []) = Inr offline_path"
  by (simp add: artifact_resolve_def with_defaults_def offline_resolver_def fetch_release_def get_json_def
      offline_kernel_def cached_fallback_def Let_def offline_path_joined read_checksum_def offline_checksum
      file_checksum_def offline_hash)

lemma resolved_image_is_verified_witness:
  "verified offline_kernel offline_resolver
     (snd (run_state (artifact_resolve offline_kernel offline_resolver) [])) offline_path"
proof (rule resolved_image_is_verified [where h = "[]"])
  show "run_state (artifact_resolve offline_kernel offline_resolver) [] =
      (Inr offline_path, snd (run_state (artifact_resolve offline_kernel offline_resolver) []))"
    using offline_run by (metis prod.collapse)
  show "temp_names_avoid offline_kernel offline_path"
    by (simp add: temp_names_avoid_def offline_kernel_def)
  show "path_join [rs_cache_dir offline_resolver, ''latest''] \<noteq> offline_path"
    by (simp add: path_join_def path_clean_def offline_resolver_def offline_path_def Let_def)
qed

end
