(* ===== verification/Qemu_Args.thy ===== *)
theory Qemu_Args
  imports Release_Artifact Host_Control Config
begin

text \<open>
  The QEMU command line of a machine: \<^verbatim>\<open>guestFor\<close>, \<^verbatim>\<open>resolveFirmware\<close>, \<^verbatim>\<open>prepareFirmwareVars\<close>,
  \<^verbatim>\<open>qemuArgs\<close> and \<^verbatim>\<open>consoleArgs\<close> of \<^verbatim>\<open>cmd/k0smosctl/machine_up.go\<close>. A direct-kernel boot hands the
  init its configuration on the kernel command line, so the theory ends with what the init's
  parser (\<^verbatim>\<open>Config\<close>) reads from it.
\<close>

section \<open>Architectures\<close>

record guest_arch =
  ga_qemu :: string
  ga_machine :: string
  ga_console :: string
  ga_apk :: string
  ga_accel :: "string list"

definition guest_cidr :: string where "guest_cidr = ''10.0.2.15/24''"
definition guest_gateway :: string where "guest_gateway = ''10.0.2.2''"
definition accel_for :: "'h host_scheme \<Rightarrow> string \<Rightarrow> string list io" where
  "accel_for H guest_arch =
     (if guest_arch \<noteq> h_goarch H then give [''-accel'', ''tcg'']
      else if h_goos H = ''darwin'' then give [''-accel'', ''hvf'', ''-cpu'', ''host'']
      else do {
        r \<leftarrow> do_num (h_kernel H) (OpenFile ''/dev/kvm'' True);
        (case r of
           Inl _ \<Rightarrow> give [''-accel'', ''tcg'']
         | Inr fd \<Rightarrow> do { _ \<leftarrow> do_unit (h_kernel H) (CloseFd fd); give [''-accel'', ''kvm'', ''-cpu'', ''host''] })
      })"

definition guest_for :: "'h host_scheme \<Rightarrow> string \<Rightarrow> (err + guest_arch) io" where
  "guest_for H arch =
     (if arch = ''arm64'' \<or> arch = ''aarch64'' then do {
        accel \<leftarrow> accel_for H ''arm64'';
        give (Inr \<lparr>ga_qemu = ''qemu-system-aarch64'', ga_machine = ''virt'', ga_console = ''ttyAMA0'',
                   ga_apk = ''aarch64'', ga_accel = accel\<rparr>) }
      else if arch = ''amd64'' \<or> arch = ''x86_64'' then do {
        accel \<leftarrow> accel_for H ''amd64'';
        give (Inr \<lparr>ga_qemu = ''qemu-system-x86_64'', ga_machine = ''q35'', ga_console = ''ttyS0'',
                   ga_apk = ''x86_64'', ga_accel = accel\<rparr>) }
      else give (Inl (Errorf ''unsupported architecture %q'' [arch] None)))"

section \<open>Firmware\<close>

definition firmware_candidates :: "guest_arch \<Rightarrow> string list" where
  "firmware_candidates g =
     (if ga_apk g = ''x86_64'' then
        [''/opt/homebrew/share/qemu/edk2-x86_64-code.fd'', ''/usr/local/share/qemu/edk2-x86_64-code.fd'',
         ''/usr/share/OVMF/OVMF_CODE_4M.fd'', ''/usr/share/OVMF/OVMF_CODE.fd'',
         ''/usr/share/edk2/ovmf/OVMF_CODE.fd'', ''/usr/share/qemu/OVMF.fd'']
      else
        [''/opt/homebrew/share/qemu/edk2-aarch64-code.fd'', ''/usr/local/share/qemu/edk2-aarch64-code.fd'',
         ''/usr/share/AAVMF/AAVMF_CODE.fd'', ''/usr/share/edk2/aarch64/QEMU_EFI.fd'',
         ''/usr/share/qemu-efi-aarch64/QEMU_EFI.fd''])"

fun first_present :: "kernel \<Rightarrow> string list \<Rightarrow> string option io" where
  "first_present K [] = give None"
| "first_present K (p # ps) = do {
     e \<leftarrow> do_unit K (Stat p);
     (if e = None then give (Some p) else first_present K ps)
   }"

definition resolve_firmware :: "kernel \<Rightarrow> guest_arch \<Rightarrow> string \<Rightarrow> (err + string) io" where
  "resolve_firmware K g requested =
     (if requested \<noteq> [] then do {
        e \<leftarrow> do_unit K (Stat requested);
        give (if e \<noteq> None then Inl (Errorf ''UEFI firmware %s not found'' [requested] None) else Inr requested) }
      else do {
        r \<leftarrow> first_present K (firmware_candidates g);
        give (case r of
                Some p \<Rightarrow> Inr p
              | None \<Rightarrow> Inl (Errorf (''could not find UEFI firmware for %s; install QEMU with edk2 firmware, '' @
                                      ''or pass --firmware'') [ga_apk g] None))
      })"

definition vars_name :: "string \<Rightarrow> string" where
  "vars_name code =
     (if path_base code = ''OVMF_CODE_4M.fd'' then ''OVMF_VARS_4M.fd''
      else if path_base code = ''OVMF_CODE.fd'' then ''OVMF_VARS.fd'' else [])"

definition prepare_firmware_vars :: "'h host_scheme \<Rightarrow> string \<Rightarrow> string \<Rightarrow> (err + string) io" where
  "prepare_firmware_vars H code machine_dir =
     (if vars_name code = [] then give (Inr [])
      else do {
        let template = path_join [path_dir code, vars_name code];
        let dst = path_join [machine_dir, ''uefi-vars.fd''];
        t \<leftarrow> do_unit (h_kernel H) (Stat template);
        (case t of
           Some e \<Rightarrow> give (if is_not_exist e then Inr [] else Inl e)
         | None \<Rightarrow> do {
             d \<leftarrow> do_unit (h_kernel H) (Stat dst);
             (if d = None then give (Inr dst)
              else do {
                c \<leftarrow> clone_file H template dst;
                give (case c of Some e \<Rightarrow> Inl (wrap ''clone UEFI variable store: %w'' [] e) | None \<Rightarrow> Inr dst)
              })
           })
      })"

section \<open>The command line\<close>

record boot_spec =
  bs_kernel :: string
  bs_initramfs :: string
  bs_disk :: string
  bs_cidata :: string
  bs_data :: string
  bs_data_size :: string
  bs_socket :: string
  bs_mem :: string
  bs_cpus :: string
  bs_console :: string
  bs_exec :: string
  bs_firmware :: string
  bs_firmware_vars :: string
  bs_cluster_net :: string
  bs_cluster_mac :: string
  bs_api_port :: int
  bs_attach :: bool
  bs_interactive :: bool
  bs_artifact :: bool
  bs_dry_run :: bool

text \<open>A file that has to be there: \<^verbatim>\<open>if _, err := os.Stat(path); err != nil { return fatalf(..) }\<close>.\<close>

definition need_file :: "kernel \<Rightarrow> string \<Rightarrow> err \<Rightarrow> err option io" where
  "need_file K path missing = do {
     e \<leftarrow> do_unit K (Stat path);
     give (if e \<noteq> None then Some missing else None)
   }"

text \<open>
  The inputs of a direct boot are checked in the order a Go map is walked, which is not specified:
  \<open>kernel_first\<close> says which of the two orders it is.
\<close>

definition direct_inputs :: "bool \<Rightarrow> string \<Rightarrow> string \<Rightarrow> (string \<times> string) list" where
  "direct_inputs kernel_first k i =
     (if kernel_first then [(''kernel'', k), (''initramfs'', i)] else [(''initramfs'', i), (''kernel'', k)])"

fun need_inputs :: "kernel \<Rightarrow> (string \<Rightarrow> string \<Rightarrow> err) \<Rightarrow> (string \<times> string) list \<Rightarrow> err option io" where
  "need_inputs K missing [] = give None"
| "need_inputs K missing ((what, path) # ps) =
     guard_err (need_file K path (missing what path)) Some (need_inputs K missing ps)"

definition input_missing :: "string \<Rightarrow> string \<Rightarrow> err" where
  "input_missing what path = Errorf ''%s %s not found'' [what, path] None"

text \<open>What the parts of the command line pass on: the arguments so far and the kernel's command line.\<close>

type_synonym cmdline = "string list \<times> string"

definition direct_append :: "guest_arch \<Rightarrow> string" where
  "direct_append g =
     ''console='' @ ga_console g @ '' panic=10 k0smos.ip='' @ guest_cidr @ '' k0smos.gw='' @ guest_gateway @
     '' k0smos.dns='' @ guest_dns"

definition boot_args :: "kernel \<Rightarrow> bool \<Rightarrow> guest_arch \<Rightarrow> boot_spec \<Rightarrow> (err + cmdline) io" where
  "boot_args K kernel_first g s =
     (let args = [''-M'', ga_machine g] @ ga_accel g @ [''-m'', bs_mem s, ''-smp'', bs_cpus s] in
      if bs_artifact s then
        check (need_file K (bs_firmware s) (Errorf ''UEFI firmware %s not found'' [bs_firmware s] None))
          (check (need_file K (bs_disk s) (Errorf ''platform artifact disk %s not found'' [bs_disk s] None))
            (and_then
               (if bs_firmware_vars s = [] then give (Inr [])
                else check (need_file K (bs_firmware_vars s)
                              (Errorf ''UEFI variable store %s not found'' [bs_firmware_vars s] None))
                       (give (Inr [''-drive'', ''if=pflash,format=raw,unit=1,file='' @ bs_firmware_vars s])))
               (\<lambda>vars. give (Inr
                  (args @ [''-drive'', ''if=pflash,format=raw,unit=0,readonly=on,file='' @ bs_firmware s] @ vars @
                   [''-drive'', ''file='' @ bs_disk s @ '',if=virtio,format=qcow2''], [])))))
      else
        check (need_inputs K input_missing (direct_inputs kernel_first (bs_kernel s) (bs_initramfs s)))
          (give (Inr (args @ [''-kernel'', bs_kernel s, ''-initrd'', bs_initramfs s], direct_append g))))"

definition cidata_args :: "kernel \<Rightarrow> boot_spec \<Rightarrow> cmdline \<Rightarrow> (err + cmdline) io" where
  "cidata_args K s l =
     (if bs_cidata s = [] then give (Inr l)
      else check (need_file K (bs_cidata s) (Errorf ''cloud-init drive %s not found'' [bs_cidata s] None))
             (give (Inr (fst l @ [''-drive'', ''file='' @ bs_cidata s @ '',if=virtio,format=raw,readonly=on''], snd l))))"

definition data_args :: "'h host_scheme \<Rightarrow> boot_spec \<Rightarrow> cmdline \<Rightarrow> (err + cmdline) io" where
  "data_args H s l =
     (if bs_data s = [] then give (Inr l)
      else if bs_artifact s
      then give (Inl (msg (''the platform artifact already contains its /var volume; '' @
                           ''--data is only available with --direct-kernel'')))
      else check (if bs_dry_run s then give None else ensure_data_volume H (bs_data s) (bs_data_size s))
             (give (Inr (fst l @ [''-drive'', ''file='' @ bs_data s @ '',if=virtio,format=raw''],
                         snd l @ '' k0smos.data=auto''))))"

definition two_quotes :: string where "two_quotes = [CHR 0x27, CHR 0x27]"

definition root_args :: "kernel \<Rightarrow> boot_spec \<Rightarrow> cmdline \<Rightarrow> (err + cmdline) io" where
  "root_args K s l =
     (if \<not> bs_artifact s \<and> bs_disk s \<noteq> [] then
        check (need_file K (bs_disk s)
                 (Errorf (''root image %s not found '' @ em_dash @ '' build it with '' @ ticked ''make disk'' @
                          '', or pass --disk '' @ two_quotes @ '' to stay on the initramfs (kubelet cannot run there)'') [bs_disk s] None))
          (give (Inr (fst l @ [''-drive'', ''file='' @ bs_disk s @ '',if=virtio,format=raw''],
                      snd l @ '' k0smos.root=LABEL=k0smos k0smos.rootfstype=ext4'')))
      else if \<not> bs_artifact s \<and> bs_initramfs s \<noteq> [] then give (Inr (fst l, snd l @ '' k0smos.root=none''))
      else give (Inr l))"

definition exec_args :: "boot_spec \<Rightarrow> cmdline \<Rightarrow> (err + string list) io" where
  "exec_args s l =
     (if bs_exec s \<noteq> [] \<and> bs_artifact s
      then give (Inl (msg (''--exec is only available with --direct-kernel; '' @
                           ''configure an artifact boot through --cidata'')))
      else
        (let line = (if bs_exec s \<noteq> [] then snd l @ '' k0smos.exec='' @ bs_exec s else snd l)
         in give (Inr (if bs_artifact s then fst l else fst l @ [''-append'', line]))))"

definition socket_args :: "kernel \<Rightarrow> boot_spec \<Rightarrow> string list \<Rightarrow> (err + string list) io" where
  "socket_args K s args =
     (if bs_socket s = [] then give (Inr args)
      else
        check
          (if bs_dry_run s then give None
           else guard_err (do_unit K (MkdirAll (path_dir (bs_socket s)) perm_0755)) Some (do {
                  e \<leftarrow> do_unit K (Remove (bs_socket s));
                  give (case e of None \<Rightarrow> None | Some e \<Rightarrow> if is_not_exist e then None else Some e)
                }))
          (give (Inr (args @ [''-chardev'', ''socket,path='' @ bs_socket s @ '',server=on,wait=off,id=k0smosctl'',
                              ''-device'', ''virtio-serial-pci'',
                              ''-device'', ''virtserialport,chardev=k0smosctl,name=k0smos.control'']))))"

text \<open>\<^verbatim>\<open>net.ParseMAC\<close>: pairs of hexadecimal digits with colons or dashes, or groups of four with dots.\<close>

definition pair_at :: "string \<Rightarrow> nat \<Rightarrow> bool" where
  "pair_at s i = (hex_char (s ! i) \<and> hex_char (s ! Suc i))"

definition parse_mac :: "string \<Rightarrow> bool" where
  "parse_mac s =
     (if length s < 14 then False
      else if s ! 2 = CHR '':'' \<or> s ! 2 = CHR ''-'' then
        (let n = (length s + 1) div 3 in
         (length s + 1) mod 3 = 0 \<and> (n = 6 \<or> n = 8 \<or> n = 20) \<and>
         list_all (\<lambda>i. pair_at s (3 * i) \<and> (i + 1 < n \<longrightarrow> s ! (3 * i + 2) = s ! 2)) [0..<n])
      else if s ! 4 = CHR ''.'' then
        (let n = (length s + 1) div 5 in
         (length s + 1) mod 5 = 0 \<and> (2 * n = 6 \<or> 2 * n = 8 \<or> 2 * n = 20) \<and>
         list_all (\<lambda>i. pair_at s (5 * i) \<and> pair_at s (5 * i + 2) \<and> (i + 1 < n \<longrightarrow> s ! (5 * i + 4) = s ! 4)) [0..<n])
      else False)"

definition network_args :: "boot_spec \<Rightarrow> string list \<Rightarrow> err + string list" where
  "network_args s args =
     (let netdev = ''user,id=n0,dns='' @ guest_dns @
                   (if bs_api_port s \<noteq> 0 then '',hostfwd=tcp::'' @ dec_int (bs_api_port s) @ ''-:6443'' else []);
          args1 = args @ [''-netdev'', netdev, ''-device'', ''virtio-net-pci,netdev=n0'']
      in if bs_cluster_net s = [] then Inr args1
         else if bs_cluster_mac s \<noteq> [] \<and> \<not> parse_mac (bs_cluster_mac s)
         then Inl (wrap ''invalid cluster MAC %q: %w'' [bs_cluster_mac s]
                     (Errorf ''address %s: invalid MAC address'' [bs_cluster_mac s] None))
         else Inr (args1 @ [''-netdev'', ''socket,id=n1,connect='' @ bs_cluster_net s, ''-device'',
                            ''virtio-net-pci,netdev=n1'' @
                            (if bs_cluster_mac s \<noteq> [] then '',mac='' @ bs_cluster_mac s else [])]))"

definition console_args :: "kernel \<Rightarrow> boot_spec \<Rightarrow> (err + string list) io" where
  "console_args K s =
     (if \<not> bs_attach s \<and> \<not> bs_interactive s then
        give (if bs_console s = [] then Inl (msg ''a detached guest needs somewhere to write its console'')
              else Inr [''-display'', ''none'', ''-serial'', ''file:'' @ bs_console s])
      else if bs_interactive s then
        give (if bs_console s \<noteq> []
              then Inl (msg (''--interactive and --console cannot be combined; '' @
                             ''QEMU can only own the terminal or write to a file, not both''))
              else Inr [''-nographic'', ''-serial'', ''mon:stdio''])
      else if bs_console s \<noteq> [] then
        check (do_unit K (MkdirAll (path_dir (bs_console s)) perm_0755))
          (give (Inr [''-display'', ''none'', ''-chardev'', ''stdio,id=con,signal=on,logfile='' @ bs_console s,
                      ''-serial'', ''chardev:con'']))
      else give (Inr [''-display'', ''none'', ''-chardev'', ''stdio,id=con,signal=on'', ''-serial'', ''chardev:con'']))"

definition qemu_args :: "'h host_scheme \<Rightarrow> bool \<Rightarrow> guest_arch \<Rightarrow> boot_spec \<Rightarrow> (err + string list) io" where
  "qemu_args H kernel_first g s =
     (let K = h_kernel H in
      and_then (boot_args K kernel_first g s) (\<lambda>l.
      and_then (cidata_args K s l) (\<lambda>l.
      and_then (data_args H s l) (\<lambda>l.
      and_then (root_args K s l) (\<lambda>l.
      and_then (exec_args s l) (\<lambda>args.
      and_then (socket_args K s args) (\<lambda>args.
      and_then (give (network_args s args)) (\<lambda>args.
      and_then (console_args K s) (\<lambda>con. give (Inr (args @ con)))))))))))"

section \<open>What the init reads\<close>

text \<open>The words of the kernel command line of a direct boot, in the order they are appended.\<close>

definition append_words :: "guest_arch \<Rightarrow> boot_spec \<Rightarrow> string list" where
  "append_words g s =
     [''console='' @ ga_console g, ''panic=10'', ''k0smos.ip='' @ guest_cidr, ''k0smos.gw='' @ guest_gateway,
      ''k0smos.dns='' @ guest_dns] @
     (if bs_data s = [] then [] else [''k0smos.data=auto'']) @
     (if bs_disk s \<noteq> [] then [''k0smos.root=LABEL=k0smos'', ''k0smos.rootfstype=ext4'']
      else if bs_initramfs s \<noteq> [] then [''k0smos.root=none''] else []) @
     (if bs_exec s = [] then [] else [''k0smos.exec='' @ bs_exec s])"

text \<open>The configuration such a boot is meant to have.\<close>

definition direct_config :: "boot_spec \<Rightarrow> config" where
  "direct_config s = default_config
     \<lparr>IP := guest_cidr, Gateway := guest_gateway, DNS := guest_dns,
      Data := (if bs_data s = [] then [] else ''auto''),
      Root := (if bs_disk s \<noteq> [] then ''LABEL=k0smos'' else if bs_initramfs s \<noteq> [] then ''none'' else []),
      Exec := (if bs_exec s = [] then default_exec else split_on (CHR '','') (bs_exec s))\<rparr>"

lemma append_prefix_words:
  "join '' '' (append_words g s) =
     direct_append g @
     (if bs_data s = [] then [] else '' k0smos.data=auto'') @
     (if bs_disk s \<noteq> [] then '' k0smos.root=LABEL=k0smos k0smos.rootfstype=ext4''
      else if bs_initramfs s \<noteq> [] then '' k0smos.root=none'' else []) @
     (if bs_exec s = [] then [] else '' k0smos.exec='' @ bs_exec s)"
  by (simp add: append_words_def direct_append_def)

lemma plain_word_concat: "(\<forall>c\<in>set u. \<not> is_space c) \<Longrightarrow> u \<noteq> [] \<Longrightarrow> (\<forall>c\<in>set v. \<not> is_space c) \<Longrightarrow> plain_word (u @ v)"
  by (auto simp: plain_word_def)

lemma plain_append_words:
  assumes g: "plain_word (''console='' @ ga_console g)" and e: "bs_exec s = [] \<or> plain_word (bs_exec s)"
  shows "list_all plain_word (append_words g s)"
proof -
  have lits: "list_all plain_word [''panic=10'', ''k0smos.ip='' @ guest_cidr, ''k0smos.gw='' @ guest_gateway,
      ''k0smos.dns='' @ guest_dns, ''k0smos.data=auto'', ''k0smos.root=LABEL=k0smos'', ''k0smos.rootfstype=ext4'',
      ''k0smos.root=none'']"
    by (simp add: plain_word_def is_space_def guest_cidr_def guest_gateway_def guest_dns_def)
  have "list_all plain_word (if bs_exec s = [] then [] else [''k0smos.exec='' @ bs_exec s])"
    using e by (auto simp: plain_word_def is_space_def)
  then show ?thesis
    using g lits by (simp add: append_words_def)
qed

lemma parse_token_console: "parse_token (''console='' @ t) c = c"
  by (rule parse_token_foreign) (simp add: foreign_token_def has_prefix_def)

lemma parse_token_panic: "parse_token ''panic=10'' c = c"
  by (rule parse_token_foreign) (simp add: foreign_token_def has_prefix_def)

lemmas direct_tokens =
  parse_token_assign [of "''ip''", simplified] parse_token_assign [of "''gw''", simplified]
  parse_token_assign [of "''dns''", simplified] parse_token_assign [of "''data''" "''auto''", simplified]
  parse_token_assign [of "''root''" "''LABEL=k0smos''", simplified] parse_token_assign [of "''root''" "''none''", simplified]
  parse_token_assign [of "''rootfstype''" "''ext4''", simplified] parse_token_assign [of "''exec''", simplified]
  parse_token_console [simplified] parse_token_panic

lemma parse_append_words:
  assumes "plain_word (''console='' @ ga_console g)"
    and "bs_exec s = [] \<or> plain_word (bs_exec s) \<and> hd (bs_exec s) \<noteq> CHR '',''"
  shows "parse (join '' '' (append_words g s)) = direct_config s"
proof -
  have first: "bs_exec s \<noteq> [] \<Longrightarrow> hd (split_on (CHR '','') (bs_exec s)) \<noteq> []"
    using assms(2) by (cases "bs_exec s") (auto split: list.splits)
  have "parse (join '' '' (append_words g s)) = fold parse_token (append_words g s) default_config"
    using assms plain_append_words [of g s] by (intro parse_words) (auto simp: list_all_iff)
  also have "\<dots> = direct_config s"
    using first by (simp add: append_words_def direct_tokens set_key_def direct_config_def default_config_def)
  finally show ?thesis .
qed

text \<open>The kernel command line a successful run hands to QEMU.\<close>

lemma exec_args_direct:
  assumes "run_state (exec_args s l) h = (Inr args, h')" and "\<not> bs_artifact s"
  shows "args = fst l @ [''-append'', snd l @ (if bs_exec s = [] then [] else '' k0smos.exec='' @ bs_exec s)]"
  using assms by (auto simp: exec_args_def Let_def)

lemma root_args_direct:
  assumes "run_state (root_args K s l) h = (Inr l', h')" and "\<not> bs_artifact s"
  shows "snd l' = snd l @ (if bs_disk s \<noteq> [] then '' k0smos.root=LABEL=k0smos k0smos.rootfstype=ext4''
      else if bs_initramfs s \<noteq> [] then '' k0smos.root=none'' else [])"
  using assms by (auto simp: root_args_def split: if_splits option.splits prod.splits)

lemma data_args_direct:
  assumes "run_state (data_args H s l) h = (Inr l', h')"
  shows "snd l' = snd l @ (if bs_data s = [] then [] else '' k0smos.data=auto'')"
  using assms by (auto simp: data_args_def split: if_splits option.splits prod.splits)

lemma cidata_args_line:
  "run_state (cidata_args K s l) h = (Inr l', h') \<Longrightarrow> snd l' = snd l"
  by (auto simp: cidata_args_def split: if_splits option.splits prod.splits)

lemma boot_args_direct:
  assumes "run_state (boot_args K kf g s) h = (Inr l, h')" and "\<not> bs_artifact s"
  shows "snd l = direct_append g"
  using assms by (auto simp: boot_args_def Let_def split: option.splits prod.splits)

lemma socket_args_extend: "run_state (socket_args K s args) h = (Inr args', h') \<Longrightarrow> \<exists>more. args' = args @ more"
  by (auto simp: socket_args_def split: if_splits option.splits prod.splits)

lemma network_args_extend: "network_args s args = Inr args' \<Longrightarrow> \<exists>ext. args' = args @ ext"
  by (auto simp: network_args_def Let_def split: if_splits)

lemma direct_append_line:
  assumes "run_state (qemu_args H kf g s) h = (Inr args, h')" and d: "\<not> bs_artifact s"
  shows "\<exists>pre post. args = pre @ [''-append'', join '' '' (append_words g s)] @ post"
proof -
  obtain l1 h1 l2 h2 l3 h3 l4 h4 a5 h5 a6 h6 a7 h7 con h8
    where r: "run_state (boot_args (h_kernel H) kf g s) h = (Inr l1, h1)"
      "run_state (cidata_args (h_kernel H) s l1) h1 = (Inr l2, h2)"
      "run_state (data_args H s l2) h2 = (Inr l3, h3)"
      "run_state (root_args (h_kernel H) s l3) h3 = (Inr l4, h4)"
      "run_state (exec_args s l4) h4 = (Inr a5, h5)"
      "run_state (socket_args (h_kernel H) s a5) h5 = (Inr a6, h6)"
      "run_state (give (network_args s a6)) h6 = (Inr a7, h7)"
      "run_state (give (Inr (a7 @ con) :: err + string list)) h8 = (Inr args, h')"
    using assms(1) unfolding qemu_args_def Let_def by (elim and_then_elim) (rule that)
  have line: "snd l4 @ (if bs_exec s = [] then [] else '' k0smos.exec='' @ bs_exec s) = join '' '' (append_words g s)"
    using boot_args_direct [OF r(1) d] cidata_args_line [OF r(2)] data_args_direct [OF r(3)] root_args_direct [OF r(4) d]
    by (simp add: append_prefix_words)
  have a5: "a5 = fst l4 @ [''-append'', join '' '' (append_words g s)]"
    using exec_args_direct [OF r(5) d] line by simp
  obtain m where "a6 = a5 @ m" using socket_args_extend [OF r(6)] by blast
  moreover obtain m' where "a7 = a6 @ m'" using network_args_extend [of s a6 a7] r(7) by auto
  ultimately have "args = fst l4 @ [''-append'', join '' '' (append_words g s)] @ (m @ m' @ con)"
    using r(8) a5 by simp
  then show ?thesis by blast
qed

lemma guest_for_console:
  assumes "run_state (guest_for H arch) h = (Inr g, h')"
  shows "plain_word (''console='' @ ga_console g)"
proof -
  have "ga_console g = ''ttyAMA0'' \<or> ga_console g = ''ttyS0''"
    using assms by (simp add: guest_for_def split: if_split_asm prod.split_asm) force+
  then show ?thesis by (elim disjE) (simp_all add: plain_word_def is_space_def)
qed

text \<open>
  C19. A direct-kernel machine starts with the configuration it was asked for: whatever machine
  \<^verbatim>\<open>qemuArgs\<close> builds a command line for, the text it puts behind \<^verbatim>\<open>-append\<close>, read by the init's own
  parser, is the default configuration with the static address, gateway and resolver of QEMU's
  user network, the data volume found automatically exactly when one is attached, the root
  \<^verbatim>\<open>LABEL=k0smos\<close> exactly when a root disk is attached and no root otherwise, and the workload of
  \<^verbatim>\<open>--exec\<close> split at its commas. The exec text has no blanks and does not start with a comma.
\<close>

theorem direct_boot_configures_init:
  assumes "run_state (guest_for H arch) h0 = (Inr g, h1)"
    and "run_state (qemu_args H kf g s) h = (Inr args, h')" and "\<not> bs_artifact s"
    and "bs_exec s = [] \<or> plain_word (bs_exec s) \<and> hd (bs_exec s) \<noteq> CHR '',''"
  shows "\<exists>pre line post. args = pre @ [''-append'', line] @ post \<and> parse line = direct_config s"
  using direct_append_line [OF assms(2,3)] parse_append_words [OF guest_for_console [OF assms(1)] assms(4)] by blast

definition demo_spec :: boot_spec where
  "demo_spec =
     \<lparr>bs_kernel = ''vmlinuz'', bs_initramfs = ''initramfs.gz'', bs_disk = [], bs_cidata = ''cidata.iso'', bs_data = ''data.img'',
      bs_data_size = ''4G'', bs_socket = [], bs_mem = ''4096'', bs_cpus = ''2'', bs_console = ''console.log'',
      bs_exec = ''/bin/sh,-c'', bs_firmware = [], bs_firmware_vars = [], bs_cluster_net = [], bs_cluster_mac = [],
      bs_api_port = 6443, bs_attach = False, bs_interactive = False, bs_artifact = False, bs_dry_run = False\<rparr>"

definition demo_arch :: guest_arch where
  "demo_arch = \<lparr>ga_qemu = ''qemu-system-x86_64'', ga_machine = ''q35'', ga_console = ''ttyS0'', ga_apk = ''x86_64'',
                ga_accel = [''-accel'', ''tcg'']\<rparr>"

lemma demo_runs:
  "\<exists>g h1. run_state (guest_for (plain_host quiet_kernel) ''amd64'') [] = (Inr g, h1)"
  "\<exists>args h'. run_state (qemu_args (plain_host quiet_kernel) True g demo_spec) [] = (Inr args, h')"
  by (simp_all add: guest_for_def accel_for_def plain_host_def quiet_kernel_def qemu_args_def boot_args_def demo_spec_def
      direct_inputs_def need_file_def cidata_args_def data_args_def root_args_def exec_args_def socket_args_def
      network_args_def console_args_def ensure_data_volume_def Let_def)

lemma direct_boot_configures_init_witness:
  "\<exists>g args pre line post.
     fst (run_state (qemu_args (plain_host quiet_kernel) True g demo_spec) []) = Inr args \<and>
     args = pre @ [''-append'', line] @ post \<and> parse line = direct_config demo_spec"
proof -
  obtain g h1 where g: "run_state (guest_for (plain_host quiet_kernel) ''amd64'') [] = (Inr g, h1)"
    using demo_runs(1) by blast
  obtain args h' where a: "run_state (qemu_args (plain_host quiet_kernel) True g demo_spec) [] = (Inr args, h')"
    using demo_runs(2) by blast
  have "\<not> bs_artifact demo_spec" and "plain_word (bs_exec demo_spec) \<and> hd (bs_exec demo_spec) \<noteq> CHR '',''"
    by (simp_all add: demo_spec_def plain_word_def is_space_def)
  with direct_boot_configures_init [OF g a] obtain pre line post
    where "args = pre @ [''-append'', line] @ post" "parse line = direct_config demo_spec" by blast
  with a show ?thesis by (metis fst_conv)
qed

text \<open>
  What the tool prints or starts depends on no answer but the files it asks for: with a dry run
  of a detached machine, assembling the command line makes no change to the host; the only calls
  are lookups of files.
\<close>

theorem dry_run_only_looks:
  assumes "bs_dry_run s" and "\<not> bs_attach s"
  shows "emits (\<lambda>c. \<exists>p. c = Stat p) (qemu_args H kf g s)"
proof -
  have inputs: "emits (\<lambda>c. \<exists>p. c = Stat p) (need_inputs K m ps)" for K m ps
    by (induction ps rule: need_inputs.induct) (auto simp: need_file_def intro!: emits_intros)
  show ?thesis using assms
    by (auto simp: qemu_args_def boot_args_def need_file_def cidata_args_def data_args_def root_args_def exec_args_def
        socket_args_def console_args_def Let_def intro!: emits_intros inputs split: if_splits)
qed

lemma dry_run_only_looks_witness:
  "emits (\<lambda>c. \<exists>p. c = Stat p) (qemu_args (plain_host quiet_kernel) True demo_arch (demo_spec\<lparr>bs_dry_run := True\<rparr>))"
  by (rule dry_run_only_looks) (simp_all add: demo_spec_def)

end
