(* ===== verification/Timed_Wait.thy ===== *)
theory Timed_Wait
  imports Host_Run
begin

text \<open>
  Waiting with a deadline, as the host tool does it in \<^verbatim>\<open>waitUntilUp\<close>, \<^verbatim>\<open>startClusterHub\<close>,
  \<^verbatim>\<open>retryRequest\<close>, \<^verbatim>\<open>awaitNodesReady\<close> and \<^verbatim>\<open>cluster rm\<close>: a step is made again and again, with the clock
  read and a pause between the steps. The clock is a call like any other, so what is needed of it to
  show that such a loop ends is the hypothesis \<open>keeps_time\<close>. The contract the loops share is the
  locale \<open>timed_loop\<close>; each of them is an instance of it in the theory that defines it.
\<close>

section \<open>The clock\<close>

definition clock :: "kernel \<Rightarrow> int io" where
  "clock K = do { t \<leftarrow> do_num K ClockNano; give (case t of Inl _ \<Rightarrow> 0 | Inr n \<Rightarrow> n) }"

text \<open>
  \<open>keeps_time K t0\<close>: the clock answers, and never shows less than what was slept since \<open>t0\<close>.
\<close>

definition slept :: "history \<Rightarrow> nat" where
  "slept h = sum_list (map (\<lambda>c. case c of Sleep d \<Rightarrow> d | _ \<Rightarrow> 0) h)"

lemma slept_append [simp]: "slept (h @ cs) = slept h + slept cs" by (simp add: slept_def)

definition keeps_time :: "kernel \<Rightarrow> int \<Rightarrow> bool" where
  "keeps_time K t0 = (\<forall>h. \<exists>t. answer_num K h ClockNano = Inr t \<and> t0 + int (slept h) \<le> t)"

lemma emits_clock [emits_intros]: "P ClockNano \<Longrightarrow> emits P (clock K)"
  by (auto simp: clock_def intro!: emits_intros)

lemma clock_run:
  assumes "keeps_time K t0" and "run_state (clock K) h = (t, h')"
  shows "h' = h @ [ClockNano] \<and> t0 + int (slept h) \<le> t"
proof -
  obtain t1 where "answer_num K h ClockNano = Inr t1" "t0 + int (slept h) \<le> t1"
    using assms(1) unfolding keeps_time_def by blast
  with assms(2) show ?thesis by (simp add: clock_def)
qed

section \<open>Loops that give up\<close>

text \<open>
  A step either ends the loop with a result or goes on in a new state, and goes on only when the
  deadline had not passed before it and after it has slept.
\<close>

locale timed_loop =
  fixes K :: kernel and deadline :: int
    and step :: "'s \<Rightarrow> history \<Rightarrow> ('r + 's) \<times> history"
    and loop :: "'s \<Rightarrow> history \<Rightarrow> ('r \<times> history) option"
  assumes unroll: "loop s h = (case step s h of (Inl r, h') \<Rightarrow> Some (r, h') | (Inr s', h') \<Rightarrow> loop s' h')"
    and spends: "keeps_time K t0 \<Longrightarrow> step s h = (Inr s', h') \<Longrightarrow> t0 + int (slept h) \<le> deadline \<and> slept h < slept h'"
begin

lemma returns:
  assumes "keeps_time K t0"
  shows "\<exists>y. loop s h = Some y"
proof (induction "nat (deadline + 1 - t0 - int (slept h))" arbitrary: s h rule: less_induct)
  case less
  obtain r h' where run: "step s h = (r, h')" by fastforce
  show ?case
  proof (cases r)
    case (Inr s')
    with run spends [OF assms, of s h s' h'] have "t0 + int (slept h) \<le> deadline" "slept h < slept h'" by simp_all
    then obtain y where "loop s' h' = Some y" using less.hyps [of h' s'] by auto
    with run Inr show ?thesis by (subst unroll) simp
  qed (subst unroll, use run in simp)
qed

lemma finishes: "keeps_time K t0 \<Longrightarrow> ends (loop s)"
  using returns by (simp add: ends_def)

end

text \<open>A step that looks once and may have found what it waits for.\<close>

definition look_step :: "'r option io \<Rightarrow> unit \<Rightarrow> history \<Rightarrow> ('r + unit) \<times> history" where
  "look_step m u h = (case run_state m h of (Some r, h') \<Rightarrow> (Inl r, h') | (None, h') \<Rightarrow> (Inr (), h'))"

lemma look_step_again: "look_step m u h = (Inr v, h') \<longleftrightarrow> run_state m h = (None, h')"
  by (auto simp: look_step_def split: prod.splits option.splits)

end
