(* ===== verification/Machine_Up.thy ===== *)
theory Machine_Up
  imports Qemu_Args Shutdown Timed_Wait
begin

text \<open>
  \<^verbatim>\<open>k0smosctl machine up\<close> (\<^verbatim>\<open>cmd/k0smosctl/machine_up.go\<close>): choosing the inputs of a machine, giving it
  a disk of its own, and running QEMU in the foreground or in the background. The answer of the
  kernel to \<open>StartProc\<close> is the process id; \<open>PollProc\<close> asks whether a process has ended (its answer
  lists something exactly when it has, with the error of its exit status). \<open>WaitProc\<close> marks a wait
  for the process, with its limit, 0 if it has none. What ends a wait is not the program's to decide:
  the field \<open>uh_event\<close> of the host is what a \<^verbatim>\<open>select\<close> over the exit of QEMU and the signals of the
  terminal sees first, \<open>None\<close> if neither comes within the limit, and \<open>uh_exit\<close> the exit alone, \<open>None\<close> if
  the process never ends. A wait without a limit that nothing ends does not return: waits are runs.
\<close>

section \<open>Flags and host\<close>

record up_flags =
  uf_name :: string
  uf_kernel :: string
  uf_initramfs :: string
  uf_image :: string
  uf_disk :: string
  uf_cidata :: string
  uf_data :: string
  uf_data_size :: string
  uf_socket :: string
  uf_mem :: string
  uf_cpus :: string
  uf_arch :: string
  uf_console :: string
  uf_exec :: string
  uf_api_port :: int
  uf_attach :: bool
  uf_interactive :: bool
  uf_dry_run :: bool
  uf_direct_kernel :: bool
  uf_firmware :: string
  uf_release :: string
  uf_cache_dir :: string
  uf_cluster_net :: string
  uf_cluster_mac :: string
  uf_no_image :: bool
  uf_from_disk :: bool
  uf_changed :: "string list"

datatype guest_event = Exited "err option" | Interrupted

record up_host = host +
  uh_version :: string
  uh_json :: "bytes \<Rightarrow> err + github_release"
  uh_sha256 :: "bytes \<Rightarrow> bytes"
  uh_kernel_first :: bool
  uh_event :: "history \<Rightarrow> nat option \<Rightarrow> guest_event option"
  uh_exit :: "history \<Rightarrow> int \<Rightarrow> err option option"
  uh_time_text :: "int \<Rightarrow> string"

text \<open>The values of the flags that are not given.\<close>

definition default_flags :: "'h host_scheme \<Rightarrow> up_flags" where
  "default_flags H =
     \<lparr>uf_name = default_guest_name, uf_kernel = [], uf_initramfs = ''dist/k0smos-initramfs.gz'', uf_image = [],
      uf_disk = [], uf_cidata = [], uf_data = [], uf_data_size = ''4G'', uf_socket = [], uf_mem = ''4096'',
      uf_cpus = ''2'', uf_arch = h_goarch H, uf_console = [], uf_exec = [], uf_api_port = 6443,
      uf_attach = False, uf_interactive = False, uf_dry_run = False, uf_direct_kernel = False,
      uf_firmware = [], uf_release = ''latest'', uf_cache_dir = [], uf_cluster_net = [], uf_cluster_mac = [],
      uf_no_image = False, uf_from_disk = False, uf_changed = []\<rparr>"

definition changed :: "up_flags \<Rightarrow> string \<Rightarrow> bool" where
  "changed f flag = (flag \<in> set (uf_changed f))"

definition is_direct :: "up_flags \<Rightarrow> bool" where
  "is_direct f =
     (uf_direct_kernel f \<or> uf_from_disk f \<or> uf_no_image f \<or> changed f ''kernel'' \<or> changed f ''initramfs'' \<or>
      changed f ''disk'' \<or> changed f ''data'' \<or> changed f ''exec'')"

section \<open>The inputs\<close>

definition build_hint :: "string \<Rightarrow> string \<Rightarrow> err" where
  "build_hint what path =
     Errorf (''%s %s not found '' @ em_dash @ '' build it with '' @ ticked ''make %s'' @ '', or point at one with --%s'')
       [what, path, what, what] None"

text \<open>The kernel, the image and the firmware the machine is started with.\<close>

definition direct_boot_inputs :: "'h up_host_scheme \<Rightarrow> up_flags \<Rightarrow> guest_arch \<Rightarrow> (err + string \<times> string \<times> string) io" where
  "direct_boot_inputs H f g =
     (if changed f ''release'' \<or> changed f ''cache-dir''
      then give (Inl (msg ''--release and --cache-dir are for platform artifacts, not direct-kernel boot''))
      else if changed f ''firmware''
      then give (Inl (msg ''--firmware is for platform artifacts; direct-kernel boot does not use UEFI''))
      else if changed f ''image'' \<and> \<not> uf_from_disk f
      then give (Inl (msg ''--image names the platform artifact; combine it with --from-disk only for the legacy ext4 path''))
      else
        (let k = (if uf_kernel f = [] then path_join [''dist'', ''kernel'', ga_apk g, ''vmlinuz''] else uf_kernel f);
             img = (if uf_image f = [] then path_join [''dist'', ''k0smos.img''] else uf_image f)
         in check (need_inputs (h_kernel H) build_hint (direct_inputs (uh_kernel_first H) k (uf_initramfs f)))
              (give (Inr (k, img, uf_firmware f)))))"

definition artifact_inputs :: "'h up_host_scheme \<Rightarrow> up_flags \<Rightarrow> guest_arch \<Rightarrow> (err + string \<times> string \<times> string) io" where
  "artifact_inputs H f g =
     and_then
       (if uf_image f = []
        then resolve_release_artifact H (uh_version H) (uh_json H) (uh_sha256 H) (ga_apk g) (uf_release f) (uf_cache_dir f)
        else give (Inr (uf_image f)))
       (\<lambda>img. and_then (resolve_firmware (h_kernel H) g (uf_firmware f)) (\<lambda>fw.
          give (Inr (uf_kernel f, img, fw))))"

definition machine_disk :: "'h host_scheme \<Rightarrow> up_flags \<Rightarrow> string \<Rightarrow> (err + string) io" where
  "machine_disk H f img =
     (if is_direct f then
        (if uf_no_image f then give (Inr [])
         else if uf_disk f \<noteq> [] then give (Inr (uf_disk f))
         else if uf_from_disk f then guest_disk H (uf_name f) img
         else give (Inr []))
      else guest_artifact H (uf_name f) img)"

definition machine_data :: "'h host_scheme \<Rightarrow> up_flags \<Rightarrow> (err + string) io" where
  "machine_data H f =
     (if is_direct f \<and> uf_data f = [] \<and> \<not> uf_no_image f then guest_data H (uf_name f) (uf_data_size f)
      else give (Inr (uf_data f)))"

section \<open>Getting ready\<close>

definition spec_for ::
  "up_flags \<Rightarrow> string \<Rightarrow> string \<Rightarrow> string \<Rightarrow> string \<Rightarrow> string \<Rightarrow> string \<Rightarrow> string \<Rightarrow> boot_spec"
where
  "spec_for f k fw disk data sock console vars =
     \<lparr>bs_kernel = k, bs_initramfs = uf_initramfs f, bs_disk = disk, bs_cidata = uf_cidata f, bs_data = data,
      bs_data_size = uf_data_size f, bs_socket = sock, bs_mem = uf_mem f, bs_cpus = uf_cpus f,
      bs_console = console, bs_exec = uf_exec f, bs_firmware = fw, bs_firmware_vars = vars,
      bs_cluster_net = uf_cluster_net f, bs_cluster_mac = uf_cluster_mac f, bs_api_port = uf_api_port f,
      bs_attach = uf_attach f, bs_interactive = uf_interactive f, bs_artifact = (\<not> is_direct f),
      bs_dry_run = uf_dry_run f\<rparr>"

text \<open>Refusing to start beside a machine that already answers, then the command line.\<close>

definition launch_args :: "'h up_host_scheme \<Rightarrow> guest_arch \<Rightarrow> boot_spec \<Rightarrow> (err + string list) io" where
  "launch_args H g s = do {
     live \<leftarrow> (if \<not> bs_dry_run s \<and> bs_socket s \<noteq> [] then guest_is_live (h_kernel H) (bs_socket s) else give False);
     (if live
      then give (Inl (Errorf (''a guest is already running on %s '' @ em_dash @ '' give this one its own '' @
                              ''--socket, --api-port and --disk, or stop that one first'') [bs_socket s] None))
      else and_then (qemu_args H (uh_kernel_first H) g s) (\<lambda>args. give (Inr (ga_qemu g # args))))
   }"

definition up_spec ::
  "'h up_host_scheme \<Rightarrow> up_flags \<Rightarrow> guest_arch \<Rightarrow> string \<times> string \<times> string \<Rightarrow> (err + boot_spec \<times> string) io"
where
  "up_spec H f g inputs =
     (case inputs of (k, img, fw) \<Rightarrow>
        and_then (ensure_guest_dir H (uf_name f)) (\<lambda>dir.
        and_then (give (guest_paths H (uf_name f))) (\<lambda>(con, sock, meta).
        and_then (machine_disk H f img) (\<lambda>disk.
        and_then (machine_data H f) (\<lambda>data.
          let sock' = (if uf_socket f = [] then sock else uf_socket f);
              con' = (if uf_console f = [] \<and> \<not> uf_attach f \<and> \<not> uf_interactive f then con else uf_console f)
          in check (give (check_socket_path sock'))
               (and_then (if is_direct f then give (Inr []) else prepare_firmware_vars H fw dir) (\<lambda>vars.
                  give (Inr (spec_for f k fw disk data sock' con' vars, meta)))))))))"

definition look_path :: "kernel \<Rightarrow> string \<Rightarrow> err option io" where
  "look_path K prog = do {
     e \<leftarrow> do_unit K (LookPath prog);
     give (if e \<noteq> None then Some (Errorf ''%s is not installed'' [prog] None) else None)
   }"

definition up_prepare :: "'h up_host_scheme \<Rightarrow> up_flags \<Rightarrow> (err + string list \<times> boot_spec \<times> string) io" where
  "up_prepare H f =
     (if changed f ''image'' \<and> (changed f ''release'' \<or> changed f ''cache-dir'')
      then give (Inl (msg (''--image bypasses release resolution, so it cannot be combined with '' @
                           ''--release or --cache-dir'')))
      else
        and_then (guest_for H (uf_arch f)) (\<lambda>g.
        and_then (if is_direct f then direct_boot_inputs H f g else artifact_inputs H f g) (\<lambda>inputs.
        check (look_path (h_kernel H) (ga_qemu g))
          (and_then (up_spec H f g inputs) (\<lambda>(s, meta).
           and_then (launch_args H g s) (\<lambda>argv. give (Inr (argv, s, meta))))))))"

section \<open>In the foreground\<close>

definition second :: nat where "second = 10 ^ 9"
definition shutdown_grace :: nat where "shutdown_grace = 60 * second"
definition startup_grace :: nat where "startup_grace = 10 * second"

text \<open>
  The three waits: the \<^verbatim>\<open>select\<close> without a limit, the one with \<^verbatim>\<open>time.After\<close>, whose answer \<open>None\<close> is the
  timer, and \<^verbatim>\<open><-done\<close>, which only the exit of QEMU ends.
\<close>

definition await_event :: "'h up_host_scheme \<Rightarrow> int \<Rightarrow> guest_event run" where
  "await_event H pid h = map_option (\<lambda>ev. (ev, h @ [WaitProc pid 0])) (uh_event H h None)"

definition await_within :: "'h up_host_scheme \<Rightarrow> int \<Rightarrow> nat \<Rightarrow> guest_event option io" where
  "await_within H pid limit = State (\<lambda>h. (uh_event H h (Some limit), h @ [WaitProc pid limit]))"

lemma run_await_within [simp]:
  "run_state (await_within H pid n) h = (uh_event H h (Some n), h @ [WaitProc pid n])"
  by (simp add: await_within_def)

definition await_exit :: "'h up_host_scheme \<Rightarrow> int \<Rightarrow> err option run" where
  "await_exit H pid h = map_option (\<lambda>e. (e, h @ [WaitProc pid 0])) (uh_exit H h pid)"

definition kill_guest :: "'h up_host_scheme \<Rightarrow> int \<Rightarrow> err \<Rightarrow> err option run" where
  "kill_guest H pid e =
     seq_run (lift (do_unit (h_kernel H) (Kill pid sig_kill))) (\<lambda>_.
       seq_run (await_exit H pid) (\<lambda>_. lift (give (Some e))))"

text \<open>\<^verbatim>\<open>poweroff\<close> over the control socket, ignoring whether it gets through.\<close>

definition ask_to_stop :: "'h up_host_scheme \<Rightarrow> string \<Rightarrow> unit io" where
  "ask_to_stop H sock = do {
     e \<leftarrow> do_unit (h_kernel H) (Dial sock);
     (case e of
        None \<Rightarrow> do {
          _ \<leftarrow> do_unit (h_kernel H) (SockSend sock (to_bytes (''poweroff'' @ [newline])));
          _ \<leftarrow> do_unit (h_kernel H) (SockClose sock);
          give () }
      | Some _ \<Rightarrow> do {
          _ \<leftarrow> do_unit (h_kernel H) (Say ''warn: could not reach %s: %v'' [sock]);
          give () })
   }"

definition stop_guest :: "'h up_host_scheme \<Rightarrow> int \<Rightarrow> string \<Rightarrow> err option run" where
  "stop_guest H pid sock =
     (let K = h_kernel H in
      if sock = []
      then seq_run (lift (do_unit K (Say (''interrupted, and no control port to stop the guest through '' @ em_dash @ '' killing QEMU'') [])))
             (\<lambda>_. kill_guest H pid (msg ''guest killed; its filesystem may need a repair pass''))
      else seq_run
        (lift (do {
           _ \<leftarrow> do_unit K (Say ''stopping the guest cleanly (up to %s; interrupt again to kill it)'' [dec shutdown_grace]);
           _ \<leftarrow> ask_to_stop H sock;
           await_within H pid shutdown_grace }))
        (\<lambda>ev. case ev of
            Some (Exited e) \<Rightarrow> lift (do { _ \<leftarrow> do_unit K (Say ''guest stopped'' []); give e })
          | Some Interrupted \<Rightarrow>
              seq_run (lift (do_unit K (Say ''killing QEMU; the filesystem may need a repair pass'' [])))
                (\<lambda>_. kill_guest H pid (msg ''guest killed before it finished shutting down''))
          | None \<Rightarrow>
              seq_run (lift (do_unit K (Say ''guest did not stop within %s; killing QEMU'' [dec shutdown_grace])))
                (\<lambda>_. kill_guest H pid (msg ''guest did not shut down in time''))))"

text \<open>QEMU is kept out of the terminal's process group unless it owns the terminal.\<close>

definition run_guest :: "'h up_host_scheme \<Rightarrow> string list \<Rightarrow> boot_spec \<Rightarrow> err option run" where
  "run_guest H argv s =
     seq_run (lift (do_num (h_kernel H) (StartProc argv (\<not> bs_interactive s)))) (\<lambda>r.
       case r of
         Inl e \<Rightarrow> lift (give (Some e))
       | Inr pid \<Rightarrow> seq_run (await_event H pid) (\<lambda>ev.
           case ev of Exited e \<Rightarrow> lift (give e) | Interrupted \<Rightarrow> stop_guest H pid (bs_socket s)))"

section \<open>In the background\<close>

definition poll_step :: nat where "poll_step = 50 * 10 ^ 6"

text \<open>One look: \<open>Some\<close> is the result of \<^verbatim>\<open>waitUntilUp\<close>, \<open>None\<close> another round.\<close>

definition up_look :: "kernel \<Rightarrow> int \<Rightarrow> string \<Rightarrow> int \<Rightarrow> err option option io" where
  "up_look K pid sock deadline = do {
     st \<leftarrow> do_walk K (PollProc pid);
     (case st of
        (_ # _, Some e) \<Rightarrow> give (Some (Some (wrap ''qemu exited immediately: %w'' [] e)))
      | (_ # _, None) \<Rightarrow> give (Some (Some (msg ''qemu exited immediately'')))
      | ([], _) \<Rightarrow> do {
          up \<leftarrow> (if sock = [] then give True else do { e \<leftarrow> do_unit K (Stat sock); give (e = None) });
          (if up then give (Some None)
           else do {
             t \<leftarrow> clock K;
             (if t > deadline
              then give (Some (Some (Errorf ''no control socket at %s after %s'' [sock, dec startup_grace] None)))
              else do { _ \<leftarrow> do_unit K (Sleep poll_step); give None })
           })
        })
   }"

partial_function (option) until_up :: "kernel \<Rightarrow> int \<Rightarrow> string \<Rightarrow> int \<Rightarrow> history \<Rightarrow> (err option \<times> history) option" where
  "until_up K pid sock deadline h =
     (case run_state (up_look K pid sock deadline) h of
        (Some r, h') \<Rightarrow> Some (r, h')
      | (None, h') \<Rightarrow> until_up K pid sock deadline h')"

definition wait_until_up :: "kernel \<Rightarrow> int \<Rightarrow> string \<Rightarrow> nat \<Rightarrow> history \<Rightarrow> (err option \<times> history) option" where
  "wait_until_up K pid sock timeout h =
     (case run_state (clock K) h of (t, h') \<Rightarrow> until_up K pid sock (t + int timeout) h')"

definition last_lines_of :: "nat \<Rightarrow> string \<Rightarrow> string" where
  "last_lines_of n s =
     (let ls = split_on newline (trim_right (\<lambda>c. c = newline) s)
      in join [newline] (drop (length ls - n) ls))"

definition last_lines :: "kernel \<Rightarrow> string \<Rightarrow> nat \<Rightarrow> string io" where
  "last_lines K path n = do {
     r \<leftarrow> do_bytes K (ReadFile path);
     give (case r of Inl _ \<Rightarrow> [] | Inr b \<Rightarrow> last_lines_of n (to_text b))
   }"

text \<open>What is said and recorded once the machine is up.\<close>

definition announce :: "'h up_host_scheme \<Rightarrow> boot_spec \<Rightarrow> string \<Rightarrow> int \<Rightarrow> unit io" where
  "announce H s name pid = do {
     let K = h_kernel H;
     let suffix = (if name \<noteq> default_guest_name then '' --name '' @ name else []);
     _ \<leftarrow> do_unit K (Say ''guest %q running in the background (pid %d)'' [name, dec_int pid]);
     _ \<leftarrow> do_unit K (Say ''  console:  k0smosctl machine logs -f%s'' [suffix]);
     _ \<leftarrow> (if bs_api_port s \<noteq> 0
           then do_unit K (Say ''  cluster:  k0smosctl cluster kubeconfig%s -o kubeconfig   (API on :%d)''
                             [suffix, dec_int (bs_api_port s)])
           else give None);
     _ \<leftarrow> do_unit K (Say ''  stop it:  k0smosctl machine shutdown%s'' [suffix]);
     give ()
   }"

definition record_guest :: "'h up_host_scheme \<Rightarrow> boot_spec \<Rightarrow> string \<Rightarrow> string \<Rightarrow> int \<Rightarrow> err option io" where
  "record_guest H s name meta pid =
     guard_err (do_unit (h_kernel H) (ReleaseProc pid)) Some (do {
       t \<leftarrow> clock (h_kernel H);
       e \<leftarrow> save_meta H meta \<lparr>gm_name = name, gm_pid = pid, gm_disk = bs_disk s, gm_api_port = bs_api_port s,
                             gm_started = uh_time_text H t\<rparr>;
       _ \<leftarrow> (if e \<noteq> None then do_unit (h_kernel H) (Say ''warn: could not record guest state: %v'' []) else give None);
       _ \<leftarrow> announce H s name pid;
       give None
     })"

definition start_detached :: "kernel \<Rightarrow> string list \<Rightarrow> boot_spec \<Rightarrow> (err + int) io" where
  "start_detached K argv s = check (do_unit K (CreateFile (bs_console s))) (do_num K (StartProc argv True))"

definition detach ::
  "'h up_host_scheme \<Rightarrow> string list \<Rightarrow> boot_spec \<Rightarrow> string \<Rightarrow> string \<Rightarrow> history \<Rightarrow> (err option \<times> history) option"
where
  "detach H argv s name meta h =
     (case run_state (start_detached (h_kernel H) argv s) h of
        (Inl e, h1) \<Rightarrow> Some (Some e, h1)
      | (Inr pid, h1) \<Rightarrow>
          (case wait_until_up (h_kernel H) pid (bs_socket s) startup_grace h1 of
             None \<Rightarrow> None
           | Some (Some e, h2) \<Rightarrow>
               (case run_state (last_lines (h_kernel H) (bs_console s) 5) h2 of
                  (tail, h3) \<Rightarrow> Some (Some (wrap (''%w'' @ [newline] @ ''%s'') [tail] e), h3))
           | Some (None, h2) \<Rightarrow> Some (run_state (record_guest H s name meta pid) h2)))"

section \<open>The command\<close>

definition boot_hint :: "up_flags \<Rightarrow> string" where
  "boot_hint f =
     (if uf_interactive f
      then ''escape with ctrl-a x '' @ em_dash @ '' but that kills the guest, so prefer '' @
           ticked ''k0smosctl machine shutdown'' @ '' from another terminal''
      else ''ctrl-c shuts the guest down cleanly'')"

definition machine_up :: "'h up_host_scheme \<Rightarrow> up_flags \<Rightarrow> history \<Rightarrow> (err option \<times> history) option" where
  "machine_up H f h =
     (case run_state (up_prepare H f) h of
        (Inl e, h1) \<Rightarrow> Some (Some e, h1)
      | (Inr (argv, s, meta), h1) \<Rightarrow>
          if uf_dry_run f
          then Some (run_state (do { _ \<leftarrow> do_unit (h_kernel H) (Say ''%s'' [join '' '' argv]); give None }) h1)
          else if uf_interactive f \<or> uf_attach f
          then seq_run (lift (do_unit (h_kernel H) (Say ''booting %s; %s'' [hd argv, boot_hint f])))
                 (\<lambda>_. run_guest H argv s) h1
          else detach H argv s (uf_name f) meta h1)"

section \<open>Waiting ends\<close>

text \<open>The calls of the waiting loop.\<close>

fun waits :: "call \<Rightarrow> bool" where
  "waits (PollProc _) = True"
| "waits (Stat _) = True"
| "waits ClockNano = True"
| "waits (Sleep _) = True"
| "waits _ = False"

lemma emits_up_look: "emits waits (up_look K pid sock deadline)"
  by (auto simp: up_look_def intro!: emits_intros)

lemma up_look_again:
  assumes "keeps_time K t0" and "run_state (up_look K pid sock deadline) h = (None, h')"
  shows "t0 + int (slept h) \<le> deadline \<and> slept h < slept h'"
proof -
  obtain t where "answer_num K (h @ [PollProc pid, Stat sock]) ClockNano = Inr t"
    and "t0 + int (slept (h @ [PollProc pid, Stat sock])) \<le> t"
    using assms(1) unfolding keeps_time_def by blast
  with assms(2) show ?thesis
    by (auto simp: up_look_def clock_def slept_def poll_step_def split: prod.splits list.splits option.splits if_splits)
qed

interpretation up_wait: timed_loop K deadline "look_step (up_look K pid sock deadline)" "\<lambda>_. until_up K pid sock deadline"
  for K pid sock deadline
proof
  show "until_up K pid sock deadline h =
      (case look_step (up_look K pid sock deadline) s h of
         (Inl r, h') \<Rightarrow> Some (r, h') | (Inr s', h') \<Rightarrow> until_up K pid sock deadline h')" for s h
    by (subst until_up.simps) (simp add: look_step_def split: prod.split option.split)
qed (use up_look_again in \<open>simp add: look_step_again\<close>)

lemma wait_until_up_returns:
  "keeps_time K t0 \<Longrightarrow> \<exists>y. wait_until_up K pid sock timeout h = Some y"
  using up_wait.returns by (simp add: wait_until_up_def split: prod.split)

lemma detach_returns: "keeps_time (h_kernel H) t0 \<Longrightarrow> \<exists>y. detach H argv s name meta h = Some y"
  using wait_until_up_returns [of "h_kernel H" t0]
  by (auto simp: detach_def split: prod.split sum.split option.split) (metis option.distinct(1))

lemma until_up_extends:
  assumes "until_up K pid sock deadline h = Some (r, h')"
  shows "\<exists>cs. h' = h @ cs \<and> list_all waits cs"
proof -
  have "\<exists>cs. snd y = g @ cs \<and> list_all waits cs" if "until_up L p s d g = Some y" for L p s d g y
  proof (rule until_up.raw_induct [where P = "\<lambda>L p s d g y. \<exists>cs. snd y = g @ cs \<and> list_all waits cs", OF _ that])
    fix rec L p s d g y
    assume ih: "\<And>L p s d g y. rec L p s d g = Some y \<Longrightarrow> \<exists>cs. snd y = g @ cs \<and> list_all waits cs"
      and step: "(case run_state (up_look L p s d) g of (Some r, g') \<Rightarrow> Some (r, g') | (None, g') \<Rightarrow> rec L p s d g') = Some y"
    obtain cs where cs: "snd (run_state (up_look L p s d) g) = g @ cs" "list_all waits cs"
      using emits_up_look by (rule emitsE)
    from step cs show "\<exists>cs. snd y = g @ cs \<and> list_all waits cs"
      by (auto split: prod.splits option.splits dest!: ih)
  qed
  from this [OF assms] show ?thesis by simp
qed

lemma wait_until_up_extends:
  assumes "wait_until_up K pid sock timeout h = Some (r, h')"
  shows "\<exists>cs. h' = h @ cs \<and> list_all waits cs"
  using assms by (auto simp: wait_until_up_def clock_def dest!: until_up_extends split: prod.splits)

text \<open>
  In the foreground the tool stays with QEMU, so it comes back when the machine ends or is interrupted,
  and after a \<^verbatim>\<open>SIGKILL\<close> when the killed process is gone. That these come is what is asked of the host.
\<close>

definition killed_guests_exit :: "'h up_host_scheme \<Rightarrow> bool" where
  "killed_guests_exit H = (\<forall>h pid. uh_exit H (h @ [Kill pid sig_kill]) pid \<noteq> None)"

definition guests_end_or_are_interrupted :: "'h up_host_scheme \<Rightarrow> bool" where
  "guests_end_or_are_interrupted H = (\<forall>h. uh_event H h None \<noteq> None)"

lemma ends_kill_guest: "killed_guests_exit H \<Longrightarrow> ends (kill_guest H pid e)"
  by (auto simp: ends_def kill_guest_def seq_run_def lift_def await_exit_def killed_guests_exit_def split: option.split)

lemma ends_stop_guest: "killed_guests_exit H \<Longrightarrow> ends (stop_guest H pid sock)"
  unfolding stop_guest_def Let_def
  by (intro ends_intros ends_kill_guest) (auto intro!: ends_intros ends_kill_guest split: guest_event.split)

lemma ends_run_guest:
  assumes "guests_end_or_are_interrupted H" and "killed_guests_exit H"
  shows "ends (run_guest H argv s)"
proof -
  have "ends (await_event H pid)" for pid
    using assms(1) by (auto simp: ends_def await_event_def guests_end_or_are_interrupted_def)
  then show ?thesis unfolding run_guest_def
    by (intro ends_intros) (auto intro!: ends_intros ends_stop_guest assms split: guest_event.split)
qed

text \<open>
  C34. Starting a machine comes to an end. In the background, on a host whose clock runs at least
  as fast as the tool sleeps, \<^verbatim>\<open>machine up\<close> returns for every combination of flags, whatever the files, the
  network and QEMU do: the wait for the control socket gives up after its ten seconds. With
  \<^verbatim>\<open>--attach\<close> or \<^verbatim>\<open>--interactive\<close> it waits for QEMU without a limit, and returns on a host where QEMU
  ends or is interrupted some time and a process that was sent \<^verbatim>\<open>SIGKILL\<close> ends.
\<close>

theorem machine_up_returns:
  assumes "keeps_time (h_kernel H) t0"
    and "uf_attach f \<or> uf_interactive f \<Longrightarrow> guests_end_or_are_interrupted H \<and> killed_guests_exit H"
  shows "\<exists>r h'. machine_up H f h = Some (r, h')"
proof -
  have "uf_interactive f \<or> uf_attach f \<Longrightarrow>
      ends (seq_run (lift (do_unit (h_kernel H) (Say ''booting %s; %s'' [hd argv, boot_hint f]))) (\<lambda>_. run_guest H argv s))"
    for argv s using assms(2) by (intro ends_intros ends_run_guest) auto
  then show ?thesis
    using detach_returns [OF assms(1)]
    by (auto simp: machine_up_def ends_def simp del: split_paired_Ex split_paired_All split: prod.split sum.split) (metis surj_pair)+
qed

definition patient_kernel :: kernel where
  "patient_kernel = quiet_kernel\<lparr>answer_num := (\<lambda>h c. if c = ClockNano then Inr (int (slept h)) else Inr 7)\<rparr>"

definition demo_up_host :: "kernel \<Rightarrow> up_host" where
  "demo_up_host K =
     \<lparr>h_kernel = K, h_env = (\<lambda>k. if k = ''K0SMOS_STATE_DIR'' then ''/state'' else []),
      h_home = Inl NotExist, h_goos = ''linux'', h_goarch = ''amd64'',
      h_decode_guest = (\<lambda>_. Inl (msg ''unexpected end of JSON input'')), h_local_time = (\<lambda>t. t),
      uh_version = ''dev'', uh_json = (\<lambda>_. Inl (msg ''EOF'')), uh_sha256 = (\<lambda>_. replicate 32 0),
      uh_kernel_first = True, uh_event = (\<lambda>_ _. Some Interrupted), uh_exit = (\<lambda>_ _. Some None),
      uh_time_text = (\<lambda>_. zero_time)\<rparr>"

lemma demo_up_host_kernel [simp]: "h_kernel (demo_up_host K) = K"
  by (simp add: demo_up_host_def)

lemma demo_up_host_event: "uh_event (demo_up_host K) h n = Some Interrupted" "uh_exit (demo_up_host K) h p = Some None"
  by (simp_all add: demo_up_host_def)

text \<open>In the background and in the foreground.\<close>

lemma machine_up_returns_witness:
  "\<forall>fg. \<exists>r h'. machine_up (demo_up_host patient_kernel)
     ((default_flags (demo_up_host patient_kernel))\<lparr>uf_attach := fg\<rparr>) [] = Some (r, h')"
  by (intro allI machine_up_returns [where ?t0.0 = 0])
    (simp_all add: keeps_time_def patient_kernel_def quiet_kernel_def guests_end_or_are_interrupted_def
      killed_guests_exit_def demo_up_host_def)

section \<open>A machine that is running is left alone\<close>

fun starts_proc :: "call \<Rightarrow> bool" where
  "starts_proc (StartProc _ _) = True"
| "starts_proc _ = False"

text \<open>Getting ready starts nothing and signals nothing.\<close>

fun prepares :: "call \<Rightarrow> bool" where
  "prepares (StartProc _ _) = False"
| "prepares (Kill _ _) = False"
| "prepares _ = True"

named_theorems ready_intros

lemma emits_accel_for [ready_intros]: "emits prepares (accel_for H a)"
  by (auto simp: accel_for_def intro!: emits_intros)

lemma emits_guest_for [ready_intros]: "emits prepares (guest_for H a)"
  by (auto simp: guest_for_def intro!: emits_intros ready_intros)

lemma emits_download [ready_intros]: "emits prepares (download K R src p)"
  by (auto simp: download_def into_place_def intro!: emits_intros)

lemma emits_ensure_downloaded [ready_intros]: "emits prepares (ensure_downloaded K R src p)"
  by (auto simp: ensure_downloaded_def intro!: emits_intros ready_intros)

lemma emits_checksums [ready_intros]:
  "emits prepares (read_checksum K p)" "emits prepares (file_checksum K R p)"
  by (auto simp: read_checksum_def file_checksum_def intro!: emits_intros)

lemma emits_write_latest [ready_intros]: "emits prepares (write_latest K d t)"
  by (auto simp: write_latest_def Let_def intro!: emits_intros)

lemma emits_wanted_checksum [ready_intros]: "emits prepares (wanted_checksum K R src p)"
  by (auto simp: wanted_checksum_def intro!: emits_intros ready_intros)

lemma emits_fetch_image [ready_intros]: "emits prepares (fetch_image K R tag asset src p want)"
  by (auto simp: fetch_image_def intro!: emits_intros ready_intros)

lemma emits_cached_or_fetched [ready_intros]: "emits prepares (cached_or_fetched K R tag asset src p want)"
  by (auto simp: cached_or_fetched_def intro!: emits_intros ready_intros)

lemma emits_resolve_in [ready_intros]: "emits prepares (resolve_in K R asset rel)"
  by (auto simp: resolve_in_def Let_def intro!: emits_intros ready_intros)

lemma emits_cached_fallback [ready_intros]: "emits prepares (cached_fallback K R asset)"
  by (auto simp: cached_fallback_def Let_def intro!: emits_intros ready_intros)

lemma emits_fetch_release [ready_intros]: "emits prepares (fetch_release K R)"
  by (auto simp: fetch_release_def get_json_def intro!: emits_intros)

lemma emits_resolve_release [ready_intros]: "emits prepares (resolve_release_artifact H v d sh a r c)"
  by (auto simp: resolve_release_artifact_def artifact_resolve_def Let_def intro!: emits_intros ready_intros)

lemma emits_first_present [ready_intros]: "emits prepares (first_present K ps)"
  by (induction ps) (auto intro!: emits_intros)

lemma emits_resolve_firmware [ready_intros]: "emits prepares (resolve_firmware K g r)"
  by (auto simp: resolve_firmware_def intro!: emits_intros ready_intros)

lemma emits_clone_file [ready_intros]: "emits prepares (clone_file H a b)"
  by (auto simp: clone_file_def intro!: emits_intros)

lemma emits_firmware_vars [ready_intros]: "emits prepares (prepare_firmware_vars H c d)"
  by (auto simp: prepare_firmware_vars_def Let_def intro!: emits_intros ready_intros)

lemma emits_ensure_data_volume [ready_intros]: "emits prepares (ensure_data_volume H p n)"
  by (auto simp: ensure_data_volume_def Let_def intro!: emits_intros)

lemma emits_clone_guest_disk [ready_intros]: "emits prepares (clone_guest_disk H n i f w hint)"
  by (auto simp: clone_guest_disk_def Let_def intro!: emits_intros ready_intros)

lemma emits_machine_disk [ready_intros]: "emits prepares (machine_disk H f img)" "emits prepares (machine_data H f)"
  by (auto simp: machine_disk_def guest_disk_def guest_artifact_def machine_data_def guest_data_def Let_def
      intro!: emits_intros ready_intros)

lemma emits_need_file [ready_intros]: "emits prepares (need_file K p m)"
  by (auto simp: need_file_def intro!: emits_intros)

lemma emits_need_inputs [ready_intros]: "emits prepares (need_inputs K e ps)"
  by (induction ps rule: need_inputs.induct) (auto intro!: emits_intros ready_intros)

lemma emits_boot_args [ready_intros]: "emits prepares (boot_args K kf g s)"
  by (auto simp: boot_args_def Let_def intro!: emits_intros ready_intros)

lemma emits_drive_args [ready_intros]:
  "emits prepares (cidata_args K s l)" "emits prepares (data_args H s l)" "emits prepares (root_args K s l)"
  by (auto simp: cidata_args_def data_args_def root_args_def intro!: emits_intros ready_intros)

lemma emits_other_args [ready_intros]:
  "emits prepares (exec_args s l')" "emits prepares (socket_args K s l)" "emits prepares (console_args K s)"
  by (auto simp: exec_args_def socket_args_def console_args_def Let_def intro!: emits_intros)

lemma emits_qemu_args [ready_intros]: "emits prepares (qemu_args H kf g s)"
  unfolding qemu_args_def Let_def by (intro emits_intros ready_intros)

lemma emits_up_spec [ready_intros]: "emits prepares (up_spec H f g inputs)"
  by (auto simp: up_spec_def ensure_guest_dir_def Let_def intro!: emits_intros ready_intros)

lemma emits_inputs [ready_intros]:
  "emits prepares (direct_boot_inputs H f g)" "emits prepares (artifact_inputs H f g)"
  by (auto simp: direct_boot_inputs_def artifact_inputs_def Let_def intro!: emits_intros ready_intros)

lemma emits_launch_args [ready_intros]: "emits prepares (launch_args H g s)"
  by (auto simp: launch_args_def guest_is_live_def intro!: emits_intros ready_intros)

lemma emits_up_prepare: "emits prepares (up_prepare H f)"
  by (auto simp: up_prepare_def look_path_def intro!: emits_intros ready_intros)

definition socket_option :: "string \<Rightarrow> string" where
  "socket_option sock = ''socket,path='' @ sock @ '',server=on,wait=off,id=k0smosctl''"

lemma qemu_args_socket:
  assumes "run_state (qemu_args H kf g s) h = (Inr args, h')" and "bs_socket s \<noteq> []"
  shows "socket_option (bs_socket s) \<in> set args"
proof -
  obtain a5 h5 a6 h6 a7 h7 con h8
    where r: "run_state (socket_args (h_kernel H) s a5) h5 = (Inr a6, h6)"
      "run_state (give (network_args s a6)) h6 = (Inr a7, h7)"
      "run_state (give (Inr (a7 @ con) :: err + string list)) h8 = (Inr args, h')"
    using assms(1) unfolding qemu_args_def Let_def by (elim and_then_elim) (rule that)
  have "socket_option (bs_socket s) \<in> set a6"
    using r(1) assms(2) by (auto simp: socket_args_def socket_option_def split: if_splits option.splits prod.splits)
  moreover obtain m where "a7 = a6 @ m" using network_args_extend [of s a6 a7] r(2) by auto
  ultimately show ?thesis using r(3) by auto
qed

lemma launch_checked:
  assumes run: "run_state (launch_args H g s) h = (Inr argv, h')"
    and s: "\<not> bs_dry_run s" "bs_socket s \<noteq> []"
  shows "answer_unit (h_kernel H) h (Dial (bs_socket s)) \<noteq> None \<and>
    (\<exists>cs. h' = h @ Dial (bs_socket s) # cs \<and> list_all prepares cs) \<and> socket_option (bs_socket s) \<in> set argv"
proof -
  have refused: "answer_unit (h_kernel H) h (Dial (bs_socket s)) \<noteq> None"
    using run s by (cases "answer_unit (h_kernel H) h (Dial (bs_socket s))") (simp_all add: launch_args_def guest_is_live_def)
  have "run_state (and_then (qemu_args H (uh_kernel_first H) g s) (\<lambda>args. give (Inr (ga_qemu g # args) :: err + string list)))
      (h @ [Dial (bs_socket s)]) = (Inr argv, h')"
    using run s refused by (auto simp: launch_args_def guest_is_live_def simp del: run_and_then)
  then obtain args h2
    where q: "run_state (qemu_args H (uh_kernel_first H) g s) (h @ [Dial (bs_socket s)]) = (Inr args, h2)"
      and rest: "run_state (give (Inr (ga_qemu g # args) :: err + string list)) h2 = (Inr argv, h')"
    by (elim and_then_elim) (rule that)
  obtain cs where "h2 = (h @ [Dial (bs_socket s)]) @ cs" "list_all prepares cs"
    using emits_qemu_args [of H "uh_kernel_first H" g s] q by (metis emitsE snd_conv)
  with refused rest qemu_args_socket [OF q s(2)] show ?thesis by auto
qed

lemma path_join_not_Nil: "w \<noteq> [] \<Longrightarrow> path_join [d, w] \<noteq> []"
  using path_clean_not_Nil by (auto simp: path_join_def)

lemma up_spec_ready:
  assumes "run_state (up_spec H f g inputs) h = (Inr (s, meta), h')"
  shows "bs_socket s \<noteq> [] \<and> bs_dry_run s = uf_dry_run f \<and> bs_interactive s = uf_interactive f"
proof -
  obtain k img fw where i: "inputs = (k, img, fw)" by (metis prod_cases3)
  obtain dir h1 con sock meta' h2 disk h3 data h4 h5 vars h6 h7
    where p: "run_state (give (guest_paths H (uf_name f))) h1 = (Inr (con, sock, meta'), h2)"
      and r: "run_state (give (Inr (spec_for f k fw disk data (if uf_socket f = [] then sock else uf_socket f)
                (if uf_console f = [] \<and> \<not> uf_attach f \<and> \<not> uf_interactive f then con else uf_console f) vars, meta')
              :: err + boot_spec \<times> string)) h6 = (Inr (s, meta), h7)"
    using assms unfolding up_spec_def i prod.case Let_def
    by (elim and_then_elim check_elim) (auto elim!: and_then_elim check_elim)
  have "sock \<noteq> []" using p by (auto simp: guest_paths_def path_join_not_Nil socket_file_def split: sum.splits)
  with r show ?thesis by (auto simp: spec_for_def split: if_splits)
qed

lemma up_prepare_ready:
  assumes run: "run_state (up_prepare H f) h = (Inr (argv, s, meta), h')" and dry: "\<not> uf_dry_run f"
  shows "\<exists>u cs. h' = h @ u @ Dial (bs_socket s) # cs \<and> list_all prepares u \<and> list_all prepares cs \<and>
    answer_unit (h_kernel H) (h @ u) (Dial (bs_socket s)) \<noteq> None \<and> socket_option (bs_socket s) \<in> set argv"
proof -
  obtain g ha inputs hb h1 s' meta' h2 argv' h3
    where a: "run_state (guest_for H (uf_arch f)) h = (Inr g, ha)"
      and b: "run_state (if is_direct f then direct_boot_inputs H f g else artifact_inputs H f g) ha = (Inr inputs, hb)"
      and c: "run_state (look_path (h_kernel H) (ga_qemu g)) hb = (None, h1)"
      and u: "run_state (up_spec H f g inputs) h1 = (Inr (s', meta'), h2)"
      and l: "run_state (launch_args H g s') h2 = (Inr argv', h3)"
      and r: "run_state (give (Inr (argv', s', meta') :: err + string list \<times> boot_spec \<times> string)) h3 =
        (Inr (argv, s, meta), h')"
    using run unfolding up_prepare_def
    by (simp only: run_give split: if_split_asm)
      (auto elim!: and_then_elim check_elim simp del: run_and_then run_check)
  obtain c1 where c1: "ha = h @ c1" "list_all prepares c1" using emits_guest_for a by (rule emits_runE)
  have "emits prepares (if is_direct f then direct_boot_inputs H f g else artifact_inputs H f g)"
    by (simp add: emits_inputs)
  then obtain c2 where c2: "hb = ha @ c2" "list_all prepares c2" using b by (rule emits_runE)
  have c3: "h1 = hb @ [LookPath (ga_qemu g)]" using c by (simp add: look_path_def)
  obtain c4 where c4: "h2 = h1 @ c4" "list_all prepares c4" using emits_up_spec u by (rule emits_runE)
  have s: "s' = s" "argv' = argv" "h3 = h'" using r by simp_all
  have "\<not> bs_dry_run s" "bs_socket s \<noteq> []" using up_spec_ready [OF u] dry s by simp_all
  from launch_checked [OF l [unfolded s] this]
  obtain cs where "answer_unit (h_kernel H) h2 (Dial (bs_socket s)) \<noteq> None" "h' = h2 @ Dial (bs_socket s) # cs"
    "list_all prepares cs" "socket_option (bs_socket s) \<in> set argv" by blast
  with c1 c2 c3 c4 show ?thesis
    by (intro exI [of _ "c1 @ c2 @ [LookPath (ga_qemu g)] @ c4"] exI [of _ cs]) simp
qed

text \<open>The calls of the foreground and of the background start: QEMU is started once, with the prepared arguments.\<close>

definition only_starts :: "string list \<Rightarrow> call \<Rightarrow> bool" where
  "only_starts argv c = (\<forall>a own. c = StartProc a own \<longrightarrow> a = argv)"

lemma makes_waits:
  "P (WaitProc pid 0) \<Longrightarrow> makes P (await_event H pid)" "P (WaitProc pid 0) \<Longrightarrow> makes P (await_exit H pid)"
  by (auto simp: makes_def await_event_def await_exit_def)

lemma makes_stop_guest: "makes (only_starts argv) (stop_guest H p sock)"
proof -
  have k: "makes (only_starts argv) (kill_guest H p e)" for p e
    unfolding kill_guest_def by (intro makes_intros emits_intros makes_waits) (simp_all add: only_starts_def)
  have "emits (only_starts argv) (ask_to_stop H sock)" for sock
    by (auto simp: ask_to_stop_def only_starts_def intro!: emits_intros)
  moreover have "emits (only_starts argv) (await_within H p n)" for p n
    by (simp add: emits_def only_starts_def)
  ultimately show ?thesis unfolding stop_guest_def Let_def
    by (intro makes_intros emits_intros k) (auto simp: only_starts_def intro!: makes_intros emits_intros k split: guest_event.split)
qed

lemma makes_run_guest: "makes (only_starts argv) (run_guest H argv s)"
  unfolding run_guest_def
  by (intro makes_intros emits_intros makes_waits)
    (auto simp: only_starts_def intro!: makes_intros emits_intros makes_stop_guest split: guest_event.split)

lemma emits_start_detached: "emits (\<lambda>c. only_starts argv c \<and> (\<forall>p g. c \<noteq> Kill p g)) (start_detached K argv s)"
  by (auto simp: start_detached_def only_starts_def intro!: emits_intros)

fun leaves_running :: "call \<Rightarrow> bool" where
  "leaves_running (StartProc _ _) = False"
| "leaves_running (Kill _ _) = False"
| "leaves_running (RemoveAll _) = False"
| "leaves_running _ = True"

lemma emits_record_guest: "emits leaves_running (record_guest H s name meta pid)"
  by (auto simp: record_guest_def announce_def save_meta_def Let_def intro!: emits_intros)

lemma waits_leaves_running: "list_all waits cs \<Longrightarrow> list_all leaves_running cs"
  by (induction cs) (auto elim: waits.elims)

lemma detach_calls:
  assumes "detach H argv s name meta h = Some (r, h')"
  shows "\<exists>a b. h' = h @ a @ b \<and> a = added (start_detached (h_kernel H) argv s) h \<and> list_all leaves_running b"
proof -
  obtain pid h1 where st: "run_state (start_detached (h_kernel H) argv s) h = (pid, h1)" by fastforce
  then have h1: "h1 = h @ added (start_detached (h_kernel H) argv s) h"
    using emits_run [OF emits_start_detached [of argv "h_kernel H" s], of h] by simp
  show ?thesis
  proof (cases pid)
    case (Inl e)
    with assms st have "h' = h1" by (simp add: detach_def)
    with h1 show ?thesis by (intro exI [of _ "added (start_detached (h_kernel H) argv s) h"] exI [of _ "[]"]) simp
  next
    case (Inr p)
    with assms st obtain w h2 where w: "wait_until_up (h_kernel H) p (bs_socket s) startup_grace h1 = Some (w, h2)"
      by (auto simp: detach_def split: option.splits)
    from wait_until_up_extends [OF w] obtain c2 where c2: "h2 = h1 @ c2" "list_all leaves_running c2"
      using waits_leaves_running by blast
    obtain c3 where c3: "h' = h2 @ c3" "list_all leaves_running c3"
    proof (cases w)
      case None
      with assms st Inr w have "run_state (record_guest H s name meta p) h2 = (r, h')" by (simp add: detach_def)
      from emits_runE [OF emits_record_guest this] that show ?thesis by blast
    next
      case (Some e)
      with assms st Inr w have "h' = h2 @ [ReadFile (bs_console s)]"
        by (simp add: detach_def last_lines_def)
      then show ?thesis using that [of "[ReadFile (bs_console s)]"] by simp
    qed
    from h1 c2 c3 show ?thesis
      by (intro exI [of _ "added (start_detached (h_kernel H) argv s) h"] exI [of _ "c2 @ c3"]) simp
  qed
qed

lemma launch_only_starts:
  assumes "machine_up H f h = Some (r, h')" and "run_state (up_prepare H f) h = (Inr (av, s, meta), h1)" and "\<not> uf_dry_run f"
  obtains e where "h' = h1 @ e" and "list_all (only_starts av) e"
proof (cases "uf_interactive f \<or> uf_attach f")
  case True
  let ?fg = "seq_run (lift (do_unit (h_kernel H) (Say ''booting %s; %s'' [hd av, boot_hint f]))) (\<lambda>_. run_guest H av s)"
  have "makes (only_starts av) ?fg"
    by (intro makes_intros makes_run_guest emits_intros) (simp add: only_starts_def)
  moreover have "?fg h1 = Some (r, h')" using assms True by (simp add: machine_up_def)
  ultimately show ?thesis using that by (rule makesE)
next
  case False
  with assms have "detach H av s (uf_name f) meta h1 = Some (r, h')" by (simp add: machine_up_def)
  from detach_calls [OF this] obtain b
    where b: "h' = h1 @ added (start_detached (h_kernel H) av s) h1 @ b" "list_all leaves_running b" by blast
  have "list_all (only_starts av) (added (start_detached (h_kernel H) av s) h1)"
    using emits_added [OF emits_start_detached] by (auto simp: list_all_iff)
  moreover have "list_all (only_starts av) b"
    using b(2) by (auto simp: list_all_iff only_starts_def)
  ultimately show ?thesis using b(1) that by simp
qed

text \<open>
  C11. No machine is started beside a running one: whenever \<^verbatim>\<open>machine up\<close> starts QEMU, it has
  before that, and after everything it prepared, dialled the control socket it hands to QEMU, and
  nothing answered there. Two machines on one socket would share a disk.
\<close>

theorem qemu_starts_on_a_free_socket:
  assumes run: "machine_up H f h = Some (r, h')" and start: "StartProc argv own \<in> set (drop (length h) h')"
  shows "\<exists>u w sock. h' = h @ u @ Dial sock # w \<and> answer_unit (h_kernel H) (h @ u) (Dial sock) \<noteq> None \<and>
    socket_option sock \<in> set argv \<and> StartProc argv own \<notin> set u"
proof -
  obtain p h1 where prep: "run_state (up_prepare H f) h = (p, h1)" by fastforce
  obtain c0 where c0: "h1 = h @ c0" "list_all prepares c0" using emits_up_prepare prep by (rule emits_runE)
  have notin: "StartProc argv own \<notin> set c" if "list_all prepares c" for c
    using that by (auto simp: list_all_iff)
  obtain av s meta where p: "p = Inr (av, s, meta)"
    using run start prep c0 notin by (cases p) (auto simp: machine_up_def)
  have dry: "\<not> uf_dry_run f"
  proof
    assume "uf_dry_run f"
    with run prep p have "h' = h @ c0 @ [Say ''%s'' [join '' '' av]]" by (simp add: machine_up_def c0)
    with start notin [OF c0(2)] show False by simp
  qed
  from up_prepare_ready [OF prep [unfolded p] dry]
  obtain u cs where u: "h1 = h @ u @ Dial (bs_socket s) # cs" "list_all prepares u" "list_all prepares cs"
    and free: "answer_unit (h_kernel H) (h @ u) (Dial (bs_socket s)) \<noteq> None"
    and opt: "socket_option (bs_socket s) \<in> set av" by blast
  obtain e where e: "h' = h1 @ e" "list_all (only_starts av) e"
    using launch_only_starts [OF run prep [unfolded p] dry] .
  have "StartProc argv own \<in> set e"
    using start u e notin [OF u(2)] notin [OF u(3)] by auto
  with e(2) have "argv = av" by (auto simp: list_all_iff only_starts_def)
  with u(1) e(1) free opt notin [OF u(2)] show ?thesis by auto
qed

definition idle_kernel :: kernel where
  "idle_kernel = patient_kernel
     \<lparr>answer_unit := (\<lambda>h c. case c of Dial _ \<Rightarrow> Some (Errno ENOENT) | _ \<Rightarrow> None)\<rparr>"

definition smoke_flags :: up_flags where
  "smoke_flags = (default_flags (demo_up_host idle_kernel))\<lparr>uf_no_image := True, uf_attach := True\<rparr>"

lemma demo_guest_dir: "guest_dir (demo_up_host K) ''default'' = Inr ''/state/default''"
proof -
  have "state_root (demo_up_host K) = Inr ''/state''" by (simp add: state_root_def demo_up_host_def)
  moreover have "proper_name ''default''" by (simp add: proper_name_def)
  ultimately show ?thesis using plain_host_dir [of "''default''" K] by (simp add: guest_dir_def proper_name_valid)
qed

lemma demo_guest_paths:
  "guest_paths (demo_up_host K) ''default'' =
     Inr (path_join [''/state/default'', console_file], ''/state/default/control.sock'', path_join [''/state/default'', meta_file])"
proof -
  have "path_join [''/state/default'', socket_file] = ''/state/default/control.sock''"
    by (simp add: path_join_def path_clean_def Let_def socket_file_def)
  then show ?thesis by (simp add: guest_paths_def demo_guest_dir)
qed

lemma idle_answers [simp]:
  "answer_unit idle_kernel h c = (case c of Dial _ \<Rightarrow> Some (Errno ENOENT) | _ \<Rightarrow> None)"
  "answer_num idle_kernel h (OpenFile p b) = Inr 7" "answer_num idle_kernel h (StartProc argv own) = Inr 7"
  by (simp_all add: idle_kernel_def patient_kernel_def quiet_kernel_def)

lemma smoke_flag_values:
  "is_direct smoke_flags" "uf_no_image smoke_flags" "uf_attach smoke_flags" "uf_name smoke_flags = ''default''"
  "uf_arch smoke_flags = ''amd64''" "changed smoke_flags x = False" "uf_data smoke_flags = []" "uf_socket smoke_flags = []"
  "uf_dry_run smoke_flags = False" "uf_cidata smoke_flags = []" "uf_exec smoke_flags = []" "uf_console smoke_flags = []"
  "uf_cluster_net smoke_flags = []" "uf_interactive smoke_flags = False"
  by (simp_all add: smoke_flags_def default_flags_def is_direct_def changed_def default_guest_name_def demo_up_host_def)

lemma smoke_guest: "\<exists>g h'. run_state (guest_for (demo_up_host idle_kernel) ''amd64'') h = (Inr g, h')"
  by (simp add: guest_for_def accel_for_def)

lemma smoke_inputs:
  "\<exists>i h'. run_state (direct_boot_inputs (demo_up_host idle_kernel) smoke_flags g) h = (Inr i, h')"
  by (simp add: direct_boot_inputs_def smoke_flag_values direct_inputs_def need_file_def Let_def)

lemma smoke_spec:
  "\<exists>s meta h'. run_state (up_spec (demo_up_host idle_kernel) smoke_flags g i) h = (Inr (s, meta), h') \<and>
     bs_artifact s = False \<and> bs_cidata s = [] \<and> bs_data s = [] \<and> bs_disk s = [] \<and> bs_exec s = [] \<and>
     bs_cluster_net s = [] \<and> bs_attach s \<and> \<not> bs_interactive s \<and> bs_console s = []"
  by (cases i) (simp add: up_spec_def ensure_guest_dir_def demo_guest_dir demo_guest_paths smoke_flag_values machine_disk_def
      machine_data_def check_socket_path_def max_socket_path_def spec_for_def Let_def)

lemma smoke_launch:
  assumes "bs_artifact s = False \<and> bs_cidata s = [] \<and> bs_data s = [] \<and> bs_disk s = [] \<and> bs_exec s = [] \<and>
     bs_cluster_net s = [] \<and> bs_attach s \<and> \<not> bs_interactive s \<and> bs_console s = []"
  shows "\<exists>argv h'. run_state (launch_args (demo_up_host idle_kernel) g s) h = (Inr argv, h')"
  using assms
  by (simp add: launch_args_def guest_is_live_def qemu_args_def boot_args_def direct_inputs_def need_file_def cidata_args_def
      data_args_def root_args_def exec_args_def socket_args_def network_args_def console_args_def Let_def)

lemma smoke_prepared:
  "\<exists>argv s meta h1. run_state (up_prepare (demo_up_host idle_kernel) smoke_flags) [] = (Inr (argv, s, meta), h1)"
proof -
  let ?H = "demo_up_host idle_kernel"
  obtain g ha where g: "run_state (guest_for ?H ''amd64'') [] = (Inr g, ha)" using smoke_guest by blast
  obtain i hb where i: "run_state (direct_boot_inputs ?H smoke_flags g) ha = (Inr i, hb)" using smoke_inputs by blast
  obtain s meta hc where s: "run_state (up_spec ?H smoke_flags g i) (hb @ [LookPath (ga_qemu g)]) = (Inr (s, meta), hc)"
    and "bs_artifact s = False \<and> bs_cidata s = [] \<and> bs_data s = [] \<and> bs_disk s = [] \<and> bs_exec s = [] \<and>
     bs_cluster_net s = [] \<and> bs_attach s \<and> \<not> bs_interactive s \<and> bs_console s = []"
    using smoke_spec by blast
  with smoke_launch obtain argv hd' where l: "run_state (launch_args ?H g s) hc = (Inr argv, hd')" by blast
  show ?thesis
    by (simp add: up_prepare_def smoke_flag_values g i look_path_def s l)
qed

lemma qemu_starts_on_a_free_socket_witness:
  "\<exists>argv own h' u w sock. StartProc argv own \<in> set h' \<and> h' = u @ Dial sock # w \<and>
     answer_unit idle_kernel u (Dial sock) \<noteq> None \<and> socket_option sock \<in> set argv"
proof -
  let ?H = "demo_up_host idle_kernel"
  obtain argv s meta h1 where p: "run_state (up_prepare ?H smoke_flags) [] = (Inr (argv, s, meta), h1)"
    using smoke_prepared by blast
  let ?b = "Say ''booting %s; %s'' [hd argv, boot_hint smoke_flags]" and ?q = "StartProc argv (\<not> bs_interactive s)"
  have "ends (stop_guest ?H 7 (bs_socket s))"
    by (rule ends_stop_guest) (simp add: killed_guests_exit_def demo_up_host_def)
  then obtain r h' where r: "stop_guest ?H 7 (bs_socket s) (h1 @ [?b, ?q, WaitProc 7 0]) = Some (r, h')"
    unfolding ends_def by fastforce
  then have up: "machine_up ?H smoke_flags [] = Some (r, h')"
    using p by (simp add: machine_up_def smoke_flag_values seq_run_def lift_def run_guest_def await_event_def demo_up_host_event)
  have "grows (stop_guest ?H 7 (bs_socket s))" by (rule makes_any [OF makes_stop_guest [of "[]"]])
  then obtain w where "h' = (h1 @ [?b, ?q, WaitProc 7 0]) @ w" using r by (rule makesE)
  then have start: "?q \<in> set (drop (length ([] :: history)) h')" by simp
  from qemu_starts_on_a_free_socket [OF up start]
  obtain u w sock where w: "h' = u @ Dial sock # w" "answer_unit idle_kernel u (Dial sock) \<noteq> None" "socket_option sock \<in> set argv"
    by auto
  from start have "StartProc argv (\<not> bs_interactive s) \<in> set h'" by simp
  with w show ?thesis by blast
qed

text \<open>The calls of stopping a machine with a control port that end in a signal.\<close>

definition asked_port :: "'h up_host_scheme \<Rightarrow> string \<Rightarrow> history \<Rightarrow> call list" where
  "asked_port H sock h =
     (if answer_unit (h_kernel H) h (Dial sock) = None
      then [Dial sock, SockSend sock (to_bytes (''poweroff'' @ [newline])), SockClose sock]
      else [Dial sock, Say ''warn: could not reach %s: %v'' [sock]])"

lemma run_ask_to_stop: "run_state (ask_to_stop H sock) h = ((), h @ asked_port H sock h)"
  by (cases "answer_unit (h_kernel H) h (Dial sock)") (simp_all add: ask_to_stop_def asked_port_def)

lemma kill_guest_calls:
  "kill_guest H pid e h = Some (r, h') \<Longrightarrow> h' = h @ [Kill pid sig_kill, WaitProc pid 0]"
  unfolding kill_guest_def by (elim seq_runE) (auto simp: lift_def await_exit_def)

lemma stop_guest_calls:
  assumes "stop_guest H pid sock h = Some (r, h')" and "sock \<noteq> []"
  obtains (stopped) u where "h' = h @ u" "\<forall>p g. Kill p g \<notin> set u"
    | (killed) n w where "h' = (h @ n # asked_port H sock (h @ [n])) @ [WaitProc pid shutdown_grace, w, Kill pid sig_kill, WaitProc pid 0]"
        "\<forall>e. uh_event H (h @ n # asked_port H sock (h @ [n])) (Some shutdown_grace) \<noteq> Some (Exited e)"
        "\<forall>p g. n \<noteq> Kill p g \<and> w \<noteq> Kill p g"
proof -
  let ?n = "Say ''stopping the guest cleanly (up to %s; interrupt again to kill it)'' [dec shutdown_grace]"
  let ?a = "h @ ?n # asked_port H sock (h @ [?n])"
  let ?ev = "uh_event H ?a (Some shutdown_grace)"
  have quiet: "\<forall>p g. Kill p g \<notin> set (asked_port H sock h0)" for h0 by (simp add: asked_port_def)
  show thesis
  proof (cases "\<exists>e. ?ev = Some (Exited e)")
    case True
    then obtain e where "?ev = Some (Exited e)" by blast
    with assms have "h' = h @ (?n # asked_port H sock (h @ [?n]) @ [WaitProc pid shutdown_grace, Say ''guest stopped'' []])"
      by (auto simp: stop_guest_def Let_def seq_run_def lift_def run_ask_to_stop)
    then show thesis by (rule stopped) (simp add: quiet)
  next
    case False
    with assms obtain w e where "\<forall>p g. w \<noteq> Kill p g" and "kill_guest H pid e (?a @ [WaitProc pid shutdown_grace, w]) = Some (r, h')"
      by (auto simp: stop_guest_def Let_def seq_run_def lift_def run_ask_to_stop split: option.splits guest_event.splits)
    then have "h' = ?a @ [WaitProc pid shutdown_grace, w, Kill pid sig_kill, WaitProc pid 0]"
      by (auto dest: kill_guest_calls)
    then show thesis by (rule killed) (use False \<open>\<forall>p g. w \<noteq> Kill p g\<close> in simp_all)
  qed
qed

text \<open>
  C20. In the foreground, QEMU is killed only as a last resort: if the tool signals QEMU at all on a
  machine with a control port, it has before that dialled the port, and either sent \<^verbatim>\<open>poweroff\<close> over it or
  found that the dial failed, in which case the machine was not asked; and in either case it
  has then waited for QEMU, for the whole grace period or until a second interrupt.
\<close>

theorem kill_is_the_last_resort:
  assumes run: "run_guest H argv s h = Some (r, h @ cs)" and kill: "Kill pid sg \<in> set cs" and sock: "bs_socket s \<noteq> []"
  shows "\<exists>a w. cs = a @ [WaitProc pid shutdown_grace, w, Kill pid sg, WaitProc pid 0] \<and>
    (\<forall>e. uh_event H (h @ a) (Some shutdown_grace) \<noteq> Some (Exited e)) \<and>
    (\<exists>a0. a = a0 @ [Dial (bs_socket s), SockSend (bs_socket s) (to_bytes (''poweroff'' @ [newline])), SockClose (bs_socket s)] \<or>
       (\<exists>n. a = a0 @ [Dial (bs_socket s), n] \<and> answer_unit (h_kernel H) (h @ a0) (Dial (bs_socket s)) \<noteq> None))"
proof -
  let ?q = "StartProc argv (\<not> bs_interactive s)"
  obtain p where stop: "stop_guest H p (bs_socket s) (h @ [?q, WaitProc p 0]) = Some (r, h @ cs)"
    using run kill by (auto simp: run_guest_def seq_run_def lift_def await_event_def split: option.splits sum.splits guest_event.splits)
  from stop sock show ?thesis
  proof (cases rule: stop_guest_calls)
    case (stopped u)
    with kill show ?thesis by auto
  next
    case (killed n w)
    define a0 where "a0 = [?q, WaitProc p 0, n]"
    define a where "a = a0 @ asked_port H (bs_socket s) (h @ a0)"
    have cs: "cs = a @ [WaitProc p shutdown_grace, w, Kill p sig_kill, WaitProc p 0]"
      and ev: "\<forall>e. uh_event H (h @ a) (Some shutdown_grace) \<noteq> Some (Exited e)"
      using killed by (simp_all add: a_def a0_def)
    have "Kill pid sg \<notin> set a" "w \<noteq> Kill pid sg" using killed(3) by (auto simp: a_def a0_def asked_port_def)
    with kill cs have pid: "pid = p" "sg = sig_kill" by auto
    let ?sent = "\<exists>a0. a = a0 @ [Dial (bs_socket s), SockSend (bs_socket s) (to_bytes (''poweroff'' @ [newline])), SockClose (bs_socket s)] \<or>
       (\<exists>n. a = a0 @ [Dial (bs_socket s), n] \<and> answer_unit (h_kernel H) (h @ a0) (Dial (bs_socket s)) \<noteq> None)"
    have ?sent unfolding a_def asked_port_def by (rule exI [of _ a0]) simp
    with cs ev show ?thesis unfolding pid by blast
  qed
qed

lemma kill_is_the_last_resort_witness:
  "\<exists>cs a w pid sg. cs = a @ [WaitProc pid shutdown_grace, w, Kill pid sg, WaitProc pid 0] \<and>
    (\<forall>e. uh_event (demo_up_host quiet_kernel) a (Some shutdown_grace) \<noteq> Some (Exited e))"
proof -
  let ?s = "demo_spec\<lparr>bs_socket := ''s''\<rparr>" and ?H = "demo_up_host quiet_kernel"
  have "\<exists>r cs. run_guest ?H [''qemu''] ?s [] = Some (r, [] @ cs) \<and> Kill 0 sig_kill \<in> set cs"
    by (simp add: run_guest_def stop_guest_def kill_guest_def seq_run_def lift_def await_event_def await_exit_def run_ask_to_stop
        demo_up_host_event quiet_kernel_def demo_spec_def Let_def)
  then obtain r cs where run: "run_guest ?H [''qemu''] ?s [] = Some (r, [] @ cs)" and "Kill 0 sig_kill \<in> set cs" by blast
  moreover have "bs_socket ?s \<noteq> []" by (simp add: demo_spec_def)
  ultimately obtain a w where "cs = a @ [WaitProc 0 shutdown_grace, w, Kill 0 sig_kill, WaitProc 0 0]"
    "\<forall>e. uh_event ?H ([] @ a) (Some shutdown_grace) \<noteq> Some (Exited e)" using kill_is_the_last_resort by metis
  then show ?thesis by (simp only: append_Nil) blast
qed

text \<open>
  A start in the background that fails after QEMU was started is not undone: whatever went
  wrong, \<^verbatim>\<open>detach\<close> signals no process and removes nothing, so a QEMU that is merely slow to create
  its control socket keeps running, unrecorded, behind an error that says it did not come up.
\<close>

theorem failed_start_is_not_undone:
  assumes "detach H argv s name meta h = Some (r, h @ cs)"
  shows "Kill p sg \<notin> set cs \<and> RemoveAll d \<notin> set cs"
proof -
  from detach_calls [OF assms] obtain b
    where cs: "cs = added (start_detached (h_kernel H) argv s) h @ b" and b: "list_all leaves_running b" by auto
  have "emits (\<lambda>c. \<not> (\<exists>p g d. c = Kill p g \<or> c = RemoveAll d)) (start_detached (h_kernel H) argv s)"
    by (auto simp: start_detached_def intro!: emits_intros)
  from emits_added [OF this, of "Kill p sg" h] emits_added [OF this, of "RemoveAll d" h] cs b
  show ?thesis by (auto simp: list_all_iff)
qed

text \<open>On a host where the control socket never appears: an error, QEMU started, nothing killed.\<close>

definition slow_kernel :: kernel where
  "slow_kernel = patient_kernel
     \<lparr>answer_unit := (\<lambda>h c. if c = Stat ''s'' then Some NotExist else None),
      answer_num := (\<lambda>h c. if c = ClockNano then Inr (int (length h) * 20 * 10 ^ 9) else Inr 7)\<rparr>"

lemma failed_start_is_not_undone_witness:
  "\<exists>e cs. detach (demo_up_host slow_kernel) [''qemu''] (demo_spec\<lparr>bs_socket := ''s''\<rparr>) ''default'' ''guest.json'' [] =
       Some (Some e, cs) \<and>
     StartProc [''qemu''] True \<in> set cs \<and> Kill 7 sig_kill \<notin> set cs \<and> RemoveAll ''d'' \<notin> set cs"
proof -
  let ?s = "demo_spec\<lparr>bs_socket := ''s''\<rparr>"
  have "\<exists>e cs. detach (demo_up_host slow_kernel) [''qemu''] ?s ''default'' ''guest.json'' [] = Some (Some e, [] @ cs) \<and>
      StartProc [''qemu''] True \<in> set cs"
    by (simp add: detach_def start_detached_def wait_until_up_def clock_def until_up.simps up_look_def slow_kernel_def
        patient_kernel_def quiet_kernel_def startup_grace_def second_def demo_spec_def last_lines_def)
  then obtain e cs where d: "detach (demo_up_host slow_kernel) [''qemu''] ?s ''default'' ''guest.json'' [] = Some (Some e, [] @ cs)"
    and "StartProc [''qemu''] True \<in> set cs" by blast
  with failed_start_is_not_undone [OF d] show ?thesis by auto
qed

section \<open>A dry run\<close>

definition bare_host_kernel :: kernel where
  "bare_host_kernel = idle_kernel
     \<lparr>answer_unit := (\<lambda>h c. if c = Stat ''/state/default/data.img'' then Some NotExist else None)\<rparr>"

definition dry_flags :: up_flags where
  "dry_flags = (default_flags (demo_up_host bare_host_kernel))\<lparr>uf_kernel := ''vmlinuz'', uf_changed := [''kernel''], uf_dry_run := True\<rparr>"

lemma bare_answers:
  "answer_unit bare_host_kernel h c = (if c = Stat ''/state/default/data.img'' then Some NotExist else None)"
  "answer_num bare_host_kernel h c = answer_num idle_kernel h c"
  by (simp_all add: bare_host_kernel_def)

lemma dry_flag_values:
  "is_direct dry_flags" "uf_no_image dry_flags = False" "uf_name dry_flags = ''default''" "uf_arch dry_flags = ''amd64''"
  "changed dry_flags x = (x = ''kernel'')" "uf_data dry_flags = []" "uf_disk dry_flags = []" "uf_from_disk dry_flags = False"
  "uf_socket dry_flags = []" "uf_data_size dry_flags = ''4G''"
  "uf_initramfs dry_flags = ''dist/k0smos-initramfs.gz''" "uf_kernel dry_flags = ''vmlinuz''" "uf_dry_run dry_flags"
  by (simp_all add: dry_flags_def default_flags_def is_direct_def changed_def default_guest_name_def demo_up_host_def)

lemma four_gigabytes: "parse_size ''4G'' = Inr (4 * 2 ^ 30)"
proof -
  have u: "to_upper ''G'' = ''G''" by (simp add: to_upper_def upper_char_def)
  have "\<forall>c\<in>set ''G''. \<not> is_space c" by (simp add: is_space_def)
  from parse_size_text [OF u this, of 4] scan_int_dec [of 4 "[]"] dec.simps [of 4] show ?thesis
    by (simp add: int64_def butlast_append digit_def char_of_def bit_iff_odd)
qed

lemma dry_guest: "\<exists>g h'. run_state (guest_for (demo_up_host bare_host_kernel) ''amd64'') h = (Inr g, h')"
  by (simp add: guest_for_def accel_for_def bare_answers)

lemma dry_inputs:
  "\<exists>i h'. run_state (direct_boot_inputs (demo_up_host bare_host_kernel) dry_flags g) h = (Inr i, h')"
  by (simp add: direct_boot_inputs_def dry_flag_values direct_inputs_def need_file_def Let_def bare_answers)

lemma dry_spec:
  "\<exists>x h'. run_state (up_spec (demo_up_host bare_host_kernel) dry_flags g i) h = (Inr x, h') \<and>
     CreateFile ''/state/default/data.img'' \<in> set h' \<and> TruncateFile ''/state/default/data.img'' (4 * 2 ^ 30) \<in> set h'"
proof -
  have d: "path_join [''/state/default'', data_file] = ''/state/default/data.img''"
    by (simp add: path_join_def path_clean_def Let_def data_file_def)
  show ?thesis
  by (cases i) (simp add: up_spec_def ensure_guest_dir_def demo_guest_dir demo_guest_paths dry_flag_values machine_disk_def
      machine_data_def guest_data_def d four_gigabytes ensure_data_volume_def bare_answers check_socket_path_def max_socket_path_def spec_for_def Let_def)
qed

text \<open>
  A dry run is not free of effects: asked to print the command line of a direct-kernel machine
  on a host that has no such machine yet, \<^verbatim>\<open>machine up --dry-run\<close> creates the machine's directory and
  its four-gigabyte data volume there; only the last stage, \<^verbatim>\<open>qemuArgs\<close>, honours the flag.
\<close>

theorem dry_run_creates_the_data_volume:
  "\<exists>r h'. machine_up (demo_up_host bare_host_kernel) dry_flags [] = Some (r, h') \<and>
     CreateFile ''/state/default/data.img'' \<in> set h' \<and>
     TruncateFile ''/state/default/data.img'' (4 * 2 ^ 30) \<in> set h'"
proof -
  let ?H = "demo_up_host bare_host_kernel"
  obtain g ha where g: "run_state (guest_for ?H ''amd64'') [] = (Inr g, ha)" using dry_guest by blast
  obtain i hb where i: "run_state (direct_boot_inputs ?H dry_flags g) ha = (Inr i, hb)" using dry_inputs by blast
  obtain s meta hc where s: "run_state (up_spec ?H dry_flags g i) (hb @ [LookPath (ga_qemu g)]) = (Inr (s, meta), hc)"
    and made: "CreateFile ''/state/default/data.img'' \<in> set hc" "TruncateFile ''/state/default/data.img'' (4 * 2 ^ 30) \<in> set hc"
    using dry_spec by (metis surj_pair)
  obtain a hl where l: "run_state (launch_args ?H g s) hc = (a, hl)" by fastforce
  obtain cs where "hl = hc @ cs" using emits_launch_args l by (rule emits_runE)
  moreover have "\<exists>r w. machine_up ?H dry_flags [] = Some (r, hl @ w)"
    by (cases a) (simp_all add: machine_up_def up_prepare_def dry_flag_values g i look_path_def bare_answers s l)
  ultimately show ?thesis using made by auto
qed

end
