(* ===== verification/Cluster_Remove.thy ===== *)
theory Cluster_Remove
  imports Machine_Up Config_Drive
begin

text \<open>
  \<^verbatim>\<open>k0smosctl cluster rm\<close> (\<^verbatim>\<open>cmd/k0smosctl/cluster_rm.go\<close>): asking every machine of a recorded cluster
  to stop, waiting until their processes are gone, and only then removing their disks. The host
  record gains what the cluster commands decode: the cluster record, a kubeconfig, a node list.
\<close>

section \<open>The host of the cluster commands\<close>

record kube_config =
  kcf_clusters :: "(string \<times> string) list"
  kcf_users :: "(string \<times> string) list"

record tool_host = up_host +
  th_decode_cluster :: "bytes \<Rightarrow> err + cluster_meta"
  th_yaml :: "cluster_cloud \<Rightarrow> err + bytes"
  th_decoders :: decoders
  th_kubeconfig :: "bytes \<Rightarrow> err + kube_config"
  th_key_pair :: "bytes \<Rightarrow> bytes \<Rightarrow> err option"
  th_usable_ca :: "bytes \<Rightarrow> bool"
  th_nodes :: "bytes \<Rightarrow> err + (string \<times> string) list list"

section \<open>Processes\<close>

text \<open>\<^verbatim>\<open>EPERM\<close> is errno 1: the process is there and belongs to somebody else.\<close>

definition process_running :: "kernel \<Rightarrow> int \<Rightarrow> bool io" where
  "process_running K pid =
     (if pid \<le> 0 then give False
      else do {
        e \<leftarrow> do_unit K (Kill pid 0);
        give (case e of None \<Rightarrow> True | Some e \<Rightarrow> is_errno (OtherErrno 1) e)
      })"

definition cluster_file_path :: "string \<Rightarrow> string" where
  "cluster_file_path dir = path_join [dir, ''cluster.json'']"

definition load_cluster :: "'h tool_host_scheme \<Rightarrow> string \<Rightarrow> string \<Rightarrow> (err + cluster_meta) io" where
  "load_cluster T name dir = do {
     r \<leftarrow> do_bytes (h_kernel T) (ReadFile (cluster_file_path dir));
     give (case r of
             Inl e \<Rightarrow> if is_not_exist e then Inl (Errorf ''no cluster named %q'' [name] None) else Inl e
           | Inr b \<Rightarrow> th_decode_cluster T b)
   }"

section \<open>Stopping the machines\<close>

definition stop_machine :: "'h tool_host_scheme \<Rightarrow> cluster_machine \<Rightarrow> err option io" where
  "stop_machine T m =
     (let K = h_kernel T in
      case guest_paths T (cm_name m) of
        Inl e \<Rightarrow> give (Some e)
      | Inr (_, sock, path) \<Rightarrow> do {
          r \<leftarrow> load_meta T path;
          alive \<leftarrow> (case r of Inl _ \<Rightarrow> give False | Inr meta \<Rightarrow> process_running K (gm_pid meta));
          (if \<not> alive then give None
           else do {
             d \<leftarrow> dial K sock;
             (case d of
                Some e \<Rightarrow> give (Some (wrap ''machine %q is running but does not accept a clean shutdown: %w'' [cm_name m] e))
              | None \<Rightarrow> do {
                  e \<leftarrow> do_unit K (SockSend sock (to_bytes (command_string PowerOff @ [newline])));
                  _ \<leftarrow> do_unit K (SockClose sock);
                  give e
                })
           })
        })"

fun stop_machines :: "'h tool_host_scheme \<Rightarrow> cluster_machine list \<Rightarrow> err option io" where
  "stop_machines T [] = give None"
| "stop_machines T (m # ms) = guard_err (stop_machine T m) Some (stop_machines T ms)"

definition stop_poll :: nat where "stop_poll = 250 * 10 ^ 6"

text \<open>The condition of the waiting loop: still running, and time left.\<close>

definition still_waiting :: "kernel \<Rightarrow> int \<Rightarrow> int \<Rightarrow> bool io" where
  "still_waiting K pid deadline = do {
     alive \<leftarrow> process_running K pid;
     (if \<not> alive then give False else do { t \<leftarrow> clock K; give (t < deadline) })
   }"

partial_function (option) wait_stopped :: "kernel \<Rightarrow> int \<Rightarrow> int \<Rightarrow> history \<Rightarrow> (unit \<times> history) option" where
  "wait_stopped K pid deadline h =
     (case run_state (still_waiting K pid deadline) h of
        (again, h') \<Rightarrow>
          if again then wait_stopped K pid deadline (h' @ [Sleep stop_poll]) else Some ((), h'))"

text \<open>A machine whose record cannot be read is passed over.\<close>

definition record_path :: "'h host_scheme \<Rightarrow> string \<Rightarrow> string" where
  "record_path H name = (case guest_paths H name of Inl _ \<Rightarrow> [] | Inr (_, _, path) \<Rightarrow> path)"

definition await_stopped :: "'h tool_host_scheme \<Rightarrow> nat \<Rightarrow> int \<Rightarrow> cluster_machine \<Rightarrow> err option run" where
  "await_stopped T timeout deadline m =
     seq_run (lift (load_meta T (record_path T (cm_name m)))) (\<lambda>r.
       case r of
         Inl _ \<Rightarrow> lift (give None)
       | Inr meta \<Rightarrow>
           seq_run (wait_stopped (h_kernel T) (gm_pid meta) deadline) (\<lambda>_. lift (do {
             alive \<leftarrow> process_running (h_kernel T) (gm_pid meta);
             give (if alive
                   then Some (Errorf ''machine %q did not stop within %s; no disks were removed'' [cm_name m, dec timeout] None)
                   else None)
           })))"

fun await_all_stopped :: "'h tool_host_scheme \<Rightarrow> nat \<Rightarrow> int \<Rightarrow> cluster_machine list \<Rightarrow> err option run" where
  "await_all_stopped T timeout deadline [] = lift (give None)"
| "await_all_stopped T timeout deadline (m # ms) =
     check_run (await_stopped T timeout deadline m) (\<lambda>e. e) (await_all_stopped T timeout deadline ms)"

section \<open>Removing\<close>

fun remove_machines :: "'h tool_host_scheme \<Rightarrow> cluster_machine list \<Rightarrow> err option io" where
  "remove_machines T [] = give None"
| "remove_machines T (m # ms) =
     (case guest_dir T (cm_name m) of
        Inl e \<Rightarrow> give (Some e)
      | Inr dir \<Rightarrow> guard_err (do_unit (h_kernel T) (RemoveAll dir)) Some (remove_machines T ms))"

definition discard_cluster :: "'h tool_host_scheme \<Rightarrow> string \<Rightarrow> string \<Rightarrow> cluster_meta \<Rightarrow> err option io" where
  "discard_cluster T name dir st = do {
     let K = h_kernel T;
     _ \<leftarrow> (if cs_hub_pid st > 0 then do_unit K (Kill (cs_hub_pid st) sig_term) else give None);
     guard_err (remove_machines T (cs_machines st)) Some
       (guard_err (do_unit K (RemoveAll dir)) Some (do {
          _ \<leftarrow> do_unit K (Say ''removed cluster %q and %d machine(s)'' [name, dec (length (cs_machines st))]);
          give None }))
   }"

definition cluster_rm :: "'h tool_host_scheme \<Rightarrow> string \<Rightarrow> nat \<Rightarrow> err option run" where
  "cluster_rm T name timeout =
     (case cluster_state_dir T name of
        Inl e \<Rightarrow> lift (give (Some e))
      | Inr dir \<Rightarrow>
          try_run (lift (load_cluster T name dir)) (\<lambda>e. e) (\<lambda>st.
          check_run (lift (stop_machines T (cs_machines st))) (\<lambda>e. e)
            (seq_run (lift (clock (h_kernel T))) (\<lambda>t.
             check_run (await_all_stopped T timeout (t + int timeout) (cs_machines st)) (\<lambda>e. e)
               (lift (discard_cluster T name dir st))))))"

section \<open>Nothing is removed while a machine runs\<close>

fun keeps :: "call \<Rightarrow> bool" where
  "keeps (RemoveAll _) = False"
| "keeps (StartProc _ _) = False"
| "keeps _ = True"

lemma emits_process_running [emits_intros]: "P (Kill pid 0) \<Longrightarrow> emits P (process_running K pid)"
  by (auto simp: process_running_def intro!: emits_intros)

lemma emits_still_waiting: "emits keeps (still_waiting K pid deadline)"
  by (auto simp: still_waiting_def intro!: emits_intros)

lemma emits_load_meta [emits_intros]: "P (ReadFile p) \<Longrightarrow> emits P (load_meta H p)"
  by (auto simp: load_meta_def intro!: emits_intros)

lemma emits_stop_machines: "emits keeps (stop_machines T ms)"
proof (induction ms)
  case (Cons m ms)
  have "emits keeps (stop_machine T m)"
    by (auto simp: stop_machine_def dial_def Let_def intro!: emits_intros)
  with Cons show ?case by (auto intro!: emits_intros)
qed (auto intro!: emits_intros)

lemma wait_stopped_makes [makes_intros]: "makes keeps (wait_stopped K pid deadline)"
proof -
  have "\<exists>cs. snd y = g @ cs \<and> list_all keeps cs" if "wait_stopped L p d g = Some y" for L p d g y
  proof (rule wait_stopped.raw_induct [where P = "\<lambda>L p d g y. \<exists>cs. snd y = g @ cs \<and> list_all keeps cs", OF _ that])
    fix rec L p d g y
    assume ih: "\<And>L p d g y. rec L p d g = Some y \<Longrightarrow> \<exists>cs. snd y = g @ cs \<and> list_all keeps cs"
      and step: "(case run_state (still_waiting L p d) g of (again, g') \<Rightarrow>
          if again then rec L p d (g' @ [Sleep stop_poll]) else Some ((), g')) = Some y"
    obtain cs where cs: "snd (run_state (still_waiting L p d) g) = g @ cs" "list_all keeps cs"
      using emits_still_waiting by (rule emitsE)
    from step cs show "\<exists>cs. snd y = g @ cs \<and> list_all keeps cs"
      by (auto split: prod.splits if_splits dest!: ih)
  qed
  then show ?thesis by (force simp: makes_def)
qed

text \<open>
  \<open>seen_gone T h h' m\<close>: between \<open>h\<close> and \<open>h'\<close> the record of the machine was read, and later, at a moment
  that is also between the two, the process it names was found to be gone. \<open>seen_unrecorded T h h' m\<close>:
  between \<open>h\<close> and \<open>h'\<close> the record of the machine could not be read.
\<close>

definition record_read :: "'h tool_host_scheme \<Rightarrow> history \<Rightarrow> string \<Rightarrow> err + guest_meta" where
  "record_read T h path = fst (run_state (load_meta T path) h)"

definition seen_gone :: "'h tool_host_scheme \<Rightarrow> history \<Rightarrow> history \<Rightarrow> cluster_machine \<Rightarrow> bool" where
  "seen_gone T h h' m =
     (\<exists>u a b meta. h' = h @ u @ ReadFile (record_path T (cm_name m)) # a @ b \<and>
        record_read T (h @ u) (record_path T (cm_name m)) = Inr meta \<and>
        \<not> fst (run_state (process_running (h_kernel T) (gm_pid meta)) (h @ u @ ReadFile (record_path T (cm_name m)) # a)))"

definition seen_unrecorded :: "'h tool_host_scheme \<Rightarrow> history \<Rightarrow> history \<Rightarrow> cluster_machine \<Rightarrow> bool" where
  "seen_unrecorded T h h' m =
     (\<exists>u v e. h' = h @ u @ ReadFile (record_path T (cm_name m)) # v \<and>
        record_read T (h @ u) (record_path T (cm_name m)) = Inl e)"

definition settled :: "'h tool_host_scheme \<Rightarrow> history \<Rightarrow> history \<Rightarrow> cluster_machine \<Rightarrow> bool" where
  "settled T h h' m = (seen_gone T h h' m \<or> seen_unrecorded T h h' m)"

lemma seen_gone_wider: "seen_gone T (h @ c) h' m \<Longrightarrow> seen_gone T h (h' @ d) m"
proof -
  assume "seen_gone T (h @ c) h' m"
  then obtain u a b meta where "h' = (h @ c) @ u @ ReadFile (record_path T (cm_name m)) # a @ b"
    and g: "record_read T ((h @ c) @ u) (record_path T (cm_name m)) = Inr meta"
      "\<not> fst (run_state (process_running (h_kernel T) (gm_pid meta)) ((h @ c) @ u @ ReadFile (record_path T (cm_name m)) # a))"
    unfolding seen_gone_def by blast
  then have "h' @ d = h @ (c @ u) @ ReadFile (record_path T (cm_name m)) # a @ (b @ d)" by simp
  with g show ?thesis unfolding seen_gone_def by (metis append_assoc)
qed

lemma seen_unrecorded_wider: "seen_unrecorded T (h @ c) h' m \<Longrightarrow> seen_unrecorded T h (h' @ d) m"
proof -
  assume "seen_unrecorded T (h @ c) h' m"
  then obtain u v e where "h' = (h @ c) @ u @ ReadFile (record_path T (cm_name m)) # v"
    and g: "record_read T ((h @ c) @ u) (record_path T (cm_name m)) = Inl e" unfolding seen_unrecorded_def by blast
  then have "h' @ d = h @ (c @ u) @ ReadFile (record_path T (cm_name m)) # (v @ d)" by simp
  with g show ?thesis unfolding seen_unrecorded_def by (metis append_assoc)
qed

lemma settled_wider: "settled T (h @ c) h' m \<Longrightarrow> settled T h (h' @ d) m"
  unfolding settled_def using seen_gone_wider seen_unrecorded_wider by blast

lemma await_stopped_makes [makes_intros]: "makes keeps (await_stopped T timeout deadline m)"
  unfolding await_stopped_def by (intro makes_intros emits_intros) simp_all

lemma await_all_stopped_makes [makes_intros]: "makes keeps (await_all_stopped T timeout deadline ms)"
  by (induction ms) (auto intro!: makes_intros emits_intros)

lemma await_stopped_sees:
  assumes "await_stopped T timeout deadline m h = Some (None, h')"
  shows "settled T h h' m"
proof -
  let ?p = "record_path T (cm_name m)"
  have read: "run_state (load_meta T ?p) h = (record_read T h ?p, h @ [ReadFile ?p])"
    by (simp add: record_read_def load_meta_def)
  show ?thesis
  proof (cases "record_read T h ?p")
    case (Inl e)
    with assms read have "h' = h @ [ReadFile ?p]" by (simp add: await_stopped_def lift_def seq_run_def)
    with Inl show ?thesis unfolding settled_def seen_unrecorded_def
      by (intro disjI2 exI [of _ "[]"] exI [of _ e]) simp
  next
    case (Inr meta)
    with assms read obtain x h1 where w: "wait_stopped (h_kernel T) (gm_pid meta) deadline (h @ [ReadFile ?p]) = Some (x, h1)"
      and r: "lift (do { alive \<leftarrow> process_running (h_kernel T) (gm_pid meta);
             give (if alive
                   then Some (Errorf ''machine %q did not stop within %s; no disks were removed'' [cm_name m, dec timeout] None)
                   else None) }) h1 = Some (None, h')"
      by (auto simp: await_stopped_def lift_def [of "load_meta T ?p"] seq_run_def split: option.splits)
    obtain cs where cs: "h1 = (h @ [ReadFile ?p]) @ cs" using wait_stopped_makes w by (rule makesE)
    have dead: "\<not> fst (run_state (process_running (h_kernel T) (gm_pid meta)) h1)"
      using r by (auto simp: lift_def split: prod.splits if_splits)
    obtain ds where ds: "h' = h1 @ ds" using r by (auto simp: lift_def process_running_def split: if_splits)
    show ?thesis unfolding settled_def seen_gone_def using Inr cs dead ds
      by (intro disjI1 exI [of _ "[]"] exI [of _ cs] exI [of _ ds] exI [of _ meta]) simp
  qed
qed

lemma await_all_stopped_sees:
  "await_all_stopped T timeout deadline ms h = Some (None, h') \<Longrightarrow> m \<in> set ms \<Longrightarrow> settled T h h' m"
proof (induction ms arbitrary: h)
  case (Cons n ms)
  then obtain r h1 where a: "await_stopped T timeout deadline n h = Some (r, h1)"
    and rest: "(case r of Some e \<Rightarrow> lift (give (Some e)) | None \<Rightarrow> await_all_stopped T timeout deadline ms) h1 = Some (None, h')"
    by (auto simp: check_run_def elim!: seq_runE)
  from rest have r: "r = None" and rest': "await_all_stopped T timeout deadline ms h1 = Some (None, h')"
    by (auto simp: lift_def split: option.splits)
  obtain cs where cs: "h' = h1 @ cs" using await_all_stopped_makes rest' by (rule makesE)
  obtain ds where ds: "h1 = h @ ds" using await_stopped_makes a by (rule makesE)
  have "settled T h h1 n" using await_stopped_sees a r by simp
  then have "settled T h h' n" using settled_wider [of T h "[]" h1 n cs] cs by simp
  moreover have "settled T h h' m" if "m \<in> set ms"
    using settled_wider [of T h ds h' m "[]"] Cons.IH [OF rest' that] ds by simp
  ultimately show ?case using Cons.prems(2) by auto
qed simp

definition removes_only :: "string set \<Rightarrow> call \<Rightarrow> bool" where
  "removes_only D c = (\<forall>d. c = RemoveAll d \<longrightarrow> d \<in> D)"

definition cluster_dirs :: "'h tool_host_scheme \<Rightarrow> string \<Rightarrow> cluster_meta \<Rightarrow> string set" where
  "cluster_dirs T dir st = insert dir {d. \<exists>m\<in>set (cs_machines st). guest_dir T (cm_name m) = Inr d}"

lemma emits_remove_machines:
  "(\<And>m d. m \<in> set ms \<Longrightarrow> guest_dir T (cm_name m) = Inr d \<Longrightarrow> d \<in> D) \<Longrightarrow>
   emits (removes_only D) (remove_machines T ms)"
proof (induction ms)
  case (Cons m ms)
  have "emits (removes_only D) (remove_machines T ms)" using Cons by auto
  moreover have "removes_only D (RemoveAll d)" if "guest_dir T (cm_name m) = Inr d" for d
    using Cons.prems [of m d] that by (simp add: removes_only_def)
  ultimately show ?case by (auto intro!: emits_intros)
qed (auto intro!: emits_intros)

lemma emits_discard: "emits (removes_only (cluster_dirs T dir st)) (discard_cluster T name dir st)"
proof -
  have "emits (removes_only (cluster_dirs T dir st)) (remove_machines T (cs_machines st))"
    by (rule emits_remove_machines) (auto simp: cluster_dirs_def)
  then show ?thesis unfolding discard_cluster_def Let_def
    by (intro emits_intros) (simp_all add: removes_only_def cluster_dirs_def)
qed

lemma split_before:
  assumes "a @ b = pre @ c # post" and "list_all P a" and "\<not> P c"
  shows "\<exists>b1. pre = a @ b1 \<and> b = b1 @ c # post"
proof -
  from assms(1) obtain us where "a = pre @ us \<and> us @ b = c # post \<or> a @ us = pre \<and> b = us @ c # post"
    by (auto simp: append_eq_append_conv2)
  with assms(2,3) show ?thesis by (cases us) auto
qed

text \<open>
  What follows the reading of the record either removes nothing, or every machine was settled when the
  removal starts.
\<close>

definition wait_and_discard :: "'h tool_host_scheme \<Rightarrow> string \<Rightarrow> nat \<Rightarrow> string \<Rightarrow> cluster_meta \<Rightarrow> err option run" where
  "wait_and_discard T name timeout dir st =
     check_run (lift (stop_machines T (cs_machines st))) (\<lambda>e. e)
       (seq_run (lift (clock (h_kernel T))) (\<lambda>t.
        check_run (await_all_stopped T timeout (t + int timeout) (cs_machines st)) (\<lambda>e. e)
          (lift (discard_cluster T name dir st))))"

lemma wait_and_discard_phases:
  assumes "wait_and_discard T name timeout dir st h1 = Some (r, h')"
  obtains cs where "h' = h1 @ cs" "list_all keeps cs"
    | A where "list_all keeps A" "\<forall>m \<in> set (cs_machines st). settled T h1 (h1 @ A) m"
        "run_state (discard_cluster T name dir st) (h1 @ A) = (r, h')"
  using assms unfolding wait_and_discard_def
proof (cases rule: check_runE)
  case (1 e h2)
  then have "run_state (stop_machines T (cs_machines st)) h1 = (Some e, h')" by (simp add: lift_def)
  with emits_stop_machines show thesis by (rule emits_runE) (rule that(1))
next
  case (2 h2)
  then have "run_state (stop_machines T (cs_machines st)) h1 = (None, h2)" by (simp add: lift_def)
  with emits_stop_machines obtain c2 where c2: "h2 = h1 @ c2" "list_all keeps c2" by (rule emits_runE)
  from 2(2) obtain t h3 where t: "lift (clock (h_kernel T)) h2 = Some (t, h3)"
    and rest: "check_run (await_all_stopped T timeout (t + int timeout) (cs_machines st)) (\<lambda>e. e)
           (lift (discard_cluster T name dir st)) h3 = Some (r, h')" by (rule seq_runE)
  from t have h3: "h3 = h1 @ c2 @ [ClockNano]" by (auto simp: lift_def clock_def c2(1))
  from rest show thesis
  proof (cases rule: check_runE)
    case (1 e h4)
    obtain c4 where "h4 = h3 @ c4" "list_all keeps c4" using await_all_stopped_makes 1(1) by (rule makesE)
    with 1 h3 c2(2) that(1) [of "c2 @ ClockNano # c4"] show thesis by simp
  next
    case (2 h4)
    obtain c4 where c4: "h4 = h3 @ c4" "list_all keeps c4" using await_all_stopped_makes 2(1) by (rule makesE)
    have h4: "h4 = h1 @ (c2 @ ClockNano # c4)" using h3 c4(1) by simp
    have "settled T h1 h4 m" if "m \<in> set (cs_machines st)" for m
      using settled_wider [of T h1 "c2 @ [ClockNano]" h4 m "[]"] await_all_stopped_sees [OF 2(1) that] h3 by simp
    with h4 2(2) c2(2) c4(2) that(2) [of "c2 @ ClockNano # c4"] show thesis by (simp add: lift_def)
  qed
qed

text \<open>
  C7. Removing a cluster never takes the disk from under a machine whose process it knows: when
  \<^verbatim>\<open>cluster rm\<close> removes its first directory, it has read the cluster's record, and since then, for every
  machine in it, it has either read the machine's own record and found the process named there gone,
  or failed to read that record. Of a machine of the second kind nothing is known: it may be running
  and loses its disk (\<open>unrecorded_machine_counts_as_stopped\<close>). What is removed is the directory of a
  machine of the record or the cluster's.
\<close>

theorem no_disk_goes_under_a_recorded_machine:
  assumes "cluster_rm T name timeout h = Some (r, h @ pre @ RemoveAll d # post)" and "list_all keeps pre"
  shows "\<exists>dir st. cluster_state_dir T name = Inr dir \<and> fst (run_state (load_cluster T name dir) h) = Inr st \<and>
    (\<forall>m \<in> set (cs_machines st). seen_gone T h (h @ pre) m \<or> seen_unrecorded T h (h @ pre) m) \<and>
    d \<in> cluster_dirs T dir st"
proof -
  let ?h' = "h @ pre @ RemoveAll d # post"
  obtain dir where dir: "cluster_state_dir T name = Inr dir"
    using assms(1) by (cases "cluster_state_dir T name") (auto simp: cluster_rm_def lift_def)
  have stays: False if "?h' = h @ cs" "list_all keeps cs" for cs
    using that by auto
  from assms(1) dir have "try_run (lift (load_cluster T name dir)) (\<lambda>e. e) (wait_and_discard T name timeout dir) h = Some (r, ?h')"
    by (simp add: cluster_rm_def wait_and_discard_def [abs_def])
  then show ?thesis
  proof (cases rule: try_runE)
    case (1 e h1)
    then have "?h' = h @ [ReadFile (cluster_file_path dir)]" by (auto simp: lift_def load_cluster_def split: sum.splits)
    with stays show ?thesis by simp
  next
    case (2 st h1)
    then have h1: "h1 = h @ [ReadFile (cluster_file_path dir)]" and st: "fst (run_state (load_cluster T name dir) h) = Inr st"
      by (auto simp: lift_def load_cluster_def split: sum.splits)
    from 2(2) show ?thesis
    proof (cases rule: wait_and_discard_phases)
      case (1 cs)
      with h1 stays [of "ReadFile (cluster_file_path dir) # cs"] show ?thesis by simp
    next
      case (2 A)
      from emits_discard 2(3) obtain b where b: "?h' = (h1 @ A) @ b" "list_all (removes_only (cluster_dirs T dir st)) b"
        by (rule emits_runE)
      have "(ReadFile (cluster_file_path dir) # A) @ b = pre @ RemoveAll d # post" using b(1) h1 by simp
      from split_before [OF this, of keeps] 2(1) obtain b1
        where b1: "pre = ReadFile (cluster_file_path dir) # A @ b1" "b = b1 @ RemoveAll d # post" by auto
      have "d \<in> cluster_dirs T dir st" using b(2) b1(2) by (simp add: removes_only_def)
      moreover have "seen_gone T h (h @ pre) m \<or> seen_unrecorded T h (h @ pre) m" if "m \<in> set (cs_machines st)" for m
        using settled_wider [of T h "[ReadFile (cluster_file_path dir)]" "h1 @ A" m b1] 2(2) that h1 b1(1)
        by (simp add: settled_def)
      ultimately show ?thesis using dir st by blast
    qed
  qed
qed

section \<open>A machine without a record\<close>

definition demo_tool_host :: "kernel \<Rightarrow> cluster_meta \<Rightarrow> tool_host" where
  "demo_tool_host K st =
     \<lparr>h_kernel = K, h_env = (\<lambda>k. if k = ''K0SMOS_STATE_DIR'' then ''/state'' else []),
      h_home = Inl NotExist, h_goos = ''linux'', h_goarch = ''amd64'',
      h_decode_guest = (\<lambda>_. Inl (msg ''unexpected end of JSON input'')), h_local_time = (\<lambda>t. t),
      uh_version = ''dev'', uh_json = (\<lambda>_. Inl (msg ''EOF'')), uh_sha256 = (\<lambda>_. replicate 32 0),
      uh_kernel_first = True, uh_event = (\<lambda>_ _. Some Interrupted), uh_exit = (\<lambda>_ _. Some None),
      uh_time_text = (\<lambda>_. zero_time),
      th_decode_cluster = (\<lambda>_. Inr st), th_yaml = (\<lambda>_. Inl (msg ''yaml'')),
      th_decoders = \<lparr>yaml_config = (\<lambda>_. Inl (msg ''yaml'')), yaml_meta = (\<lambda>_. Inl (msg ''yaml'')), gunzip = (\<lambda>_. Inl (msg ''gzip''))\<rparr>,
      th_kubeconfig = (\<lambda>_. Inl (msg ''yaml'')), th_key_pair = (\<lambda>_ _. None), th_usable_ca = (\<lambda>_. True),
      th_nodes = (\<lambda>_. Inl (msg ''EOF''))\<rparr>"

definition lost_cluster :: cluster_meta where
  "lost_cluster =
     \<lparr>cs_name = ''dev'', cs_hub_pid = 9, cs_hub_address = ''127.0.0.1:9'',
      cs_machines = [\<lparr>cm_name = ''default'', cm_role = ''controller'', cm_ip = ''10.10.0.11'', cm_api_port = 6443\<rparr>],
      cs_created = zero_time\<rparr>"

text \<open>The cluster's record can be read, the machine's cannot; every other call succeeds.\<close>

definition lost_kernel :: kernel where
  "lost_kernel = patient_kernel\<lparr>answer_bytes := (\<lambda>h c. if h = [] then Inr [] else Inl (Errno EACCES))\<rparr>"

abbreviation lost_host :: tool_host where "lost_host \<equiv> demo_tool_host lost_kernel lost_cluster"

lemma demo_tool_values [simp]:
  "h_kernel (demo_tool_host K st) = K" "th_decode_cluster (demo_tool_host K st) b = Inr st"
  "state_root (demo_tool_host K st) = Inr ''/state''"
  by (simp_all add: demo_tool_host_def state_root_def)

lemma demo_tool_dir: "guest_dir (demo_tool_host K st) ''default'' = Inr ''/state/default''"
proof -
  have "proper_name ''default''" by (simp add: proper_name_def)
  then show ?thesis using plain_host_dir [of "''default''" K] by (simp add: guest_dir_def proper_name_valid)
qed

lemma demo_cluster_dir: "cluster_state_dir (demo_tool_host K st) ''dev'' = Inr (path_join [''/state'', ''.clusters'', ''dev''])"
proof -
  have "proper_name ''dev''" by (simp add: proper_name_def)
  then show ?thesis by (simp add: cluster_state_dir_def proper_name_valid)
qed

lemma lost_cluster_run:
  "cluster_rm lost_host ''dev'' 0 [] =
     (let dir = path_join [''/state'', ''.clusters'', ''dev''];
          meta = path_join [''/state/default'', meta_file]
      in Some (None, [ReadFile (cluster_file_path dir), ReadFile meta, ClockNano, ReadFile meta, Kill 9 sig_term] @
                     RemoveAll ''/state/default'' #
                     [RemoveAll dir, Say ''removed cluster %q and %d machine(s)'' [''dev'', dec 1]]))"
  by (simp add: cluster_rm_def demo_cluster_dir try_run_def check_run_def seq_run_def lift_def load_cluster_def Let_def
      lost_cluster_def stop_machine_def guest_paths_def demo_tool_dir load_meta_def clock_def await_stopped_def record_path_def
      discard_cluster_def lost_kernel_def patient_kernel_def quiet_kernel_def)

text \<open>
  A machine whose record cannot be read counts as stopped: removing a cluster then removes the
  machine's disk without ever looking for its process or its control socket. Recording a machine
  may fail with a warning only, so a machine without a record can well be running.
\<close>

theorem unrecorded_machine_counts_as_stopped:
  "\<exists>cs. cluster_rm lost_host ''dev'' 0 [] = Some (None, cs) \<and> RemoveAll ''/state/default'' \<in> set cs \<and>
     filter (\<lambda>c. \<exists>p. c = Dial p) cs = [] \<and> filter (\<lambda>c. \<exists>p. c = Kill p 0) cs = [] \<and> Kill 9 sig_term \<in> set cs"
  by (simp add: lost_cluster_run Let_def sig_term_def)

text \<open>A cluster of one machine whose record names the process 7, which is gone.\<close>

definition gone_kernel :: kernel where
  "gone_kernel = patient_kernel
     \<lparr>answer_bytes := (\<lambda>h c. Inr []), answer_unit := (\<lambda>h c. if c = Kill 7 0 then Some (Errno (OtherErrno 3)) else None)\<rparr>"

definition gone_host :: tool_host where
  "gone_host = (demo_tool_host gone_kernel lost_cluster)
     \<lparr>h_decode_guest := (\<lambda>_. Inr ((bare_guest ''default'')\<lparr>gm_pid := 7\<rparr>))\<rparr>"

lemma gone_host_values [simp]:
  "h_kernel gone_host = gone_kernel" "th_decode_cluster gone_host b = Inr lost_cluster"
  "h_decode_guest gone_host b = Inr ((bare_guest ''default'')\<lparr>gm_pid := 7\<rparr>)" "state_root gone_host = Inr ''/state''"
  by (simp_all add: gone_host_def demo_tool_host_def state_root_def)

lemma gone_host_dirs [simp]:
  "guest_dir gone_host ''default'' = Inr ''/state/default''"
  "cluster_state_dir gone_host ''dev'' = Inr (path_join [''/state'', ''.clusters'', ''dev''])"
proof -
  have "proper_name ''default''" "proper_name ''dev''" by (simp_all add: proper_name_def)
  note ok = this [THEN proper_name_valid]
  show "guest_dir gone_host ''default'' = Inr ''/state/default''"
    using demo_tool_dir [of gone_kernel lost_cluster] by (simp add: guest_dir_def ok)
  show "cluster_state_dir gone_host ''dev'' = Inr (path_join [''/state'', ''.clusters'', ''dev''])"
    by (simp add: cluster_state_dir_def ok)
qed

lemma gone_cluster_run:
  "cluster_rm gone_host ''dev'' 0 [] =
     (let dir = path_join [''/state'', ''.clusters'', ''dev''];
          meta = path_join [''/state/default'', meta_file]
      in Some (None, [ReadFile (cluster_file_path dir), ReadFile meta, Kill 7 0, ClockNano, ReadFile meta, Kill 7 0, Kill 7 0, Kill 9 sig_term] @
                     RemoveAll ''/state/default'' #
                     [RemoveAll dir, Say ''removed cluster %q and %d machine(s)'' [''dev'', dec 1]]))"
  by (simp add: cluster_rm_def try_run_def check_run_def seq_run_def lift_def load_cluster_def Let_def
      lost_cluster_def stop_machine_def guest_paths_def load_meta_def clock_def await_stopped_def record_path_def
      wait_stopped.simps still_waiting_def process_running_def bare_guest_def
      discard_cluster_def gone_kernel_def patient_kernel_def quiet_kernel_def)

lemma no_disk_goes_under_a_recorded_machine_witness:
  "\<exists>pre dir st. cluster_state_dir gone_host ''dev'' = Inr dir \<and> fst (run_state (load_cluster gone_host ''dev'' dir) []) = Inr st \<and>
    cs_machines st \<noteq> [] \<and> (\<forall>m \<in> set (cs_machines st). seen_gone gone_host [] pre m)"
proof -
  let ?meta = "path_join [''/state/default'', meta_file]" and ?dir = "path_join [''/state'', ''.clusters'', ''dev'']"
  let ?pre = "[ReadFile (cluster_file_path ?dir), ReadFile ?meta, Kill 7 0, ClockNano, ReadFile ?meta, Kill 7 0, Kill 7 0, Kill 9 sig_term]"
  have run: "cluster_rm gone_host ''dev'' 0 [] =
      Some (None, [] @ ?pre @ RemoveAll ''/state/default'' # [RemoveAll ?dir, Say ''removed cluster %q and %d machine(s)'' [''dev'', dec 1]])"
    by (simp add: gone_cluster_run Let_def)
  have "list_all keeps ?pre" by simp
  from no_disk_goes_under_a_recorded_machine [OF run this]
  obtain dir st where st: "cluster_state_dir gone_host ''dev'' = Inr dir" "fst (run_state (load_cluster gone_host ''dev'' dir) []) = Inr st"
    "\<forall>m \<in> set (cs_machines st). seen_gone gone_host [] ([] @ ?pre) m \<or> seen_unrecorded gone_host [] ([] @ ?pre) m" by blast
  moreover have "\<not> seen_unrecorded gone_host [] v m" for v m
    by (simp add: seen_unrecorded_def record_read_def load_meta_def gone_kernel_def)
  moreover have "st = lost_cluster" using st(2) by (auto simp: load_cluster_def gone_kernel_def)
  then have "cs_machines st \<noteq> []" by (simp add: lost_cluster_def)
  ultimately show ?thesis by (simp only: append_Nil) blast
qed

section \<open>Removing ends\<close>

lemma still_waiting_again:
  assumes "keeps_time K t0" and "run_state (still_waiting K pid deadline) h = (True, h')"
  shows "t0 + int (slept h) < deadline \<and> slept h \<le> slept h'"
proof -
  obtain t where "answer_num K (h @ [Kill pid 0]) ClockNano = Inr t" and "t0 + int (slept (h @ [Kill pid 0])) \<le> t"
    using assms(1) unfolding keeps_time_def by blast
  with assms(2) show ?thesis
    by (auto simp: still_waiting_def process_running_def clock_def slept_def split: prod.splits option.splits if_splits)
qed

definition stop_step :: "kernel \<Rightarrow> int \<Rightarrow> int \<Rightarrow> unit \<Rightarrow> history \<Rightarrow> (unit + unit) \<times> history" where
  "stop_step K pid deadline u h =
     (case run_state (still_waiting K pid deadline) h of
        (again, h') \<Rightarrow> if again then (Inr (), h' @ [Sleep stop_poll]) else (Inl (), h'))"

interpretation stop_wait: timed_loop K deadline "stop_step K pid deadline" "\<lambda>_. wait_stopped K pid deadline"
  for K pid deadline
proof
  show "wait_stopped K pid deadline h =
      (case stop_step K pid deadline s h of
         (Inl r, h') \<Rightarrow> Some (r, h') | (Inr s', h') \<Rightarrow> wait_stopped K pid deadline h')" for s h
    by (subst wait_stopped.simps) (simp add: stop_step_def split: prod.split)
next
  fix t0 s s' h h'
  assume "keeps_time K t0" and "stop_step K pid deadline s h = (Inr s', h')"
  moreover from this(2) obtain h1 where "run_state (still_waiting K pid deadline) h = (True, h1)" and "h' = h1 @ [Sleep stop_poll]"
    by (auto simp: stop_step_def split: prod.splits if_splits)
  moreover have "slept [Sleep stop_poll] = stop_poll" "0 < stop_poll" by (simp_all add: slept_def stop_poll_def)
  ultimately show "t0 + int (slept h) \<le> deadline \<and> slept h < slept h'"
    using still_waiting_again [of K t0 pid deadline h h1] by simp
qed

lemmas wait_stopped_ends [ends_intros] = stop_wait.finishes

lemma await_all_stopped_ends:
  "keeps_time (h_kernel T) t0 \<Longrightarrow> ends (await_all_stopped T timeout deadline ms)"
proof (induction ms)
  case (Cons m ms)
  have "ends (await_stopped T timeout deadline m)"
    unfolding await_stopped_def by (intro ends_intros, rule Cons.prems)
  with Cons show ?case by (auto intro!: ends_intros)
qed (simp add: ends_intros)

text \<open>
  Removing a cluster comes to an end: on a host whose clock runs at least as fast as the tool sleeps,
  \<^verbatim>\<open>cluster rm\<close> returns, however long the machines take to stop.
\<close>

theorem cluster_rm_returns:
  assumes "keeps_time (h_kernel T) t0"
  shows "\<exists>r h'. cluster_rm T name timeout h = Some (r, h')"
proof (cases "cluster_state_dir T name")
  case (Inr dir)
  have "ends (cluster_rm T name timeout)"
    unfolding cluster_rm_def Inr sum.case
    by (intro ends_intros) (rule await_all_stopped_ends [OF assms])
  then show ?thesis unfolding ends_def by fastforce
qed (simp add: cluster_rm_def lift_def)

lemma cluster_rm_returns_witness:
  "\<exists>r h'. cluster_rm lost_host ''dev'' 5 [ReadInput] = Some (r, h')"
  by (rule cluster_rm_returns [where ?t0.0 = 0])
    (simp add: keeps_time_def lost_kernel_def patient_kernel_def quiet_kernel_def)

section \<open>The directory of all clusters\<close>

text \<open>
  The name \<^verbatim>\<open>.clusters\<close> is a valid machine name: removing the machine of that name, which the list
  of machines never shows, removes the directory that holds the records and drives of all clusters.
\<close>

theorem machine_rm_discards_all_clusters:
  "cluster_state_dir (plain_host idle_kernel) ''dev'' = Inr ''/state/.clusters/dev'' \<and>
   RemoveAll ''/state/.clusters'' \<in> set (snd (run_state (machine_rm (plain_host idle_kernel) ''.clusters'') []))"
proof -
  have "proper_name ''dev''" "proper_name ''.clusters''" by (simp_all add: proper_name_def)
  moreover have "guest_dir (plain_host idle_kernel) ''.clusters'' = Inr ''/state/.clusters''"
    by (subst plain_host_dir) (simp_all add: proper_name_def)
  moreover have "path_join [''/state'', ''.clusters'', ''dev''] = ''/state/.clusters/dev''"
    by (simp add: path_join_def path_clean_def Let_def)
  ultimately show ?thesis
    by (simp add: cluster_state_dir_def proper_name_valid machine_rm_def guest_paths_def guest_is_live_def)
      (simp add: plain_host_def)
qed

end
