(* ===== verification/Cluster_Create.thy ===== *)
theory Cluster_Create
  imports Cluster_Remove
begin

text \<open>
  \<^verbatim>\<open>k0smosctl cluster create\<close> (\<^verbatim>\<open>cmd/k0smosctl/cluster_create.go\<close>, \<^verbatim>\<open>cluster_hub.go\<close>): the network between
  the machines, the first controller, the join tokens for the others, and the wait until every node is
  Ready. What the TLS library makes of the keys of a kubeconfig and the decoding of the node list are
  fields of the host.
\<close>

section \<open>The network\<close>

definition hub_ready_time :: nat where "hub_ready_time = 10 * second"

text \<open>One look at the ready file: \<open>Some\<close> is the outcome, \<open>None\<close> another round.\<close>

definition ready_address :: "err + bytes \<Rightarrow> string option" where
  "ready_address r =
     (case r of
        Inl _ \<Rightarrow> None
      | Inr b \<Rightarrow> let addr = trim_space (to_text b) in if split_host_port addr \<noteq> None then Some addr else None)"

definition hub_look :: "kernel \<Rightarrow> int \<Rightarrow> string \<Rightarrow> string \<Rightarrow> int \<Rightarrow> (err + string \<times> int) option io" where
  "hub_look K pid ready log deadline = do {
     t \<leftarrow> clock K;
     (if \<not> t < deadline then do {
        _ \<leftarrow> do_unit K (Kill pid sig_kill);
        give (Some (Inl (msg ''cluster network hub did not become ready''))) }
      else do {
        b \<leftarrow> do_bytes K (ReadFile ready);
        (case ready_address b of
           Some addr \<Rightarrow> do {
             e \<leftarrow> do_unit K (ReleaseProc pid);
             (case e of
                Some e \<Rightarrow> do { _ \<leftarrow> do_unit K (Kill pid sig_kill); give (Some (Inl e)) }
              | None \<Rightarrow> give (Some (Inr (addr, pid)))) }
         | None \<Rightarrow> do {
           gone \<leftarrow> do_unit K (Kill pid 0);
           (if gone \<noteq> None then do {
              body \<leftarrow> do_bytes K (ReadFile log);
              give (Some (Inl (Errorf ''cluster network hub exited: %s''
                [case body of Inl _ \<Rightarrow> [] | Inr b \<Rightarrow> trim_space (to_text b)] None))) }
            else do { _ \<leftarrow> do_unit K (Sleep poll_step); give None })
         })
      })
   }"

partial_function (option) await_hub ::
  "kernel \<Rightarrow> int \<Rightarrow> string \<Rightarrow> string \<Rightarrow> int \<Rightarrow> history \<Rightarrow> ((err + string \<times> int) \<times> history) option"
where
  "await_hub K pid ready log deadline h =
     (case run_state (hub_look K pid ready log deadline) h of
        (Some r, h') \<Rightarrow> Some (r, h')
      | (None, h') \<Rightarrow> await_hub K pid ready log deadline h')"

definition spawn_hub :: "kernel \<Rightarrow> string \<Rightarrow> (err + int \<times> int) io" where
  "spawn_hub K dir =
     (let ready = path_join [dir, ''hub.ready''] in
      and_then (do_bytes K OwnPath) (\<lambda>exe. do {
        _ \<leftarrow> do_unit K (Remove ready);
        check (do_unit K (CreateFile (path_join [dir, ''hub.log''])))
          (and_then (do_num K (StartProc [to_text exe, ''__hub'', ''--ready-file'', ready] True)) (\<lambda>pid. do {
             t \<leftarrow> clock K;
             give (Inr (pid, t + int hub_ready_time)) }))
      }))"

definition start_cluster_hub :: "kernel \<Rightarrow> string \<Rightarrow> (err + string \<times> int) run" where
  "start_cluster_hub K dir =
     seq_run (lift (spawn_hub K dir)) (\<lambda>r. case r of
        Inl e \<Rightarrow> lift (give (Inl e))
      | Inr (pid, deadline) \<Rightarrow>
          await_hub K pid (path_join [dir, ''hub.ready'']) (path_join [dir, ''hub.log'']) deadline)"

section \<open>The cluster record\<close>

definition json_object :: "nat \<Rightarrow> (string \<times> string) list \<Rightarrow> string" where
  "json_object n kvs =
     ''{'' @ join '','' (map (\<lambda>kv. line_start (Suc n) @ json_string (fst kv) @ '': '' @ snd kv) kvs) @ line_start n @ ''}''"

definition machine_fields :: "cluster_machine \<Rightarrow> (string \<times> string) list" where
  "machine_fields m =
     [(''name'', json_string (cm_name m)), (''role'', json_string (cm_role m)), (''ip'', json_string (cm_ip m))] @
     (if cm_api_port m = 0 then [] else [(''apiPort'', json_int (cm_api_port m))])"

definition machines_json :: "cluster_machine list \<Rightarrow> string" where
  "machines_json ms =
     (if ms = [] then ''null''
      else ''['' @ join '','' (map (\<lambda>m. line_start 2 @ json_object 2 (machine_fields m)) ms) @ line_start 1 @ '']'')"

definition marshal_cluster :: "cluster_meta \<Rightarrow> bytes" where
  "marshal_cluster st =
     to_bytes (json_object 0
       [(''name'', json_string (cs_name st)), (''hubPid'', json_int (cs_hub_pid st)),
        (''hubAddress'', json_string (cs_hub_address st)), (''machines'', machines_json (cs_machines st)),
        (''created'', json_string (cs_created st))])"

definition write_json :: "kernel \<Rightarrow> string \<Rightarrow> bytes \<Rightarrow> err option io" where
  "write_json K path b = do_unit K (WriteFile path (b @ to_bytes [newline]) perm_0600)"

section \<open>Starting one machine\<close>

text \<open>The flags \<^verbatim>\<open>startClusterMachine\<close> passes to \<^verbatim>\<open>machine up\<close>; those it does not give have their defaults.\<close>

definition cluster_flags :: "'h host_scheme \<Rightarrow> create_options \<Rightarrow> cluster_machine \<Rightarrow> string \<Rightarrow> nat \<Rightarrow> string \<Rightarrow> up_flags" where
  "cluster_flags H opts m hub index dir =
     (default_flags H)
       \<lparr>uf_name := cm_name m, uf_cidata := path_join [dir, cm_name m @ ''.iso''], uf_api_port := cm_api_port m,
        uf_mem := dec_int (co_memory opts), uf_cpus := dec_int (co_cpus opts), uf_arch := co_arch opts,
        uf_cluster_net := hub, uf_cluster_mac := cluster_node_mac index,
        uf_image := co_image opts, uf_firmware := co_firmware opts,
        uf_changed := [''name'', ''cidata'', ''api-port'', ''memory'', ''cpus'', ''arch'', ''cluster-network'', ''cluster-mac''] @
          (if co_image opts \<noteq> [] then [''image''] else []) @ (if co_firmware opts \<noteq> [] then [''firmware''] else [])\<rparr>"

definition start_cluster_machine ::
  "'h tool_host_scheme \<Rightarrow> create_options \<Rightarrow> cluster_machine \<Rightarrow> string \<Rightarrow> nat \<Rightarrow> string \<Rightarrow> err option run"
where
  "start_cluster_machine T opts m hub index dir = machine_up (up_host.truncate T) (cluster_flags T opts m hub index dir)"

section \<open>Asking until there is an answer\<close>

definition attempt_limit :: nat where "attempt_limit = 180 * second"
definition retry_pause :: nat where "retry_pause = 3 * second"

text \<open>One round of \<^verbatim>\<open>retryRequest\<close>: no time left, an answer, or an error and a pause.\<close>

datatype 'a round = TimeUp | Got 'a | Again err

definition retry_round :: "kernel \<Rightarrow> string \<Rightarrow> string \<Rightarrow> int \<Rightarrow> bytes round io" where
  "retry_round K sock line deadline = do {
     t \<leftarrow> clock K;
     (if \<not> t < deadline then give TimeUp
      else do {
        t2 \<leftarrow> clock K;
        r \<leftarrow> host_request K sock line (nat (min (deadline - t2) (int attempt_limit)));
        (case r of
           Inr data \<Rightarrow> give (Got data)
         | Inl e \<Rightarrow> do { _ \<leftarrow> do_unit K (Sleep retry_pause); give (Again e) })
      })
   }"

partial_function (option) repeat_round ::
  "'a round io \<Rightarrow> string \<Rightarrow> err option \<Rightarrow> history \<Rightarrow> ((err + 'a) \<times> history) option"
where
  "repeat_round m message prior h =
     (case run_state m h of
        (TimeUp, h') \<Rightarrow> Some (Inl (Errorf message [] prior), h')
      | (Got x, h') \<Rightarrow> Some (Inr x, h')
      | (Again e, h') \<Rightarrow> repeat_round m message (Some e) h')"

definition retry_request :: "kernel \<Rightarrow> string \<Rightarrow> string \<Rightarrow> int \<Rightarrow> (err + bytes) run" where
  "retry_request K sock line deadline = repeat_round (retry_round K sock line deadline) ''timed out: %w'' None"

definition await_token :: "'h tool_host_scheme \<Rightarrow> string \<Rightarrow> string \<Rightarrow> int \<Rightarrow> (err + bytes) run" where
  "await_token T name role deadline =
     (case resolve_socket T [] name of
        Inl e \<Rightarrow> lift (give (Inl e))
      | Inr sock \<Rightarrow> retry_request (h_kernel T) sock (''token '' @ role) deadline)"

definition map_error :: "(err \<Rightarrow> err) \<Rightarrow> err + 'a \<Rightarrow> err + 'a" where
  "map_error f r = (case r of Inl e \<Rightarrow> Inl (f e) | Inr x \<Rightarrow> Inr x)"

definition await_kubeconfig :: "'h tool_host_scheme \<Rightarrow> string \<Rightarrow> int \<Rightarrow> (err + bytes) run" where
  "await_kubeconfig T name deadline =
     (case resolve_socket T [] name of
        Inl e \<Rightarrow> lift (give (Inl e))
      | Inr sock \<Rightarrow>
          seq_run (retry_request (h_kernel T) sock ''kubeconfig'' deadline) (\<lambda>r.
            lift (give (map_error (wrap ''wait for the Kubernetes API: %w'' []) r))))"

section \<open>Waiting for the nodes\<close>

definition decode_field :: "string \<Rightarrow> string \<Rightarrow> err + bytes" where
  "decode_field message s =
     (case b64_decode s of None \<Rightarrow> Inl (wrap message [] (msg ''illegal base64 data'')) | Some b \<Rightarrow> Inr b)"

definition kube_client :: "'h tool_host_scheme \<Rightarrow> bytes \<Rightarrow> err + string" where
  "kube_client T data =
     (case th_kubeconfig T data of
        Inl e \<Rightarrow> Inl (wrap ''parse kubeconfig: %w'' [] e)
      | Inr cfg \<Rightarrow>
          if kcf_clusters cfg = [] \<or> kcf_users cfg = [] then Inl (msg ''kubeconfig has no cluster or user'')
          else (case (hd (kcf_clusters cfg), hd (kcf_users cfg)) of ((server, ca64), (cert64, key64)) \<Rightarrow>
            (case decode_field ''decode kubeconfig CA: %w'' ca64 of
               Inl e \<Rightarrow> Inl e
             | Inr ca \<Rightarrow>
                 (case decode_field ''decode kubeconfig client certificate: %w'' cert64 of
                    Inl e \<Rightarrow> Inl e
                  | Inr cert \<Rightarrow>
                      (case decode_field ''decode kubeconfig client key: %w'' key64 of
                         Inl e \<Rightarrow> Inl e
                       | Inr key \<Rightarrow>
                           (case th_key_pair T cert key of
                              Some e \<Rightarrow> Inl (wrap ''load kubeconfig client certificate: %w'' [] e)
                            | None \<Rightarrow>
                                if \<not> th_usable_ca T ca then Inl (msg ''kubeconfig contains no usable CA certificate'')
                                else Inr server))))))"

text \<open>Ready conditions are counted over all nodes, one for every condition that says so.\<close>

definition ready_count :: "(string \<times> string) list list \<Rightarrow> nat" where
  "ready_count nodes = sum_list (map (\<lambda>conds. length (filter (\<lambda>c. c = (''Ready'', ''True'')) conds)) nodes)"

definition node_verdict :: "'h tool_host_scheme \<Rightarrow> nat \<Rightarrow> int \<Rightarrow> err + bytes \<Rightarrow> unit round" where
  "node_verdict T want status body =
     (if status \<noteq> http_ok then Again (Errorf ''Kubernetes API returned %s'' [dec_int status] None)
      else case body of
             Inl e \<Rightarrow> Again e
           | Inr b \<Rightarrow>
               (case th_nodes T b of
                  Inl e \<Rightarrow> Again e
                | Inr nodes \<Rightarrow>
                    if length nodes = want \<and> ready_count nodes = want then Got ()
                    else Again (Errorf ''Kubernetes reports %d/%d nodes, %d Ready''
                           [dec (length nodes), dec want, dec (ready_count nodes)] None)))"

lemma verdict_status: "node_verdict T want status body = Got () \<Longrightarrow> status = http_ok"
  by (simp add: node_verdict_def split: if_splits)

definition nodes_round :: "'h tool_host_scheme \<Rightarrow> string \<Rightarrow> nat \<Rightarrow> int \<Rightarrow> unit round io" where
  "nodes_round T server want deadline = do {
     let K = h_kernel T;
     let url = trim_right (\<lambda>c. c = CHR ''/'') server @ ''/api/v1/nodes'';
     t \<leftarrow> clock K;
     (if \<not> t < deadline then give TimeUp
      else do {
        r \<leftarrow> do_num K (HttpGet url []);
        v \<leftarrow> (case r of
                Inl e \<Rightarrow> give (Again e)
              | Inr status \<Rightarrow>
                  if status \<noteq> http_ok then give (node_verdict T want status (Inr []))
                  else do { b \<leftarrow> do_bytes K (HttpBody url); give (node_verdict T want status b) });
        (case v of
           Again e \<Rightarrow> do { _ \<leftarrow> do_unit K (Sleep retry_pause); give (Again e) }
         | _ \<Rightarrow> give v)
      })
   }"

definition await_nodes_ready :: "'h tool_host_scheme \<Rightarrow> bytes \<Rightarrow> nat \<Rightarrow> int \<Rightarrow> (err + unit) run" where
  "await_nodes_ready T kubeconfig want deadline =
     (case kube_client T kubeconfig of
        Inl e \<Rightarrow> lift (give (Inl e))
      | Inr server \<Rightarrow> repeat_round (nodes_round T server want deadline) ''wait for all nodes to become Ready: %w'' None)"

section \<open>Creating\<close>

definition partial_cluster_error :: "string \<Rightarrow> err \<Rightarrow> err" where
  "partial_cluster_error name e =
     wrap (''cluster %q was only partially created: %w; inspect it with '' @ ticked ''k0smosctl machine list'' @
           '' or remove it with '' @ ticked ''k0smosctl cluster rm --name %s'') [name, name] e"

definition cleanup_unstarted :: "'h tool_host_scheme \<Rightarrow> string \<Rightarrow> int \<Rightarrow> string \<Rightarrow> unit io" where
  "cleanup_unstarted T dir hub_pid name = do {
     let K = h_kernel T;
     _ \<leftarrow> do_unit K (Kill hub_pid sig_term);
     _ \<leftarrow> (case guest_dir T name of Inl _ \<Rightarrow> give None | Inr d \<Rightarrow> do_unit K (RemoveAll d));
     _ \<leftarrow> do_unit K (RemoveAll dir);
     give ()
   }"

text \<open>Nothing of the name may be there already: neither a cluster nor one of its machines.\<close>

definition absent :: "kernel \<Rightarrow> string \<Rightarrow> err \<Rightarrow> err option io" where
  "absent K path taken = do {
     e \<leftarrow> do_unit K (Stat path);
     give (case e of None \<Rightarrow> Some taken | Some e \<Rightarrow> if is_not_exist e then None else Some e)
   }"

fun machines_absent :: "'h host_scheme \<Rightarrow> cluster_machine list \<Rightarrow> err option io" where
  "machines_absent H [] = give None"
| "machines_absent H (m # ms) =
     (case guest_dir H (cm_name m) of
        Inl e \<Rightarrow> give (Some e)
      | Inr d \<Rightarrow>
          guard_err (absent (h_kernel H) d
              (Errorf (''machine %q already exists; remove it with '' @ ticked ''k0smosctl machine rm --name %s'' @
                       '' before creating this cluster'') [cm_name m, cm_name m] None)) Some
            (machines_absent H ms))"

text \<open>The join of the remaining machines; \<open>i\<close> is the index of the first of them.\<close>

fun join_machines ::
  "'h tool_host_scheme \<Rightarrow> create_options \<Rightarrow> cluster_machine list \<Rightarrow> string \<Rightarrow> string \<Rightarrow> int \<Rightarrow> nat \<Rightarrow>
     cluster_machine list \<Rightarrow> err option run"
where
  "join_machines T opts all hub dir deadline i [] = lift (give None)"
| "join_machines T opts all hub dir deadline i (m # ms) =
     try_run (await_token T (cm_name (hd all)) (cm_role m) deadline)
       (\<lambda>e. partial_cluster_error (co_name opts) (wrap ''mint %s token for %s: %w'' [cm_role m, cm_name m] e)) (\<lambda>token.
     check_run (lift (write_cluster_drive (h_kernel T) (th_yaml T) (th_decoders T) dir m all (to_text token)))
       (partial_cluster_error (co_name opts))
     (check_run (start_cluster_machine T opts m hub i dir) (partial_cluster_error (co_name opts))
       (join_machines T opts all hub dir deadline (Suc i) ms)))"

definition finish_cluster :: "'h tool_host_scheme \<Rightarrow> create_options \<Rightarrow> cluster_machine list \<Rightarrow> int \<Rightarrow> err option run" where
  "finish_cluster T opts all deadline =
     (let K = h_kernel T; fail = partial_cluster_error (co_name opts) in
      try_run (await_kubeconfig T (cm_name (hd all)) deadline) fail (\<lambda>data0.
      try_run (lift (give (rewrite_server data0 (''127.0.0.1:'' @ dec_int (cm_api_port (hd all)))))) fail (\<lambda>data.
      try_run (await_nodes_ready T data (length all) deadline) fail (\<lambda>_.
      check_run (lift (do_unit K (WriteFile (co_kubeconfig opts) data perm_0600))) fail
        (lift (do {
           _ \<leftarrow> do_unit K (Say ''cluster %q is ready'' [co_name opts]);
           _ \<leftarrow> do_unit K (Say ''  kubeconfig: %s'' [co_kubeconfig opts]);
           _ \<leftarrow> do_unit K (Say ''  use it:     KUBECONFIG=%s kubectl get nodes'' [co_kubeconfig opts]);
           give None }))))))"

text \<open>What is started first; if it fails, everything is taken back.\<close>

definition first_machine ::
  "'h tool_host_scheme \<Rightarrow> create_options \<Rightarrow> cluster_machine list \<Rightarrow> string \<Rightarrow> string \<Rightarrow> int \<Rightarrow> err option run"
where
  "first_machine T opts all hub dir hub_pid =
     seq_run (check_run (lift (write_cluster_drive (h_kernel T) (th_yaml T) (th_decoders T) dir (hd all) all [])) (\<lambda>e. e)
                (start_cluster_machine T opts (hd all) hub 0 dir)) (\<lambda>r.
       case r of
         None \<Rightarrow> lift (give None)
       | Some e \<Rightarrow> lift (do { _ \<leftarrow> cleanup_unstarted T dir hub_pid (cm_name (hd all)); give (Some e) }))"

definition record_cluster :: "'h tool_host_scheme \<Rightarrow> create_options \<Rightarrow> cluster_machine list \<Rightarrow> string \<Rightarrow> string \<Rightarrow> int \<Rightarrow> (err + int) io" where
  "record_cluster T opts all hub dir hub_pid = do {
     let K = h_kernel T;
     t \<leftarrow> clock K;
     e \<leftarrow> write_json K (cluster_file_path dir) (marshal_cluster
            \<lparr>cs_name = co_name opts, cs_hub_pid = hub_pid, cs_hub_address = hub, cs_machines = all,
             cs_created = uh_time_text T t\<rparr>);
     (case e of
        Some e \<Rightarrow> do {
          _ \<leftarrow> do_unit K (Kill hub_pid sig_term);
          _ \<leftarrow> do_unit K (RemoveAll dir);
          give (Inl e) }
      | None \<Rightarrow> do {
          _ \<leftarrow> do_unit K (Say ''creating cluster %q from one artifact'' [co_name opts]);
          _ \<leftarrow> do_unit K (Say ''  network: %s (hub pid %d)'' [hub, dec_int hub_pid]);
          t2 \<leftarrow> clock K;
          give (Inr (t2 + co_timeout opts)) })
   }"

definition build_cluster :: "'h tool_host_scheme \<Rightarrow> create_options \<Rightarrow> cluster_machine list \<Rightarrow> string \<Rightarrow> err option run" where
  "build_cluster T opts all dir =
     try_run (start_cluster_hub (h_kernel T) dir) (\<lambda>e. e) (\<lambda>(hub, hub_pid).
     try_run (lift (record_cluster T opts all hub dir hub_pid)) (\<lambda>e. e) (\<lambda>deadline.
     check_run (first_machine T opts all hub dir hub_pid) (\<lambda>e. e)
       (check_run (join_machines T opts all hub dir deadline 1 (tl all)) (\<lambda>e. e)
          (finish_cluster T opts all deadline))))"

definition make_room :: "'h tool_host_scheme \<Rightarrow> create_options \<Rightarrow> cluster_machine list \<Rightarrow> string \<Rightarrow> err option io" where
  "make_room T opts all dir =
     (let K = h_kernel T in
      guard_err (absent K (cluster_file_path dir) (Errorf ''cluster %q already exists in %s'' [co_name opts, dir] None)) Some
        (guard_err (machines_absent T all) Some
           (do_unit K (MkdirAll dir perm_0700))))"

definition cluster_image :: "'h tool_host_scheme \<Rightarrow> create_options \<Rightarrow> (err + create_options) io" where
  "cluster_image T opts =
     (if co_image opts \<noteq> [] then give (Inr opts)
      else and_then (guest_for T (co_arch opts)) (\<lambda>g.
           and_then (resolve_release_artifact T (uh_version T) (uh_json T) (uh_sha256 T) (ga_apk g) (co_release opts) (co_cache_dir opts))
             (\<lambda>img. give (Inr (opts\<lparr>co_image := img\<rparr>)))))"

fun say_plan :: "kernel \<Rightarrow> cluster_machine list \<Rightarrow> unit io" where
  "say_plan K [] = give ()"
| "say_plan K (m # ms) = do {
     _ \<leftarrow> do_unit K (Say ''  %-10s %-28s %s%s''
            [cm_role m, cm_name m, cm_ip m, if cm_api_port m \<noteq> 0 then '' API :'' @ dec_int (cm_api_port m) else []]);
     say_plan K ms
   }"

definition create_cluster :: "'h tool_host_scheme \<Rightarrow> create_options \<Rightarrow> err option run" where
  "create_cluster T opts0 =
     (case plan_cluster T opts0 of
        Inl e \<Rightarrow> lift (give (Some e))
      | Inr all \<Rightarrow>
          if co_dry_run opts0 then lift (do {
            _ \<leftarrow> do_unit (h_kernel T) (Say ''cluster %q: %d controller(s), %d worker(s)''
                   [co_name opts0, dec_int (co_controllers opts0), dec_int (co_workers opts0)]);
            _ \<leftarrow> say_plan (h_kernel T) all;
            give None })
          else
            try_run (lift (cluster_image T opts0)) (\<lambda>e. e) (\<lambda>opts.
            try_run (lift (give (cluster_state_dir T (co_name opts)))) (\<lambda>e. e) (\<lambda>dir.
            check_run (lift (make_room T opts all dir)) (\<lambda>e. e)
              (build_cluster T opts all dir))))"

text \<open>The command: \<^verbatim>\<open>--image\<close> excludes the flags of the release.\<close>

definition cluster_create :: "'h tool_host_scheme \<Rightarrow> string list \<Rightarrow> create_options \<Rightarrow> err option run" where
  "cluster_create T given opts =
     (if ''image'' \<in> set given \<and> (''release'' \<in> set given \<or> ''cache-dir'' \<in> set given)
      then lift (give (Some (msg (''--image bypasses release resolution, so it cannot be combined with '' @
                                  ''--release or --cache-dir''))))
      else create_cluster T opts)"

section \<open>Creating ends\<close>

lemma emits_any: "emits P m \<Longrightarrow> emits (\<lambda>_. True) m"
  by (erule emits_mono) simp

lemma emits_hub_look: "emits (\<lambda>_. True) (hub_look K pid ready log deadline)"
  by (auto simp: hub_look_def Let_def intro!: emits_intros)

lemma hub_look_again:
  assumes "keeps_time K t0" and "run_state (hub_look K pid ready log deadline) h = (None, h')"
  shows "t0 + int (slept h) < deadline \<and> slept h < slept h'"
proof -
  obtain t where "answer_num K h ClockNano = Inr t" and "t0 + int (slept h) \<le> t"
    using assms(1) unfolding keeps_time_def by blast
  with assms(2) show ?thesis
    by (auto simp: hub_look_def clock_def slept_def poll_step_def Let_def split: prod.splits list.splits option.splits if_splits)
qed

interpretation hub_wait: timed_loop K deadline "look_step (hub_look K pid ready log deadline)"
    "\<lambda>_. await_hub K pid ready log deadline"
  for K pid ready log deadline
proof
  show "await_hub K pid ready log deadline h =
      (case look_step (hub_look K pid ready log deadline) s h of
         (Inl r, h') \<Rightarrow> Some (r, h') | (Inr s', h') \<Rightarrow> await_hub K pid ready log deadline h')" for s h
    by (subst await_hub.simps) (simp add: look_step_def split: prod.split option.split)
next
  fix t0 s s' h h'
  assume "keeps_time K t0" and "look_step (hub_look K pid ready log deadline) s h = (Inr s', h')"
  then show "t0 + int (slept h) \<le> deadline \<and> slept h < slept h'"
    using hub_look_again [of K t0 pid ready log deadline h h'] by (simp add: look_step_again)
qed

lemmas await_hub_ends [ends_intros] = hub_wait.finishes

text \<open>A round that asks again has slept, and there was time left before it.\<close>

definition round_step :: "'a round io \<Rightarrow> string \<Rightarrow> err option \<Rightarrow> history \<Rightarrow> ((err + 'a) + err option) \<times> history" where
  "round_step m message prior h =
     (case run_state m h of
        (TimeUp, h') \<Rightarrow> (Inl (Inl (Errorf message [] prior)), h')
      | (Got x, h') \<Rightarrow> (Inl (Inr x), h')
      | (Again e, h') \<Rightarrow> (Inr (Some e), h'))"

lemma round_step_again: "round_step m message prior h = (Inr p, h') \<Longrightarrow> \<exists>e. run_state m h = (Again e, h')"
  by (auto simp: round_step_def split: prod.splits round.splits)

lemma repeat_round_unroll:
  "repeat_round m message prior h =
     (case round_step m message prior h of (Inl r, h') \<Rightarrow> Some (r, h') | (Inr p, h') \<Rightarrow> repeat_round m message p h')"
  by (subst repeat_round.simps) (simp add: round_step_def split: prod.split round.split)

interpretation request_wait: timed_loop K deadline "round_step (retry_round K sock line deadline) message"
    "repeat_round (retry_round K sock line deadline) message"
  for K deadline sock line message
proof (unfold_locales, rule repeat_round_unroll)
  fix t0 s s' h h'
  assume kt: "keeps_time K t0" and "round_step (retry_round K sock line deadline) message s h = (Inr s', h')"
  then obtain e where run: "run_state (retry_round K sock line deadline) h = (Again e, h')" using round_step_again by blast
  obtain t h1 where t: "run_state (clock K) h = (t, h1)" by fastforce
  obtain t2 h2 where t2: "run_state (clock K) h1 = (t2, h2)" by fastforce
  obtain r h3 where r: "run_state (host_request K sock line (nat (min (deadline - t2) (int attempt_limit)))) h2 = (r, h3)"
    by fastforce
  have "emits (\<lambda>_. True) (host_request K sock line n)" for n
    by (auto simp: host_request_def dial_def exchange_def intro!: emits_intros)
  from emits_runE [OF this r] obtain cs where "h3 = h2 @ cs" by blast
  with clock_run [OF kt t] clock_run [OF kt t2] run t t2 r
  show "t0 + int (slept h) \<le> deadline \<and> slept h < slept h'"
    by (auto simp: retry_round_def slept_def retry_pause_def second_def split: if_splits sum.splits)
qed

interpretation nodes_wait: timed_loop "h_kernel T" deadline "round_step (nodes_round T server want deadline) message"
    "repeat_round (nodes_round T server want deadline) message"
  for T deadline server want message
proof (unfold_locales, rule repeat_round_unroll)
  fix t0 s s' h h'
  assume kt: "keeps_time (h_kernel T) t0" and "round_step (nodes_round T server want deadline) message s h = (Inr s', h')"
  then obtain e where run: "run_state (nodes_round T server want deadline) h = (Again e, h')" using round_step_again by blast
  obtain t h1 where t: "run_state (clock (h_kernel T)) h = (t, h1)" by fastforce
  with clock_run [OF kt t] run
  show "t0 + int (slept h) \<le> deadline \<and> slept h < slept h'"
    by (auto simp: nodes_round_def Let_def slept_def retry_pause_def second_def
        split: if_splits sum.splits round.splits prod.splits)
qed

lemma retry_request_ends [ends_intros]: "keeps_time K t0 \<Longrightarrow> ends (retry_request K sock line deadline)"
  unfolding retry_request_def by (rule request_wait.finishes)

lemma start_cluster_hub_ends [ends_intros]: "keeps_time K t0 \<Longrightarrow> ends (start_cluster_hub K dir)"
  unfolding start_cluster_hub_def by (auto intro!: ends_intros split: sum.split)

lemma await_token_ends: "keeps_time (h_kernel T) t0 \<Longrightarrow> ends (await_token T name role deadline)"
  unfolding await_token_def by (auto intro!: ends_intros split: sum.split)

lemma await_kubeconfig_ends: "keeps_time (h_kernel T) t0 \<Longrightarrow> ends (await_kubeconfig T name deadline)"
  unfolding await_kubeconfig_def by (auto intro!: ends_intros split: sum.split)

lemma await_nodes_ready_ends: "keeps_time (h_kernel T) t0 \<Longrightarrow> ends (await_nodes_ready T data want deadline)"
  unfolding await_nodes_ready_def by (auto intro!: ends_intros nodes_wait.finishes split: sum.split)

lemma cluster_flags_detached: "\<not> uf_interactive (cluster_flags H opts m hub i dir)" "\<not> uf_attach (cluster_flags H opts m hub i dir)"
  by (simp_all add: cluster_flags_def default_flags_def)

lemma machine_up_ends:
  "keeps_time (h_kernel H) t0 \<Longrightarrow> \<not> uf_interactive f \<Longrightarrow> \<not> uf_attach f \<Longrightarrow> ends (machine_up H f)"
  using detach_returns by (auto simp: ends_def machine_up_def split: prod.split sum.split)

lemma start_cluster_machine_ends: "keeps_time (h_kernel T) t0 \<Longrightarrow> ends (start_cluster_machine T opts m hub i dir)"
  unfolding start_cluster_machine_def
  by (rule machine_up_ends [OF _ cluster_flags_detached]) (simp add: up_host.truncate_def)

lemma join_machines_ends: "keeps_time (h_kernel T) t0 \<Longrightarrow> ends (join_machines T opts all hub dir deadline i ms)"
  by (induction ms arbitrary: i) (auto intro!: ends_intros await_token_ends start_cluster_machine_ends)

lemma finish_cluster_ends: "keeps_time (h_kernel T) t0 \<Longrightarrow> ends (finish_cluster T opts all deadline)"
  unfolding finish_cluster_def Let_def by (auto intro!: ends_intros await_kubeconfig_ends await_nodes_ready_ends)

lemma first_machine_ends: "keeps_time (h_kernel T) t0 \<Longrightarrow> ends (first_machine T opts all hub dir pid)"
  unfolding first_machine_def by (auto intro!: ends_intros start_cluster_machine_ends split: option.split)

lemma build_cluster_ends: "keeps_time (h_kernel T) t0 \<Longrightarrow> ends (build_cluster T opts all dir)"
  unfolding build_cluster_def
  by (auto intro!: ends_intros first_machine_ends join_machines_ends finish_cluster_ends)

lemma create_cluster_ends: "keeps_time (h_kernel T) t0 \<Longrightarrow> ends (create_cluster T opts)"
  unfolding create_cluster_def by (auto intro!: ends_intros build_cluster_ends split: sum.split)

text \<open>
  C28. Creating a cluster comes to an end: on a host whose clock runs at least as fast as the tool sleeps,
  \<^verbatim>\<open>cluster create\<close> returns for all options, even when the network never comes up, a machine never
  answers or the nodes never become Ready.
\<close>

theorem cluster_create_returns:
  assumes "keeps_time (h_kernel T) t0"
  shows "\<exists>r h'. cluster_create T given opts h = Some (r, h')"
proof -
  have "ends (cluster_create T given opts)"
    unfolding cluster_create_def by (intro ends_intros create_cluster_ends [OF assms])
  then show ?thesis unfolding ends_def by fastforce
qed

lemma cluster_create_returns_witness:
  "\<exists>r h'. cluster_create lost_host [] (dev_options\<lparr>co_image := ''img''\<rparr>) [] = Some (r, h')"
  by (rule cluster_create_returns [where ?t0.0 = 0])
    (simp add: keeps_time_def lost_kernel_def patient_kernel_def quiet_kernel_def)

section \<open>Nothing is adopted\<close>

text \<open>\<open>absent_seen K h p\<close>: somewhere in \<open>h\<close> the path was looked up and was not there.\<close>

definition absent_seen :: "kernel \<Rightarrow> history \<Rightarrow> string \<Rightarrow> bool" where
  "absent_seen K h p = (\<exists>u v e. h = u @ Stat p # v \<and> answer_unit K u (Stat p) = Some e \<and> is_not_exist e)"

lemma absent_seen_append: "absent_seen K h p \<Longrightarrow> absent_seen K (h @ cs) p"
  unfolding absent_seen_def by force

lemma absent_sees:
  assumes "run_state (absent K p taken) h = (None, h')"
  shows "absent_seen K h' p \<and> h' = h @ [Stat p]"
  using assms by (auto simp: absent_def absent_seen_def split: option.splits if_splits)

lemma emits_absent [ready_intros]: "emits prepares (absent K p taken)"
  by (auto simp: absent_def intro!: emits_intros)

lemma emits_machines_absent [ready_intros]: "emits prepares (machines_absent H ms)"
  by (induction ms) (auto intro!: emits_intros ready_intros split: sum.split)

lemma machines_absent_sees:
  "run_state (machines_absent H ms) h = (None, h') \<Longrightarrow> m \<in> set ms \<Longrightarrow>
     \<exists>d. guest_dir H (cm_name m) = Inr d \<and> absent_seen (h_kernel H) h' d"
proof (induction ms arbitrary: h)
  case (Cons n ms)
  then obtain d where d: "guest_dir H (cm_name n) = Inr d" by (auto split: sum.splits)
  from Cons.prems(1) d obtain taken h1 where a: "run_state (absent (h_kernel H) d taken) h = (None, h1)"
    and rest: "run_state (machines_absent H ms) h1 = (None, h')"
    by (auto simp del: run_guard_err elim!: guard_errE)
  obtain cs where "h' = h1 @ cs" using emits_machines_absent rest by (rule emits_runE)
  then have "absent_seen (h_kernel H) h' d" using absent_sees [OF a] absent_seen_append by blast
  with Cons.IH [OF rest] Cons.prems(2) d show ?case by auto
qed simp

lemma make_room_sees:
  assumes "run_state (make_room T opts all dir) h = (None, h')"
  shows "absent_seen (h_kernel T) h' (cluster_file_path dir) \<and>
    (\<forall>m\<in>set all. \<exists>d. guest_dir T (cm_name m) = Inr d \<and> absent_seen (h_kernel T) h' d) \<and>
    (\<exists>cs. h' = h @ cs \<and> list_all prepares cs)"
proof -
  from assms obtain taken h1 h2
    where a: "run_state (absent (h_kernel T) (cluster_file_path dir) taken) h = (None, h1)"
      and b: "run_state (machines_absent T all) h1 = (None, h2)"
      and c: "run_state (do_unit (h_kernel T) (MkdirAll dir perm_0700)) h2 = (None, h')"
    by (auto simp: make_room_def Let_def simp del: run_guard_err run_do_unit elim!: guard_errE)
  from c have h': "h' = h2 @ [MkdirAll dir perm_0700]" by simp
  obtain cs where cs: "h2 = h1 @ cs" "list_all prepares cs" using emits_machines_absent b by (rule emits_runE)
  have "absent_seen (h_kernel T) h' (cluster_file_path dir)"
    unfolding h' cs(1) using absent_sees [OF a] by (intro absent_seen_append) blast
  moreover have "\<exists>d. guest_dir T (cm_name m) = Inr d \<and> absent_seen (h_kernel T) h' d" if "m \<in> set all" for m
    using machines_absent_sees [OF b that] absent_seen_append h' by blast
  ultimately show ?thesis using absent_sees [OF a] cs h' by auto
qed

section \<open>What a machine start adds\<close>

fun unsignalled :: "call \<Rightarrow> bool" where
  "unsignalled (Kill _ _) = False"
| "unsignalled _ = True"

lemma machine_up_makes:
  assumes "\<not> uf_interactive f" and "\<not> uf_attach f"
  shows "makes unsignalled (machine_up H f)"
  unfolding makes_def
proof (intro allI impI)
  fix h r h'
  assume up: "machine_up H f h = Some (r, h')"
  obtain p h1 where prep: "run_state (up_prepare H f) h = (p, h1)" by fastforce
  obtain c0 where "h1 = h @ c0" "list_all prepares c0" using emits_up_prepare prep by (rule emits_runE)
  moreover have "prepares c \<Longrightarrow> unsignalled c" for c by (cases c) auto
  ultimately have c0: "h1 = h @ c0" "list_all unsignalled c0" by (auto simp: list_all_iff)
  show "\<exists>cs. h' = h @ cs \<and> list_all unsignalled cs"
  proof (cases "(\<exists>e. p = Inl e) \<or> uf_dry_run f")
    case True
    with up prep c0 show ?thesis by (auto simp: machine_up_def split: sum.splits prod.splits)
  next
    case False
    then obtain argv s meta where p: "p = Inr (argv, s, meta)" by (cases p) auto
    with up prep assms False have "detach H argv s (uf_name f) meta h1 = Some (r, h')" by (simp add: machine_up_def)
    from detach_calls [OF this] obtain b
      where b: "h' = h1 @ added (start_detached (h_kernel H) argv s) h1 @ b" "list_all leaves_running b" by blast
    have "emits unsignalled (start_detached (h_kernel H) argv s)"
      by (auto simp: start_detached_def intro!: emits_intros)
    then have "list_all unsignalled (added (start_detached (h_kernel H) argv s) h1)"
      by (auto simp: list_all_iff dest: emits_added)
    moreover have "leaves_running c \<Longrightarrow> unsignalled c" for c by (cases c) auto
    ultimately show ?thesis using b c0 by (auto simp: list_all_iff)
  qed
qed

lemma start_cluster_machine_makes: "makes unsignalled (start_cluster_machine T opts m hub i dir)"
  unfolding start_cluster_machine_def by (rule machine_up_makes [OF cluster_flags_detached])

lemma emits_write_cluster_drive: "(\<And>p. P (CreateFile p)) \<Longrightarrow> (\<And>p b. P (WriteTo p b)) \<Longrightarrow> emits P (write_cluster_drive K yaml D dir m all token)"
proof -
  assume P: "\<And>p. P (CreateFile p)" "\<And>p b. P (WriteTo p b)"
  have "emits P (load_in_memory D body meta)" for body meta
    by (simp add: emits_def load_in_memory_run)
  with P show ?thesis
    by (auto simp: write_cluster_drive_def write_drive_def write_iso_def Let_def intro!: emits_intros split: sum.split)
qed

text \<open>
  C40. A first machine that does not come up in time loses its disk while it runs: if the first machine of
  a cluster is reported as not started, its directory and the cluster's are removed, but the only
  process that is signalled is the network; a QEMU that was started and is slow goes on without its disk.
\<close>

theorem failed_first_machine_loses_its_disk:
  assumes "first_machine T opts all hub dir hub_pid h = Some (Some e, h')" and "guest_dir T (cm_name (hd all)) = Inr d"
  shows "\<exists>cs. h' = h @ cs @ [Kill hub_pid sig_term, RemoveAll d, RemoveAll dir] \<and> list_all unsignalled cs"
proof -
  from assms(1) obtain r h1
    where m: "check_run (lift (write_cluster_drive (h_kernel T) (th_yaml T) (th_decoders T) dir (hd all) all [])) (\<lambda>e. e)
                (start_cluster_machine T opts (hd all) hub 0 dir) h = Some (r, h1)"
      and c: "(case r of None \<Rightarrow> lift (give None)
       | Some e \<Rightarrow> lift (do { _ \<leftarrow> cleanup_unstarted T dir hub_pid (cm_name (hd all)); give (Some e) })) h1 = Some (Some e, h')"
    unfolding first_machine_def by (rule seq_runE)
  have "makes unsignalled (check_run (lift (write_cluster_drive (h_kernel T) (th_yaml T) (th_decoders T) dir (hd all) all [])) (\<lambda>e. e)
                (start_cluster_machine T opts (hd all) hub 0 dir))"
    by (intro makes_intros start_cluster_machine_makes emits_write_cluster_drive) simp_all
  then obtain cs where "h1 = h @ cs" "list_all unsignalled cs" using m by (rule makesE)
  with c assms(2) show ?thesis by (cases r) (auto simp: lift_def cleanup_unstarted_def Let_def)
qed

lemma failed_first_machine_loses_its_disk_witness:
  "\<exists>h' cs. first_machine lost_host dev_options (cs_machines lost_cluster) ''127.0.0.1:9'' ''/c'' 9 [] = Some (Some (msg ''yaml''), h') \<and>
     h' = cs @ [Kill 9 sig_term, RemoveAll ''/state/default'', RemoveAll ''/c''] \<and> list_all unsignalled cs"
proof -
  have first: "hd (cs_machines lost_cluster) = \<lparr>cm_name = ''default'', cm_role = ''controller'', cm_ip = ''10.10.0.11'', cm_api_port = 6443\<rparr>"
    by (simp add: lost_cluster_def)
  have y: "th_yaml lost_host k = Inl (msg ''yaml'')" for k by (simp add: demo_tool_host_def)
  obtain u h' where "run_state (cleanup_unstarted lost_host ''/c'' 9 (cm_name (hd (cs_machines lost_cluster)))) [] = (u, h')"
    by (metis surj_pair)
  then have r: "first_machine lost_host dev_options (cs_machines lost_cluster) ''127.0.0.1:9'' ''/c'' 9 [] = Some (Some (msg ''yaml''), h')"
    by (simp add: first_machine_def check_run_def seq_run_def lift_def write_cluster_drive_def y)
  have "guest_dir lost_host (cm_name (hd (cs_machines lost_cluster))) = Inr ''/state/default''"
    by (simp add: first demo_tool_dir)
  from failed_first_machine_loses_its_disk [OF r this] r show ?thesis by auto
qed

section \<open>Every call of a creation\<close>

lemma repeat_round_makes:
  assumes "emits P m"
  shows "makes P (repeat_round m message prior)"
proof -
  have "m' = m \<longrightarrow> (\<exists>cs. snd y = g @ cs \<and> list_all P cs)" if "repeat_round m' t p g = Some y" for m' :: "'a round io" and t p g y
  proof (rule repeat_round.raw_induct [where P = "\<lambda>m' t p g y. m' = m \<longrightarrow> (\<exists>cs. snd y = g @ cs \<and> list_all P cs)", OF _ that])
    fix rec m' t p g and y :: "(err + 'a) \<times> history"
    assume ih: "\<And>m' t p g y. rec m' t p g = Some y \<Longrightarrow> m' = m \<longrightarrow> (\<exists>cs. snd y = g @ cs \<and> list_all P cs)"
      and step: "(case run_state m' g of (TimeUp, g') \<Rightarrow> Some (Inl (Errorf t [] p), g') | (Got x, g') \<Rightarrow> Some (Inr x, g')
          | (Again e, g') \<Rightarrow> rec m' t (Some e) g') = Some y"
    show "m' = m \<longrightarrow> (\<exists>cs. snd y = g @ cs \<and> list_all P cs)"
    proof
      assume "m' = m"
      obtain cs where cs: "snd (run_state m g) = g @ cs" "list_all P cs" using assms by (rule emitsE)
      with step \<open>m' = m\<close> show "\<exists>cs. snd y = g @ cs \<and> list_all P cs"
        by (auto split: prod.splits round.splits dest!: ih)
    qed
  qed
  then show ?thesis by (force simp: makes_def)
qed

lemma await_hub_grows: "grows (await_hub K pid ready log deadline)"
proof -
  have all: "\<exists>cs. snd y = g @ cs" if "await_hub L p r l d g = Some y" for L p r l d g y
  proof (rule await_hub.raw_induct [where P = "\<lambda>L p r l d g y. \<exists>cs. snd y = g @ cs", OF _ that])
    fix rec L p r l d g and y :: "(err + string \<times> int) \<times> history"
    assume ih: "\<And>L p r l d g y. rec L p r l d g = Some y \<Longrightarrow> \<exists>cs. snd y = g @ cs"
      and step: "(case run_state (hub_look L p r l d) g of (Some x, g') \<Rightarrow> Some (x, g') | (None, g') \<Rightarrow> rec L p r l d g') = Some y"
    obtain cs where cs: "snd (run_state (hub_look L p r l d) g) = g @ cs" using emits_hub_look by (rule emitsE)
    from step cs show "\<exists>cs. snd y = g @ cs"
      by (auto split: prod.splits option.splits dest!: ih)
  qed
  show ?thesis unfolding makes_def
  proof (intro allI impI)
    fix h r h'
    assume "await_hub K pid ready log deadline h = Some (r, h')"
    from all [OF this] show "\<exists>cs. h' = h @ cs \<and> list_all (\<lambda>_. True) cs" by (simp add: list.pred_True)
  qed
qed

lemma retry_request_grows: "grows (retry_request K sock line deadline)"
  unfolding retry_request_def
  by (rule repeat_round_makes)
    (auto simp: retry_round_def host_request_def dial_def exchange_def intro!: emits_intros)

lemma nodes_round_emits: "emits (\<lambda>_. True) (nodes_round T server want deadline)"
  by (auto simp: nodes_round_def Let_def intro!: emits_intros split: round.split)

lemma start_cluster_machine_grows: "grows (start_cluster_machine T opts m hub i dir)"
  using start_cluster_machine_makes by (rule makes_any)

lemma drive_emits: "emits (\<lambda>_. True) (write_cluster_drive K yaml D dir m all token)"
  by (rule emits_write_cluster_drive) simp_all

lemma join_machines_grows: "grows (join_machines T opts all hub dir deadline i ms)"
  by (induction ms arbitrary: i)
    (auto simp: await_token_def intro!: makes_intros emits_intros retry_request_grows drive_emits start_cluster_machine_grows
      split: sum.split)

lemma finish_cluster_grows: "grows (finish_cluster T opts all deadline)"
  unfolding finish_cluster_def Let_def await_kubeconfig_def await_nodes_ready_def
  by (intro makes_intros emits_intros retry_request_grows repeat_round_makes nodes_round_emits)
    (auto intro!: makes_intros emits_intros retry_request_grows repeat_round_makes nodes_round_emits split: sum.split)

lemma build_cluster_grows: "grows (build_cluster T opts all dir)"
proof -
  have c: "emits (\<lambda>_. True) (cleanup_unstarted T dir p n)" for p n
    by (auto simp: cleanup_unstarted_def Let_def intro!: emits_intros)
  have f: "grows (first_machine T opts all hub dir p)" for hub p
    unfolding first_machine_def
    by (intro makes_intros emits_intros drive_emits start_cluster_machine_grows c)
  have h: "grows (start_cluster_hub (h_kernel T) dir)"
    unfolding start_cluster_hub_def spawn_hub_def Let_def
    by (auto intro!: makes_intros emits_intros await_hub_grows split: sum.split)
  have r: "emits (\<lambda>_. True) (record_cluster T opts all hub dir p)" for hub p
    by (auto simp: record_cluster_def write_json_def Let_def intro!: emits_intros)
  show ?thesis
    unfolding build_cluster_def by (auto intro!: makes_intros f h r join_machines_grows finish_cluster_grows)
qed

lemma planned_only:
  assumes "create_cluster T opts h = Some (r, h')" and "plan_cluster T opts = Inr all" and "co_dry_run opts"
  shows "\<exists>cs. h' = h @ cs \<and> list_all prepares cs"
proof -
  have say: "emits prepares (say_plan K ms)" for K ms
    by (induction ms) (auto intro!: emits_intros)
  let ?m = "do { _ \<leftarrow> do_unit (h_kernel T) (Say ''cluster %q: %d controller(s), %d worker(s)''
                   [co_name opts, dec_int (co_controllers opts), dec_int (co_workers opts)]);
            _ \<leftarrow> say_plan (h_kernel T) all; give None }"
  have "emits prepares ?m" by (auto intro!: emits_intros say)
  moreover have "run_state ?m h = (r, h')" using assms by (simp add: create_cluster_def lift_def)
  ultimately obtain cs where "h' = h @ cs" "list_all prepares cs" by (rule emits_runE)
  then show ?thesis by blast
qed

lemma room_then_build:
  assumes "check_run (lift (make_room T opts all dir)) (\<lambda>e. e) (build_cluster T opts all dir) h1 = Some (r, h')"
  obtains cs where "h' = h1 @ cs" "list_all prepares cs"
    | pre post where "list_all prepares pre" "h' = h1 @ pre @ post" "absent_seen (h_kernel T) (h1 @ pre) (cluster_file_path dir)"
        "\<forall>m\<in>set all. \<exists>d. guest_dir T (cm_name m) = Inr d \<and> absent_seen (h_kernel T) (h1 @ pre) d"
  using assms
proof (cases rule: check_runE)
  case (1 e h3)
  have "emits prepares (make_room T opts all dir)"
    by (auto simp: make_room_def Let_def intro!: emits_intros ready_intros)
  moreover have "run_state (make_room T opts all dir) h1 = (Some e, h')" using 1 by (simp add: lift_def)
  ultimately show thesis by (rule emits_runE) (rule that(1))
next
  case (2 h3)
  then have "run_state (make_room T opts all dir) h1 = (None, h3)" by (simp add: lift_def)
  from make_room_sees [OF this] obtain pre
    where pre: "h3 = h1 @ pre" "list_all prepares pre" and seen: "absent_seen (h_kernel T) h3 (cluster_file_path dir)"
      "\<forall>m\<in>set all. \<exists>d. guest_dir T (cm_name m) = Inr d \<and> absent_seen (h_kernel T) h3 d" by blast
  obtain post where "h' = h3 @ post" using build_cluster_grows 2(2) by (rule makesE)
  with pre seen show thesis using that(2) [of pre post] by simp
qed

text \<open>
  C10. A new cluster adopts nothing: before \<^verbatim>\<open>cluster create\<close> starts any process, the network included, it has
  seen that neither a record of a cluster of that name nor a directory of any of its planned machines exists.
\<close>

theorem created_machines_are_new:
  assumes run: "create_cluster T opts h = Some (r, h')" and start: "StartProc argv own \<in> set (drop (length h) h')"
  shows "\<exists>all dir pre post. plan_cluster T opts = Inr all \<and> cluster_state_dir T (co_name opts) = Inr dir \<and> h' = h @ pre @ post \<and>
    StartProc argv own \<notin> set pre \<and> absent_seen (h_kernel T) (h @ pre) (cluster_file_path dir) \<and>
    (\<forall>m\<in>set all. \<exists>d. guest_dir T (cm_name m) = Inr d \<and> absent_seen (h_kernel T) (h @ pre) d)"
proof -
  have stays: False if "h' = h @ cs" "list_all prepares cs" for cs
    using that start by (auto simp: list_all_iff)
  obtain all where all: "plan_cluster T opts = Inr all"
    using run stays [of "[]"] by (cases "plan_cluster T opts") (auto simp: create_cluster_def lift_def)
  have wet: "\<not> co_dry_run opts" using planned_only [OF run all] stays by blast
  have img: "emits prepares (cluster_image T opts)"
    by (auto simp: cluster_image_def intro!: emits_intros ready_intros)
  from run all wet have "try_run (lift (cluster_image T opts)) (\<lambda>e. e) (\<lambda>opts.
            try_run (lift (give (cluster_state_dir T (co_name opts)))) (\<lambda>e. e) (\<lambda>dir.
            check_run (lift (make_room T opts all dir)) (\<lambda>e. e)
              (build_cluster T opts all dir))) h = Some (r, h')"
    by (simp add: create_cluster_def)
  then show ?thesis
  proof (cases rule: try_runE)
    case (1 e h1)
    then have "run_state (cluster_image T opts) h = (Inl e, h')" by (simp add: lift_def)
    with img obtain cs where "h' = h @ cs" "list_all prepares cs" by (rule emits_runE)
    with stays show ?thesis by blast
  next
    case (2 opts' h1)
    then have i: "run_state (cluster_image T opts) h = (Inr opts', h1)" by (simp add: lift_def)
    with img obtain c1 where c1: "h1 = h @ c1" "list_all prepares c1" by (rule emits_runE)
    have name: "co_name opts' = co_name opts"
      using i by (auto simp: cluster_image_def split: if_splits prod.splits sum.splits)
    from 2(2) c1 stays [of c1] obtain dir where dir: "cluster_state_dir T (co_name opts) = Inr dir"
      and rest: "check_run (lift (make_room T opts' all dir)) (\<lambda>e. e) (build_cluster T opts' all dir) h1 = Some (r, h')"
      by (cases rule: try_runE) (auto simp: lift_def name)
    from rest show ?thesis
    proof (cases rule: room_then_build)
      case (1 cs)
      with c1 stays [of "c1 @ cs"] show ?thesis by simp
    next
      case (2 pre post)
      with c1 have "h' = h @ (c1 @ pre) @ post" "StartProc argv own \<notin> set (c1 @ pre)" by (auto simp: list_all_iff)
      with 2 c1 all dir show ?thesis by (metis append.assoc)
    qed
  qed
qed

lemma repeat_round_got:
  assumes "repeat_round m message prior h = Some (Inr x, h')"
  shows "\<exists>u. run_state m u = (Got x, h')"
proof -
  have "m' = m \<longrightarrow> fst y = Inr x \<longrightarrow> (\<exists>u. run_state m u = (Got x, snd y))"
    if "repeat_round m' t p g = Some y" for m' :: "'a round io" and t p g y
  proof (rule repeat_round.raw_induct [where P = "\<lambda>m' t p g y. m' = m \<longrightarrow> fst y = Inr x \<longrightarrow> (\<exists>u. run_state m u = (Got x, snd y))", OF _ that])
    fix rec m' t p g and y :: "(err + 'a) \<times> history"
    assume ih: "\<And>m' t p g y. rec m' t p g = Some y \<Longrightarrow> m' = m \<longrightarrow> fst y = Inr x \<longrightarrow> (\<exists>u. run_state m u = (Got x, snd y))"
      and step: "(case run_state m' g of (TimeUp, g') \<Rightarrow> Some (Inl (Errorf t [] p), g') | (Got x, g') \<Rightarrow> Some (Inr x, g')
          | (Again e, g') \<Rightarrow> rec m' t (Some e) g') = Some y"
    show "m' = m \<longrightarrow> fst y = Inr x \<longrightarrow> (\<exists>u. run_state m u = (Got x, snd y))"
    proof (intro impI)
      assume "m' = m" "fst y = Inr x"
      with step show "\<exists>u. run_state m u = (Got x, snd y)"
        by (auto split: prod.splits round.splits dest!: ih)
    qed
  qed
  from this [OF assms] show ?thesis by simp
qed

text \<open>
  A cluster is announced only when its nodes are there: if the wait for the nodes succeeds, the API
  server answered a list of exactly the wanted number of nodes, with as many Ready conditions that hold.
\<close>

theorem ready_nodes_were_listed:
  assumes "await_nodes_ready T data want deadline h = Some (Inr (), h')"
  shows "\<exists>u url b nodes. h' = u @ [HttpBody url] \<and> answer_bytes (h_kernel T) u (HttpBody url) = Inr b \<and>
    th_nodes T b = Inr nodes \<and> length nodes = want \<and> ready_count nodes = want"
proof -
  obtain server where "kube_client T data = Inr server"
    and "repeat_round (nodes_round T server want deadline) ''wait for all nodes to become Ready: %w'' None h = Some (Inr (), h')"
    using assms by (auto simp: await_nodes_ready_def lift_def split: sum.splits)
  from repeat_round_got [OF this(2)] obtain u where r: "run_state (nodes_round T server want deadline) u = (Got (), h')" by blast
  let ?url = "trim_right (\<lambda>c. c = CHR ''/'') server @ ''/api/v1/nodes''"
  obtain t u1 where t: "run_state (clock (h_kernel T)) u = (t, u1)" by fastforce
  from r t have v: "h' = u1 @ [HttpGet ?url [], HttpBody ?url] \<and>
      (\<exists>status. node_verdict T want status (answer_bytes (h_kernel T) (u1 @ [HttpGet ?url []]) (HttpBody ?url)) = Got ())"
    by (auto simp: nodes_round_def Let_def dest: verdict_status split: if_splits sum.splits round.splits prod.splits)
  then obtain b nodes where "answer_bytes (h_kernel T) (u1 @ [HttpGet ?url []]) (HttpBody ?url) = Inr b"
    "th_nodes T b = Inr nodes" "length nodes = want" "ready_count nodes = want"
    by (auto simp: node_verdict_def split: if_splits sum.splits)
  with v show ?thesis by (intro exI [of _ "u1 @ [HttpGet ?url []]"] exI [of _ ?url] exI) auto
qed

section \<open>A creation whose network does not come up\<close>

lemma guest_dir_same: "state_root H = state_root H' \<Longrightarrow> guest_dir H n = guest_dir H' n"
  by (simp add: guest_dir_def split: option.split)

lemma check_machine_same: "state_root H = state_root H' \<Longrightarrow> check_machine H n = check_machine H' n"
  using guest_dir_same [of H H' n] by (simp add: check_machine_def guest_paths_def)

lemma plan_role_same: "state_root H = state_root H' \<Longrightarrow> plan_role H mk is = plan_role H' mk is"
  using check_machine_same [of H H'] by (induction "is") (simp_all cong: option.case_cong)

lemma plan_cluster_same: "state_root H = state_root H' \<Longrightarrow> plan_cluster H opts = plan_cluster H' opts"
  unfolding plan_cluster_def by (simp only: plan_role_same [of H H'])

lemma plan_cluster_image: "plan_cluster H (opts\<lparr>co_image := img\<rparr>) = plan_cluster H opts"
proof -
  have "check_options (opts\<lparr>co_image := img\<rparr>) = check_options opts" by (simp add: check_options_def)
  moreover have "controller_at (opts\<lparr>co_image := img\<rparr>) = controller_at opts" "worker_at (opts\<lparr>co_image := img\<rparr>) = worker_at opts"
    by (simp_all add: fun_eq_iff controller_at_def worker_at_def)
  ultimately show ?thesis by (simp add: plan_cluster_def cong: option.case_cong sum.case_cong)
qed

definition image_options :: create_options where "image_options = dev_options\<lparr>co_image := ''img''\<rparr>"

text \<open>Nothing is there, everything can be made, but the network process ends at once.\<close>

definition empty_kernel :: kernel where
  "empty_kernel = patient_kernel
     \<lparr>answer_unit := (\<lambda>h c. case c of Stat _ \<Rightarrow> Some NotExist | Kill _ _ \<Rightarrow> Some (Errno (OtherErrno 3)) | _ \<Rightarrow> None),
      answer_bytes := (\<lambda>h c. case c of ReadFile _ \<Rightarrow> Inl NotExist | _ \<Rightarrow> Inr [])\<rparr>"

abbreviation empty_host :: tool_host where "empty_host \<equiv> demo_tool_host empty_kernel lost_cluster"

lemma empty_plan: "plan_cluster empty_host image_options = Inr [machine_at dev_options 0, machine_at dev_options 1]"
  using dev_plan [of quiet_kernel] plan_cluster_same [of empty_host "plain_host quiet_kernel" dev_options]
  by (simp add: image_options_def plan_cluster_image)

lemma empty_answers [simp]:
  "answer_unit empty_kernel h c =
     (case c of Stat _ \<Rightarrow> Some NotExist | Kill _ _ \<Rightarrow> Some (Errno (OtherErrno 3)) | _ \<Rightarrow> None)"
  "answer_bytes empty_kernel h c = (case c of ReadFile _ \<Rightarrow> Inl NotExist | _ \<Rightarrow> Inr [])"
  "answer_num empty_kernel h (StartProc a b) = Inr 7" "answer_num empty_kernel h ClockNano = Inr (int (slept h))"
  by (simp_all add: empty_kernel_def patient_kernel_def quiet_kernel_def)

lemma plan_checked: "plan_cluster H opts = Inr ms \<Longrightarrow> m \<in> set ms \<Longrightarrow> check_machine H (cm_name m) = None"
  by (auto simp: plan_cluster_def dest: plan_role_checked split: option.splits sum.splits)

lemma empty_creation:
  "\<exists>r h' argv. create_cluster empty_host image_options [] = Some (r, h') \<and> StartProc argv True \<in> set h'"
proof -
  have "\<exists>d. guest_dir empty_host (cm_name m) = Inr d" if "m \<in> {machine_at dev_options 0, machine_at dev_options 1}" for m
    using plan_checked [OF empty_plan, of m] that by (auto simp: check_machine_def guest_paths_def split: sum.splits)
  then obtain d0 d1 where "guest_dir empty_host (cm_name (machine_at dev_options 0)) = Inr d0"
    "guest_dir empty_host (cm_name (machine_at dev_options 1)) = Inr d1" by blast
  moreover have "co_image image_options = ''img''" "co_name image_options = ''dev''" "\<not> co_dry_run image_options"
    by (simp_all add: image_options_def dev_options_def)
  ultimately show ?thesis
    by (simp add: create_cluster_def empty_plan try_run_def check_run_def seq_run_def lift_def cluster_image_def demo_cluster_dir
        make_room_def absent_def build_cluster_def start_cluster_hub_def spawn_hub_def clock_def hub_ready_time_def second_def
        await_hub.simps hub_look_def ready_address_def slept_def Let_def)
qed

lemma created_machines_are_new_witness:
  "\<exists>all dir pre. plan_cluster empty_host image_options = Inr all \<and> cluster_state_dir empty_host (co_name image_options) = Inr dir \<and>
    all \<noteq> [] \<and> absent_seen empty_kernel pre (cluster_file_path dir) \<and>
    (\<forall>m\<in>set all. \<exists>d. guest_dir empty_host (cm_name m) = Inr d \<and> absent_seen empty_kernel pre d)"
proof -
  obtain r h' argv where run: "create_cluster empty_host image_options [] = Some (r, h')" and "StartProc argv True \<in> set h'"
    using empty_creation by blast
  then have start: "StartProc argv True \<in> set (drop (length ([] :: history)) h')" by simp
  from created_machines_are_new [OF run start]
  obtain all dir pre where "plan_cluster empty_host image_options = Inr all" "cluster_state_dir empty_host (co_name image_options) = Inr dir"
    "absent_seen empty_kernel pre (cluster_file_path dir)"
    "\<forall>m\<in>set all. \<exists>d. guest_dir empty_host (cm_name m) = Inr d \<and> absent_seen empty_kernel pre d" by auto
  moreover from this(1) empty_plan have "all \<noteq> []" by auto
  ultimately show ?thesis by blast
qed

definition ready_kernel :: kernel where
  "ready_kernel = quiet_kernel\<lparr>answer_num := (\<lambda>h c. if c = ClockNano then Inr 0 else Inr 200)\<rparr>"

definition ready_host :: tool_host where
  "ready_host = (demo_tool_host ready_kernel lost_cluster)
     \<lparr>th_kubeconfig := (\<lambda>_. Inr \<lparr>kcf_clusters = [(''https://h'', [])], kcf_users = [([], [])]\<rparr>),
      th_nodes := (\<lambda>_. Inr [[(''Ready'', ''True'')]])\<rparr>"

lemma ready_host_values:
  "h_kernel ready_host = ready_kernel" "th_nodes ready_host b = Inr [[(''Ready'', ''True'')]]"
  "th_kubeconfig ready_host b = Inr \<lparr>kcf_clusters = [(''https://h'', [])], kcf_users = [([], [])]\<rparr>"
  "th_key_pair ready_host b b' = None" "th_usable_ca ready_host b"
  by (simp_all add: ready_host_def) (simp_all add: demo_tool_host_def)

lemma ready_answers:
  "answer_num ready_kernel h c = (if c = ClockNano then Inr 0 else Inr 200)" "answer_bytes ready_kernel h c = Inr []"
  by (simp_all add: ready_kernel_def quiet_kernel_def)

lemma ready_run: "\<exists>h'. await_nodes_ready ready_host [] 1 60 [] = Some (Inr (), h')"
proof -
  have b: "b64_decode [] = Some []" using b64_decode_encode [of "[]"] by simp
  have c: "kube_client ready_host [] = Inr ''https://h''"
    by (simp add: kube_client_def ready_host_values decode_field_def b)
  show ?thesis
    by (simp add: await_nodes_ready_def c repeat_round.simps nodes_round_def clock_def node_verdict_def http_ok_def ready_count_def
        Let_def ready_host_values ready_answers)
qed

lemma ready_nodes_were_listed_witness:
  "\<exists>u url b nodes. answer_bytes (h_kernel ready_host) u (HttpBody url) = Inr b \<and> th_nodes ready_host b = Inr nodes \<and> length nodes = 1"
proof -
  obtain h' where "await_nodes_ready ready_host [] 1 60 [] = Some (Inr (), h')" using ready_run by blast
  from ready_nodes_were_listed [OF this] show ?thesis by blast
qed

end
