(* ===== verification/Console_Logs.thy ===== *)
theory Console_Logs
  imports Console_Tail Host_Control Host_Run
begin

text \<open>
  \<^verbatim>\<open>k0smosctl machine logs\<close> (\<^verbatim>\<open>cmd/k0smosctl/machine_logs.go\<close>): printing a console from its start or
  from its last lines, and following it while QEMU appends to it. A read at an offset is the call
  \<open>PRead\<close>, which yields nothing at the end of the file; the pause between two looks is a \<open>Sleep\<close> whose
  answer is an error exactly when the context is done first. The console may grow at any moment: its
  contents are a function of the history.
\<close>

lemma try_run_NoneE:
  assumes "try_run m fail f h = Some (None, h')"
  obtains x h1 where "m h = Some (Inr x, h1)" and "f x h1 = Some (None, h')"
proof -
  from assms obtain x h1 where "m h = Some (x, h1)"
    and "(case x of Inl e \<Rightarrow> lift (give (Some (fail e))) | Inr x \<Rightarrow> f x) h1 = Some (None, h')"
    unfolding try_run_def by (rule seq_runE)
  then show thesis using that by (cases x) (auto simp: lift_def)
qed

section \<open>Copying\<close>

text \<open>\<^verbatim>\<open>io.Copy\<close>: blocks are read and printed until there is nothing more to read.\<close>

definition copy_block :: nat where "copy_block = 32 * 2 ^ 10"

definition copy_step :: "kernel \<Rightarrow> string \<Rightarrow> nat \<Rightarrow> ((err + nat) + nat) io" where
  "copy_step K path off = do {
     r \<leftarrow> do_bytes K (PRead path (int off) copy_block);
     (case r of
        Inl e \<Rightarrow> give (Inl (Inl e))
      | Inr b \<Rightarrow>
          if b = [] then give (Inl (Inr off))
          else do {
            e \<leftarrow> show_out K (to_text b);
            give (case e of Some e \<Rightarrow> Inl (Inl e) | None \<Rightarrow> Inr (off + length b))
          })
   }"

partial_function (option) copy_rest :: "kernel \<Rightarrow> string \<Rightarrow> nat \<Rightarrow> history \<Rightarrow> ((err + nat) \<times> history) option" where
  "copy_rest K path off h =
     (case run_state (copy_step K path off) h of
        (Inl r, h') \<Rightarrow> Some (r, h')
      | (Inr off', h') \<Rightarrow> copy_rest K path off' h')"

section \<open>Following\<close>

definition follow_poll :: nat where "follow_poll = 200 * 10 ^ 6"

partial_function (option) follow_file :: "kernel \<Rightarrow> string \<Rightarrow> nat \<Rightarrow> history \<Rightarrow> (err option \<times> history) option" where
  "follow_file K path off h =
     (case run_state (do_unit K (Sleep follow_poll)) h of
        (Some _, h1) \<Rightarrow> Some (None, h1)
      | (None, h1) \<Rightarrow>
          (case copy_rest K path off h1 of
             None \<Rightarrow> None
           | Some (Inl e, h2) \<Rightarrow> Some (Some e, h2)
           | Some (Inr off', h2) \<Rightarrow> follow_file K path off' h2))"

section \<open>The command\<close>

definition open_console :: "kernel \<Rightarrow> string \<Rightarrow> string \<Rightarrow> (err + int) io" where
  "open_console K name path = do {
     r \<leftarrow> do_num K (OpenFile path False);
     give (case r of
             Inl e \<Rightarrow>
               if is_not_exist e
               then Inl (Errorf (''no console for guest %q '' @ em_dash @ '' has it been booted? (%s)'') [name, path] None)
               else Inl e
           | Inr fd \<Rightarrow> Inr fd)
   }"

definition start_offset :: "kernel \<Rightarrow> string \<Rightarrow> int \<Rightarrow> (err + nat) io" where
  "start_offset K path nlines = (if nlines > 0 then seek_to_last_lines K path (nat nlines) else give (Inr 0))"

definition show_console :: "kernel \<Rightarrow> string \<Rightarrow> int \<Rightarrow> bool \<Rightarrow> err option run" where
  "show_console K path nlines follow =
     try_run (lift (start_offset K path nlines)) (\<lambda>e. e) (\<lambda>start.
     try_run (copy_rest K path start) (\<lambda>e. e) (\<lambda>off.
       if follow then follow_file K path off else lift (give None)))"

definition machine_logs :: "'h host_scheme \<Rightarrow> string \<Rightarrow> int \<Rightarrow> bool \<Rightarrow> err option run" where
  "machine_logs H name nlines follow =
     (let K = h_kernel H in
      case guest_paths H name of
        Inl e \<Rightarrow> lift (give (Some e))
      | Inr (path, _, _) \<Rightarrow>
          try_run (lift (open_console K name path)) (\<lambda>e. e) (\<lambda>fd.
            seq_run (show_console K path nlines follow) (\<lambda>r.
              lift (do { _ \<leftarrow> do_unit K (CloseFd fd); give r }))))"

section \<open>What is printed\<close>

text \<open>
  \<open>printed cs\<close> is what the calls print. A growing file is an append-only one: at every moment of the
  history its contents extend what they were before, and a read yields the bytes it has then.
\<close>

fun said :: "call \<Rightarrow> string" where
  "said (Say f [s]) = s"
| "said _ = []"

definition printed :: "call list \<Rightarrow> string" where "printed cs = concat (map said cs)"

lemma printed_simps [simp]:
  "printed [] = []" "printed (c # cs) = said c @ printed cs" "printed (cs @ ds) = printed cs @ printed ds"
  by (simp_all add: printed_def)

definition grows_as :: "kernel \<Rightarrow> string \<Rightarrow> (history \<Rightarrow> string) \<Rightarrow> bool" where
  "grows_as K path s =
     ((\<forall>h c. prefix (s h) (s (h @ [c]))) \<and>
      (\<forall>h. answer_num K h (Stat path) = Inr (int (length (s h)))) \<and>
      (\<forall>h off n. answer_bytes K h (PRead path (int off) n) = Inr (to_bytes (slice off (off + n) (s h)))))"

lemma grows_later:
  assumes "grows_as K path s"
  shows "prefix (s h) (s (h @ cs))"
proof (induction cs rule: rev_induct)
  case (snoc c cs)
  moreover have "prefix (s (h @ cs)) (s ((h @ cs) @ [c]))" using assms unfolding grows_as_def by blast
  ultimately show ?case by (metis append.assoc prefix_order.trans)
qed simp

lemma slice_longer: "prefix u v \<Longrightarrow> j \<le> length u \<Longrightarrow> slice i j v = slice i j u"
  by (auto simp: slice_def prefix_def)

lemma slice_join:
  assumes "i \<le> j" and "j \<le> k"
  shows "slice i j xs @ slice j k xs = slice i k xs"
proof -
  obtain a b where "j = i + a" "k = i + a + b" using assms by (auto simp: le_iff_add)
  then show ?thesis by (simp add: slice_def take_add add.commute)
qed

text \<open>
  One copy prints the file from its offset on, and stops at an offset at which the file ended
  when it was looked at last.
\<close>

definition copied :: "string \<Rightarrow> (history \<Rightarrow> string) \<Rightarrow> nat \<Rightarrow> history \<Rightarrow> nat \<Rightarrow> history \<Rightarrow> bool" where
  "copied path s off h off' h' =
     (\<exists>u. h' = h @ u @ [PRead path (int off') copy_block] \<and> off \<le> off' \<and> off' = length (s (h @ u)) \<and>
        printed u = slice off off' (s (h @ u)))"

lemma copied_further:
  assumes g: "grows_as K path s" and "printed (v @ w) = slice off mid (s (h @ v))" and "off \<le> mid"
    and "mid \<le> length (s (h @ v))" and "copied path s mid (h @ v @ w) off' h'"
  shows "copied path s off h off' h'"
proof -
  obtain u where u: "h' = h @ v @ w @ u @ [PRead path (int off') copy_block]" "mid \<le> off'"
      "off' = length (s (h @ v @ w @ u))" "printed u = slice mid off' (s (h @ v @ w @ u))"
    using assms(5) unfolding copied_def by auto
  have "printed (v @ w) = slice off mid (s (h @ v @ w @ u))"
    using assms(2,4) slice_longer [OF grows_later [OF g, of "h @ v" "w @ u"]] by simp
  then have "printed (v @ w) @ printed u = slice off off' (s (h @ v @ w @ u))"
    using slice_join [OF assms(3) u(2)] u(4) by (simp only:)
  with u assms(3) show ?thesis unfolding copied_def by (intro exI [of _ "v @ w @ u"]) simp
qed

lemma copy_rest_copied:
  assumes "grows_as K path s" and "off \<le> length (s h)" and "copy_rest K path off h = Some (Inr off', h')"
  shows "copied path s off h off' h'"
proof -
  have "grows_as L p s \<longrightarrow> o' \<le> length (s g) \<longrightarrow> (\<forall>x. fst y = Inr x \<longrightarrow> copied p s o' g x (snd y))"
    if "copy_rest L p o' g = Some y" for L p o' g y
  proof (rule copy_rest.raw_induct [where P = "\<lambda>L p o' g y. grows_as L p s \<longrightarrow> o' \<le> length (s g) \<longrightarrow>
      (\<forall>x. fst y = Inr x \<longrightarrow> copied p s o' g x (snd y))", OF _ that], intro impI allI)
    fix rec L p o' g y x
    assume ih: "\<And>L p o' g y. rec L p o' g = Some y \<Longrightarrow> grows_as L p s \<longrightarrow> o' \<le> length (s g) \<longrightarrow>
        (\<forall>x. fst y = Inr x \<longrightarrow> copied p s o' g x (snd y))"
      and step: "(case run_state (copy_step L p o') g of (Inl r, g') \<Rightarrow> Some (r, g') | (Inr o1, g') \<Rightarrow> rec L p o1 g') = Some y"
      and g: "grows_as L p s" and le: "o' \<le> length (s g)" and x: "fst y = Inr x"
    let ?t = "slice o' (o' + copy_block) (s g)" and ?c = "PRead p (int o') copy_block"
    have read: "answer_bytes L g ?c = Inr (to_bytes ?t)" using g unfolding grows_as_def by blast
    show "copied p s o' g x (snd y)"
    proof (cases "?t = []")
      case True
      then have "o' = length (s g)" using le by (auto simp: slice_def copy_block_def)
      moreover from True read step x have "y = (Inr o', g @ [?c])" "x = o'" by (auto simp: copy_step_def)
      ultimately show ?thesis unfolding copied_def by (intro exI [of _ "[]"]) (simp add: slice_def)
    next
      case False
      let ?w = "[?c, Say ''%s'' [?t]]"
      have "to_bytes ?t \<noteq> []" using False by (simp add: to_bytes_def)
      with read step x have "rec L p (o' + length ?t) (g @ ?w) = Some y"
        by (auto simp: copy_step_def show_out_def split: option.splits)
      moreover have n: "o' + length ?t \<le> length (s g)" "?t = slice o' (o' + length ?t) (s g)"
        using le by (auto simp: slice_def min_def)
      moreover have "length (s g) \<le> length (s (g @ ?w))" using grows_later [OF g] by (rule prefix_length_le)
      ultimately have "copied p s (o' + length ?t) (g @ ?w) x (snd y)" using ih g x by fastforce
      then show ?thesis using n by (intro copied_further [OF g, of "[]" ?w o' "o' + length ?t"]) simp_all
    qed
  qed
  from this [OF assms(3)] assms(1,2) show ?thesis by simp
qed

text \<open>
  Following goes on from where the copy ended, and ends with the context: after a last look at the
  file, one pause is cut short.
\<close>

lemma copied_trans:
  assumes g: "grows_as K path s" and "copied path s off h mid h1" and "copied path s mid (h1 @ [c]) off' h'" and "said c = []"
  shows "copied path s off h off' h'"
proof -
  obtain u where "h1 = h @ u @ [PRead path (int mid) copy_block]" "off \<le> mid" "mid = length (s (h @ u))"
      "printed u = slice off mid (s (h @ u))"
    using assms(2) unfolding copied_def by blast
  with assms(3,4) show ?thesis
    by (intro copied_further [OF g, of u "[PRead path (int mid) copy_block, c]" off mid]) simp_all
qed

lemma follow_copied:
  assumes "grows_as K path s" and "copied path s off0 h0 off h" and "follow_file K path off h = Some (None, h')"
  shows "\<exists>mid h1. copied path s off0 h0 mid h1 \<and> h' = h1 @ [Sleep follow_poll]"
proof -
  have "grows_as L p s \<longrightarrow> copied p s off0 h0 o' g \<longrightarrow> fst y = None \<longrightarrow>
      (\<exists>mid h1. copied p s off0 h0 mid h1 \<and> snd y = h1 @ [Sleep follow_poll])"
    if "follow_file L p o' g = Some y" for L p o' g y
  proof (rule follow_file.raw_induct [where P = "\<lambda>L p o' g y. grows_as L p s \<longrightarrow> copied p s off0 h0 o' g \<longrightarrow>
      fst y = None \<longrightarrow> (\<exists>mid h1. copied p s off0 h0 mid h1 \<and> snd y = h1 @ [Sleep follow_poll])", OF _ that], intro impI)
    fix rec L p o' g and y :: "err option \<times> history"
    assume ih: "\<And>L p o' g y. rec L p o' g = Some y \<Longrightarrow> grows_as L p s \<longrightarrow> copied p s off0 h0 o' g \<longrightarrow> fst y = None \<longrightarrow>
        (\<exists>mid h1. copied p s off0 h0 mid h1 \<and> snd y = h1 @ [Sleep follow_poll])"
      and step: "(case run_state (do_unit L (Sleep follow_poll)) g of
          (None, h1) \<Rightarrow> (case copy_rest L p o' h1 of None \<Rightarrow> None | Some (Inl e, h2) \<Rightarrow> Some (Some e, h2)
            | Some (Inr off', h2) \<Rightarrow> rec L p off' h2)
        | (Some _, h1) \<Rightarrow> Some (None, h1)) = Some y"
      and g: "grows_as L p s" and c: "copied p s off0 h0 o' g" and y: "fst y = None"
    show "\<exists>mid h1. copied p s off0 h0 mid h1 \<and> snd y = h1 @ [Sleep follow_poll]"
    proof (cases "answer_unit L g (Sleep follow_poll)")
      case None
      with step y obtain o1 h2 where r: "copy_rest L p o' (g @ [Sleep follow_poll]) = Some (Inr o1, h2)" and rec: "rec L p o1 h2 = Some y"
        by (auto split: option.splits sum.splits)
      obtain u where u: "g = h0 @ u @ [PRead p (int o') copy_block]" "o' = length (s (h0 @ u))"
        using c unfolding copied_def by blast
      then have "o' \<le> length (s (g @ [Sleep follow_poll]))"
        using prefix_length_le [OF grows_later [OF g, of "h0 @ u" "[PRead p (int o') copy_block, Sleep follow_poll]"]] by simp
      from copied_trans [OF g c copy_rest_copied [OF g this r]] ih [OF rec] g y show ?thesis by simp
    qed (use step c in auto)
  qed
  from this [OF assms(3)] assms(1,2) show ?thesis by simp
qed

section \<open>Where the printing starts\<close>

lemma seek_says_nothing: "emits (\<lambda>c. said c = []) (seek_to_last_lines K path n)"
proof -
  have "emits (\<lambda>c. said c = []) (seek_back K path n pos nl)" for pos nl
  proof (induction pos arbitrary: nl rule: less_induct)
    case (less pos)
    have "pos \<noteq> 0 \<Longrightarrow> pos - min tail_block pos < pos" by (simp add: tail_block_def)
    with less show ?case by (subst seek_back.simps) (auto simp: Let_def intro!: emits_intros split: sum.split)
  qed
  then show ?thesis by (auto simp: seek_to_last_lines_def intro!: emits_intros)
qed

lemma silent_calls: "list_all (\<lambda>c. said c = []) cs \<Longrightarrow> printed cs = []"
  by (induction cs) simp_all

definition starts_at :: "int \<Rightarrow> string \<Rightarrow> nat \<Rightarrow> bool" where
  "starts_at n s start = (if n > 0 then drop start s = last_parts (nat n) s else start = 0)"

lemma start_offset_right:
  assumes g: "grows_as K path s" and run: "run_state (start_offset K path n) h = (r, h')"
  obtains start cs where "r = Inr start" and "h' = h @ cs" and "printed cs = []" and "start \<le> length (s h)"
    and "starts_at n (s h) start"
proof -
  have "emits (\<lambda>c. said c = []) (start_offset K path n)"
    by (auto simp: start_offset_def intro!: emits_intros seek_says_nothing)
  then obtain cs where "h' = h @ cs" "list_all (\<lambda>c. said c = []) cs" using run by (rule emits_runE)
  then have cs: "h' = h @ cs" "printed cs = []" by (simp_all add: silent_calls)
  have st: "answer_num K h (Stat path) = Inr (int (length (s h)))" using g by (simp add: grows_as_def)
  have "keeps_start K path (s h) h"
    unfolding keeps_start_def
  proof (intro allI impI)
    fix ds off k
    assume "off + k \<le> length (s h)"
    moreover have "answer_bytes K (h @ ds) (PRead path (int off) k) = Inr (to_bytes (slice off (off + k) (s (h @ ds))))"
      using g unfolding grows_as_def by blast
    ultimately show "answer_bytes K (h @ ds) (PRead path (int off) k) = Inr (to_bytes (slice off (off + k) (s h)))"
      using slice_longer [OF grows_later [OF g, of h ds]] by simp
  qed
  from seek_from [OF st this, of "nat n"] run obtain start
    where "r = Inr start" "start \<le> length (s h)" "starts_at n (s h) start"
    by (cases "n > 0") (auto simp: start_offset_def starts_at_def)
  with cs that show thesis by blast
qed

section \<open>Properties\<close>

text \<open>
  C27. A followed console is printed without a gap and without a repetition: while QEMU appends to it,
  \<^verbatim>\<open>machine logs -f\<close> prints the console from the requested last lines, as they were when it was opened,
  up to what it held at the last look, and ends only when its context does.
\<close>

theorem followed_console_is_complete:
  assumes run: "machine_logs H name n True h = Some (None, h')" and "guest_paths H name = Inr (path, sock, meta)"
    and g: "grows_as (h_kernel H) path s"
  shows "\<exists>u fd start. let now = s (h @ u) in
    h' = h @ u @ [PRead path (int (length now)) copy_block, Sleep follow_poll, CloseFd fd] \<and>
    printed u = drop start now \<and> starts_at n (s (h @ [OpenFile path False])) start"
proof -
  let ?K = "h_kernel H" and ?ho = "h @ [OpenFile path False]"
  from run assms(2) have "try_run (lift (open_console ?K name path)) (\<lambda>e. e) (\<lambda>fd.
      seq_run (show_console ?K path n True) (\<lambda>r. lift (do { _ \<leftarrow> do_unit ?K (CloseFd fd); give r }))) h = Some (None, h')"
    by (simp add: machine_logs_def Let_def)
  then obtain fd h2 where o: "lift (open_console ?K name path) h = Some (Inr fd, h2)"
    and "seq_run (show_console ?K path n True) (\<lambda>r. lift (do { _ \<leftarrow> do_unit ?K (CloseFd fd); give r })) h2 = Some (None, h')"
    by (rule try_run_NoneE)
  from this(2) obtain r0 h1 where sc: "show_console ?K path n True h2 = Some (r0, h1)"
    and "lift (do { _ \<leftarrow> do_unit ?K (CloseFd fd); give r0 }) h1 = Some (None, h')" by (rule seq_runE)
  then have h': "h' = h1 @ [CloseFd fd]" "r0 = None" by (simp_all add: lift_def)
  have "h2 = ?ho" using o by (auto simp: lift_def open_console_def)
  with sc h' have sc: "show_console ?K path n True ?ho = Some (None, h1)" by simp
  obtain r hs where so: "run_state (start_offset ?K path n) ?ho = (r, hs)" by fastforce
  then obtain start cs where st: "r = Inr start" "hs = ?ho @ cs" "printed cs = []" "start \<le> length (s ?ho)" "starts_at n (s ?ho) start"
    using start_offset_right [OF g] by blast
  from sc [unfolded show_console_def] obtain x h3 where x: "lift (start_offset ?K path n) ?ho = Some (Inr x, h3)"
    and "try_run (copy_rest ?K path x) (\<lambda>e. e) (\<lambda>off. if True then follow_file ?K path off else lift (give None)) h3 = Some (None, h1)"
    by (rule try_run_NoneE)
  from this(2) obtain off hc where "copy_rest ?K path x h3 = Some (Inr off, hc)" and f: "follow_file ?K path off hc = Some (None, h1)"
    by (rule try_run_NoneE) simp
  moreover from x so st have "x = start" "h3 = hs" by (simp_all add: lift_def)
  ultimately have c: "copy_rest ?K path start hs = Some (Inr off, hc)" by simp
  have "start \<le> length (s hs)" using st(2,4) prefix_length_le [OF grows_later [OF g, of ?ho cs]] by simp
  from copy_rest_copied [OF g this c] have "copied path s start hs off hc" .
  from follow_copied [OF g this f] obtain stop h4 where h4: "copied path s start hs stop h4" "h1 = h4 @ [Sleep follow_poll]" by blast
  obtain v where v: "h4 = hs @ v @ [PRead path (int stop) copy_block]" "stop = length (s (hs @ v))"
      "printed v = slice start stop (s (hs @ v))"
    using h4(1) unfolding copied_def by blast
  let ?u = "[OpenFile path False] @ cs @ v"
  have u: "hs @ v = h @ ?u" using st(2) by simp
  have "h' = h @ ?u @ [PRead path (int (length (s (h @ ?u)))) copy_block, Sleep follow_poll, CloseFd fd]"
    using h'(1) h4(2) v(1,2) u by simp
  moreover have "printed ?u = drop start (s (h @ ?u))"
    using v(2,3) st(3) u by (simp add: slice_def)
  ultimately show ?thesis unfolding Let_def using st(5) by blast
qed

text \<open>A console that holds still, printed until the first pause is cut short.\<close>

definition console_kernel :: "string \<Rightarrow> kernel" where
  "console_kernel s = quiet_kernel
     \<lparr>answer_unit := (\<lambda>h c. case c of Sleep _ \<Rightarrow> Some Canceled | _ \<Rightarrow> None),
      answer_num := (\<lambda>h c. case c of Stat _ \<Rightarrow> Inr (int (length s)) | _ \<Rightarrow> Inr 3),
      answer_bytes := (\<lambda>h c. case c of PRead _ off n \<Rightarrow> Inr (to_bytes (slice (nat off) (nat off + n) s)) | _ \<Rightarrow> Inr [])\<rparr>"

lemma console_answers [simp]:
  "answer_unit (console_kernel s) h (Sleep d) = Some Canceled" "answer_unit (console_kernel s) h (Say f ts) = None"
  "answer_unit (console_kernel s) h (CloseFd fd) = None" "answer_num (console_kernel s) h (OpenFile p b) = Inr 3"
  "answer_num (console_kernel s) h (Stat p) = Inr (int (length s))"
  "answer_bytes (console_kernel s) h (PRead p off n) = Inr (to_bytes (slice (nat off) (nat off + n) s))"
  by (simp_all add: console_kernel_def)

lemma plain_host_kernel [simp]: "h_kernel (plain_host K) = K" by (simp add: plain_host_def)

lemma console_kernel_grows: "grows_as (console_kernel s) path (\<lambda>_. s)"
  by (simp add: grows_as_def)

lemma demo_console: "guest_paths (plain_host K) ''default'' =
    Inr (''/state/default/console.log'', ''/state/default/control.sock'', ''/state/default/guest.json'')"
proof -
  have "guest_dir (plain_host K) ''default'' = Inr ''/state/default''"
    by (subst plain_host_dir) (simp_all add: proper_name_def)
  then show ?thesis
    by (simp add: guest_paths_def path_join_def path_clean_def console_file_def socket_file_def meta_file_def Let_def)
qed

lemma demo_logs:
  "machine_logs (plain_host (console_kernel ''a'')) ''default'' 0 True [] =
     Some (None, [OpenFile ''/state/default/console.log'' False, PRead ''/state/default/console.log'' 0 copy_block,
       Say ''%s'' [''a''], PRead ''/state/default/console.log'' 1 copy_block, Sleep follow_poll, CloseFd 3])"
proof -
  let ?K = "console_kernel ''a''" and ?p = "''/state/default/console.log''"
  have e: "copy_rest ?K ?p (Suc 0) h = Some (Inr 1, h @ [PRead ?p 1 copy_block])" for h
    by (subst copy_rest.simps) (simp add: copy_step_def slice_def to_bytes_def)
  have "copy_rest ?K ?p 0 h = Some (Inr 1, h @ [PRead ?p 0 copy_block, Say ''%s'' [''a''], PRead ?p 1 copy_block])" for h
    by (subst copy_rest.simps) (simp add: copy_step_def slice_def to_bytes_def to_text_def show_out_def copy_block_def e [unfolded copy_block_def])
  moreover have "follow_file ?K ?p 1 h = Some (None, h @ [Sleep follow_poll])" for h
    by (subst follow_file.simps) simp
  ultimately show ?thesis
    by (simp add: machine_logs_def demo_console try_run_def seq_run_def lift_def open_console_def show_console_def start_offset_def Let_def)
qed

theorem followed_console_is_complete_witness:
  "\<exists>h' u fd start. machine_logs (plain_host (console_kernel ''a'')) ''default'' 0 True [] = Some (None, h') \<and>
     h' = u @ [PRead ''/state/default/console.log'' 1 copy_block, Sleep follow_poll, CloseFd fd] \<and>
     printed u = drop start ''a'' \<and> starts_at 0 ''a'' start"
  using followed_console_is_complete [OF demo_logs demo_console, of "\<lambda>_. ''a''"] demo_logs
  by (simp add: console_kernel_grows Let_def)

text \<open>The console of a machine that has stopped.\<close>

definition still_kernel :: "kernel \<Rightarrow> string \<Rightarrow> string \<Rightarrow> bool" where
  "still_kernel K path s =
     (grows_as K path (\<lambda>_. s) \<and> (\<forall>h t. answer_unit K h (Say ''%s'' [t]) = None))"

lemma copy_rest_ends:
  assumes "still_kernel K path s" and "off \<le> length s"
  shows "\<exists>h'. copy_rest K path off h = Some (Inr (length s), h')"
  using assms(2)
proof (induction "length s - off" arbitrary: off h rule: less_induct)
  case less
  let ?t = "slice off (off + copy_block) s" and ?c = "PRead path (int off) copy_block"
  have read: "answer_bytes K h ?c = Inr (to_bytes ?t)" and out: "\<And>h t. answer_unit K h (Say ''%s'' [t]) = None"
    using assms(1) unfolding still_kernel_def grows_as_def by blast+
  show ?case
  proof (cases "off = length s")
    case True
    with read show ?thesis by (subst copy_rest.simps) (simp add: copy_step_def slice_def to_bytes_def)
  next
    case False
    then have t: "?t \<noteq> []" "to_bytes ?t \<noteq> []" "off + length ?t \<le> length s" "0 < length ?t"
      using less.prems by (auto simp: slice_def copy_block_def to_bytes_def)
    have "length s - (off + length ?t) < length s - off" using t less.prems False by linarith
    with less.hyps [of "off + length ?t" "h @ [?c, Say ''%s'' [?t]]"] t
    obtain h' where "copy_rest K path (off + length ?t) (h @ [?c, Say ''%s'' [?t]]) = Some (Inr (length s), h')" by blast
    with read out t show ?thesis by (subst copy_rest.simps) (simp add: copy_step_def show_out_def)
  qed
qed

text \<open>The last parts in terms of the text: what follows a newline and has exactly so many more of them.\<close>

definition newlines :: "string \<Rightarrow> nat" where "newlines s = length (filter (\<lambda>c. c = newline) s)"

lemma newlines_simps [simp]:
  "newlines [] = 0" "newlines (c # s) = (if c = newline then Suc (newlines s) else newlines s)"
  "newlines (s @ t) = newlines s + newlines t"
  by (simp_all add: newlines_def)

lemma newlines_join:
  "ws \<noteq> [] \<Longrightarrow> (\<And>w. w \<in> set ws \<Longrightarrow> newline \<notin> set w) \<Longrightarrow> Suc (newlines (join [newline] ws)) = length ws"
proof (induction "[newline]" ws rule: join.induct)
  case (2 w)
  then have "newline \<notin> set w" by simp
  then show ?case by (auto simp: newlines_def filter_empty_conv)
next
  case (3 w v ws)
  then have "newlines w = 0" by (auto simp: newlines_def filter_empty_conv)
  with 3 show ?case by simp
qed simp

lemma join_both: "xs \<noteq> [] \<Longrightarrow> ys \<noteq> [] \<Longrightarrow> join [c] (xs @ ys) = join [c] xs @ c # join [c] ys"
proof (induction "[c]" xs rule: join.induct)
  case (2 w)
  then show ?case by (cases ys) simp_all
qed simp_all

lemma last_parts_lines:
  "if n < newlines s then (\<exists>a. s = a @ newline # last_parts n s) \<and> newlines (last_parts n s) = n
   else last_parts n s = s"
proof -
  let ?ps = "split_on newline s"
  let ?d = "length ?ps - Suc n"
  have len: "length ?ps = Suc (newlines s)"
    using newlines_join [of ?ps] split_on_parts_no_sep [of _ newline s] by (simp add: join_split_on)
  show ?thesis
  proof (cases "n < newlines s")
    case True
    then have "take ?d ?ps \<noteq> []" "drop ?d ?ps \<noteq> []" using len by (auto simp: take_eq_Nil)
    from join_both [OF this, of newline] have "s = join [newline] (take ?d ?ps) @ newline # last_parts n s"
      by (simp add: join_split_on last_parts_def Let_def)
    moreover have "Suc (newlines (last_parts n s)) = length (drop ?d ?ps)"
      unfolding last_parts_def Let_def
      by (rule newlines_join) (use \<open>drop ?d ?ps \<noteq> []\<close> in \<open>auto dest: in_set_dropD split_on_parts_no_sep\<close>)
    ultimately show ?thesis using True len by auto
  next
    case False
    with len show ?thesis by (simp add: last_parts_def Let_def join_split_on)
  qed
qed

text \<open>
  C26. The console of a stopped machine is printed completely, or from its last lines on, and the
  command returns. With \<^verbatim>\<open>-n\<close>, if the console has more than \<open>n\<close> newlines, what is printed is the rest
  of it after one of them that has exactly \<open>n\<close> more: the last \<open>n\<close> lines, and after them
  the unfinished line if the console does not end with a newline, which is one more than was asked
  for.
\<close>

theorem stopped_console_is_printed:
  assumes "guest_paths H name = Inr (path, sock, meta)" and k: "still_kernel (h_kernel H) path s"
    and "answer_num (h_kernel H) h (OpenFile path False) = Inr fd"
  shows "\<exists>cs. machine_logs H name n False h = Some (None, h @ cs) \<and>
    (if n > 0 \<and> nat n < newlines s then (\<exists>a. s = a @ newline # printed cs) \<and> newlines (printed cs) = nat n
     else printed cs = s)"
proof -
  let ?K = "h_kernel H" and ?ho = "h @ [OpenFile path False]"
  have g: "grows_as ?K path (\<lambda>_. s)" using k by (simp add: still_kernel_def)
  obtain r hs where so: "run_state (start_offset ?K path n) ?ho = (r, hs)" by fastforce
  then obtain start cs where st: "r = Inr start" "hs = ?ho @ cs" "printed cs = []" "start \<le> length s" "starts_at n s start"
    using start_offset_right [OF g] by blast
  obtain hc where c: "copy_rest ?K path start hs = Some (Inr (length s), hc)" using copy_rest_ends [OF k st(4)] by blast
  from copy_rest_copied [OF g st(4) c] obtain u where u: "hc = hs @ u @ [PRead path (int (length s)) copy_block]"
      "printed u = slice start (length s) s"
    unfolding copied_def by blast
  from assms(1,3) so st c have "machine_logs H name n False h = Some (None, hc @ [CloseFd fd])"
    by (simp add: machine_logs_def Let_def try_run_def seq_run_def lift_def open_console_def show_console_def)
  moreover let ?cs = "[OpenFile path False] @ cs @ u @ [PRead path (int (length s)) copy_block, CloseFd fd]"
  have "printed ?cs = (if n > 0 then last_parts (nat n) s else s)"
    using u st by (auto simp: slice_def starts_at_def split: if_splits)
  ultimately show ?thesis
    using u(1) st(2) last_parts_lines [of "nat n" s] by (intro exI [of _ ?cs]) (auto split: if_splits)
qed

lemma still_console: "still_kernel (console_kernel s) path s"
  by (simp add: still_kernel_def console_kernel_grows)

theorem stopped_console_is_printed_witness:
  "\<exists>cs a. machine_logs (plain_host (console_kernel (''a'' @ [newline] @ ''b'' @ [newline]))) ''default'' 1 False [] = Some (None, [] @ cs) \<and>
     (''a'' @ [newline] @ ''b'' @ [newline]) = a @ newline # printed cs \<and> newlines (printed cs) = 1"
  using stopped_console_is_printed [OF demo_console, of "console_kernel (''a'' @ [newline] @ ''b'' @ [newline])" "(''a'' @ [newline] @ ''b'' @ [newline])" "[]" 3 1]
  by (simp add: still_console newlines_def char_of_def)

end
