(* ===== verification/Conversation.thy ===== *)
theory Conversation
  imports Boot Host_Control
begin

text \<open>
  The two ends of the control port together: what a user of \<^verbatim>\<open>k0smosctl\<close> gets when the bytes the tool
  sends are what the init of the machine reads, and the bytes the init writes are what the tool
  receives. QEMU and the virtio port in between are the hypothesis \<open>linked\<close>; both programs are the
  models of \<open>Host_Control\<close> on one side and of \<open>Control\<close>, \<open>Host_Requests\<close> and \<open>Boot\<close> on the other.
\<close>

section \<open>A link\<close>

text \<open>What the init writes on a connection that carries a text.\<close>

definition guest_writes ::
  "kernel \<Rightarrow> config \<Rightarrow> boot_record \<Rightarrow> (nat \<Rightarrow> bool) \<Rightarrow> history \<Rightarrow> string \<Rightarrow> bytes"
where
  "guest_writes K cfg rec taken h input =
     concat (s_written (fst (run_state (read_once taken (Some (answer_request K cfg rec)) (Some input)) h)))"

text \<open>The socket can be dialled and written, and carries back what the other end writes.\<close>

definition open_socket :: "kernel \<Rightarrow> string \<Rightarrow> bool" where
  "open_socket K sock =
     (\<forall>h t b. answer_unit K h (Dial sock) = None \<and> answer_unit K h (SockDeadline sock t) = None \<and>
        answer_unit K h (SockSend sock b) = None)"

definition linked :: "kernel \<Rightarrow> string \<Rightarrow> (string \<Rightarrow> bytes) \<Rightarrow> bool" where
  "linked K sock other =
     (open_socket K sock \<and>
      (\<forall>h b. answer_bytes K (h @ [SockSend sock b]) (SockRecv sock) = Inr (other (to_text b))))"

definition request_calls :: "string \<Rightarrow> string \<Rightarrow> nat \<Rightarrow> call list" where
  "request_calls sock l t =
     [Dial sock, SockDeadline sock t, SockSend sock (to_bytes (l @ [newline])), SockRecv sock, SockClose sock]"

lemma request_over_link:
  assumes "linked K sock other"
  shows "run_state (host_request K sock l t) h = (parse_reply (other (l @ [newline])), h @ request_calls sock l t)"
proof -
  have a: "answer_unit K g (Dial sock) = None" "answer_unit K g (SockDeadline sock t) = None"
    "answer_unit K g (SockSend sock b) = None" for g b
    using assms by (simp_all add: linked_def open_socket_def)
  have "answer_bytes K (g @ [SockSend sock b]) (SockRecv sock) = Inr (other (to_text b))" for g b
    using assms by (simp add: linked_def)
  from this [of "h @ [Dial sock, SockDeadline sock t]"] show ?thesis
    by (simp add: host_request_def dial_def exchange_def request_calls_def a)
qed

section \<open>Requests\<close>

lemma guest_writes_request:
  assumes "host_line l" and "is_request l"
  shows "guest_writes K cfg rec taken h (l @ [newline]) = fst (run_state (serve_request (Some (answer_request K cfg rec)) l) h)"
  using assms by (simp add: guest_writes_def read_once_def host_line_event idle_def split: prod.split)

definition answers :: "kernel \<Rightarrow> config \<Rightarrow> boot_record \<Rightarrow> history \<Rightarrow> string \<Rightarrow> err + bytes" where
  "answers K cfg rec h l = fst (run_state (answer_request K cfg rec l) h)"

lemma guest_answer_read:
  assumes "host_line l" and "is_request l"
  shows "answers K cfg rec h l = Inr data \<Longrightarrow> length data \<le> max_reply_bytes \<Longrightarrow>
      parse_reply (guest_writes K cfg rec taken h (l @ [newline])) = Inr data"
    and "answers K cfg rec h l = Inl e \<Longrightarrow> one_line (err_text e) = [] \<or> \<not> line_end (last (one_line (err_text e))) \<Longrightarrow>
      parse_reply (guest_writes K cfg rec taken h (l @ [newline])) = Inl (msg (one_line (err_text e)))"
  using reply_round_trip [of data "[]"] error_reply [OF one_line_no_newline, of "err_text e" "[]"]
  unfolding guest_writes_request [OF assms] by (auto simp: serve_request_def answers_def split: prod.splits)

text \<open>The lines the tool sends.\<close>

lemma kubeconfig_line: "host_line ''kubeconfig''" "is_request ''kubeconfig''"
  by (simp_all add: host_line_def is_request_def requests_def to_lower_def lower_char_def is_space_def newline_iff)

text \<open>
  C14. The kubeconfig of the node reaches the user: when the tool writes one, it holds what the node
  read from its disk, with the server replaced by the address the user asked for or that was recorded
  for the machine, and nothing of it is lost or added between the two.
\<close>

theorem kubeconfig_reaches_the_user:
  assumes link: "linked (h_kernel H) sock (guest_writes K cfg rec taken hg)" and res: "resolve_socket H sk name = Inr sock"
    and conf: "fst (run_state (read_kubeconfig K) hg) = Inr conf" "length conf \<le> max_reply_bytes"
    and run: "run_state (cluster_kubeconfig H name sk server changed out t) h = (None, h')" and dest: "out \<noteq> ''-''"
  shows "\<exists>u data srv. h' = u @ [WriteFile out data perm_0600, Say ''wrote %s (%d bytes)'' [out, dec (length data)]] \<and>
    srv = fst (run_state (kubeconfig_server H name server changed) h) \<and>
    (if srv = [] then data = conf else rewrite_server conf srv = Inr data)"
proof -
  obtain srv h1 where s: "run_state (kubeconfig_server H name server changed) h = (srv, h1)" by fastforce
  have "cut (CHR '' '') ''kubeconfig'' = (''kubeconfig'', [], False)" by simp
  with conf(1) have "answers K cfg rec hg ''kubeconfig'' = Inr conf" by (simp add: answers_def answer_request_def)
  from guest_answer_read(1) [OF kubeconfig_line this conf(2)]
  have r: "run_state (host_request (h_kernel H) sock ''kubeconfig'' t) h1 = (Inr conf, h1 @ request_calls sock ''kubeconfig'' t)"
    by (simp add: request_over_link [OF link])
  obtain data where d: "(if srv \<noteq> [] then rewrite_server conf srv else Inr conf) = Inr data"
    using run s r res by (cases "if srv \<noteq> [] then rewrite_server conf srv else Inr conf") (auto simp: cluster_kubeconfig_def)
  with run s r res dest have "h' = (h1 @ request_calls sock ''kubeconfig'' t) @
      [WriteFile out data perm_0600, Say ''wrote %s (%d bytes)'' [out, dec (length data)]]"
    by (auto simp: cluster_kubeconfig_def split: option.splits)
  with d s show ?thesis by (auto split: if_splits)
qed

text \<open>A host whose socket is a link to a node, and a node all of whose files hold one byte.\<close>

definition link_kernel :: "(string \<Rightarrow> bytes) \<Rightarrow> kernel" where
  "link_kernel other = quiet_kernel
     \<lparr>answer_bytes := (\<lambda>h c. case c of
        SockRecv _ \<Rightarrow> (case last h of SockSend _ b \<Rightarrow> Inr (other (to_text b)) | _ \<Rightarrow> Inr [])
      | _ \<Rightarrow> Inr [])\<rparr>"

lemma link_kernel_linked: "linked (link_kernel other) sock other"
  by (simp add: linked_def open_socket_def link_kernel_def quiet_kernel_def)

definition one_byte_node :: kernel where
  "one_byte_node = quiet_kernel\<lparr>answer_bytes := (\<lambda>_ _. Inr [107])\<rparr>"

abbreviation demo_link :: kernel where
  "demo_link \<equiv> link_kernel (guest_writes one_byte_node default_config (new_record []) (\<lambda>_. True) [])"

lemma demo_socket: "resolve_socket H ''s'' name = Inr ''s''"
  by (simp add: resolve_socket_def check_socket_path_def max_socket_path_def)

lemma one_byte_config: "fst (run_state (read_kubeconfig one_byte_node) []) = Inr [107]"
  by (simp add: read_kubeconfig_def sys_read_file_def one_byte_node_def Let_def)

lemma demo_fetch:
  "\<exists>h'. run_state (cluster_kubeconfig (plain_host demo_link) ''default'' ''s'' [] True ''k'' 5) [] = (None, h')"
proof -
  have "cut (CHR '' '') ''kubeconfig'' = (''kubeconfig'', [], False)" by simp
  then have "answers one_byte_node default_config (new_record []) [] ''kubeconfig'' = Inr [107]"
    using one_byte_config by (simp add: answers_def answer_request_def)
  from guest_answer_read(1) [OF kubeconfig_line this]
  have "run_state (host_request demo_link ''s'' ''kubeconfig'' 5) [] = (Inr [107], request_calls ''s'' ''kubeconfig'' 5)"
    by (simp add: request_over_link [OF link_kernel_linked] max_reply_bytes_def)
  then show ?thesis
    by (simp add: cluster_kubeconfig_def demo_socket kubeconfig_server_def plain_host_def) (simp add: link_kernel_def quiet_kernel_def)
qed

theorem kubeconfig_reaches_the_user_witness:
  "\<exists>h' u. run_state (cluster_kubeconfig (plain_host demo_link) ''default'' ''s'' [] True ''k'' 5) [] = (None, h') \<and>
     h' = u @ [WriteFile ''k'' [107] perm_0600, Say ''wrote %s (%d bytes)'' [''k'', dec 1]]"
proof -
  obtain h' where run: "run_state (cluster_kubeconfig (plain_host demo_link) ''default'' ''s'' [] True ''k'' 5) [] = (None, h')"
    using demo_fetch by blast
  have link: "linked (h_kernel (plain_host demo_link)) ''s'' (guest_writes one_byte_node default_config (new_record []) (\<lambda>_. True) [])"
    by (simp add: plain_host_def link_kernel_linked)
  have "length [107 :: 8 word] \<le> max_reply_bytes" by (simp add: max_reply_bytes_def)
  from kubeconfig_reaches_the_user [OF link demo_socket one_byte_config this run] run show ?thesis
    by (auto simp: kubeconfig_server_def)
qed

section \<open>Power commands\<close>

lemma power_lines: "host_line (command_string c)" "\<not> is_request (command_string c)"
  by (cases c; simp add: host_line_def is_request_def requests_def to_lower_def lower_char_def is_space_def newline_iff)+

text \<open>
  C25. A machine that is told to stop stops: \<^verbatim>\<open>machine shutdown\<close> and \<^verbatim>\<open>machine reboot\<close> succeed over the link, the
  init hands exactly that command on, and the command ends the init's wait with the matching way of going down.
\<close>

theorem power_command_ends_the_wait:
  assumes "linked (h_kernel H) sock (guest_writes K cfg rec taken hg)" and "resolve_socket H sk name = Inr sock"
    and "taken 0" and "c = (if verb = ''reboot'' then RebootMachine else PowerOff)"
  shows "fst (run_state (machine_power H verb name sk t) h) = None \<and>
    s_commands (fst (run_state (read_once taken (Some (answer_request K cfg rec)) (Some (command_string c @ [newline]))) hg)) = [c] \<and>
    wait_loop True btn (map (\<lambda>c. Host (Some c)) [c]) = Some (if verb = ''reboot'' then reboot_restart else power_off)"
proof -
  have ev: "watch_events (command_string c @ [newline]) = [Power c]"
    using host_line_event [OF power_lines(1), of c] power_lines(2) [of c] by (simp add: parse_command_string)
  then have "guest_writes K cfg rec taken hg (command_string c @ [newline]) = command_ack"
    using assms(3) by (simp add: guest_writes_def read_once_def idle_def)
  then have "run_state (host_request (h_kernel H) sock (command_string c) t) h = (Inr [], h @ request_calls sock (command_string c) t)"
    by (simp add: request_over_link [OF assms(1)] command_ack_reply)
  then have "fst (run_state (machine_power H verb name sk t) h) = None"
    using assms(2,4) by (simp add: machine_power_def Let_def)
  with ev assms(3,4) show ?thesis by (simp add: read_once_def idle_def)
qed

theorem power_command_ends_the_wait_witness:
  "fst (run_state (machine_power (plain_host demo_link) ''reboot'' ''default'' ''s'' 5) []) = None \<and>
   wait_loop True True [Host (Some RebootMachine)] = Some reboot_restart"
  using power_command_ends_the_wait [of "plain_host demo_link" "''s''" one_byte_node default_config "new_record []" "\<lambda>_. True" "[]"
      "''s''" "''default''" RebootMachine "''reboot''" 5 "[]" True]
  by (simp add: plain_host_def link_kernel_linked demo_socket)

end
