(* ===== verification/Hub_Process.thy ===== *)
theory Hub_Process
  imports Cluster_Create
begin

text \<open>
  \<^verbatim>\<open>k0smosctl __hub\<close> (\<^verbatim>\<open>cmd/k0smosctl/cluster_hub.go\<close>), the process that carries a cluster's network: it
  listens, writes the address it got into the file the starting process waits for, and runs until it
  is signalled. The frames it moves meanwhile are the subject of \<open>Nethub\<close>. The answer to \<open>Listen\<close> is
  the address of the listener.
\<close>

definition hub_address :: string where "hub_address = ''127.0.0.1:0''"

definition hub_main :: "kernel \<Rightarrow> string \<Rightarrow> string \<Rightarrow> err option io" where
  "hub_main K listen ready = do {
     r \<leftarrow> do_bytes K (Listen listen);
     (case r of
        Inl e \<Rightarrow> give (Some (wrap ''nethub listen: %w'' [] e))
      | Inr addr \<Rightarrow> do {
          e \<leftarrow> do_unit K (WriteFile ready (addr @ to_bytes [newline]) perm_0600);
          _ \<leftarrow> (if e = None then do_unit K AwaitSignal else give None);
          _ \<leftarrow> do_unit K (Unlisten (to_text addr));
          give e })
   }"

section \<open>The address reaches the cluster\<close>

text \<open>
  What one finds in the file after it was removed since \<open>h\<close>, or was found not to be there: nothing yet, or
  what the hub wrote. Nothing is said of what an earlier hub may have left in it before that.
\<close>

definition removed :: "kernel \<Rightarrow> history \<Rightarrow> string \<Rightarrow> bool" where
  "removed K h path = (case answer_unit K h (Remove path) of None \<Rightarrow> True | Some e \<Rightarrow> is_not_exist e)"

definition ready_file :: "kernel \<Rightarrow> history \<Rightarrow> string \<Rightarrow> bytes \<Rightarrow> bool" where
  "ready_file K h path b =
     (\<forall>u v. removed K (h @ u) path \<longrightarrow>
        answer_bytes K (h @ u @ Remove path # v) (ReadFile path) \<in> {Inl NotExist, Inr [], Inr b})"

lemma hub_look_address:
  assumes "run_state (hub_look K pid ready log deadline) h = (Some (Inr (addr, p)), h')"
  shows "p = pid \<and> (\<exists>w. ready_address (answer_bytes K (h @ w) (ReadFile ready)) = Some addr)"
  using assms by (auto simp: hub_look_def clock_def Let_def split: if_splits option.splits prod.splits)

lemma await_hub_address:
  assumes "await_hub K pid ready log deadline h = Some (Inr (addr, p), h')"
  shows "p = pid \<and> (\<exists>w. ready_address (answer_bytes K (h @ w) (ReadFile ready)) = Some addr)"
proof -
  let ?read = "\<lambda>L r g a. \<exists>w. ready_address (answer_bytes L (g @ w) (ReadFile r)) = Some a"
  have "\<forall>a q. fst y = Inr (a, q) \<longrightarrow> q = i \<and> ?read L r g a"
    if "await_hub L i r l d g = Some y" for L i r l d g y
  proof (rule await_hub.raw_induct [where P = "\<lambda>L i r l d g y. \<forall>a q. fst y = Inr (a, q) \<longrightarrow>
      q = i \<and> ?read L r g a", OF _ that], intro allI impI)
    fix rec L i r l d g a q and y :: "(err + string \<times> int) \<times> history"
    assume ih: "\<And>L i r l d g y. rec L i r l d g = Some y \<Longrightarrow> \<forall>a q. fst y = Inr (a, q) \<longrightarrow> q = i \<and> ?read L r g a"
      and step: "(case run_state (hub_look L i r l d) g of (None, g') \<Rightarrow> rec L i r l d g' | (Some x, g') \<Rightarrow> Some (x, g')) = Some y"
      and y: "fst y = Inr (a, q)"
    obtain o1 g1 where look: "run_state (hub_look L i r l d) g = (o1, g1)" by fastforce
    obtain c where c: "g1 = g @ c" using emits_hub_look look by (rule emits_runE)
    show "q = i \<and> ?read L r g a"
    proof (cases o1)
      case None
      with step look have "rec L i r l d g1 = Some y" by simp
      with ih y have "q = i" "?read L r g1 a" by blast+
      with c show ?thesis by (metis append_assoc)
    next
      case (Some x)
      with step look y hub_look_address [of L i r l d g a q] show ?thesis by auto
    qed
  qed
  from this [OF assms] show ?thesis by simp
qed

lemma trim_line: "\<forall>c\<in>set s. \<not> is_space c \<Longrightarrow> trim_space (s @ [newline]) = s"
proof (cases s)
  case Nil
  then show ?thesis by (simp add: trim_space_def trim_left_def trim_right_def is_space_def char_code)
next
  case (Cons c cs)
  moreover assume "\<forall>c\<in>set s. \<not> is_space c"
  ultimately have "trim_left is_space (s @ [newline]) = s @ [newline]" "trim_right is_space (s @ [newline]) = trim_right is_space s"
    by (simp_all add: trim_left_def trim_right_def is_space_def char_code)
  then show ?thesis using \<open>\<forall>c\<in>set s. \<not> is_space c\<close> Cons by (simp add: trim_space_def trim_right_id)
qed

lemma ready_address_line:
  assumes "r \<in> {Inl NotExist, Inr [], Inr (addr @ to_bytes [newline])}" and "\<forall>c\<in>set (to_text addr). \<not> is_space c"
    and "ready_address r = Some a"
  shows "a = to_text addr"
proof -
  have "trim_space (to_text (addr @ to_bytes [newline])) = to_text addr" using trim_line [OF assms(2)] by simp
  with assms(1,3) show ?thesis by (auto simp: ready_address_def Let_def split_host_port_def split: if_splits)
qed

lemma spawn_hub_pid:
  assumes "run_state (spawn_hub K dir) h = (Inr (p, d), h')"
  shows "\<exists>u exe. answer_num K u (StartProc [exe, ''__hub'', ''--ready-file'', path_join [dir, ''hub.ready'']] True) = Inr p"
    and "\<exists>v. h' = h @ [OwnPath] @ Remove (path_join [dir, ''hub.ready'']) # v"
  using assms by (auto simp: spawn_hub_def and_then_def check_def clock_def Let_def split: sum.splits option.splits prod.splits)

text \<open>
  C15. The machines of a cluster join the hub that was started for it: when the start of the network
  succeeds, the address it yields is the one the hub process listens on, and the process id is that
  of the process started, whatever moment of the hub's start the file is read at, and whatever an
  earlier hub left in the file, provided the file can be removed: only what is read after a removal in this
  start is assumed to come from the new hub.
\<close>

theorem cluster_joins_its_hub:
  assumes hub: "WriteFile ready b m \<in> set (added (hub_main Kh listen ready) hh)"
    and addr: "answer_bytes Kh hh (Listen listen) = Inr addr" "\<forall>c\<in>set (to_text addr). \<not> is_space c"
    and rf: "ready = path_join [dir, ''hub.ready'']" "ready_file K h ready b" "\<forall>u. removed K (h @ u) ready"
    and run: "start_cluster_hub K dir h = Some (Inr (a, pid), h')"
  shows "a = to_text addr \<and> (\<exists>u exe. answer_num K u (StartProc [exe, ''__hub'', ''--ready-file'', ready] True) = Inr pid)"
proof -
  have b: "b = addr @ to_bytes [newline]"
    using hub addr(1) by (auto simp: hub_main_def added_def split: if_splits)
  obtain r h1 where spawn: "lift (spawn_hub K dir) h = Some (r, h1)"
    and rest: "(case r of Inl e \<Rightarrow> lift (give (Inl e))
      | Inr (pid, deadline) \<Rightarrow> await_hub K pid (path_join [dir, ''hub.ready'']) (path_join [dir, ''hub.log'']) deadline) h1 = Some (Inr (a, pid), h')"
    using run unfolding start_cluster_hub_def by (rule seq_runE)
  then obtain p d where r: "r = Inr (p, d)" and w: "await_hub K p ready (path_join [dir, ''hub.log'']) d h1 = Some (Inr (a, pid), h')"
    by (cases r) (auto simp: lift_def rf(1))
  have s: "run_state (spawn_hub K dir) h = (Inr (p, d), h1)" using spawn r by (simp add: lift_def)
  from spawn_hub_pid(2) [OF s] obtain v where h1: "h1 = h @ [OwnPath] @ Remove ready # v" using rf(1) by blast
  from await_hub_address [OF w] obtain w where "p = pid" "ready_address (answer_bytes K (h1 @ w) (ReadFile ready)) = Some a" by auto
  moreover have "answer_bytes K (h1 @ w) (ReadFile ready) \<in> {Inl NotExist, Inr [], Inr (addr @ to_bytes [newline])}"
    using rf(2) [unfolded ready_file_def, rule_format, OF rf(3) [rule_format, of "[OwnPath]"], of "v @ w"] b h1 by simp
  ultimately have "a = to_text addr" "p = pid" using ready_address_line [OF _ addr(2)] by blast+
  with spawn_hub_pid(1) [OF s] rf(1) show ?thesis by blast
qed

definition five_thousand :: bytes where "five_thousand = to_bytes ''127.0.0.1:5000''"

definition listening_kernel :: kernel where
  "listening_kernel = quiet_kernel\<lparr>answer_bytes := (\<lambda>h c. case c of Listen _ \<Rightarrow> Inr five_thousand | _ \<Rightarrow> Inr [])\<rparr>"

text \<open>A host where the file holds the address of an earlier hub until it is removed.\<close>

definition reading_kernel :: kernel where
  "reading_kernel = quiet_kernel\<lparr>
     answer_bytes := (\<lambda>h c. case c of
         ReadFile p \<Rightarrow> Inr (if Remove p \<in> set h then five_thousand @ to_bytes [newline]
                           else to_bytes (''127.0.0.1:4000'' @ [newline]))
       | _ \<Rightarrow> Inr []),
     answer_num := (\<lambda>h c. case c of StartProc _ _ \<Rightarrow> Inr 7 | _ \<Rightarrow> Inr 0)\<rparr>"

lemma five_thousand_text: "to_text five_thousand = ''127.0.0.1:5000''"
  by (simp add: five_thousand_def)

lemma five_thousand_spaces: "\<forall>c\<in>set (to_text five_thousand). \<not> is_space c"
  by (simp add: five_thousand_text is_space_def char_code)

lemma five_thousand_read: "ready_address (Inr (five_thousand @ to_bytes [newline])) = Some ''127.0.0.1:5000''"
proof -
  have "trim_space (to_text (five_thousand @ to_bytes [newline])) = ''127.0.0.1:5000''"
    using trim_line [OF five_thousand_spaces] five_thousand_text by simp
  moreover have "split_host_port ''127.0.0.1:5000'' \<noteq> None" by code_simp
  ultimately show ?thesis by (simp add: ready_address_def)
qed

lemma reading_start: "\<exists>h'. start_cluster_hub reading_kernel dir [] = Some (Inr (''127.0.0.1:5000'', 7), h')"
  using five_thousand_read
  by (simp add: start_cluster_hub_def spawn_hub_def seq_run_def lift_def await_hub.simps hub_look_def clock_def
        reading_kernel_def quiet_kernel_def hub_ready_time_def second_def Let_def)

lemma cluster_joins_its_hub_witness:
  "\<exists>a pid h'. start_cluster_hub reading_kernel ''/d'' [] = Some (Inr (a, pid), h') \<and> a = to_text five_thousand"
proof -
  define ready where "ready = path_join [''/d'', ''hub.ready'']"
  have hub: "WriteFile ready (five_thousand @ to_bytes [newline]) perm_0600
      \<in> set (added (hub_main listening_kernel hub_address ready) [])"
    by (simp add: hub_main_def added_def listening_kernel_def quiet_kernel_def)
  have addr: "answer_bytes listening_kernel [] (Listen hub_address) = Inr five_thousand"
    by (simp add: listening_kernel_def)
  have rf: "ready_file reading_kernel [] ready (five_thousand @ to_bytes [newline])" "\<forall>u. removed reading_kernel ([] @ u) ready"
    by (simp_all add: ready_file_def removed_def reading_kernel_def quiet_kernel_def)
  obtain h' where run: "start_cluster_hub reading_kernel ''/d'' [] = Some (Inr (''127.0.0.1:5000'', 7), h')"
    using reading_start by blast
  from cluster_joins_its_hub [OF hub addr five_thousand_spaces ready_def rf run] run show ?thesis by auto
qed

end
