(* ===== verification/Command_Line.thy ===== *)
theory Command_Line
  imports Hub_Process Console_Logs
begin

text \<open>
  The command line of \<^verbatim>\<open>k0smosctl\<close> (\<^verbatim>\<open>cmd/k0smosctl/main.go\<close> and the constructor of every command):
  the tree of commands with their aliases, argument rules and flags, what each leaf runs with the
  values of its flags, and \<^verbatim>\<open>main\<close>. Finding the command of an argument vector and splitting the rest
  into flags and arguments is cobra's work and a parameter, the record \<open>cobra\<close>; the locale
  \<open>command_line\<close> states what is documented of it and used here. Help texts are not modelled.
\<close>

section \<open>Flags\<close>

datatype flag_value = Text string | Number int | Switch bool | Duration nat | Texts "string list"

record flag =
  fl_name :: string
  fl_short :: string
  fl_default :: flag_value
  fl_hidden :: bool
  fl_required :: bool

definition opt :: "string \<Rightarrow> flag_value \<Rightarrow> flag" where
  "opt n d = \<lparr>fl_name = n, fl_short = [], fl_default = d, fl_hidden = False, fl_required = False\<rparr>"

definition opt_short :: "string \<Rightarrow> string \<Rightarrow> flag_value \<Rightarrow> flag" where
  "opt_short n s d = (opt n d)\<lparr>fl_short := s\<rparr>"

definition gen_opts :: "flag list" where
  "gen_opts =
     [opt_short ''output'' ''o'' (Text ''cidata.iso''), opt ''user-data'' (Text []), opt ''hostname'' (Text []),
      opt ''instance-id'' (Text ''k0smos''), opt ''label'' (Text nocloud_label), opt ''file'' (Texts [])]"

definition machine_up_opts :: "string \<Rightarrow> flag list" where
  "machine_up_opts goarch =
     [opt ''kernel'' (Text []), opt ''initramfs'' (Text ''dist/k0smos-initramfs.gz''), opt ''image'' (Text []),
      opt ''release'' (Text ''latest''), opt ''cache-dir'' (Text []), opt ''firmware'' (Text []),
      (opt ''cluster-network'' (Text []))\<lparr>fl_hidden := True\<rparr>, (opt ''cluster-mac'' (Text []))\<lparr>fl_hidden := True\<rparr>,
      opt ''direct-kernel'' (Switch False), opt ''disk'' (Text []), opt ''from-disk'' (Switch False),
      opt ''no-image'' (Switch False), opt ''cidata'' (Text []), opt ''data'' (Text []), opt ''data-size'' (Text ''4G''),
      opt ''name'' (Text default_guest_name), opt ''socket'' (Text []), opt ''memory'' (Text ''4096''),
      opt ''cpus'' (Text ''2''), opt ''arch'' (Text goarch), opt ''console'' (Text []), opt ''exec'' (Text []),
      opt ''api-port'' (Number 6443), opt ''attach'' (Switch False), opt ''interactive'' (Switch False),
      opt ''dry-run'' (Switch False)]"

definition logs_opts :: "flag list" where
  "logs_opts =
     [opt ''name'' (Text default_guest_name), opt_short ''follow'' ''f'' (Switch False),
      opt_short ''lines'' ''n'' (Number 0)]"

definition power_opts :: "flag list" where
  "power_opts =
     [opt ''name'' (Text default_guest_name), opt ''socket'' (Text []), opt ''timeout'' (Duration (5 * second))]"

definition rm_opts :: "flag list" where
  "rm_opts = [opt ''name'' (Text default_guest_name)]"

definition debug_opts :: "flag list" where
  "debug_opts =
     [opt ''name'' (Text default_guest_name), opt ''socket'' (Text []), opt ''timeout'' (Duration (10 * second))]"

definition cluster_create_opts :: "string \<Rightarrow> flag list" where
  "cluster_create_opts goarch =
     [opt ''name'' (Text ''dev''), opt ''image'' (Text []), opt ''release'' (Text ''latest''), opt ''cache-dir'' (Text []),
      opt ''firmware'' (Text []), opt ''arch'' (Text goarch), opt ''controllers'' (Number 1), opt ''workers'' (Number 0),
      opt ''api-port'' (Number 6443), opt ''memory'' (Number 4096), opt ''cpus'' (Number 2),
      opt_short ''output'' ''o'' (Text ''kubeconfig''), opt ''timeout'' (Duration (10 * 60 * second)),
      opt ''dry-run'' (Switch False)]"

definition kubeconfig_opts :: "flag list" where
  "kubeconfig_opts =
     [opt ''name'' (Text default_guest_name), opt ''socket'' (Text []), opt_short ''output'' ''o'' (Text ''kubeconfig''),
      opt ''server'' (Text ''127.0.0.1''), opt ''timeout'' (Duration (10 * second))]"

definition token_opts :: "flag list" where
  "token_opts =
     [opt ''name'' (Text default_guest_name), opt ''socket'' (Text []), opt ''role'' (Text ''worker''),
      opt_short ''output'' ''o'' (Text ''join-token''), opt ''timeout'' (Duration (2 * 60 * second))]"

definition cluster_rm_opts :: "flag list" where
  "cluster_rm_opts = [opt ''name'' (Text ''dev''), opt ''timeout'' (Duration (2 * 60 * second))]"

definition hub_opts :: "flag list" where
  "hub_opts =
     [opt ''listen'' (Text hub_address), (opt ''ready-file'' (Text []))\<lparr>fl_required := True\<rparr>]"

section \<open>The tree\<close>

datatype arg_rule = AnyArgs | NoArgs | ExactArgs nat

datatype subcommand =
  Subcommand (cmd_use: string) (cmd_aliases: "string list") (cmd_hidden: bool) (cmd_args: arg_rule)
    (cmd_flags: "flag list") (cmd_subs: "subcommand list")

definition leaf_command :: "string \<Rightarrow> flag list \<Rightarrow> subcommand" where
  "leaf_command use fs = Subcommand use [] False NoArgs fs []"

definition machine_command :: "string \<Rightarrow> subcommand" where
  "machine_command goarch =
     Subcommand ''machine'' [] False NoArgs []
       [leaf_command ''up'' (machine_up_opts goarch), leaf_command ''logs'' logs_opts,
        Subcommand ''list'' [''ls''] False NoArgs [] [], leaf_command ''shutdown'' power_opts,
        leaf_command ''reboot'' power_opts, leaf_command ''rm'' rm_opts,
        leaf_command ''status'' (debug_opts @ [opt ''json'' (Switch False)]), leaf_command ''dmesg'' debug_opts,
        Subcommand ''cat <path>'' [] False (ExactArgs 1) (debug_opts @ [opt_short ''output'' ''o'' (Text [])]) []]"

definition cluster_command :: "string \<Rightarrow> subcommand" where
  "cluster_command goarch =
     Subcommand ''cluster'' [] False NoArgs []
       [leaf_command ''create'' (cluster_create_opts goarch), leaf_command ''kubeconfig'' kubeconfig_opts,
        leaf_command ''token'' token_opts, Subcommand ''rm'' [''delete''] False NoArgs cluster_rm_opts []]"

definition hub_command :: subcommand where
  "hub_command = Subcommand ''__hub'' [] True NoArgs hub_opts []"

definition root_command :: "string \<Rightarrow> subcommand" where
  "root_command goarch =
     Subcommand ''k0smosctl'' [] False AnyArgs []
       [leaf_command ''gen'' gen_opts, machine_command goarch, cluster_command goarch, hub_command]"

text \<open>A command is called by the first word of its usage line, or by an alias.\<close>

definition cmd_name :: "subcommand \<Rightarrow> string" where
  "cmd_name c = fst (cut (CHR '' '') (cmd_use c))"

fun descend :: "subcommand \<Rightarrow> string list \<Rightarrow> subcommand option" where
  "descend c [] = Some c"
| "descend c (n # ns) =
     (case find (\<lambda>s. cmd_name s = n) (cmd_subs c) of None \<Rightarrow> None | Some s \<Rightarrow> descend s ns)"

section \<open>What the commands run\<close>

type_synonym flag_values = "string \<Rightarrow> flag_value"

fun text_value :: "flag_value \<Rightarrow> string" where
  "text_value (Text s) = s" | "text_value _ = []"

fun number_value :: "flag_value \<Rightarrow> int" where
  "number_value (Number i) = i" | "number_value _ = 0"

fun switch_value :: "flag_value \<Rightarrow> bool" where
  "switch_value (Switch b) = b" | "switch_value _ = False"

fun duration_value :: "flag_value \<Rightarrow> nat" where
  "duration_value (Duration d) = d" | "duration_value _ = 0"

fun texts_value :: "flag_value \<Rightarrow> string list" where
  "texts_value (Texts ss) = ss" | "texts_value _ = []"

definition up_values :: "flag_values \<Rightarrow> string list \<Rightarrow> up_flags" where
  "up_values v given =
     (let t = (\<lambda>n. text_value (v n)); b = (\<lambda>n. switch_value (v n)) in
      \<lparr>uf_name = t ''name'', uf_kernel = t ''kernel'', uf_initramfs = t ''initramfs'', uf_image = t ''image'',
       uf_disk = t ''disk'', uf_cidata = t ''cidata'', uf_data = t ''data'', uf_data_size = t ''data-size'',
       uf_socket = t ''socket'', uf_mem = t ''memory'', uf_cpus = t ''cpus'', uf_arch = t ''arch'',
       uf_console = t ''console'', uf_exec = t ''exec'', uf_api_port = number_value (v ''api-port''),
       uf_attach = b ''attach'', uf_interactive = b ''interactive'', uf_dry_run = b ''dry-run'',
       uf_direct_kernel = b ''direct-kernel'', uf_firmware = t ''firmware'', uf_release = t ''release'',
       uf_cache_dir = t ''cache-dir'', uf_cluster_net = t ''cluster-network'', uf_cluster_mac = t ''cluster-mac'',
       uf_no_image = b ''no-image'', uf_from_disk = b ''from-disk'', uf_changed = given\<rparr>)"

definition create_values :: "flag_values \<Rightarrow> create_options" where
  "create_values v =
     (let t = (\<lambda>n. text_value (v n)); i = (\<lambda>n. number_value (v n)) in
      \<lparr>co_name = t ''name'', co_image = t ''image'', co_firmware = t ''firmware'', co_arch = t ''arch'',
       co_release = t ''release'', co_cache_dir = t ''cache-dir'', co_controllers = i ''controllers'',
       co_workers = i ''workers'', co_api_port = i ''api-port'', co_memory = i ''memory'', co_cpus = i ''cpus'',
       co_kubeconfig = t ''output'', co_timeout = int (duration_value (v ''timeout'')),
       co_dry_run = switch_value (v ''dry-run'')\<rparr>)"

definition gen_values :: "flag_values \<Rightarrow> gen_options" where
  "gen_values v =
     (let t = (\<lambda>n. text_value (v n)) in
      \<lparr>go_out = t ''output'', go_user_data = t ''user-data'', go_hostname = t ''hostname'',
       go_instance = t ''instance-id'', go_label = t ''label'', go_files = texts_value (v ''file'')\<rparr>)"

text \<open>
  The \<^verbatim>\<open>RunE\<close> of every command that is not a group, by its path. The arguments: the values of
  the flags, the names of the flags given, and the words that are not flags. Reading the record of
  a boot is a parameter, as in \<open>machine_status\<close>.
\<close>

type_synonym command_action = "flag_values \<Rightarrow> string list \<Rightarrow> string list \<Rightarrow> err option run"

definition machine_actions ::
  "'h tool_host_scheme \<Rightarrow> (bytes \<Rightarrow> boot_record option) \<Rightarrow> (string list \<times> command_action) list"
where
  "machine_actions T decode =
     (let power = (\<lambda>verb v given args.
            lift (machine_power T verb (text_value (v ''name'')) (text_value (v ''socket'')) (duration_value (v ''timeout''))))
      in
      [([''machine'', ''up''], \<lambda>v given args. machine_up (up_host.truncate T) (up_values v given)),
       ([''machine'', ''logs''], \<lambda>v given args.
          machine_logs T (text_value (v ''name'')) (number_value (v ''lines'')) (switch_value (v ''follow''))),
       ([''machine'', ''list''], \<lambda>v given args. lift (machine_list T)),
       ([''machine'', ''shutdown''], power ''shutdown''),
       ([''machine'', ''reboot''], power ''reboot''),
       ([''machine'', ''rm''], \<lambda>v given args. lift (machine_rm T (text_value (v ''name'')))),
       ([''machine'', ''status''], \<lambda>v given args.
          lift (machine_status T decode (text_value (v ''name'')) (text_value (v ''socket'')) (duration_value (v ''timeout''))
            (switch_value (v ''json'')))),
       ([''machine'', ''dmesg''], \<lambda>v given args.
          lift (machine_dmesg T (text_value (v ''name'')) (text_value (v ''socket'')) (duration_value (v ''timeout'')))),
       ([''machine'', ''cat''], \<lambda>v given args.
          lift (machine_cat T (text_value (v ''name'')) (text_value (v ''socket'')) (duration_value (v ''timeout''))
            (case args of [] \<Rightarrow> [] | a # _ \<Rightarrow> a) (text_value (v ''output''))))])"

definition cluster_actions :: "'h tool_host_scheme \<Rightarrow> (string list \<times> command_action) list" where
  "cluster_actions T =
     [([''cluster'', ''create''], \<lambda>v given args. cluster_create T given (create_values v)),
      ([''cluster'', ''kubeconfig''], \<lambda>v given args.
         lift (cluster_kubeconfig T (text_value (v ''name'')) (text_value (v ''socket'')) (text_value (v ''server''))
           (''server'' \<in> set given) (text_value (v ''output'')) (duration_value (v ''timeout'')))),
      ([''cluster'', ''token''], \<lambda>v given args.
         lift (cluster_token T (text_value (v ''name'')) (text_value (v ''socket'')) (text_value (v ''role''))
           (text_value (v ''output'')) (duration_value (v ''timeout'')))),
      ([''cluster'', ''rm''], \<lambda>v given args. cluster_rm T (text_value (v ''name'')) (duration_value (v ''timeout'')))]"

definition tool_actions ::
  "'h tool_host_scheme \<Rightarrow> (bytes \<Rightarrow> boot_record option) \<Rightarrow> (string list \<times> command_action) list"
where
  "tool_actions T decode =
     ([''gen''], \<lambda>v given args. lift (gen_cmd (h_kernel T) (th_decoders T) (gen_values v))) #
     machine_actions T decode @ cluster_actions T @
     [([''__hub''], \<lambda>v given args. lift (hub_main (h_kernel T) (text_value (v ''listen'')) (text_value (v ''ready-file''))))]"

section \<open>The program\<close>

text \<open>
  \<open>cb_find\<close> yields the path of the command and the words left, \<open>cb_flags\<close> the flags given with their
  values and the other words, \<open>cb_args\<close> the refusal of those, \<open>cb_help\<close> the help of a group.
\<close>

record cobra =
  cb_find :: "subcommand \<Rightarrow> string list \<Rightarrow> err + string list \<times> string list"
  cb_flags :: "flag list \<Rightarrow> string list \<Rightarrow> err + (string \<times> flag_value) list \<times> string list"
  cb_args :: "arg_rule \<Rightarrow> string list \<Rightarrow> err option"
  cb_help :: "string list \<Rightarrow> string"

definition flag_values :: "flag list \<Rightarrow> (string \<times> flag_value) list \<Rightarrow> flag_values" where
  "flag_values fs ps n =
     (case map_of (rev ps) n of
        Some v \<Rightarrow> v
      | None \<Rightarrow> (case find (\<lambda>f. fl_name f = n) fs of Some f \<Rightarrow> fl_default f | None \<Rightarrow> Text []))"

definition execute :: "cobra \<Rightarrow> arg_rule \<Rightarrow> flag list \<Rightarrow> command_action \<Rightarrow> string list \<Rightarrow> err option run" where
  "execute C rule fs act ws =
     (case cb_flags C fs ws of
        Inl e \<Rightarrow> lift (give (Some e))
      | Inr (ps, args) \<Rightarrow>
          (case cb_args C rule args of
             Some e \<Rightarrow> lift (give (Some e))
           | None \<Rightarrow> act (flag_values fs ps) (map fst ps) args))"

definition run_tool ::
  "cobra \<Rightarrow> 'h tool_host_scheme \<Rightarrow> (bytes \<Rightarrow> boot_record option) \<Rightarrow> string list \<Rightarrow> err option run"
where
  "run_tool C T decode argv =
     (case cb_find C (root_command (h_goarch T)) argv of
        Inl e \<Rightarrow> lift (give (Some e))
      | Inr (path, ws) \<Rightarrow>
          (case descend (root_command (h_goarch T)) path of
             None \<Rightarrow> lift (give None)
           | Some c \<Rightarrow>
               execute C (cmd_args c) (cmd_flags c)
                 (case map_of (tool_actions T decode) path of
                    Some act \<Rightarrow> act
                  | None \<Rightarrow> (\<lambda>v given args. lift (show_out (h_kernel T) (cb_help C path)))) ws))"

text \<open>\<^verbatim>\<open>main\<close>: an error is printed, once, and makes the exit status 1.\<close>

definition tool_main ::
  "cobra \<Rightarrow> 'h tool_host_scheme \<Rightarrow> (bytes \<Rightarrow> boot_record option) \<Rightarrow> string list \<Rightarrow> nat run"
where
  "tool_main C T decode argv =
     seq_run (run_tool C T decode argv) (\<lambda>r. lift (case r of
        None \<Rightarrow> give 0
      | Some e \<Rightarrow> do { _ \<leftarrow> do_unit (h_kernel T) (Say ''k0smosctl: %s'' [err_text e]); give 1 }))"

text \<open>The arguments \<^verbatim>\<open>startClusterMachine\<close> gives to a \<^verbatim>\<open>machine up\<close> of its own.\<close>

definition cluster_argv :: "create_options \<Rightarrow> cluster_machine \<Rightarrow> string \<Rightarrow> nat \<Rightarrow> string \<Rightarrow> string list" where
  "cluster_argv opts m hub index dir =
     [''--name'', cm_name m,
      ''--cidata'', path_join [dir, cm_name m @ ''.iso''],
      ''--api-port'', dec_int (cm_api_port m),
      ''--memory'', dec_int (co_memory opts),
      ''--cpus'', dec_int (co_cpus opts),
      ''--arch'', co_arch opts,
      ''--cluster-network'', hub,
      ''--cluster-mac'', cluster_node_mac index] @
     (if co_image opts \<noteq> [] then [''--image'', co_image opts] else []) @
     (if co_firmware opts \<noteq> [] then [''--firmware'', co_firmware opts] else [])"

definition execute_up :: "cobra \<Rightarrow> 'h up_host_scheme \<Rightarrow> string list \<Rightarrow> err option run" where
  "execute_up C H ws =
     execute C NoArgs (machine_up_opts (h_goarch H)) (\<lambda>v given args. machine_up H (up_values v given)) ws"

section \<open>The tree is sound\<close>

text \<open>
  What \<^verbatim>\<open>AddCommand\<close> and the flag sets ask for: no two commands of a group answer to one name, no two
  flags of a command have one name or one shorthand (declaring a flag twice panics), and nothing
  takes the names cobra adds on its own.
\<close>

definition flags_ok :: "flag list \<Rightarrow> bool" where
  "flags_ok fs =
     (distinct (map fl_name fs) \<and> distinct (filter (\<lambda>s. s \<noteq> []) (map fl_short fs)) \<and>
      ''help'' \<notin> set (map fl_name fs) \<and> ''h'' \<notin> set (map fl_short fs))"

definition group_names :: "subcommand \<Rightarrow> string list" where
  "group_names c = concat (map (\<lambda>s. cmd_name s # cmd_aliases s) (cmd_subs c))"

fun tree_ok :: "subcommand \<Rightarrow> bool" where
  "tree_ok (Subcommand u as h r fs subs) =
     (flags_ok fs \<and> distinct (group_names (Subcommand u as h r fs subs)) \<and>
      ''help'' \<notin> set (group_names (Subcommand u as h r fs subs)) \<and>
      ''completion'' \<notin> set (group_names (Subcommand u as h r fs subs)) \<and> list_all tree_ok subs)"

fun leaf_paths :: "subcommand \<Rightarrow> string list list" where
  "leaf_paths (Subcommand u as h r fs subs) =
     (if subs = [] then [[]] else concat (map (\<lambda>s. map ((#) (cmd_name s)) (leaf_paths s)) subs))"

lemmas tree_defs =
  root_command_def machine_command_def cluster_command_def hub_command_def leaf_command_def gen_opts_def
  machine_up_opts_def logs_opts_def power_opts_def rm_opts_def debug_opts_def cluster_create_opts_def
  kubeconfig_opts_def token_opts_def cluster_rm_opts_def hub_opts_def opt_short_def opt_def

lemma root_ok: "tree_ok (root_command a)"
  by (simp add: tree_defs flags_ok_def group_names_def cmd_name_def)

text \<open>
  The command tree is sound and served: names, aliases, flags and shorthands do not collide, and the
  commands that are not groups are, one by one, those something is run for.
\<close>

theorem command_tree_is_served:
  "tree_ok (root_command (h_goarch T)) \<and> leaf_paths (root_command (h_goarch T)) = map fst (tool_actions T decode)"
  by (simp add: root_ok) (simp add: tree_defs cmd_name_def tool_actions_def machine_actions_def cluster_actions_def Let_def)

section \<open>Processes started from processes\<close>

text \<open>
  \<open>understands C\<close>: what cobra documents for words that name a command of a sound tree, followed by
  flags of that command, each with the word of its value behind it. Numbers are those an \<^verbatim>\<open>int\<close> holds.
\<close>

fun fits :: "flag_value \<Rightarrow> flag_value \<Rightarrow> bool" where
  "fits (Text _) (Text _) = True"
| "fits (Number _) (Number i) = (0 \<le> i \<and> i < 2 ^ 63)"
| "fits _ _ = False"

definition settable :: "flag list \<Rightarrow> string \<times> flag_value \<Rightarrow> bool" where
  "settable fs p =
     (case find (\<lambda>f. fl_name f = fst p) fs of Some f \<Rightarrow> fits (fl_default f) (snd p) | None \<Rightarrow> False)"

fun value_word :: "flag_value \<Rightarrow> string" where
  "value_word (Text s) = s" | "value_word (Number i) = dec_int i" | "value_word _ = []"

definition flag_words :: "(string \<times> flag_value) list \<Rightarrow> string list" where
  "flag_words ps = concat (map (\<lambda>p. [''--'' @ fst p, value_word (snd p)]) ps)"

definition complete :: "flag list \<Rightarrow> (string \<times> flag_value) list \<Rightarrow> bool" where
  "complete fs ps = list_all (\<lambda>f. fl_name f \<in> set (map fst ps)) (filter fl_required fs)"

definition understands :: "cobra \<Rightarrow> bool" where
  "understands C =
     ((\<forall>r path c ps. tree_ok r \<and> descend r path = Some c \<and> cmd_subs c = [] \<and> list_all (settable (cmd_flags c)) ps \<longrightarrow>
         cb_find C r (path @ flag_words ps) = Inr (path, flag_words ps)) \<and>
      (\<forall>fs ps. flags_ok fs \<and> list_all (settable fs) ps \<and> complete fs ps \<longrightarrow> cb_flags C fs (flag_words ps) = Inr (ps, [])) \<and>
      cb_args C NoArgs [] = None)"

lemma execute_words:
  assumes "understands C" and "flags_ok fs" and "list_all (settable fs) ps" and "complete fs ps"
  shows "execute C NoArgs fs act (flag_words ps) = act (flag_values fs ps) (map fst ps) []"
  using assms unfolding understands_def execute_def by simp

lemma run_tool_words:
  assumes u: "understands C" and c: "descend (root_command (h_goarch T)) path = Some c" "cmd_subs c = []" "cmd_args c = NoArgs"
    and act: "map_of (tool_actions T decode) path = Some act"
    and ps: "flags_ok (cmd_flags c)" "list_all (settable (cmd_flags c)) ps" "complete (cmd_flags c) ps"
  shows "run_tool C T decode (path @ flag_words ps) = act (flag_values (cmd_flags c) ps) (map fst ps) []"
proof -
  have "cb_find C (root_command (h_goarch T)) (path @ flag_words ps) = Inr (path, flag_words ps)"
    using u root_ok c(1,2) ps(2) unfolding understands_def by blast
  with c act execute_words [OF u ps] show ?thesis by (simp add: run_tool_def)
qed

definition cluster_pairs :: "create_options \<Rightarrow> cluster_machine \<Rightarrow> string \<Rightarrow> nat \<Rightarrow> string \<Rightarrow> (string \<times> flag_value) list" where
  "cluster_pairs opts m hub index dir =
     [(''name'', Text (cm_name m)), (''cidata'', Text (path_join [dir, cm_name m @ ''.iso''])),
      (''api-port'', Number (cm_api_port m)), (''memory'', Text (dec_int (co_memory opts))),
      (''cpus'', Text (dec_int (co_cpus opts))), (''arch'', Text (co_arch opts)),
      (''cluster-network'', Text hub), (''cluster-mac'', Text (cluster_node_mac index))] @
     (if co_image opts \<noteq> [] then [(''image'', Text (co_image opts))] else []) @
     (if co_firmware opts \<noteq> [] then [(''firmware'', Text (co_firmware opts))] else [])"

lemma cluster_argv_words: "cluster_argv opts m hub i dir = flag_words (cluster_pairs opts m hub i dir)"
  by (simp add: cluster_argv_def flag_words_def cluster_pairs_def)

lemma up_flags_ok: "flags_ok (machine_up_opts a)" and up_complete: "complete (machine_up_opts a) ps"
  by (simp_all add: flags_ok_def complete_def machine_up_opts_def opt_def)

lemma cluster_pairs_settable:
  assumes "0 \<le> cm_api_port m" and "cm_api_port m < 2 ^ 63"
  shows "list_all (settable (machine_up_opts a)) (cluster_pairs opts m hub i dir)"
  using assms by (simp add: cluster_pairs_def settable_def machine_up_opts_def opt_def)

lemma flag_values_fold: "flag_values fs ps = fold (\<lambda>p v. v(fst p := snd p)) ps (flag_values fs [])"
proof (induction ps rule: rev_induct)
  case (snoc p ps)
  have "flag_values fs (ps @ [p]) = (flag_values fs ps)(fst p := snd p)" by (intro ext) (simp add: flag_values_def)
  then show ?case using snoc by simp
qed simp

lemma up_values_set:
  "up_values (v(''name'' := Text s)) g = (up_values v g)\<lparr>uf_name := s\<rparr>"
  "up_values (v(''cidata'' := Text s)) g = (up_values v g)\<lparr>uf_cidata := s\<rparr>"
  "up_values (v(''api-port'' := Number i)) g = (up_values v g)\<lparr>uf_api_port := i\<rparr>"
  "up_values (v(''memory'' := Text s)) g = (up_values v g)\<lparr>uf_mem := s\<rparr>"
  "up_values (v(''cpus'' := Text s)) g = (up_values v g)\<lparr>uf_cpus := s\<rparr>"
  "up_values (v(''arch'' := Text s)) g = (up_values v g)\<lparr>uf_arch := s\<rparr>"
  "up_values (v(''cluster-network'' := Text s)) g = (up_values v g)\<lparr>uf_cluster_net := s\<rparr>"
  "up_values (v(''cluster-mac'' := Text s)) g = (up_values v g)\<lparr>uf_cluster_mac := s\<rparr>"
  "up_values (v(''image'' := Text s)) g = (up_values v g)\<lparr>uf_image := s\<rparr>"
  "up_values (v(''firmware'' := Text s)) g = (up_values v g)\<lparr>uf_firmware := s\<rparr>"
  by (simp_all add: up_values_def Let_def)

lemma up_values_default: "up_values (flag_values (machine_up_opts (h_goarch H)) []) g = (default_flags H)\<lparr>uf_changed := g\<rparr>"
  by (simp add: up_values_def flag_values_def machine_up_opts_def opt_def default_flags_def Let_def)

lemma cluster_pairs_flags:
  "up_values (flag_values (machine_up_opts (h_goarch H)) (cluster_pairs opts m hub i dir)) (map fst (cluster_pairs opts m hub i dir)) =
   cluster_flags H opts m hub i dir"
  unfolding flag_values_fold [of "machine_up_opts (h_goarch H)" "cluster_pairs opts m hub i dir"]
  by (cases "co_image opts = []"; cases "co_firmware opts = []")
    (simp_all add: cluster_pairs_def up_values_set up_values_default cluster_flags_def default_flags_def)

lemma default_flags_truncate: "default_flags (up_host.truncate T) = default_flags T" "h_goarch (up_host.truncate T) = h_goarch T"
  by (simp_all add: default_flags_def up_host.truncate_def)

lemma cluster_flags_truncate: "cluster_flags (up_host.truncate T) = cluster_flags T"
  by (intro ext) (simp add: cluster_flags_def default_flags_truncate)

text \<open>A reader of such words, to show that there is one.\<close>

fun walk :: "subcommand \<Rightarrow> string list \<Rightarrow> string list \<times> string list" where
  "walk r [] = ([], [])"
| "walk r (w # ws) =
     (case find (\<lambda>s. cmd_name s = w) (cmd_subs r) of
        None \<Rightarrow> ([], w # ws)
      | Some s \<Rightarrow> (case walk s ws of (p, q) \<Rightarrow> (w # p, q)))"

fun read_value :: "flag_value \<Rightarrow> string \<Rightarrow> flag_value" where
  "read_value (Number _) s = (case atoi s of Some i \<Rightarrow> Number i | None \<Rightarrow> Number 0)"
| "read_value _ s = Text s"

fun read_words :: "flag list \<Rightarrow> string list \<Rightarrow> (string \<times> flag_value) list" where
  "read_words fs (w # v # ws) =
     (case find (\<lambda>f. fl_name f = drop 2 w) fs of
        None \<Rightarrow> []
      | Some f \<Rightarrow> (drop 2 w, read_value (fl_default f) v) # read_words fs ws)"
| "read_words fs ws = []"

definition word_reader :: cobra where
  "word_reader =
     \<lparr>cb_find = (\<lambda>r ws. Inr (walk r ws)), cb_flags = (\<lambda>fs ws. Inr (read_words fs ws, [])),
      cb_args = (\<lambda>r ws. None), cb_help = (\<lambda>p. [])\<rparr>"

lemma walk_path: "descend r path = Some c \<Longrightarrow> cmd_subs c = [] \<Longrightarrow> walk r (path @ ws) = (path, ws)"
proof (induction path arbitrary: r)
  case Nil
  then show ?case by (cases ws) simp_all
qed (auto split: option.splits)

lemma read_value_word: "fits d v \<Longrightarrow> read_value d (value_word v) = v"
  by (cases "(d, v)" rule: fits.cases) (simp_all add: dec_int_def atoi_dec nat_less_iff)

lemma read_flag_words: "list_all (settable fs) ps \<Longrightarrow> read_words fs (flag_words ps) = ps"
  by (induction ps) (auto simp: flag_words_def settable_def read_value_word split: option.splits)

lemma word_reader_understands: "understands word_reader"
  by (simp add: understands_def word_reader_def walk_path read_flag_words)

text \<open>
  C16. The \<^verbatim>\<open>machine up\<close> that \<^verbatim>\<open>cluster create\<close> runs for a machine reads from its argument vector the flags
  the plan of the cluster asks for, and every other flag at its default.
\<close>

theorem cluster_machines_start_as_planned:
  assumes "understands C" and "0 \<le> cm_api_port m" and "cm_api_port m < 2 ^ 63"
  shows "execute_up C (up_host.truncate T) (cluster_argv opts m hub i dir) = start_cluster_machine T opts m hub i dir"
  using execute_words [OF assms(1) up_flags_ok cluster_pairs_settable [OF assms(2,3)] up_complete]
  by (simp add: execute_up_def cluster_argv_words cluster_pairs_flags start_cluster_machine_def cluster_flags_truncate)

lemma cluster_machines_start_as_planned_witness:
  "execute_up word_reader (up_host.truncate (demo_tool_host quiet_kernel lost_cluster))
     (cluster_argv dev_options (machine_at dev_options 0) ''127.0.0.1:5000'' 0 ''/d'') =
   start_cluster_machine (demo_tool_host quiet_kernel lost_cluster) dev_options (machine_at dev_options 0) ''127.0.0.1:5000'' 0 ''/d''"
  by (rule cluster_machines_start_as_planned [OF word_reader_understands])
    (simp_all add: machine_at_def controller_at_def dev_options_def int64_def)

definition starts_hub :: "string \<Rightarrow> call \<Rightarrow> bool" where
  "starts_hub dir c =
     (case c of
        StartProc (exe # argv) b \<Rightarrow> argv = [''__hub''] @ flag_words [(''ready-file'', Text (path_join [dir, ''hub.ready'']))]
      | _ \<Rightarrow> True)"

lemma spawn_hub_starts: "emits (starts_hub dir) (spawn_hub K dir)"
  unfolding spawn_hub_def Let_def by (intro emits_intros) (simp_all add: starts_hub_def flag_words_def)

text \<open>
  The process \<^verbatim>\<open>cluster create\<close> starts for the network is, by its argument vector, the hub: it
  listens on the default address and reports in the file the starter reads.
\<close>

theorem started_process_is_the_hub:
  assumes "understands C" and "StartProc (exe # argv) b \<in> set (added (spawn_hub K dir) h)"
  shows "run_tool C T decode argv = lift (hub_main (h_kernel T) hub_address (path_join [dir, ''hub.ready'']))"
proof -
  let ?ps = "[(''ready-file'', Text (path_join [dir, ''hub.ready'']))]"
  have argv: "argv = [''__hub''] @ flag_words ?ps"
    using emits_added [OF spawn_hub_starts assms(2)] by (simp add: starts_hub_def)
  have "descend (root_command (h_goarch T)) [''__hub''] = Some hub_command"
    by (simp add: root_command_def machine_command_def cluster_command_def leaf_command_def hub_command_def cmd_name_def)
  moreover have "map_of (tool_actions T decode) [''__hub''] =
      Some (\<lambda>v given args. lift (hub_main (h_kernel T) (text_value (v ''listen'')) (text_value (v ''ready-file''))))"
    by (simp add: tool_actions_def machine_actions_def cluster_actions_def Let_def)
  moreover have "flags_ok hub_opts" "list_all (settable hub_opts) ?ps" "complete hub_opts ?ps"
    by (simp_all add: flags_ok_def settable_def complete_def hub_opts_def opt_def)
  ultimately have "run_tool C T decode argv = lift (hub_main (h_kernel T)
      (text_value (flag_values hub_opts ?ps ''listen'')) (text_value (flag_values hub_opts ?ps ''ready-file'')))"
    unfolding argv using run_tool_words [OF assms(1), of T "[''__hub'']" hub_command decode _ ?ps] by (simp add: hub_command_def)
  then show ?thesis by (simp add: flag_values_def hub_opts_def opt_def)
qed

lemma started_process_is_the_hub_witness:
  "run_tool word_reader (demo_tool_host reading_kernel lost_cluster) (\<lambda>_. None)
     [''__hub'', ''--ready-file'', path_join [''/d'', ''hub.ready'']] =
   lift (hub_main reading_kernel hub_address (path_join [''/d'', ''hub.ready'']))"
proof -
  have "StartProc ([] # [''__hub'', ''--ready-file'', path_join [''/d'', ''hub.ready'']]) True
      \<in> set (added (spawn_hub reading_kernel ''/d'') [])"
    by (simp add: spawn_hub_def clock_def added_def reading_kernel_def quiet_kernel_def Let_def)
  from started_process_is_the_hub [OF word_reader_understands this, of "demo_tool_host reading_kernel lost_cluster" "\<lambda>_. None"]
  show ?thesis by (simp add: demo_tool_host_def)
qed

end
