(* ===== verification/Spec2Isabelle.thy ===== *)
theory Spec2Isabelle
  imports Boot Reaper Power_Button Nethub Iso_Roundtrip Host_State Cluster_Plan Config_Drive Console_Tail Host_Control Release_Artifact Qemu_Args Machine_Up Cluster_Remove Cluster_Create Console_Logs Conversation Hub_Process Command_Line Host_Requests Module_Loader
begin

text \<open>
  k0smos: the init process of a machine that runs nothing but Kubernetes.

  The program is PID 1 of a small Linux image (\<^verbatim>\<open>cmd/k0smos\<close>, \<^verbatim>\<open>internal/*\<close>) and a tool on the host
  (\<^verbatim>\<open>cmd/k0smosctl\<close>). The init mounts the kernel filesystems, reads its configuration from the kernel
  command line, loads modules, finds the root filesystem and switches into it, prepares a data
  volume, reads a metadata drive, sets up the network, starts one workload and supervises it until
  it is asked to stop; then it leaves the etcd cluster and powers the machine off. The tool runs such
  machines under QEMU, makes their drives, talks to them over the control port, and joins several
  into a cluster. This development models both programs, and their conversation.

  \<^bold>\<open>The world.\<close> A program is a state-monad computation over the history of system calls
  (\<open>Sys_Calls\<close>): every call appends itself, and the answers come from an arbitrary \<open>kernel\<close>, a
  function of the history and the call. So the properties hold for every behaviour of the kernel,
  the disks, the network and the child processes, unless a theorem says what it assumes of them.
  \<open>emits P m\<close> says which calls a program can make, \<open>Scripts\<close> that a program refines a fixed list
  of calls each of which is guarded by an error check. Errors are values of the type \<open>err\<close>
  (\<open>Prelude\<close>), which keeps the errno, the format, the rendered arguments and the wrapped error. Go
  strings and byte slices are lists of characters and of 8-bit words; the functions of Go's
  standard library that the program uses are in \<open>Go_Strings\<close>, \<open>Ip_Addr\<close>, \<open>Base64\<close> and \<open>Module_Match\<close>
  (\<^verbatim>\<open>path.Match\<close>). Integers keep their width where it matters (\<open>Byte_Order\<close>, \<open>Dhcp_Packet\<close>,
  \<open>Iso_Writer\<close>).

  \<^bold>\<open>The theories and the code.\<close>
  \<^item> \<open>Config\<close>: \<^verbatim>\<open>internal/config\<close>. The configuration a command line gives, and that its mandatory
    fields are never empty.
  \<^item> \<open>Sys_Linux\<close>, \<open>Mount_Info\<close>: \<^verbatim>\<open>internal/sys\<close>. The wrappers around system calls, and the parsing
    of the mount table.
  \<^item> \<open>Blkid\<close>, \<open>Datavol\<close>: \<^verbatim>\<open>internal/blkid\<close>, \<^verbatim>\<open>internal/datavol\<close>. Identifying filesystems by their
    bytes; the locale \<open>still_disks\<close> relates the probing to what the disks hold, and the data volume is
    shown never to be formatted over a filesystem that is recognised.
  \<^item> \<open>Dhcp_Packet\<close>, \<open>Dhcp_Client\<close>, \<open>Net_Config\<close>: \<^verbatim>\<open>internal/dhcp\<close>, \<^verbatim>\<open>internal/net\<close>. Packets, the
    exchange, its retries and renewals, and the configuration of an interface.
  \<^item> \<open>Iso_Reader\<close>, \<open>Iso_Writer\<close>, \<open>Iso_Roundtrip\<close>: \<^verbatim>\<open>internal/iso9660\<close>. Reader and writer, and that the
    one reads what the other writes.
  \<^item> \<open>Module_Match\<close>, \<open>Module_Loader\<close>: \<^verbatim>\<open>internal/module\<close>. The index files, the order of loading and the
    discovery of drivers.
  \<^item> \<open>Base64\<close>, \<open>Metadata\<close>, \<open>Run_Plan\<close>: \<^verbatim>\<open>internal/metadata\<close>. Cloud-init user-data, its files, and the
    interpretation of its commands as file actions and a k0s workload.
  \<^item> \<open>Control\<close>, \<open>Nethub\<close>: \<^verbatim>\<open>internal/control\<close>, \<^verbatim>\<open>internal/nethub\<close>. The line protocol of the control
    port, and the hub as a step relation with its invariants.
  \<^item> \<open>Pseudo_Mounts\<close>, \<open>Switch_Root\<close>, \<open>Shutdown\<close>: \<^verbatim>\<open>internal/mount\<close>, \<^verbatim>\<open>internal/cgroup\<close>,
    \<^verbatim>\<open>internal/switchroot\<close>, \<^verbatim>\<open>internal/shutdown\<close>. Each is refined to the calls it makes, in order.
  \<^item> \<open>Status\<close>, \<open>Supervisor\<close>, \<open>Reaper\<close>, \<open>Power_Button\<close>, \<open>Etcd\<close>: the packages of these names. The
    boot record and its file, the restarts with their backoff, the collecting of dead children, the
    power key in a stream of input events, and the command that leaves etcd.
  \<^item> \<open>Node_World\<close>, \<open>Root_Device\<close>, \<open>Node_Setup\<close>, \<open>Host_Requests\<close>, \<open>Boot\<close>: \<^verbatim>\<open>cmd/k0smos\<close>. The stages of the
    boot over the pair of the history and the boot record, their composition \<open>start_node\<close>, the wait
    loop, and the stop. The properties that span components of the init are in \<open>Boot\<close>.
  \<^item> \<open>Host_Run\<close>, \<open>Timed_Wait\<close>: what the commands of the host tool share: a run that need not end, the
    calls it makes, that it ends, and the locale \<open>timed_loop\<close> for loops with a deadline.
  \<^item> \<open>Host_State\<close>, \<open>Console_Tail\<close>, \<open>Console_Logs\<close>: \<^verbatim>\<open>state.go\<close>, \<^verbatim>\<open>machine_rm.go\<close>, \<^verbatim>\<open>machine_list.go\<close>,
    \<^verbatim>\<open>machine_logs.go\<close>. Names, paths and records of machines; the last lines of a console against the
    whole text split into lines, and that following it loses nothing.
  \<^item> \<open>Release_Artifact\<close>, \<open>Qemu_Args\<close>, \<open>Machine_Up\<close>: \<^verbatim>\<open>artifact.go\<close>, \<^verbatim>\<open>machine_up.go\<close>. Resolving a
    verified image, the argument vector of QEMU and what the init reads from it, and starting,
    recording and stopping a machine.
  \<^item> \<open>Cluster_Plan\<close>, \<open>Config_Drive\<close>, \<open>Cluster_Create\<close>, \<open>Cluster_Remove\<close>, \<open>Hub_Process\<close>: \<^verbatim>\<open>cluster_state.go\<close>,
    \<^verbatim>\<open>cluster_create.go\<close>, \<^verbatim>\<open>gen.go\<close>, \<^verbatim>\<open>cluster_rm.go\<close>, \<^verbatim>\<open>cluster_hub.go\<close>. The plan of a cluster, the drives
    that configure its machines, creating it, removing it, and the process of its network.
  \<^item> \<open>Host_Control\<close>, \<open>Conversation\<close>: \<^verbatim>\<open>control.go\<close>, \<^verbatim>\<open>machine_power.go\<close>, \<^verbatim>\<open>machine_debug.go\<close>,
    \<^verbatim>\<open>cluster_kubeconfig.go\<close>, \<^verbatim>\<open>cluster_token.go\<close>. The host's end of the control port; \<open>Conversation\<close>
    links it to the node's end (\<open>Control\<close>, \<open>Host_Requests\<close>) and follows requests through both programs.
  \<^item> \<open>Command_Line\<close>: \<^verbatim>\<open>main.go\<close> and the flags of every command, with the words one process of the
    tool gives to another.

  \<^bold>\<open>Interfaces.\<close> Where a package takes an interface, the model has a record of its operations and a
  locale with what the package relies on (\<open>block_prober\<close>, \<open>data_volume\<close>, \<open>tlv_scanner\<close>, \<open>dhcp_transport\<close>,
  \<open>iso_device\<close>, \<open>iso_image\<close>, \<open>module_source\<close>, \<open>quiet_applier\<close>, \<open>mounting\<close>, \<open>switching\<close>, \<open>stopping\<close>, \<open>record_sink\<close>, \<open>fixed_width\<close>);
  each is interpreted on the wrappers of \<open>Sys_Linux\<close>, so that the properties speak of the program as it
  is put together in \<^verbatim>\<open>cmd/k0smos\<close>. \<open>timed_loop\<close> is the contract of the host tool's waits and is
  interpreted on each of them. What is third-party and what Go's standard library decodes (JSON, YAML,
  TLS keys, SHA-256, gunzip, cobra) is a field of the records \<open>host\<close>, \<open>up_host\<close>, \<open>tool_host\<close>, \<open>decoders\<close>
  and \<open>cobra\<close>.

  \<^bold>\<open>Loops.\<close> Recursion over data is structural or has a measure. A loop that need not end is a
  \<^verbatim>\<open>partial_function\<close> into options (\<open>await\<close>, \<open>renew\<close>, \<open>load_names\<close>, \<open>visit\<close>, \<open>supervise_loop\<close>, \<open>drain\<close>,
  and in the host tool \<open>until_up\<close>, \<open>await_hub\<close>, \<open>repeat_round\<close>, \<open>wait_stopped\<close>, \<open>copy_rest\<close>, \<open>follow_file\<close>),
  and that it ends is a theorem of its own where it is one: module loading on every index, acquiring a
  lease once the network is silent, supervision once it is cancelled, the drain of any number of
  children, the copy of a console that has stopped growing, and the commands \<^verbatim>\<open>machine up\<close>,
  \<^verbatim>\<open>cluster create\<close> and \<^verbatim>\<open>cluster rm\<close> when the clock never shows less than the time slept. A wait without
  a limit is an option as well: \<open>await_event\<close> and \<open>await_exit\<close>, by which \<^verbatim>\<open>machine up --attach\<close> stays with
  QEMU, have no result when neither an exit nor a signal ever comes, and that the command returns then
  takes that QEMU ends or is interrupted some time and that a killed process ends. The bounds that are fuel are those of the code: 4096 directory records, 8 rounds of device
  discovery, 30 probes for the root, 6 attempts for a lease. A run-time panic of the ISO reader is the
  value \<^term>\<open>None\<close>.

  \<^bold>\<open>Concurrency.\<close> The hub, the reaper with its signal pump, and the boot record's flush are step
  relations over their goroutines. The control port's goroutines hand events over one at a time and
  are sequenced. What the goroutines of the init do while it waits is an arbitrary list of calls.

  \<^bold>\<open>Not modelled.\<close> The console messages of the init and the column layout of tables; what is a
  parameter, above; help texts; the memory layout of kernel structures; non-ASCII white space and
  letter case; \<^verbatim>\<open>main\<close> and \<^verbatim>\<open>run\<close> of the init, which only pass arguments; and the one line that refuses
  to run it on other platforms (\<^verbatim>\<open>init_other.go\<close>).
\<close>

end
